(* ===== verification/Go_Binary.thy ===== *)
theory Go_Binary
  imports Fabric_Prelude
begin

text \<open>
  The fixed-width byte encodings and machine arithmetic the sources use:
  \<open>encoding/binary\<close> big-endian integers, and the carry-aware \<open>Add64\<close> and
  \<open>Mul64\<close> of \<open>math/bits\<close> with \<open>math.MaxInt64\<close>.
\<close>

section \<open>Big-endian integers\<close>

fun be_digits :: "nat \<Rightarrow> nat \<Rightarrow> bytes" where
  "be_digits 0 n = []"
| "be_digits (Suc k) n = be_digits k (n div 256) @ [word_of_nat n]"

definition be_value :: "bytes \<Rightarrow> nat" where
  "be_value bs = foldl (\<lambda>a b. a * 256 + unat b) 0 bs"

definition PutUint64 :: "64 word \<Rightarrow> bytes" where
  "PutUint64 w = be_digits 8 (unat w)"

definition Uint64 :: "bytes \<Rightarrow> 64 word" where
  "Uint64 bs = word_of_nat (be_value bs)"

definition PutUint32 :: "32 word \<Rightarrow> bytes" where
  "PutUint32 w = be_digits 4 (unat w)"

definition Uint32 :: "bytes \<Rightarrow> 32 word" where
  "Uint32 bs = word_of_nat (be_value bs)"

section \<open>math/bits\<close>

definition MaxInt64 :: nat where "MaxInt64 = 2 ^ 63 - 1"

definition Add64 :: "nat \<Rightarrow> nat \<Rightarrow> nat \<times> nat" where
  "Add64 x y = ((x + y) mod 2 ^ 64, (x + y) div 2 ^ 64)"

definition Mul64 :: "nat \<Rightarrow> nat \<Rightarrow> nat \<times> nat" where
  "Mul64 x y = ((x * y) div 2 ^ 64, (x * y) mod 2 ^ 64)"

section \<open>Round trips\<close>

lemma length_be_digits [simp]: "length (be_digits k n) = k"
  by (induction k arbitrary: n) auto

lemma be_value_snoc: "be_value (bs @ [b]) = be_value bs * 256 + unat b"
  by (simp add: be_value_def)

lemma be_value_be_digits: "be_value (be_digits k n) = n mod 256 ^ k"
proof (induction k arbitrary: n)
  case (Suc k)
  have "n mod (256 * 256 ^ k) = 256 * (n div 256 mod 256 ^ k) + n mod 256"
    by (rule mod_mult2_eq)
  then show ?case
    using Suc by (simp add: be_value_snoc unat_of_nat mult.commute)
qed (simp add: be_value_def)

lemma be_digits_be_value: "be_digits (length bs) (be_value bs) = bs"
proof (induction bs rule: rev_induct)
  case (snoc b bs)
  have "unat b < 256"
    using unsigned_less [of b] by simp
  then have "(be_value bs * 256 + unat b) div 256 = be_value bs"
    by simp
  moreover have "(word_of_nat (be_value bs * 256 + unat b) :: byte) = b"
  proof -
    have z: "(256 :: byte) = 0"
      by code_simp
    show ?thesis by (simp add: z)
  qed
  ultimately show ?case
    using snoc by (simp add: be_value_snoc)
qed (simp add: be_value_def)

lemma be_value_lt: "be_value bs < 256 ^ length bs"
proof (induction bs rule: rev_induct)
  case (snoc b bs)
  have "unat b < 256"
    using unsigned_less [of b] by simp
  with snoc show ?case
    by (simp add: be_value_snoc)
qed (simp add: be_value_def)

lemma Uint64_PutUint64 [simp]: "Uint64 (PutUint64 w) = w"
proof -
  have "unat w < 256 ^ 8"
    using unsigned_less [of w] by simp
  then have "be_value (PutUint64 w) = unat w"
    by (simp add: PutUint64_def be_value_be_digits)
  then show ?thesis
    by (simp add: Uint64_def)
qed

lemma Uint32_PutUint32 [simp]: "Uint32 (PutUint32 w) = w"
proof -
  have "unat w < 256 ^ 4"
    using unsigned_less [of w] by simp
  then have "be_value (PutUint32 w) = unat w"
    by (simp add: PutUint32_def be_value_be_digits)
  then show ?thesis
    by (simp add: Uint32_def)
qed

lemma length_PutUint64 [simp]: "length (PutUint64 w) = 8"
  by (simp add: PutUint64_def)

lemma length_PutUint32 [simp]: "length (PutUint32 w) = 4"
  by (simp add: PutUint32_def)

lemma PutUint32_ne [simp]: "PutUint32 w \<noteq> []"
  using length_PutUint32 [of w] by (cases "PutUint32 w") auto

lemma PutUint32_Uint32:
  assumes "length bs = 4"
  shows "PutUint32 (Uint32 bs) = bs"
proof -
  have "be_value bs < 2 ^ 32"
    using be_value_lt [of bs] assms by simp
  then have "unat (Uint32 bs) = be_value bs"
    by (simp add: Uint32_def unat_of_nat)
  then show ?thesis
    using be_digits_be_value [of bs] assms by (simp add: PutUint32_def)
qed

text \<open>The overflow test the sources make after \<open>Add64\<close> and \<open>Mul64\<close>.\<close>

lemma overflow_test:
  "n div 2 ^ 64 \<noteq> 0 \<or> MaxInt64 < n mod 2 ^ 64 \<longleftrightarrow> MaxInt64 < n"
proof (cases "n < 2 ^ 64")
  case False
  then have "n div 2 ^ 64 \<noteq> 0" "MaxInt64 < n"
    by (simp_all add: div_eq_0_iff MaxInt64_def)
  then show ?thesis by blast
qed simp

lemma mod_MaxInt64: "n \<le> MaxInt64 \<Longrightarrow> n mod 2 ^ 64 = n"
  by (simp add: MaxInt64_def)

lemma Add64_case:
  "(case Add64 x y of (lo, carry) \<Rightarrow> if carry \<noteq> 0 \<or> MaxInt64 < lo then A else B lo) = (if MaxInt64 < x + y then A else B (x + y))"
  using overflow_test [of "x + y"] mod_MaxInt64 [of "x + y"] by (simp add: Add64_def)

lemma Mul64_case:
  "(case Mul64 x y of (hi, lo) \<Rightarrow> if hi \<noteq> 0 \<or> MaxInt64 < lo then A else B lo) = (if MaxInt64 < x * y then A else B (x * y))"
  using overflow_test [of "x * y"] mod_MaxInt64 [of "x * y"] by (simp add: Mul64_def)

end
