(* ===== verification/Erasure_Coding.thy ===== *)
theory Erasure_Coding
  imports Go_Binary
begin

text \<open>
  The erasure-coding component (\<open>src/metadata/erasure_coding\<close>): profiles, the
  striping encoder and decoder, and the registry of named encoders.

  The Reed-Solomon codec (\<open>klauspost/reedsolomon\<close>) is third-party code.  It is a
  parameter: a record of the two calls the encoder makes, and a constructor
  \<open>rs_new\<close> for it.  What the encoder relies on is the predicate
  \<open>rs_codec_laws\<close>: \<open>Encode\<close> keeps the data shards and fills the parity
  shards with slices of the same size, and \<open>ReconstructData\<close> restores the data
  shards of an encoded stripe from any k surviving shards, a missing shard being
  an empty slice.
\<close>

section \<open>Profiles (profile.go)\<close>

record ErasureCodingProfile =
  ec_Name :: string
  DataShards :: int
  ParityShards :: int
  StripeSize :: int

datatype ec_error =
    EcNameRequired
  | EcDataShards int
  | EcParityShards int
  | EcStripeSize int
  | EcBuildCodec string
  | EcNotRegistered string
  | EcEncode nat string
  | EcNoShards
  | EcShardIndex int
  | EcShardSize int int
  | EcMissingStripe nat
  | EcTooFewShards nat nat
  | EcReconstruct nat string
  | EcTooShort
  | EcDeclaredLength nat
  | EcNumStripes
  | EcReaders nat
  | EcSlots nat nat
  | EcRead nat nat string
  | EcPanic

definition Profile6Plus2 :: ErasureCodingProfile where
  "Profile6Plus2 = \<lparr>ec_Name = ''6+2'', DataShards = 6, ParityShards = 2, StripeSize = 4 * 1024 * 1024\<rparr>"

definition Profile8Plus3 :: ErasureCodingProfile where
  "Profile8Plus3 = \<lparr>ec_Name = ''8+3'', DataShards = 8, ParityShards = 3, StripeSize = 4 * 1024 * 1024\<rparr>"

definition Profile10Plus4 :: ErasureCodingProfile where
  "Profile10Plus4 = \<lparr>ec_Name = ''10+4'', DataShards = 10, ParityShards = 4, StripeSize = 4 * 1024 * 1024\<rparr>"

definition Profile12Plus4 :: ErasureCodingProfile where
  "Profile12Plus4 = \<lparr>ec_Name = ''12+4'', DataShards = 12, ParityShards = 4, StripeSize = 4 * 1024 * 1024\<rparr>"

definition Profile16Plus4 :: ErasureCodingProfile where
  "Profile16Plus4 = \<lparr>ec_Name = ''16+4'', DataShards = 16, ParityShards = 4, StripeSize = 4 * 1024 * 1024\<rparr>"

definition StandardProfiles :: "ErasureCodingProfile list" where
  "StandardProfiles =
    [Profile6Plus2, Profile8Plus3, Profile10Plus4, Profile12Plus4, Profile16Plus4]"

definition TotalShards :: "ErasureCodingProfile \<Rightarrow> int" where
  "TotalShards p = DataShards p + ParityShards p"

definition ProfileValidate :: "ErasureCodingProfile \<Rightarrow> (ec_error, unit) result" where
  "ProfileValidate p =
    (if ec_Name p = [] then Inl EcNameRequired
     else if DataShards p \<le> 0 then Inl (EcDataShards (DataShards p))
     else if ParityShards p \<le> 0 then Inl (EcParityShards (ParityShards p))
     else if StripeSize p \<le> 0 then Inl (EcStripeSize (StripeSize p))
     else Inr ())"

section \<open>Encoder (encoder.go)\<close>

record rs_codec =
  rs_encode :: "bytes list \<Rightarrow> (string, bytes list) result"
  rs_reconstruct_data :: "bytes list \<Rightarrow> (string, bytes list) result"

datatype ShardKind = ShardKindData | ShardKindParity

record Shard =
  sh_StripeIndex :: int
  sh_ShardIndex :: int
  sh_Kind :: ShardKind
  sh_Bytes :: bytes

record Encoder =
  enc_profile :: ErasureCodingProfile
  enc_codec :: rs_codec
  enc_shardSize :: nat

definition NewEncoder ::
  "(int \<Rightarrow> int \<Rightarrow> (string, rs_codec) result) \<Rightarrow> ErasureCodingProfile \<Rightarrow> (ec_error, Encoder) result" where
  "NewEncoder rs_new p = bind_result (ProfileValidate p) (\<lambda>_.
    case rs_new (DataShards p) (ParityShards p) of
      Inl err \<Rightarrow> Inl (EcBuildCodec err)
    | Inr c \<Rightarrow> Inr \<lparr>enc_profile = p, enc_codec = c,
        enc_shardSize = nat ((StripeSize p + DataShards p - 1) div DataShards p)\<rparr>)"

definition data_count :: "Encoder \<Rightarrow> nat" where
  "data_count e = nat (DataShards (enc_profile e))"

definition total_count :: "Encoder \<Rightarrow> nat" where
  "total_count e = nat (TotalShards (enc_profile e))"

definition StripeLength :: "Encoder \<Rightarrow> nat" where
  "StripeLength e = enc_shardSize e * data_count e"

definition objectHeaderSize :: nat where "objectHeaderSize = 8"

text \<open>\<open>copy\<close> of a slice into a fresh zeroed buffer of length n.\<close>

definition copy_into :: "nat \<Rightarrow> bytes \<Rightarrow> bytes" where
  "copy_into n xs = take n xs @ replicate (n - length xs) 0"

definition frame_body :: "bytes \<Rightarrow> bytes" where
  "frame_body body = PutUint64 (word_of_nat (length body)) @ body"

definition num_stripes :: "Encoder \<Rightarrow> bytes \<Rightarrow> nat" where
  "num_stripes e framed =
    (let n = (length framed + StripeLength e - 1) div StripeLength e in if n = 0 then 1 else n)"

definition stripe_bytes :: "Encoder \<Rightarrow> bytes \<Rightarrow> nat \<Rightarrow> bytes" where
  "stripe_bytes e framed s =
    (let start = s * StripeLength e;
         stop = min (start + StripeLength e) (length framed)
     in copy_into (StripeLength e) (take (stop - start) (drop start framed)))"

definition stripe_slots :: "Encoder \<Rightarrow> bytes \<Rightarrow> bytes list" where
  "stripe_slots e stripe =
    map (\<lambda>i. take (enc_shardSize e) (drop (i * enc_shardSize e) stripe)) [0..<data_count e]
    @ replicate (total_count e - data_count e) (replicate (enc_shardSize e) 0)"

definition shard_of :: "Encoder \<Rightarrow> nat \<Rightarrow> nat \<times> bytes \<Rightarrow> Shard" where
  "shard_of e s ib = \<lparr>sh_StripeIndex = int s, sh_ShardIndex = int (fst ib),
     sh_Kind = (if fst ib \<ge> data_count e then ShardKindParity else ShardKindData),
     sh_Bytes = copy_into (enc_shardSize e) (snd ib)\<rparr>"

definition encode_stripe :: "Encoder \<Rightarrow> bytes \<Rightarrow> nat \<Rightarrow> (ec_error, Shard list) result" where
  "encode_stripe e framed s =
    (case rs_encode (enc_codec e) (stripe_slots e (stripe_bytes e framed s)) of
       Inl err \<Rightarrow> Inl (EcEncode s err)
     | Inr shards \<Rightarrow> Inr (map (shard_of e s) (enumerate 0 shards)))"

fun encode_stripes :: "Encoder \<Rightarrow> bytes \<Rightarrow> nat list \<Rightarrow> (ec_error, Shard list) result" where
  "encode_stripes e framed [] = Inr []"
| "encode_stripes e framed (s # ss) =
    bind_result (encode_stripe e framed s) (\<lambda>out.
    bind_result (encode_stripes e framed ss) (\<lambda>rest. Inr (out @ rest)))"

definition Encode :: "Encoder \<Rightarrow> bytes \<Rightarrow> (ec_error, Shard list) result" where
  "Encode e body =
    (let framed = frame_body body in encode_stripes e framed [0..<num_stripes e framed])"

text \<open>
  \<open>Decode\<close> groups the shards by stripe in a map from stripe index to slots; an
  association list without repeated keys keeps its number of entries computable.
\<close>

fun group_shards :: "Encoder \<Rightarrow> Shard list \<Rightarrow> (int \<times> bytes list) list
    \<Rightarrow> (ec_error, (int \<times> bytes list) list) result" where
  "group_shards e [] stripes = Inr stripes"
| "group_shards e (sh # shs) stripes =
    (if sh_ShardIndex sh < 0 \<or> sh_ShardIndex sh \<ge> int (total_count e)
     then Inl (EcShardIndex (sh_ShardIndex sh))
     else
       let stripe = (case map_of stripes (sh_StripeIndex sh) of
             Some st \<Rightarrow> st | None \<Rightarrow> replicate (total_count e) []);
           stripes' = AList.update (sh_StripeIndex sh) stripe stripes
       in if sh_Bytes sh = [] then group_shards e shs stripes'
          else if length (sh_Bytes sh) \<noteq> enc_shardSize e
          then Inl (EcShardSize (sh_StripeIndex sh) (sh_ShardIndex sh))
          else group_shards e shs
            (AList.update (sh_StripeIndex sh) (stripe[nat (sh_ShardIndex sh) := sh_Bytes sh]) stripes'))"

definition present_count :: "bytes list \<Rightarrow> nat" where
  "present_count stripe = length (filter (\<lambda>b. b \<noteq> []) stripe)"

definition recover_stripe :: "Encoder \<Rightarrow> nat \<Rightarrow> bytes list \<Rightarrow> (ec_error, bytes) result" where
  "recover_stripe e s stripe =
    (if present_count stripe < data_count e then Inl (EcTooFewShards s (present_count stripe))
     else if present_count stripe < total_count e then
       (case rs_reconstruct_data (enc_codec e) stripe of
          Inl err \<Rightarrow> Inl (EcReconstruct s err)
        | Inr stripe' \<Rightarrow> Inr (concat (take (data_count e) stripe')))
     else Inr (concat (take (data_count e) stripe)))"

fun recover_stripes :: "Encoder \<Rightarrow> (int \<times> bytes list) list \<Rightarrow> nat list \<Rightarrow> (ec_error, bytes) result" where
  "recover_stripes e stripes [] = Inr []"
| "recover_stripes e stripes (s # ss) =
    (case map_of stripes (int s) of
       None \<Rightarrow> Inl (EcMissingStripe s)
     | Some stripe \<Rightarrow>
         bind_result (recover_stripe e s stripe) (\<lambda>d.
         bind_result (recover_stripes e stripes ss) (\<lambda>rest. Inr (d @ rest))))"

text \<open>
  The end of \<open>Decode\<close>: read the length header and cut the padding.  The sum
  \<open>8 + plaintextLen\<close> is a 64-bit one; a slice expression whose upper bound is
  below its lower bound panics.
\<close>

definition unframe :: "bytes \<Rightarrow> (ec_error, bytes) result" where
  "unframe framed =
    (if length framed < objectHeaderSize then Inl EcTooShort
     else
       let plaintextLen = Uint64 (take objectHeaderSize framed);
           stop = of_nat objectHeaderSize + plaintextLen
       in if unat stop > length framed then Inl (EcDeclaredLength (unat plaintextLen))
          else if unat stop < objectHeaderSize then Inl EcPanic
          else Inr (take (unat stop - objectHeaderSize) (drop objectHeaderSize framed)))"

definition Decode :: "Encoder \<Rightarrow> Shard list \<Rightarrow> (ec_error, bytes) result" where
  "Decode e shards =
    (if shards = [] then Inl EcNoShards
     else bind_result (group_shards e shards []) (\<lambda>stripes.
          bind_result (recover_stripes e stripes [0..<length stripes]) unframe))"

text \<open>
  \<open>DecodeReader\<close>: a reader is absent (nil), fails with an error, or delivers
  the shard's bytes.
\<close>

fun read_slots :: "Encoder \<Rightarrow> nat \<Rightarrow> nat \<Rightarrow> (string, bytes) result option list
    \<Rightarrow> (ec_error, Shard list) result" where
  "read_slots e s i [] = Inr []"
| "read_slots e s i (r # rs) =
    (let kind = (if i \<ge> data_count e then ShardKindParity else ShardKindData) in
     case r of
       Some (Inl err) \<Rightarrow> Inl (EcRead s i err)
     | Some (Inr body) \<Rightarrow> bind_result (read_slots e s (Suc i) rs) (\<lambda>out. Inr
         (\<lparr>sh_StripeIndex = int s, sh_ShardIndex = int i, sh_Kind = kind, sh_Bytes = body\<rparr> # out))
     | None \<Rightarrow> bind_result (read_slots e s (Suc i) rs) (\<lambda>out. Inr
         (\<lparr>sh_StripeIndex = int s, sh_ShardIndex = int i, sh_Kind = kind, sh_Bytes = []\<rparr> # out)))"

fun read_stripes :: "Encoder \<Rightarrow> nat \<Rightarrow> (string, bytes) result option list list
    \<Rightarrow> (ec_error, Shard list) result" where
  "read_stripes e s [] = Inr []"
| "read_stripes e s (slots # rest) =
    (if length slots \<noteq> total_count e then Inl (EcSlots s (length slots))
     else bind_result (read_slots e s 0 slots) (\<lambda>out.
          bind_result (read_stripes e (Suc s) rest) (\<lambda>out'. Inr (out @ out'))))"

definition DecodeReader :: "Encoder \<Rightarrow> int \<Rightarrow> (string, bytes) result option list list
    \<Rightarrow> (ec_error, bytes) result" where
  "DecodeReader e numStripes shardReaders =
    (if numStripes \<le> 0 then Inl EcNumStripes
     else if int (length shardReaders) \<noteq> numStripes then Inl (EcReaders (length shardReaders))
     else bind_result (read_stripes e 0 shardReaders) (Decode e))"

section \<open>Registry (registry.go)\<close>

type_synonym Registry = "string \<rightharpoonup> Encoder"

definition NewRegistry :: Registry where "NewRegistry = Map.empty"

definition Register :: "(int \<Rightarrow> int \<Rightarrow> (string, rs_codec) result) \<Rightarrow> Registry \<Rightarrow> ErasureCodingProfile
    \<Rightarrow> (ec_error, Registry) result" where
  "Register rs_new r p = bind_result (NewEncoder rs_new p) (\<lambda>enc. Inr (r(ec_Name p \<mapsto> enc)))"

definition RegistryLookup :: "Registry \<Rightarrow> string \<Rightarrow> (ec_error, Encoder) result" where
  "RegistryLookup r n = (case r n of None \<Rightarrow> Inl (EcNotRegistered n) | Some enc \<Rightarrow> Inr enc)"

fun register_all :: "(int \<Rightarrow> int \<Rightarrow> (string, rs_codec) result) \<Rightarrow> Registry
    \<Rightarrow> ErasureCodingProfile list \<Rightarrow> Registry" where
  "register_all rs_new r [] = r"
| "register_all rs_new r (p # ps) =
    register_all rs_new (case Register rs_new r p of Inl _ \<Rightarrow> r | Inr r' \<Rightarrow> r') ps"

definition DefaultRegistry :: "(int \<Rightarrow> int \<Rightarrow> (string, rs_codec) result) \<Rightarrow> Registry" where
  "DefaultRegistry rs_new = register_all rs_new NewRegistry StandardProfiles"

section \<open>What the encoder relies on\<close>

text \<open>
  \<open>survives es st\<close>: the slots \<open>st\<close> hold the shards \<open>es\<close> with some of
  them lost.
\<close>

definition survives :: "bytes list \<Rightarrow> bytes list \<Rightarrow> bool" where
  "survives es st \<longleftrightarrow> list_all2 (\<lambda>b b'. b' = b \<or> b' = []) es st"

definition rs_codec_laws :: "nat \<Rightarrow> nat \<Rightarrow> rs_codec \<Rightarrow> bool" where
  "rs_codec_laws k m c \<longleftrightarrow>
    (\<forall>slots n. length slots = k + m \<and> 0 < n \<and> (\<forall>b \<in> set slots. length b = n) \<longrightarrow>
      (\<exists>es. rs_encode c slots = Inr es \<and> length es = k + m \<and> (\<forall>b \<in> set es. length b = n)
        \<and> take k es = take k slots
        \<and> (\<forall>st. survives es st \<and> k \<le> present_count st \<longrightarrow>
             (\<exists>st'. rs_reconstruct_data c st = Inr st' \<and> take k st' = take k es))))"

definition encoder_wf :: "Encoder \<Rightarrow> bool" where
  "encoder_wf e \<longleftrightarrow> 0 < enc_shardSize e \<and> 0 < DataShards (enc_profile e)
    \<and> 0 < ParityShards (enc_profile e)"

definition encoder_ok :: "Encoder \<Rightarrow> bool" where
  "encoder_ok e \<longleftrightarrow> encoder_wf e
    \<and> rs_codec_laws (data_count e) (total_count e - data_count e) (enc_codec e)"

lemma ProfileValidate_ok_iff:
  "ProfileValidate p = Inr () \<longleftrightarrow>
    ec_Name p \<noteq> [] \<and> 0 < DataShards p \<and> 0 < ParityShards p \<and> 0 < StripeSize p"
  by (auto simp: ProfileValidate_def)

lemma NewEncoder_ok_iff:
  "NewEncoder rs_new p = Inr e \<longleftrightarrow>
    ProfileValidate p = Inr () \<and> (\<exists>c. rs_new (DataShards p) (ParityShards p) = Inr c
      \<and> e = \<lparr>enc_profile = p, enc_codec = c,
             enc_shardSize = nat ((StripeSize p + DataShards p - 1) div DataShards p)\<rparr>)"
  by (auto simp: NewEncoder_def split: sum.splits)

lemma NewEncoder_wf: "NewEncoder rs_new p = Inr e \<Longrightarrow> encoder_wf e"
  by (auto simp: NewEncoder_ok_iff ProfileValidate_ok_iff encoder_wf_def
      intro!: pos_imp_zdiv_pos_iff [THEN iffD2])

lemma encoder_counts:
  assumes "encoder_wf e"
  shows "0 < data_count e" "data_count e < total_count e" "0 < StripeLength e"
  using assms by (auto simp: encoder_wf_def data_count_def total_count_def TotalShards_def StripeLength_def)

section \<open>Framing\<close>

lemma frame_body_ne [simp]: "frame_body body \<noteq> []"
  by (auto simp: frame_body_def dest: arg_cong [where f = length])

lemma unframe_frame_body:
  assumes "length body + 8 < 2 ^ 64"
  shows "unframe (frame_body body @ pad) = Inr body"
proof -
  have *: "unat (word_of_nat (length body) :: 64 word) = length body"
    using assms by (simp add: unat_of_nat)
  have "unat (8 + word_of_nat (length body) :: 64 word) = 8 + length body"
    using assms * by (simp add: unat_word_ariths)
  then show ?thesis
    by (simp add: unframe_def frame_body_def objectHeaderSize_def Let_def)
qed

section \<open>Striping\<close>

lemma length_copy_into [simp]: "length (copy_into n xs) = n"
  by (simp add: copy_into_def)

lemma copy_into_id: "length xs = n \<Longrightarrow> copy_into n xs = xs"
  by (simp add: copy_into_def)

lemma concat_chunks: "concat (map (\<lambda>i. take n (drop (i * n) xs)) [0..<k]) = take (k * n) xs"
proof (induction k)
  case (Suc k)
  have "take (Suc k * n) xs = take (k * n) xs @ take n (drop (k * n) xs)"
    by (simp only: mult_Suc add.commute [of n] take_add)
  then show ?case
    using Suc by simp
qed simp

lemma length_stripe_bytes [simp]: "length (stripe_bytes e framed s) = StripeLength e"
  by (simp add: stripe_bytes_def Let_def)

lemma stripe_bytes_chunk:
  assumes "s < n" "length framed \<le> n * StripeLength e"
  shows "stripe_bytes e framed s =
    take (StripeLength e) (drop (s * StripeLength e)
      (framed @ replicate (n * StripeLength e - length framed) 0))"
proof -
  have "s * StripeLength e + StripeLength e \<le> n * StripeLength e"
    using assms(1) by (metis Suc_leI add.commute mult_Suc mult_le_mono1)
  then show ?thesis
    using assms(2) by (auto simp: stripe_bytes_def copy_into_def Let_def min_def)
qed

lemma num_stripes_covers:
  assumes "0 < StripeLength e"
  shows "length framed \<le> num_stripes e framed * StripeLength e"
proof -
  let ?L = "StripeLength e" and ?q = "(length framed + StripeLength e - 1) div StripeLength e"
  have "length framed + ?L - 1 = ?q * ?L + (length framed + ?L - 1) mod ?L"
    by simp
  moreover have "(length framed + ?L - 1) mod ?L < ?L"
    using assms by simp
  ultimately have "length framed \<le> ?q * ?L"
    using assms by linarith
  moreover have "?q \<le> num_stripes e framed"
    by (simp add: num_stripes_def Let_def)
  ultimately show ?thesis
    by (meson le_trans mult_le_mono1)
qed

lemma num_stripes_pos: "0 < num_stripes e framed"
  by (simp add: num_stripes_def Let_def)

lemma concat_stripes:
  assumes "0 < StripeLength e"
  shows "concat (map (stripe_bytes e framed) [0..<num_stripes e framed])
    = framed @ replicate (num_stripes e framed * StripeLength e - length framed) 0"
proof -
  let ?n = "num_stripes e framed"
  let ?x = "framed @ replicate (?n * StripeLength e - length framed) 0"
  have "map (stripe_bytes e framed) [0..<?n]
      = map (\<lambda>i. take (StripeLength e) (drop (i * StripeLength e) ?x)) [0..<?n]"
    using stripe_bytes_chunk num_stripes_covers [OF assms] by (intro map_cong) auto
  then have "concat (map (stripe_bytes e framed) [0..<?n]) = take (?n * StripeLength e) ?x"
    by (simp only: concat_chunks)
  then show ?thesis
    using num_stripes_covers [OF assms, of framed] by simp
qed

lemma length_stripe_slots:
  assumes "encoder_wf e"
  shows "length (stripe_slots e stripe) = total_count e"
  using encoder_counts [OF assms] by (simp add: stripe_slots_def)

lemma stripe_slots_sizes:
  assumes "length stripe = StripeLength e" "b \<in> set (stripe_slots e stripe)"
  shows "length b = enc_shardSize e"
proof -
  have "i * enc_shardSize e + enc_shardSize e \<le> StripeLength e" if "i < data_count e" for i
    using that by (metis StripeLength_def Suc_leI add.commute mult.commute mult_Suc mult_le_mono2)
  then show ?thesis
    using assms by (fastforce simp: stripe_slots_def)
qed

lemma concat_data_slots:
  assumes "length stripe = StripeLength e"
  shows "concat (take (data_count e) (stripe_slots e stripe)) = stripe"
  using assms by (simp add: stripe_slots_def concat_chunks StripeLength_def mult.commute)

section \<open>Encoding\<close>

definition coded :: "Encoder \<Rightarrow> bytes \<Rightarrow> nat \<Rightarrow> bytes list" where
  "coded e framed s = projr (rs_encode (enc_codec e) (stripe_slots e (stripe_bytes e framed s)))"

lemma coded_props:
  assumes "encoder_ok e"
  shows "rs_encode (enc_codec e) (stripe_slots e (stripe_bytes e framed s)) = Inr (coded e framed s)"
    and "length (coded e framed s) = total_count e"
    and "\<forall>b \<in> set (coded e framed s). length b = enc_shardSize e"
    and "concat (take (data_count e) (coded e framed s)) = stripe_bytes e framed s"
    and "\<forall>st. survives (coded e framed s) st \<and> data_count e \<le> present_count st \<longrightarrow>
      (\<exists>st'. rs_reconstruct_data (enc_codec e) st = Inr st'
        \<and> take (data_count e) st' = take (data_count e) (coded e framed s))"
proof -
  let ?k = "data_count e" and ?t = "total_count e" and ?n = "enc_shardSize e"
  let ?slots = "stripe_slots e (stripe_bytes e framed s)"
  have wf: "encoder_wf e" and laws: "rs_codec_laws ?k (?t - ?k) (enc_codec e)"
    using assms by (auto simp: encoder_ok_def)
  have "length ?slots = ?k + (?t - ?k)" "0 < ?n" "\<forall>b \<in> set ?slots. length b = ?n"
    using wf encoder_counts [OF wf] length_stripe_slots [OF wf]
      stripe_slots_sizes [OF length_stripe_bytes]
    by (auto simp: encoder_wf_def)
  then obtain es where es: "rs_encode (enc_codec e) ?slots = Inr es" "length es = ?k + (?t - ?k)"
      "\<forall>b \<in> set es. length b = ?n" "take ?k es = take ?k ?slots"
      "\<forall>st. survives es st \<and> ?k \<le> present_count st \<longrightarrow>
        (\<exists>st'. rs_reconstruct_data (enc_codec e) st = Inr st' \<and> take ?k st' = take ?k es)"
    using laws unfolding rs_codec_laws_def by blast
  have coded: "coded e framed s = es"
    using es(1) by (simp add: coded_def)
  show "rs_encode (enc_codec e) ?slots = Inr (coded e framed s)"
    "length (coded e framed s) = ?t" "\<forall>b \<in> set (coded e framed s). length b = ?n"
    using es encoder_counts [OF wf] by (simp_all add: coded)
  show "concat (take ?k (coded e framed s)) = stripe_bytes e framed s"
    using es(4) by (simp add: coded concat_data_slots)
  show "\<forall>st. survives (coded e framed s) st \<and> ?k \<le> present_count st \<longrightarrow>
      (\<exists>st'. rs_reconstruct_data (enc_codec e) st = Inr st' \<and> take ?k st' = take ?k (coded e framed s))"
    using es(5) by (simp add: coded)
qed

lemma encode_stripes_ok:
  assumes "encoder_ok e"
  shows "encode_stripes e framed ss =
    Inr (concat (map (\<lambda>s. map (shard_of e s) (enumerate 0 (coded e framed s))) ss))"
  by (induction ss) (simp_all add: encode_stripe_def coded_props(1) [OF assms])

lemma Encode_ok:
  assumes "encoder_ok e"
  shows "Encode e body = Inr (concat (map (\<lambda>s. map (shard_of e s)
    (enumerate 0 (coded e (frame_body body) s))) [0..<num_stripes e (frame_body body)]))"
  by (simp add: Encode_def Let_def encode_stripes_ok [OF assms])

text \<open>
  The shards of an encoded object, by stripe and position.  Every shard of the
  output carries its coordinates and the coded bytes at them.
\<close>

lemma Encode_shards:
  assumes "encoder_ok e" "Encode e body = Inr out" "sh \<in> set out"
  obtains s i where "s < num_stripes e (frame_body body)" "i < total_count e"
    "sh_StripeIndex sh = int s" "sh_ShardIndex sh = int i"
    "sh_Bytes sh = coded e (frame_body body) s ! i"
proof -
  let ?f = "frame_body body"
  obtain s i where s: "s < num_stripes e ?f" and i: "i < total_count e"
    and sh: "sh = shard_of e s (i, coded e ?f s ! i)"
    using assms(3) assms(2)[symmetric] coded_props(2) [OF assms(1), of ?f]
    by (fastforce simp: Encode_ok [OF assms(1)] in_set_enumerate_eq)
  have "length (coded e ?f s ! i) = enc_shardSize e"
    using coded_props(2,3) [OF assms(1), of ?f s] i by simp
  then show thesis
    using that [OF s i] sh by (simp add: shard_of_def copy_into_id)
qed

section \<open>Grouping\<close>

definition slots_of :: "Encoder \<Rightarrow> (int \<times> bytes list) list \<Rightarrow> int \<Rightarrow> bytes list" where
  "slots_of e stripes s = (case map_of stripes s of Some st \<Rightarrow> st | None \<Rightarrow> replicate (total_count e) [])"

definition stripes_wf :: "Encoder \<Rightarrow> (int \<times> bytes list) list \<Rightarrow> bool" where
  "stripes_wf e stripes \<longleftrightarrow> distinct (map fst stripes)
    \<and> (\<forall>s. length (slots_of e stripes s) = total_count e)"

text \<open>\<open>has_shard shs s i\<close>: the slice supplies the shard at stripe s, position i.\<close>

definition has_shard :: "Shard list \<Rightarrow> int \<Rightarrow> nat \<Rightarrow> bool" where
  "has_shard shs s i \<longleftrightarrow> (\<exists>sh \<in> set shs. sh_StripeIndex sh = s \<and> sh_ShardIndex sh = int i \<and> sh_Bytes sh \<noteq> [])"

text \<open>The shards of the slice are (possibly emptied) shards of the coded stripes E.\<close>

definition drawn_from :: "Encoder \<Rightarrow> (int \<Rightarrow> nat \<Rightarrow> bytes) \<Rightarrow> Shard list \<Rightarrow> bool" where
  "drawn_from e E shs \<longleftrightarrow> (\<forall>sh \<in> set shs. \<exists>i < total_count e. sh_ShardIndex sh = int i
    \<and> (sh_Bytes sh = [] \<or> sh_Bytes sh = E (sh_StripeIndex sh) i \<and> length (sh_Bytes sh) = enc_shardSize e))"

lemma slots_of_update [store_simps]:
  "slots_of e (AList.update s st stripes) s' = (if s' = s then st else slots_of e stripes s')"
  by (simp add: slots_of_def update_conv)

lemma stripes_wf_update:
  "stripes_wf e stripes \<Longrightarrow> length st = total_count e \<Longrightarrow> stripes_wf e (AList.update s st stripes)"
  by (simp add: stripes_wf_def distinct_update store_simps)

text \<open>One round of the grouping loop writes a shard into its stripe.\<close>

definition put_shard :: "Encoder \<Rightarrow> Shard \<Rightarrow> (int \<times> bytes list) list \<Rightarrow> (int \<times> bytes list) list" where
  "put_shard e sh stripes =
    (let stripe = slots_of e stripes (sh_StripeIndex sh);
         stripes' = AList.update (sh_StripeIndex sh) stripe stripes
     in if sh_Bytes sh = [] then stripes'
        else AList.update (sh_StripeIndex sh) (stripe[nat (sh_ShardIndex sh) := sh_Bytes sh]) stripes')"

lemma group_shards_fold:
  assumes "drawn_from e E shs"
  shows "group_shards e shs stripes = Inr (fold (put_shard e) shs stripes)"
  using assms
proof (induction shs arbitrary: stripes)
  case (Cons sh shs)
  then have "drawn_from e E shs" and "0 \<le> sh_ShardIndex sh" "sh_ShardIndex sh < int (total_count e)"
    and "sh_Bytes sh = [] \<or> length (sh_Bytes sh) = enc_shardSize e"
    by (auto simp: drawn_from_def)
  with Cons.IH show ?case
    by (auto simp: put_shard_def slots_of_def Let_def)
qed simp

lemma put_shard_wf: "stripes_wf e stripes \<Longrightarrow> stripes_wf e (put_shard e sh stripes)"
  by (auto simp: put_shard_def Let_def intro!: stripes_wf_update) (auto simp: stripes_wf_def)

lemma put_shard_keys: "fst ` set (put_shard e sh stripes) = insert (sh_StripeIndex sh) (fst ` set stripes)"
  by (auto simp: put_shard_def Let_def dom_update)

lemma fold_put_shard_wf: "stripes_wf e stripes \<Longrightarrow> stripes_wf e (fold (put_shard e) shs stripes)"
  by (induction shs arbitrary: stripes) (auto simp: put_shard_wf)

lemma fold_put_shard_keys:
  "fst ` set (fold (put_shard e) shs stripes) = fst ` set stripes \<union> sh_StripeIndex ` set shs"
  by (induction shs arbitrary: stripes) (auto simp: put_shard_keys)

lemma put_shard_slot:
  assumes "stripes_wf e stripes" "i < total_count e" "drawn_from e E [sh]"
  shows "slots_of e (put_shard e sh stripes) s ! i =
    (if has_shard [sh] s i then E s i else slots_of e stripes s ! i)"
  using assms by (auto simp: put_shard_def Let_def store_simps has_shard_def drawn_from_def
      stripes_wf_def nth_list_update)

lemma fold_put_shard_slot:
  assumes "stripes_wf e stripes" "i < total_count e" "drawn_from e E shs"
  shows "slots_of e (fold (put_shard e) shs stripes) s ! i =
    (if has_shard shs s i then E s i else slots_of e stripes s ! i)"
  using assms
proof (induction shs arbitrary: stripes)
  case (Cons sh shs)
  have d: "drawn_from e E [sh]" "drawn_from e E shs"
    using Cons.prems(3) by (auto simp: drawn_from_def)
  have "has_shard (sh # shs) s i \<longleftrightarrow> has_shard [sh] s i \<or> has_shard shs s i"
    by (auto simp: has_shard_def)
  then show ?case
    using Cons.IH [OF put_shard_wf [OF Cons.prems(1)] Cons.prems(2) d(2)]
      put_shard_slot [OF Cons.prems(1,2) d(1)] by simp
qed (simp add: has_shard_def)

lemma stripes_wf_Nil [simp]: "stripes_wf e []"
  by (simp add: stripes_wf_def slots_of_def)

lemma map_of_slots: "s \<in> fst ` set stripes \<Longrightarrow> map_of stripes s = Some (slots_of e stripes s)"
  by (cases "map_of stripes s") (auto simp: slots_of_def map_of_eq_None_iff)

section \<open>Reconstruction\<close>

lemma recover_stripe_ok:
  assumes ok: "encoder_ok e" and len: "length st = total_count e"
    and st: "\<And>i. i < total_count e \<Longrightarrow> st ! i = (if P i then coded e framed s ! i else [])"
    and enough: "data_count e \<le> card {i. i < total_count e \<and> P i}"
  shows "recover_stripe e s' st = Inr (stripe_bytes e framed s)"
proof -
  note coded = coded_props [OF ok, of framed s]
  have ne: "coded e framed s ! i \<noteq> []" if "i < total_count e" for i
  proof -
    have "coded e framed s ! i \<in> set (coded e framed s)"
      using that coded(2) by simp
    then show ?thesis
      using coded(3) ok by (fastforce simp: encoder_ok_def encoder_wf_def)
  qed
  have idx: "{i. i < length st \<and> st ! i \<noteq> []} = {i. i < total_count e \<and> P i}"
    using ne st len by (auto split: if_splits)
  have pres: "present_count st = card {i. i < total_count e \<and> P i}"
    by (simp add: present_count_def length_filter_conv_card idx)
  have surv: "survives (coded e framed s) st"
    using st by (auto simp: survives_def list_all2_conv_all_nth coded(2) len)
  then obtain st' where "rs_reconstruct_data (enc_codec e) st = Inr st'"
      "take (data_count e) st' = take (data_count e) (coded e framed s)"
    using coded(5) enough pres by auto
  moreover have "st = coded e framed s" if "\<not> present_count st < total_count e"
  proof -
    have "card {i. i < total_count e \<and> P i} \<le> card {..<total_count e}"
      by (rule card_mono) auto
    with that have "{i. i < total_count e \<and> P i} = {..<total_count e}"
      by (intro card_subset_eq) (auto simp: pres)
    then show ?thesis
      using st by (auto intro!: nth_equalityI simp: len coded(2))
  qed
  ultimately show ?thesis
    using enough coded(4) by (auto simp: recover_stripe_def pres)
qed

lemma recover_stripes_ok:
  assumes "\<And>s. s \<in> set ss \<Longrightarrow> \<exists>st. map_of stripes (int s) = Some st
    \<and> recover_stripe e s st = Inr (f s)"
  shows "recover_stripes e stripes ss = Inr (concat (map f ss))"
  using assms by (induction ss) fastforce+

text \<open>
  A lossy copy of an encoder output: shards in any order, repeated, left out or
  with their bytes emptied.
\<close>

definition lossy_copy :: "Shard list \<Rightarrow> Shard list \<Rightarrow> bool" where
  "lossy_copy out shs \<longleftrightarrow>
    (\<forall>sh \<in> set shs. \<exists>sh0 \<in> set out. sh = sh0 \<or> sh = sh0\<lparr>sh_Bytes := []\<rparr>)"

definition survivors :: "Encoder \<Rightarrow> Shard list \<Rightarrow> nat \<Rightarrow> nat" where
  "survivors e shs s = length (filter (has_shard shs (int s)) [0..<total_count e])"

definition recoverable :: "Encoder \<Rightarrow> bytes \<Rightarrow> Shard list \<Rightarrow> bool" where
  "recoverable e body shs \<longleftrightarrow>
    list_all (\<lambda>s. data_count e \<le> survivors e shs s) [0..<num_stripes e (frame_body body)]"

lemma survivors_card: "survivors e shs s = card {i. i < total_count e \<and> has_shard shs (int s) i}"
proof -
  have "{i. i < length [0..<total_count e] \<and> has_shard shs (int s) ([0..<total_count e] ! i)}
      = {i. i < total_count e \<and> has_shard shs (int s) i}"
    by auto
  then show ?thesis
    by (simp only: survivors_def length_filter_conv_card)
qed

lemma recoverable_iff:
  "recoverable e body shs \<longleftrightarrow> (\<forall>s < num_stripes e (frame_body body). data_count e \<le> survivors e shs s)"
  by (auto simp: recoverable_def list_all_iff)

lemma lossy_copy_drawn:
  assumes ok: "encoder_ok e" and enc: "Encode e body = Inr out" and copy: "lossy_copy out shs"
  shows "drawn_from e (\<lambda>s i. coded e (frame_body body) (nat s) ! i) shs"
    and "sh_StripeIndex ` set shs \<subseteq> int ` {..<num_stripes e (frame_body body)}"
proof -
  have *: "\<exists>s < num_stripes e (frame_body body). \<exists>i < total_count e.
      sh_StripeIndex sh = int s \<and> sh_ShardIndex sh = int i
      \<and> (sh_Bytes sh = [] \<or> sh_Bytes sh = coded e (frame_body body) s ! i
          \<and> length (sh_Bytes sh) = enc_shardSize e)" if in_shs: "sh \<in> set shs" for sh
  proof -
    obtain sh0 where sh0: "sh0 \<in> set out" "sh = sh0 \<or> sh = sh0\<lparr>sh_Bytes := []\<rparr>"
      using copy in_shs unfolding lossy_copy_def by blast
    obtain s i where si: "s < num_stripes e (frame_body body)" "i < total_count e"
        "sh_StripeIndex sh0 = int s" "sh_ShardIndex sh0 = int i"
        "sh_Bytes sh0 = coded e (frame_body body) s ! i"
      using Encode_shards [OF ok enc sh0(1)] .
    moreover have "length (coded e (frame_body body) s ! i) = enc_shardSize e"
      using coded_props(2,3) [OF ok, of "frame_body body" s] si(2) by simp
    ultimately show ?thesis
      using sh0(2) by auto
  qed
  show "drawn_from e (\<lambda>s i. coded e (frame_body body) (nat s) ! i) shs"
    unfolding drawn_from_def using * by fastforce
  show "sh_StripeIndex ` set shs \<subseteq> int ` {..<num_stripes e (frame_body body)}"
    using * by fastforce
qed

text \<open>
  The stripes grouped from a lossy copy: \<open>recover_stripe\<close> returns the original
  stripe when k of its shards survive and an error otherwise.
\<close>

lemma grouped_slot:
  assumes ok: "encoder_ok e" and enc: "Encode e body = Inr out" and copy: "lossy_copy out shs"
  defines "al \<equiv> fold (put_shard e) shs []"
  shows "data_count e \<le> survivors e shs s \<Longrightarrow>
      recover_stripe e s (slots_of e al (int s)) = Inr (stripe_bytes e (frame_body body) s)"
    and "recover_stripe e s (slots_of e al (int s)) = Inr d \<Longrightarrow>
      data_count e \<le> survivors e shs s"
proof -
  let ?S = "{i. i < total_count e \<and> has_shard shs (int s) i}"
  note drawn = lossy_copy_drawn [OF ok enc copy]
  have len: "length (slots_of e al (int s)) = total_count e"
    using fold_put_shard_wf [OF stripes_wf_Nil] by (simp add: al_def stripes_wf_def)
  have slot: "slots_of e al (int s) ! i =
      (if has_shard shs (int s) i then coded e (frame_body body) s ! i else [])"
    if "i < total_count e" for i
    using fold_put_shard_slot [OF stripes_wf_Nil that drawn(1), of "int s"] that
    by (simp add: slots_of_def al_def)
  show "data_count e \<le> survivors e shs s \<Longrightarrow>
      recover_stripe e s (slots_of e al (int s)) = Inr (stripe_bytes e (frame_body body) s)"
    using recover_stripe_ok [OF ok len slot] by (simp add: survivors_card)
  have "{i. i < length (slots_of e al (int s)) \<and> slots_of e al (int s) ! i \<noteq> []} \<subseteq> ?S"
    using slot len by (auto split: if_splits)
  then have "present_count (slots_of e al (int s)) \<le> card ?S"
    unfolding present_count_def length_filter_conv_card by (intro card_mono) auto
  then show "recover_stripe e s (slots_of e al (int s)) = Inr d \<Longrightarrow>
      data_count e \<le> survivors e shs s"
    by (auto simp: survivors_card recover_stripe_def split: if_splits)
qed

lemma Decode_lossy_copy:
  assumes ok: "encoder_ok e" and enc: "Encode e body = Inr out" and copy: "lossy_copy out shs"
    and rec: "recoverable e body shs" and len: "length body + 8 < 2 ^ 64"
  shows "Decode e shs = Inr body"
proof -
  let ?f = "frame_body body" and ?n = "num_stripes e (frame_body body)"
  let ?al = "fold (put_shard e) shs []"
  note k = encoder_counts [of e]
  note drawn = lossy_copy_drawn [OF ok enc copy]
  have wf: "encoder_wf e" using ok by (simp add: encoder_ok_def)
  have some: "\<exists>i. has_shard shs (int s) i" if "s < ?n" for s
    using rec that k(1) [OF wf] unfolding recoverable_iff survivors_card by (metis (no_types, lifting) card_gt_0_iff empty_Collect_eq le_trans not_less not_less_eq_eq)
  have keys: "fst ` set ?al = int ` {..<?n}"
    using drawn(2) some by (force simp: fold_put_shard_keys has_shard_def)
  have "length ?al = card (int ` {..<?n})"
    using fold_put_shard_wf [OF stripes_wf_Nil]
    by (metis distinct_card keys length_map list.set_map stripes_wf_def)
  then have n: "length ?al = ?n" by (simp add: card_image)
  have "recover_stripes e ?al [0..<?n] = Inr (concat (map (stripe_bytes e ?f) [0..<?n]))"
    using rec keys grouped_slot(1) [OF ok enc copy]
    by (intro recover_stripes_ok exI conjI) (auto simp: recoverable_iff intro!: map_of_slots [where e = e])
  moreover have "shs \<noteq> []"
    using some [OF num_stripes_pos] by (auto simp: has_shard_def)
  ultimately show ?thesis
    by (simp add: Decode_def group_shards_fold [OF drawn(1)] n concat_stripes [OF k(3) [OF wf]]
        unframe_frame_body [OF len])
qed

lemma recover_stripes_Inr:
  assumes "recover_stripes e stripes ss = Inr d"
    and "\<And>s st d'. s \<in> set ss \<Longrightarrow> map_of stripes (int s) = Some st \<Longrightarrow>
      recover_stripe e s st = Inr d' \<Longrightarrow> d' = f s \<and> Q s"
  shows "d = concat (map f ss) \<and> (\<forall>s \<in> set ss. Q s)"
  using assms by (induction ss arbitrary: d) (fastforce split: option.splits)+

lemma take_stripes:
  assumes "j \<le> num_stripes e framed" "0 < StripeLength e"
  shows "concat (map (stripe_bytes e framed) [0..<j]) =
    take (j * StripeLength e) (framed @ replicate (num_stripes e framed * StripeLength e - length framed) 0)"
proof -
  let ?x = "framed @ replicate (num_stripes e framed * StripeLength e - length framed) 0"
  have "map (stripe_bytes e framed) [0..<j]
      = map (\<lambda>i. take (StripeLength e) (drop (i * StripeLength e) ?x)) [0..<j]"
    using stripe_bytes_chunk num_stripes_covers [OF assms(2)] assms(1) by (intro map_cong) auto
  then show ?thesis
    by (simp only: concat_chunks)
qed

lemma unframe_take_Inr:
  assumes "unframe (take m (frame_body body @ pad)) = Inr b" "length body + 8 < 2 ^ 64"
  shows "length (frame_body body) \<le> m"
proof -
  have *: "unat (word_of_nat (length body) :: 64 word) = length body"
    using assms(2) by (simp add: unat_of_nat)
  have "unat (8 + word_of_nat (length body) :: 64 word) = 8 + length body"
    using assms(2) * by (simp add: unat_word_ariths)
  then show ?thesis
    using assms(1) by (auto simp: unframe_def frame_body_def objectHeaderSize_def Let_def split: if_splits)
qed

lemma num_stripes_le:
  assumes "length framed \<le> j * StripeLength e" "0 < StripeLength e" "framed \<noteq> []"
  shows "num_stripes e framed \<le> j"
proof -
  have "(length framed + StripeLength e - 1) div StripeLength e
      \<le> (j * StripeLength e + (StripeLength e - 1)) div StripeLength e"
    using assms by (intro div_le_mono) simp
  also have "\<dots> = j + (StripeLength e - 1) div StripeLength e"
    using assms(2) by (intro div_mult_self3) simp
  also have "\<dots> = j"
    using assms(2) by simp
  finally show ?thesis
    using assms(1,3) by (cases j) (auto simp: num_stripes_def Let_def)
qed

lemma Decode_lossy_copy_Inr:
  assumes ok: "encoder_ok e" and enc: "Encode e body = Inr out" and copy: "lossy_copy out shs"
    and len: "length body + 8 < 2 ^ 64" and dec: "Decode e shs = Inr b"
  shows "recoverable e body shs"
proof -
  let ?f = "frame_body body" and ?n = "num_stripes e (frame_body body)"
  let ?al = "fold (put_shard e) shs []"
  let ?Q = "\<lambda>s. data_count e \<le> survivors e shs s"
  note drawn = lossy_copy_drawn [OF ok enc copy]
  have L: "0 < StripeLength e" using ok encoder_counts(3) by (simp add: encoder_ok_def)
  obtain d where d: "recover_stripes e ?al [0..<length ?al] = Inr d" "unframe d = Inr b"
    using dec by (auto simp: Decode_def group_shards_fold [OF drawn(1)] split: if_splits)
  have "length ?al = card (fst ` set ?al)"
    using fold_put_shard_wf [OF stripes_wf_Nil] by (metis distinct_card length_map list.set_map stripes_wf_def)
  also have "\<dots> \<le> card (int ` {..<?n})"
    using drawn(2) by (intro card_mono) (auto simp: fold_put_shard_keys)
  finally have j: "length ?al \<le> ?n" by (simp add: card_image)
  have "d = concat (map (stripe_bytes e ?f) [0..<length ?al]) \<and> (\<forall>s \<in> set [0..<length ?al]. ?Q s)"
  proof (rule recover_stripes_Inr [OF d(1)])
    fix s st d' assume "map_of ?al (int s) = Some st" "recover_stripe e s st = Inr d'"
    then have "recover_stripe e s (slots_of e ?al (int s)) = Inr d'"
      by (simp add: slots_of_def)
    then show "d' = stripe_bytes e ?f s \<and> ?Q s"
      using grouped_slot [OF ok enc copy] by fastforce
  qed
  then have Q: "\<forall>s < length ?al. ?Q s"
    and "d = take (length ?al * StripeLength e)
      (?f @ replicate (?n * StripeLength e - length ?f) 0)"
    by (simp_all only: take_stripes [OF j L] set_upt atLeastLessThan_iff) auto
  then have "length ?f \<le> length ?al * StripeLength e"
    using d(2) unframe_take_Inr [OF _ len] by blast
  then have "?n \<le> length ?al"
    by (rule num_stripes_le [OF _ L frame_body_ne])
  then show ?thesis
    using Q j by (simp add: recoverable_iff)
qed

section \<open>Streaming reads\<close>

definition slot_shard :: "Encoder \<Rightarrow> nat \<Rightarrow> nat \<times> (string, bytes) result option \<Rightarrow> Shard" where
  "slot_shard e s ir = \<lparr>sh_StripeIndex = int s, sh_ShardIndex = int (fst ir),
     sh_Kind = (if fst ir \<ge> data_count e then ShardKindParity else ShardKindData),
     sh_Bytes = (case snd ir of Some (Inr b) \<Rightarrow> b | _ \<Rightarrow> [])\<rparr>"

lemma read_slots_ok:
  assumes "\<And>err. Some (Inl err) \<notin> set rs"
  shows "read_slots e s i rs = Inr (map (slot_shard e s) (enumerate i rs))"
  using assms
proof (induction rs arbitrary: i)
  case (Cons r rs)
  then have "read_slots e s (Suc i) rs = Inr (map (slot_shard e s) (enumerate (Suc i) rs))"
    by simp
  then show ?case
    using Cons.prems by (cases r) (auto simp: slot_shard_def Let_def split: sum.splits)
qed simp

lemma read_stripes_ok:
  assumes "\<And>slots. slots \<in> set readers \<Longrightarrow> length slots = total_count e"
    and "\<And>slots err. slots \<in> set readers \<Longrightarrow> Some (Inl err) \<notin> set slots"
  shows "read_stripes e s readers =
    Inr (concat (map (\<lambda>(s, slots). map (slot_shard e s) (enumerate 0 slots)) (enumerate s readers)))"
  using assms by (induction readers arbitrary: s) (simp_all add: read_slots_ok)

text \<open>
  \<open>delivers\<close>: reader (s, i) is absent or delivers the bytes of the shard of
  \<open>out\<close> at stripe s, position i.
\<close>

definition delivers :: "Encoder \<Rightarrow> bytes \<Rightarrow> (string, bytes) result option list list \<Rightarrow> bool" where
  "delivers e body readers \<longleftrightarrow> length readers = num_stripes e (frame_body body)
    \<and> (\<forall>s < length readers. length (readers ! s) = total_count e
        \<and> (\<forall>i < total_count e. readers ! s ! i = None
            \<or> readers ! s ! i = Some (Inr (coded e (frame_body body) s ! i))))"

lemma delivers_shards:
  assumes ok: "encoder_ok e" and enc: "Encode e body = Inr out" and del: "delivers e body readers"
  defines "shs \<equiv> concat (map (\<lambda>(s, slots). map (slot_shard e s) (enumerate 0 slots)) (enumerate 0 readers))"
  shows "read_stripes e 0 readers = Inr shs" and "lossy_copy out shs"
    and "\<And>s i. s < length readers \<Longrightarrow> i < total_count e \<Longrightarrow> readers ! s ! i \<noteq> None \<Longrightarrow> has_shard shs (int s) i"
proof -
  note coded = coded_props [OF ok, of "frame_body body"]
  have mem: "sh \<in> set shs \<longleftrightarrow> (\<exists>s < length readers. \<exists>i < total_count e. sh = slot_shard e s (i, readers ! s ! i))" for sh
  proof -
    have "length (readers ! s) = total_count e" if "s < length readers" for s
      using del that by (simp add: delivers_def)
    then have "sh \<in> set shs \<longleftrightarrow>
        (\<exists>s \<in> {0..<length readers}. \<exists>i \<in> {0..<total_count e}. sh = slot_shard e s (i, readers ! s ! i))"
      by (simp add: shs_def map_enumerate_nth image_iff cong: bex_cong)
    then show ?thesis
      by (simp add: Bex_def)
  qed
  show "read_stripes e 0 readers = Inr shs"
    unfolding shs_def
  proof (rule read_stripes_ok)
    fix slots assume "slots \<in> set readers"
    then obtain s where s: "s < length readers" "slots = readers ! s"
      by (auto simp: in_set_conv_nth)
    then show len: "length slots = total_count e"
      using del by (simp add: delivers_def)
    show "Some (Inl err) \<notin> set slots" for err
      using del s len unfolding delivers_def in_set_conv_nth by force
  qed
  have size: "length (coded e (frame_body body) s ! i) = enc_shardSize e" if "i < total_count e" for s i
    using coded(2,3) [of s] that by simp
  have shard: "shard_of e s (i, coded e (frame_body body) s ! i) \<in> set out"
    if "s < length readers" "i < total_count e" for s i
    using that del enc coded(2)
    by (auto simp: Encode_ok [OF ok] delivers_def map_enumerate_nth intro!: bexI [of _ s] rev_image_eqI [of i])
  show "lossy_copy out shs"
    unfolding lossy_copy_def
  proof
    fix sh assume "sh \<in> set shs"
    then obtain s i where si: "s < length readers" "i < total_count e"
        "sh = slot_shard e s (i, readers ! s ! i)"
      using mem by blast
    moreover have "readers ! s ! i = None \<or> readers ! s ! i = Some (Inr (coded e (frame_body body) s ! i))"
      using del si by (auto simp: delivers_def)
    ultimately have "sh = shard_of e s (i, coded e (frame_body body) s ! i)
        \<or> sh = (shard_of e s (i, coded e (frame_body body) s ! i))\<lparr>sh_Bytes := []\<rparr>"
      using size [OF si(2), of s] by (auto simp: slot_shard_def shard_of_def copy_into_id)
    then show "\<exists>sh0 \<in> set out. sh = sh0 \<or> sh = sh0\<lparr>sh_Bytes := []\<rparr>"
      using shard [OF si(1,2)] by blast
  qed
  show "has_shard shs (int s) i"
    if "s < length readers" "i < total_count e" "readers ! s ! i \<noteq> None" for s i
  proof -
    have "readers ! s ! i = Some (Inr (coded e (frame_body body) s ! i))"
      using del that unfolding delivers_def by metis
    moreover have "0 < enc_shardSize e"
      using ok by (simp add: encoder_ok_def encoder_wf_def)
    ultimately show ?thesis
      using mem that size [OF that(2), of s] unfolding has_shard_def
      by (intro bexI [of _ "slot_shard e s (i, readers ! s ! i)"]) (auto simp: slot_shard_def)
  qed
qed

lemma DecodeReader_delivers:
  assumes ok: "encoder_ok e" and len: "length body + 8 < 2 ^ 64" and del: "delivers e body readers"
    and enough: "\<And>s. s < length readers \<Longrightarrow>
      data_count e \<le> card {i. i < total_count e \<and> readers ! s ! i \<noteq> None}"
  shows "DecodeReader e (int (length readers)) readers = Inr body"
proof -
  obtain out where enc: "Encode e body = Inr out"
    using Encode_ok [OF ok] by blast
  define shs where "shs = concat (map (\<lambda>(s, slots). map (slot_shard e s) (enumerate 0 slots)) (enumerate 0 readers))"
  note d = delivers_shards [OF ok enc del, folded shs_def]
  have n: "length readers = num_stripes e (frame_body body)"
    using del by (simp add: delivers_def)
  have "recoverable e body shs"
    unfolding recoverable_iff n [symmetric]
  proof (intro allI impI)
    fix s assume s: "s < length readers"
    show "data_count e \<le> survivors e shs s"
      by (rule le_trans [OF enough [OF s]], unfold survivors_card, rule card_mono) (use d(3) s in auto)
  qed
  then show ?thesis
    using Decode_lossy_copy [OF ok enc d(2) _ len] d(1) num_stripes_pos [of e "frame_body body"] n
    by (simp add: DecodeReader_def)
qed

section \<open>A codec that satisfies the laws\<close>

text \<open>
  The 2+1 code whose parity shard is the bytewise exclusive or of its data
  shards.
\<close>

definition xor_bytes :: "bytes \<Rightarrow> bytes \<Rightarrow> bytes" where
  "xor_bytes a b = map2 xor a b"

definition xor_codec :: rs_codec where
  "xor_codec = \<lparr>
    rs_encode = (\<lambda>slots. case slots of [a, b, _] \<Rightarrow> Inr [a, b, xor_bytes a b] | _ \<Rightarrow> Inl ''too few shards''),
    rs_reconstruct_data = (\<lambda>st. case st of
        [a, b, c] \<Rightarrow> Inr [if a = [] then xor_bytes b c else a, if b = [] then xor_bytes a c else b, c]
      | _ \<Rightarrow> Inl ''too few shards'')\<rparr>"

definition xor_new :: "int \<Rightarrow> int \<Rightarrow> (string, rs_codec) result" where
  "xor_new k m = (if k = 2 \<and> m = 1 then Inr xor_codec else Inl ''unsupported'')"

definition profile_2_1 :: ErasureCodingProfile where
  "profile_2_1 = \<lparr>ec_Name = ''2+1'', DataShards = 2, ParityShards = 1, StripeSize = 7\<rparr>"

lemma xor_bytes_cancel:
  assumes "length a = length b"
  shows "xor_bytes b (xor_bytes a b) = a" "xor_bytes a (xor_bytes a b) = b"
  using assms by (induction a b rule: list_induct2) (simp_all add: xor_bytes_def xor.left_commute xor.assoc [symmetric])

lemma survives3:
  assumes "survives [a, b, c] st"
  obtains a' b' c' where "st = [a', b', c']" "a' = a \<or> a' = []" "b' = b \<or> b' = []" "c' = c \<or> c' = []"
  using assms by (auto simp: survives_def list_all2_Cons1)

lemma xor_codec_laws: "rs_codec_laws 2 1 xor_codec"
  unfolding rs_codec_laws_def
proof (intro allI impI, elim conjE)
  fix slots :: "bytes list" and n :: nat
  assume "length slots = 2 + 1" "0 < n" and size: "\<forall>b \<in> set slots. length b = n"
  then obtain a b c where slots: "slots = [a, b, c]"
    by (auto simp: eval_nat_numeral length_Suc_conv)
  then have len: "length a = n" "length b = n" "a \<noteq> []" "b \<noteq> []"
    using size \<open>0 < n\<close> by auto
  have "\<exists>st'. rs_reconstruct_data xor_codec st = Inr st' \<and> take 2 st' = take 2 [a, b, xor_bytes a b]"
    if "survives [a, b, xor_bytes a b] st \<and> 2 \<le> present_count st" for st
    using that len by (auto elim!: survives3 simp: present_count_def xor_codec_def xor_bytes_cancel split: if_splits)
  then show "\<exists>es. rs_encode xor_codec slots = Inr es \<and> length es = 2 + 1 \<and> (\<forall>b \<in> set es. length b = n)
      \<and> take 2 es = take 2 slots
      \<and> (\<forall>st. survives es st \<and> 2 \<le> present_count st \<longrightarrow>
           (\<exists>st'. rs_reconstruct_data xor_codec st = Inr st' \<and> take 2 st' = take 2 es))"
    using len by (intro exI [of _ "[a, b, xor_bytes a b]"]) (simp add: slots xor_codec_def xor_bytes_def)
qed

section \<open>Properties\<close>

definition rs_new_laws :: "(int \<Rightarrow> int \<Rightarrow> (string, rs_codec) result) \<Rightarrow> bool" where
  "rs_new_laws rs_new \<longleftrightarrow>
    (\<forall>k m c. 0 < k \<and> 0 < m \<and> rs_new k m = Inr c \<longrightarrow> rs_codec_laws (nat k) (nat m) c)"

lemma NewEncoder_ok:
  assumes "rs_new_laws rs_new" "NewEncoder rs_new p = Inr e"
  shows "encoder_ok e"
  using assms NewEncoder_wf [OF assms(2)]
  by (auto simp: encoder_ok_def rs_new_laws_def NewEncoder_ok_iff ProfileValidate_ok_iff
      data_count_def total_count_def TotalShards_def nat_add_distrib)


definition encoder_2_1 :: Encoder where
  "encoder_2_1 = \<lparr>enc_profile = profile_2_1, enc_codec = xor_codec, enc_shardSize = 4\<rparr>"

lemma xor_new_laws: "rs_new_laws xor_new"
  using xor_codec_laws by (auto simp: rs_new_laws_def xor_new_def split: if_splits)

lemma NewEncoder_2_1: "NewEncoder xor_new profile_2_1 = Inr encoder_2_1"
  by (simp add: NewEncoder_def ProfileValidate_def profile_2_1_def xor_new_def encoder_2_1_def)

text \<open>Readers for an object of two stripes whose first shards are lost.\<close>

definition readers_2_1 :: "(string, bytes) result option list list" where
  "readers_2_1 = map (\<lambda>s. [None,
      Some (Inr (coded encoder_2_1 (frame_body [1, 2, 3, 4, 5]) s ! 1)),
      Some (Inr (coded encoder_2_1 (frame_body [1, 2, 3, 4, 5]) s ! 2))]) [0..<2]"

lemma readers_2_1_ok:
  "delivers encoder_2_1 [1, 2, 3, 4, 5] readers_2_1"
  "s < length readers_2_1 \<Longrightarrow> data_count encoder_2_1
    \<le> card {i. i < total_count encoder_2_1 \<and> readers_2_1 ! s ! i \<noteq> None}"
proof -
  have total: "total_count encoder_2_1 = 3" "data_count encoder_2_1 = 2"
    by (simp_all add: total_count_def data_count_def TotalShards_def encoder_2_1_def profile_2_1_def)
  have "num_stripes encoder_2_1 (frame_body [1, 2, 3, 4, 5]) = 2"
    by code_simp
  moreover have "i = 0 \<or> i = 1 \<or> i = 2" if "i < 3" for i :: nat
    using that by linarith
  ultimately show "delivers encoder_2_1 [1, 2, 3, 4, 5] readers_2_1"
    by (fastforce simp: delivers_def total readers_2_1_def)
  have "{i. i < 3 \<and> readers_2_1 ! s ! i \<noteq> None} = {1, 2}" if "s < length readers_2_1"
    using that by (auto simp: readers_2_1_def nth_Cons' split: if_splits)
  then show "data_count encoder_2_1 \<le> card {i. i < total_count encoder_2_1 \<and> readers_2_1 ! s ! i \<noteq> None}"
    if "s < length readers_2_1"
    using that by (simp add: total del: not_None_eq)
qed




text \<open>
  C37: what \<open>Decode\<close> does with the declared length of the framed bytes.  A
  declared length whose sum with the header size does not fit 64 bits passes the
  bounds check and panics on the slice; every other length is either rejected or
  honoured exactly.
\<close>

theorem unframe_cases:
  assumes "8 \<le> length framed"
  shows "unframe framed =
    (let n = unat (Uint64 (take 8 framed)) in
     if 2 ^ 64 \<le> n + 8 then Inl EcPanic
     else if length framed < n + 8 then Inl (EcDeclaredLength n)
     else Inr (take n (drop 8 framed)))"
proof -
  let ?w = "Uint64 (take 8 framed)"
  have "unat ?w < 2 ^ 64"
    using unsigned_less [of ?w] by simp
  moreover have "unat (8 + ?w) = (if 2 ^ 64 \<le> unat ?w + 8 then unat ?w + 8 - 2 ^ 64 else unat ?w + 8)"
    using calculation by (simp add: unat_word_ariths mod_if)
  ultimately show ?thesis
    using assms by (auto simp: unframe_def Let_def objectHeaderSize_def)
qed

theorem unframe_cases_witness:
  "unframe [255, 255, 255, 255, 255, 255, 255, 255, 7] = Inl EcPanic
    \<and> unframe [0, 0, 0, 0, 0, 0, 0, 1, 7, 0] = Inr [7]"
  using unframe_cases [of "[255, 255, 255, 255, 255, 255, 255, 255, 7]"]
    unframe_cases [of "[0, 0, 0, 0, 0, 0, 0, 1, 7, 0]"]
  by (simp add: Uint64_def be_value_def Let_def)

end
