(* ===== verification/Manifest.thy ===== *)
theory Manifest
  imports Fabric_Prelude
begin

text \<open>
  The object manifest (\<open>src/metadata/manifest.go\<close>): the record the gateway
  keeps per object version, with its pieces, encryption, placement and migration
  state, and the structural check \<open>Validate\<close>.  JSON tags play no role here.
\<close>

record EncryptionConfig =
  en_Mode :: string
  en_Algorithm :: string
  en_KeyID :: string
  en_WrappedDEK :: bytes
  en_WrapAlgorithm :: string
  en_ManifestEncrypted :: bool
  en_AADVersion :: string

record Piece =
  p_PieceID :: string
  p_Hash :: string
  p_Backend :: string
  p_Locator :: string
  p_State :: string
  p_ProviderETag :: string
  p_PartNumber :: int
  p_SizeBytes :: int
  p_StripeIndex :: int
  p_ShardIndex :: int
  p_ShardKind :: string

abbreviation shard_kind_data :: string where "shard_kind_data \<equiv> ''data''"
abbreviation shard_kind_parity :: string where "shard_kind_parity \<equiv> ''parity''"

record MigrationState =
  mg_Generation :: int
  mg_PrimaryBackend :: string
  mg_CloudCopy :: string

record ReplicationPolicy =
  rp_SourceCell :: string
  rp_DestCell :: string
  rp_Mode :: string
  rp_RPO :: string

record DedupPolicy =
  dp_Enabled :: bool
  dp_Scope :: string
  dp_Level :: string

record PlacementPolicy =
  pp_Residency :: "string list"
  pp_AllowedBackends :: "string list"
  pp_MinFailureDomains :: int
  pp_HotCache :: bool
  pp_ErasureProfile :: string
  pp_EncryptionMode :: string
  pp_DedupPolicy :: "DedupPolicy option"
  pp_ReplicationPolicy :: "ReplicationPolicy option"

record ObjectManifest =
  m_TenantID :: string
  m_Bucket :: string
  m_ObjectKey :: string
  m_ObjectKeyHash :: string
  m_VersionID :: string
  m_ObjectSize :: int
  m_ChunkSize :: int
  m_ContentHash :: string
  m_Encryption :: EncryptionConfig
  m_PlacementPolicy :: PlacementPolicy
  m_Pieces :: "Piece list"
  m_MigrationState :: MigrationState
  m_DeleteMarker :: bool
  m_Tags :: "(string, string) gomap"
  m_ContentType :: string
  m_ContentEncoding :: string
  m_ContentDisposition :: string
  m_ContentLanguage :: string
  m_CacheControl :: string
  m_Expires :: string
  m_UserMetadata :: "(string, string) gomap"
  m_RetentionMode :: string
  m_RetainUntil :: gotime
  m_LegalHold :: bool
  m_CreatedAt :: gotime

text \<open>The zero values a Go composite literal leaves in the fields it omits.\<close>

definition zero_EncryptionConfig :: EncryptionConfig where
  "zero_EncryptionConfig = \<lparr>en_Mode = [], en_Algorithm = [], en_KeyID = [], en_WrappedDEK = [],
     en_WrapAlgorithm = [], en_ManifestEncrypted = False, en_AADVersion = []\<rparr>"

definition zero_Piece :: Piece where
  "zero_Piece = \<lparr>p_PieceID = [], p_Hash = [], p_Backend = [], p_Locator = [], p_State = [],
     p_ProviderETag = [], p_PartNumber = 0, p_SizeBytes = 0, p_StripeIndex = 0, p_ShardIndex = 0,
     p_ShardKind = []\<rparr>"

definition zero_MigrationState :: MigrationState where
  "zero_MigrationState = \<lparr>mg_Generation = 0, mg_PrimaryBackend = [], mg_CloudCopy = []\<rparr>"

definition zero_PlacementPolicy :: PlacementPolicy where
  "zero_PlacementPolicy = \<lparr>pp_Residency = [], pp_AllowedBackends = [], pp_MinFailureDomains = 0,
     pp_HotCache = False, pp_ErasureProfile = [], pp_EncryptionMode = [], pp_DedupPolicy = None,
     pp_ReplicationPolicy = None\<rparr>"

definition zero_ObjectManifest :: ObjectManifest where
  "zero_ObjectManifest = \<lparr>m_TenantID = [], m_Bucket = [], m_ObjectKey = [], m_ObjectKeyHash = [],
     m_VersionID = [], m_ObjectSize = 0, m_ChunkSize = 0, m_ContentHash = [],
     m_Encryption = zero_EncryptionConfig, m_PlacementPolicy = zero_PlacementPolicy, m_Pieces = [],
     m_MigrationState = zero_MigrationState, m_DeleteMarker = False, m_Tags = [],
     m_ContentType = [], m_ContentEncoding = [], m_ContentDisposition = [], m_ContentLanguage = [],
     m_CacheControl = [], m_Expires = [], m_UserMetadata = [], m_RetentionMode = [],
     m_RetainUntil = zero_time, m_LegalHold = False, m_CreatedAt = zero_time\<rparr>"

datatype manifest_error =
    MTenantRequired
  | MBucketRequired
  | MKeyHashRequired
  | MObjectSize
  | MChunkSize
  | MPieceID nat
  | MPieceBackend nat

fun validate_pieces :: "nat \<Rightarrow> Piece list \<Rightarrow> (manifest_error, unit) result" where
  "validate_pieces i [] = Inr ()"
| "validate_pieces i (p # ps) =
    (if p_PieceID p = [] then Inl (MPieceID i)
     else if p_Backend p = [] then Inl (MPieceBackend i)
     else validate_pieces (Suc i) ps)"

definition ManifestValidate :: "ObjectManifest \<Rightarrow> (manifest_error, unit) result" where
  "ManifestValidate m =
    (if m_TenantID m = [] then Inl MTenantRequired
     else if m_Bucket m = [] then Inl MBucketRequired
     else if m_ObjectKeyHash m = [] then Inl MKeyHashRequired
     else if m_ObjectSize m < 0 then Inl MObjectSize
     else if m_ChunkSize m \<le> 0 \<and> m_ObjectSize m > 0 then Inl MChunkSize
     else validate_pieces 0 (m_Pieces m))"

lemma validate_pieces_ok_iff:
  "validate_pieces i ps = Inr () \<longleftrightarrow> (\<forall>p \<in> set ps. p_PieceID p \<noteq> [] \<and> p_Backend p \<noteq> [])"
  by (induction ps arbitrary: i) auto

lemma ManifestValidate_ok_iff:
  "ManifestValidate m = Inr () \<longleftrightarrow>
    m_TenantID m \<noteq> [] \<and> m_Bucket m \<noteq> [] \<and> m_ObjectKeyHash m \<noteq> [] \<and> 0 \<le> m_ObjectSize m
    \<and> (0 < m_ObjectSize m \<longrightarrow> 0 < m_ChunkSize m)
    \<and> (\<forall>p \<in> set (m_Pieces m). p_PieceID p \<noteq> [] \<and> p_Backend p \<noteq> [])"
  by (auto simp: ManifestValidate_def validate_pieces_ok_iff)

end
