(* ===== verification/Go_Strings.thy ===== *)
theory Go_Strings
  imports Fabric_Prelude
begin

text \<open>
  What the sources use of the Go packages \<open>strconv\<close> and \<open>strings\<close>:
  decimal formatting and parsing of 64-bit integers, and searching, cutting,
  splitting and trimming of strings.  A Go string is a list of bytes, here of
  characters.  \<open>TrimSpace\<close> and \<open>ToLower\<close> are given on ASCII, the alphabet of
  the header and key values they are applied to.
\<close>

section \<open>strconv\<close>

definition is_digit :: "char \<Rightarrow> bool" where
  "is_digit c \<longleftrightarrow> 48 \<le> (of_char c :: nat) \<and> (of_char c :: nat) \<le> 57"

fun FormatUint :: "nat \<Rightarrow> string" where
  "FormatUint n = (if n < 10 then [char_of (48 + n)] else FormatUint (n div 10) @ [char_of (48 + n mod 10)])"

declare FormatUint.simps [simp del]

definition FormatInt :: "int \<Rightarrow> string" where
  "FormatInt n = (if n < 0 then CHR ''-'' # FormatUint (nat (- n)) else FormatUint (nat n))"

definition pad_decimal :: "nat \<Rightarrow> int \<Rightarrow> string" where
  "pad_decimal width n = (let d = FormatInt n in replicate (width - length d) (CHR ''0'') @ d)"

definition decimal_value :: "string \<Rightarrow> nat" where
  "decimal_value s = foldl (\<lambda>a c. a * 10 + (of_char c - 48)) 0 s"

datatype parse_error = ErrSyntax | ErrRange

definition ParseUint :: "string \<Rightarrow> (parse_error, nat) result" where
  "ParseUint s =
    (if s = [] \<or> \<not> list_all is_digit s then Inl ErrSyntax
     else if decimal_value s \<ge> 2 ^ 64 then Inl ErrRange
     else Inr (decimal_value s))"

definition ParseInt :: "string \<Rightarrow> (parse_error, int) result" where
  "ParseInt s =
    (case s of
       [] \<Rightarrow> Inl ErrSyntax
     | c # cs \<Rightarrow>
         let neg = (c = CHR ''-'');
             digits = (if c = CHR ''+'' \<or> c = CHR ''-'' then cs else s)
         in bind_result (ParseUint digits) (\<lambda>n.
              if \<not> neg \<and> n \<ge> 2 ^ 63 then Inl ErrRange
              else if neg \<and> n > 2 ^ 63 then Inl ErrRange
              else Inr (if neg then - int n else int n)))"

section \<open>strings\<close>

fun IndexByte :: "string \<Rightarrow> char \<Rightarrow> nat option" where
  "IndexByte [] c = None"
| "IndexByte (x # xs) c = (if x = c then Some 0 else map_option Suc (IndexByte xs c))"

definition CutByte :: "string \<Rightarrow> char \<Rightarrow> (string \<times> string) option" where
  "CutByte s c = map_option (\<lambda>i. (take i s, drop (Suc i) s)) (IndexByte s c)"

fun SplitByte :: "char \<Rightarrow> string \<Rightarrow> string list" where
  "SplitByte c [] = [[]]"
| "SplitByte c (x # xs) =
    (if x = c then [] # SplitByte c xs
     else (case SplitByte c xs of [] \<Rightarrow> [[x]] | y # ys \<Rightarrow> (x # y) # ys))"

definition is_space :: "char \<Rightarrow> bool" where
  "is_space c \<longleftrightarrow> (of_char c :: nat) \<in> {9, 10, 11, 12, 13, 32}"

definition TrimSpace :: "string \<Rightarrow> string" where
  "TrimSpace s = rev (dropWhile is_space (rev (dropWhile is_space s)))"

definition lower_char :: "char \<Rightarrow> char" where
  "lower_char c = (let n = of_char c :: nat in if 65 \<le> n \<and> n \<le> 90 then char_of (n + 32) else c)"

definition ToLower :: "string \<Rightarrow> string" where
  "ToLower s = map lower_char s"

definition TrimPrefix :: "string \<Rightarrow> string \<Rightarrow> string" where
  "TrimPrefix s p = (if has_prefix s p then drop (length p) s else s)"

section \<open>Round trips\<close>

lemma of_char_digit: "n < 10 \<Longrightarrow> of_char (char_of (48 + n) :: char) = (48 + n :: nat)"
  by simp

lemma decimal_value_snoc: "decimal_value (s @ [c]) = decimal_value s * 10 + (of_char c - 48)"
  by (simp add: decimal_value_def)

lemma FormatUint_value: "decimal_value (FormatUint n) = n"
proof (induction n rule: FormatUint.induct)
  case (1 n)
  show ?case
  proof (cases "n < 10")
    case True
    then show ?thesis
      by (simp add: FormatUint.simps [of n] decimal_value_def of_char_digit del: of_char_of)
  next
    case False
    then show ?thesis
      using 1 of_char_digit [of "n mod 10"]
      by (simp add: FormatUint.simps [of n] decimal_value_snoc del: of_char_of)
  qed
qed

lemma FormatUint_digits: "list_all is_digit (FormatUint n)"
proof (induction n rule: FormatUint.induct)
  case (1 n)
  have "is_digit (char_of (48 + n mod 10))"
    using of_char_digit [of "n mod 10"] by (simp add: is_digit_def del: of_char_of)
  then show ?case
    using 1 by (cases "n < 10") (simp_all add: FormatUint.simps [of n])
qed

lemma FormatUint_ne [simp]: "FormatUint n \<noteq> []"
  by (subst FormatUint.simps) simp

lemma ParseUint_FormatUint [simp]: "n < 2 ^ 64 \<Longrightarrow> ParseUint (FormatUint n) = Inr n"
  by (simp add: ParseUint_def FormatUint_digits FormatUint_value)

lemma ParseInt_FormatUint:
  assumes "n < 2 ^ 63"
  shows "ParseInt (FormatUint n) = Inr (int n)"
proof -
  obtain c cs where c: "FormatUint n = c # cs"
    by (cases "FormatUint n") auto
  have "is_digit c"
    using FormatUint_digits [of n] by (simp add: c)
  then have "c \<noteq> CHR ''+''" "c \<noteq> CHR ''-''"
    by (auto simp: is_digit_def)
  then show ?thesis
    using assms ParseUint_FormatUint [of n] by (simp add: ParseInt_def c)
qed

lemma ParseInt_range: "ParseInt s = Inr n \<Longrightarrow> - (2 ^ 63) \<le> n \<and> n < 2 ^ 63"
  by (auto simp: ParseInt_def Let_def split: list.splits if_splits)

lemma IndexByte_Some_iff:
  "IndexByte s c = Some i \<longleftrightarrow> i < length s \<and> s ! i = c \<and> c \<notin> set (take i s)"
proof (induction s arbitrary: i)
  case (Cons x xs)
  then show ?case
    by (cases i) auto
qed simp

lemma IndexByte_None_iff: "IndexByte s c = None \<longleftrightarrow> c \<notin> set s"
  by (induction s) auto

lemma IndexByte_append: "c \<notin> set a \<Longrightarrow> IndexByte (a @ c # b) c = Some (length a)"
  by (induction a) auto

lemma CutByte_append: "c \<notin> set a \<Longrightarrow> CutByte (a @ c # b) c = Some (a, b)"
  by (simp add: CutByte_def IndexByte_append)

end
