(* ===== verification/Pagination.thy ===== *)
theory Pagination
  imports Fabric_Prelude
begin

text \<open>
  Keyset pagination, as \<open>List\<close> and \<open>ScanManifests\<close> do it: rows in strictly
  increasing position, a cursor that is the position of the last row handed out,
  and a loop that asks for pages until no cursor comes back.  The locale is the
  contract of a pager; the drain of its pages is the whole list of rows.
\<close>

definition rows_after :: "('r \<Rightarrow> 'c::linorder) \<Rightarrow> 'r list \<Rightarrow> 'c option \<Rightarrow> 'r list" where
  "rows_after pos rows cur = (case cur of None \<Rightarrow> rows | Some c \<Rightarrow> filter (\<lambda>r. c < pos r) rows)"

definition page_of :: "('r \<Rightarrow> 'c::linorder) \<Rightarrow> 'r list \<Rightarrow> nat \<Rightarrow> 'c option \<Rightarrow> 'r list \<times> 'c option" where
  "page_of pos rows lim cur =
    (let rs = rows_after pos rows cur in
     if length rs > lim then (take lim rs, Some (pos (last (take lim rs)))) else (rs, None))"

fun drain_pages :: "nat \<Rightarrow> ('r \<Rightarrow> 'c::linorder) \<Rightarrow> 'r list \<Rightarrow> nat \<Rightarrow> 'c option \<Rightarrow> 'r list option" where
  "drain_pages 0 pos rows lim cur = None"
| "drain_pages (Suc fuel) pos rows lim cur =
    (case page_of pos rows lim cur of
       (rs, None) \<Rightarrow> Some rs
     | (rs, Some c) \<Rightarrow> map_option ((@) rs) (drain_pages fuel pos rows lim (Some c)))"

lemma filter_after_last:
  fixes pos :: "'r \<Rightarrow> 'c::linorder"
  assumes sorted: "sorted_wrt (\<lambda>a b. pos a < pos b) xs" and n: "0 < n" "n < length xs"
  shows "filter (\<lambda>r. pos (last (take n xs)) < pos r) xs = drop n xs"
proof -
  let ?l = "last (take n xs)"
  have l: "?l = xs ! (n - 1)"
    using n by (subst last_conv_nth) auto
  have "\<not> pos ?l < pos r" if "r \<in> set (take n xs)" for r
  proof -
    obtain i where i: "i < n" "r = xs ! i"
      using \<open>r \<in> set (take n xs)\<close> n by (auto simp: in_set_conv_nth)
    then have "i < n - 1 \<or> i = n - 1" by linarith
    moreover have "n - 1 < length xs" using n by simp
    ultimately have "pos r \<le> pos ?l"
      unfolding i(2) l using sorted_wrt_nth_less [OF sorted, of i "n - 1"] by fastforce
    then show ?thesis by simp
  qed
  moreover have "pos ?l < pos r" if "r \<in> set (drop n xs)" for r
  proof -
    obtain i where "i < length xs - n" "r = xs ! (n + i)"
      using \<open>r \<in> set (drop n xs)\<close> by (auto simp: in_set_conv_nth)
    then show ?thesis
      using sorted_wrt_nth_less [OF sorted, of "n - 1" "n + i"] n l by simp
  qed
  ultimately have "filter (\<lambda>r. pos ?l < pos r) (take n xs @ drop n xs) = drop n xs"
    unfolding filter_append by (simp add: filter_empty_conv [THEN iffD2] filter_id_conv [THEN iffD2])
  then show ?thesis by simp
qed

locale keyset_pager =
  fixes invar :: "'s \<Rightarrow> bool" and rows :: "'s \<Rightarrow> 'r list" and pos :: "'s \<Rightarrow> 'r \<Rightarrow> 'c::linorder"
  assumes rows_sorted: "invar s \<Longrightarrow> sorted_wrt (\<lambda>a b. pos s a < pos s b) (rows s)"
begin

lemma next_page:
  assumes "invar s" "0 < lim" and rs: "rows_after (pos s) (rows s) cur = drop i (rows s)"
    and page: "page_of (pos s) (rows s) lim cur = (p, Some c)"
  shows "p = take lim (drop i (rows s))" "rows_after (pos s) (rows s) (Some c) = drop (i + lim) (rows s)"
proof -
  let ?d = "drop i (rows s)"
  have more: "lim < length ?d" and p: "p = take lim ?d" and c: "c = pos s (last (take lim ?d))"
    using page by (auto simp: page_of_def rs Let_def split: if_splits)
  show "p = take lim ?d" by (rule p)
  have sorted: "sorted_wrt (\<lambda>a b. pos s a < pos s b) (take i (rows s) @ ?d)"
    using rows_sorted [OF assms(1)] by simp
  have l: "last (take lim ?d) \<in> set ?d"
    using more assms(2) by (intro in_set_takeD [OF last_in_set]) auto
  have "\<not> c < pos s r" if "r \<in> set (take i (rows s))" for r
    using sorted that l less_imp_not_less unfolding c sorted_wrt_append by blast
  then have "filter (\<lambda>r. c < pos s r) (take i (rows s) @ ?d) = filter (\<lambda>r. c < pos s r) ?d"
    by (simp only: filter_append) (simp add: filter_empty_conv [THEN iffD2])
  also have "\<dots> = drop lim ?d"
    unfolding c using sorted more assms(2) by (intro filter_after_last) (simp_all add: sorted_wrt_append)
  finally show "rows_after (pos s) (rows s) (Some c) = drop (i + lim) (rows s)"
    by (simp add: rows_after_def add.commute)
qed

lemma drain_from:
  assumes "invar s" "0 < lim" "rows_after (pos s) (rows s) cur = drop i (rows s)"
    and "length (rows s) - i < fuel"
  shows "drain_pages fuel (pos s) (rows s) lim cur = Some (drop i (rows s))"
  using assms(3,4)
proof (induction fuel arbitrary: cur i)
  case (Suc fuel)
  obtain p nc where page: "page_of (pos s) (rows s) lim cur = (p, nc)" by fastforce
  show ?case
  proof (cases nc)
    case None
    then show ?thesis
      using page Suc.prems(1) by (auto simp: page_of_def Let_def split: if_splits)
  next
    case (Some c)
    note nx = next_page [OF assms(1,2) Suc.prems(1) page [unfolded Some]]
    have "lim < length (drop i (rows s))"
      using page Some Suc.prems(1) by (auto simp: page_of_def Let_def split: if_splits)
    then have "length (rows s) - (i + lim) < fuel"
      using Suc.prems(2) assms(2) by simp
    then have "drain_pages fuel (pos s) (rows s) lim (Some c) = Some (drop (i + lim) (rows s))"
      by (rule Suc.IH [OF nx(2)])
    moreover have "take lim (drop i (rows s)) @ drop (i + lim) (rows s) = drop i (rows s)"
      by (metis append_take_drop_id drop_drop add.commute)
    ultimately show ?thesis
      using page Some nx(1) by simp
  qed
qed simp

lemma drain_complete:
  assumes "invar s" "0 < lim" "length (rows s) < fuel"
  shows "drain_pages fuel (pos s) (rows s) lim None = Some (rows s)"
  using drain_from [of s lim None 0 fuel] assms by (simp add: rows_after_def)

end

end
