(* ===== verification/Manifest_Store.thy ===== *)
theory Manifest_Store
  imports Manifest Go_Strings Pagination "HOL-Library.Char_ord" "HOL-Library.List_Lexorder" "HOL-Library.Product_Lexorder"
begin

text \<open>
  The manifest store: the interface \<open>ManifestStore\<close>
  (\<open>src/metadata/manifest_store/store.go\<close>) and its in-memory implementation
  (\<open>src/metadata/manifest_store/memory/store.go\<close>).

  A Go interface value is a record of operations over a state, so that its
  clients are defined once for every store.  The locale \<open>manifest_store\<close> states
  what a client relies on, over an abstract view of the state: the manifest of
  each version and the current version of each object.  The in-memory store is
  shown to provide it.

  The insertion counter is a natural number (it wraps after 2^64 writes).  The
  token of \<open>ScanManifests\<close>, which is opaque to its callers, is represented by the
  key it encodes.  Every read hands out a copy of the stored manifest, so a
  manifest is a value here.
\<close>

record ManifestKey =
  k_TenantID :: string
  k_Bucket :: string
  k_ObjectKeyHash :: string
  k_VersionID :: string

record latestKey =
  lk_TenantID :: string
  lk_Bucket :: string
  lk_ObjectKeyHash :: string

datatype store_error = ErrNotFound | ErrCursor parse_error | ErrStore string

record ListResult =
  lr_Manifests :: "ObjectManifest list"
  lr_NextCursor :: string

record ScanResult =
  sr_Manifests :: "(ManifestKey \<times> ObjectManifest) list"
  sr_NextCursor :: "ManifestKey option"

definition lk_of :: "ManifestKey \<Rightarrow> latestKey" where
  "lk_of k = \<lparr>lk_TenantID = k_TenantID k, lk_Bucket = k_Bucket k, lk_ObjectKeyHash = k_ObjectKeyHash k\<rparr>"

section \<open>The interface\<close>

record 's ManifestStore =
  op_Put :: "ManifestKey \<Rightarrow> ObjectManifest \<Rightarrow> 's \<Rightarrow> (store_error, 's) result"
  op_UpdateManifest :: "ManifestKey \<Rightarrow> ObjectManifest \<Rightarrow> 's \<Rightarrow> (store_error, 's) result"
  op_Get :: "ManifestKey \<Rightarrow> 's \<Rightarrow> (store_error, ObjectManifest) result"
  op_Delete :: "ManifestKey \<Rightarrow> 's \<Rightarrow> (store_error, 's) result"
  op_List :: "string \<Rightarrow> string \<Rightarrow> string \<Rightarrow> int \<Rightarrow> 's \<Rightarrow> (store_error, ListResult) result"
  op_HasManifestWithPieceID :: "string \<Rightarrow> string \<Rightarrow> 's \<Rightarrow> (store_error, bool) result"
  op_ListVersions :: "string \<Rightarrow> string \<Rightarrow> string \<Rightarrow> 's \<Rightarrow> (store_error, ObjectManifest list) result"
  op_ScanManifests :: "ManifestKey option \<Rightarrow> int \<Rightarrow> 's \<Rightarrow> (store_error, ScanResult) result"

section \<open>The in-memory store\<close>

record MemStore =
  byKey :: "(ManifestKey, ObjectManifest) gomap"
  latest :: "(latestKey, ManifestKey) gomap"
  order :: nat
  seqs :: "(ManifestKey, nat) gomap"

definition NewMemStore :: MemStore where
  "NewMemStore = \<lparr>byKey = [], latest = [], order = 0, seqs = []\<rparr>"

definition Mem_Put :: "ManifestKey \<Rightarrow> ObjectManifest \<Rightarrow> MemStore \<Rightarrow> (store_error, MemStore) result" where
  "Mem_Put key m s =
    (let n = order s + 1 in
     Inr \<lparr>byKey = gm_set key m (byKey s), latest = gm_set (lk_of key) key (latest s),
          order = n, seqs = gm_set key n (seqs s)\<rparr>)"

definition Mem_UpdateManifest ::
  "ManifestKey \<Rightarrow> ObjectManifest \<Rightarrow> MemStore \<Rightarrow> (store_error, MemStore) result" where
  "Mem_UpdateManifest key m s =
    (case gm_get (byKey s) key of
       None \<Rightarrow> Inl ErrNotFound
     | Some _ \<Rightarrow> Inr (s\<lparr>byKey := gm_set key m (byKey s)\<rparr>))"

definition Mem_resolve :: "ManifestKey \<Rightarrow> MemStore \<Rightarrow> ManifestKey option" where
  "Mem_resolve key s = (if k_VersionID key = [] then gm_get (latest s) (lk_of key) else Some key)"

definition Mem_Get :: "ManifestKey \<Rightarrow> MemStore \<Rightarrow> (store_error, ObjectManifest) result" where
  "Mem_Get key s =
    (case Mem_resolve key s of
       None \<Rightarrow> Inl ErrNotFound
     | Some target \<Rightarrow>
         (case gm_get (byKey s) target of None \<Rightarrow> Inl ErrNotFound | Some m \<Rightarrow> Inr m))"

definition Mem_Delete :: "ManifestKey \<Rightarrow> MemStore \<Rightarrow> (store_error, MemStore) result" where
  "Mem_Delete key s =
    (case Mem_resolve key s of
       None \<Rightarrow> Inl ErrNotFound
     | Some target \<Rightarrow>
         (case gm_get (byKey s) target of
            None \<Rightarrow> Inl ErrNotFound
          | Some _ \<Rightarrow> Inr (s\<lparr>byKey := gm_del target (byKey s), seqs := gm_del target (seqs s),
              latest := (if gm_get (latest s) (lk_of key) = Some target
                         then gm_del (lk_of key) (latest s) else latest s)\<rparr>)))"

definition seq_of :: "MemStore \<Rightarrow> ManifestKey \<Rightarrow> nat" where
  "seq_of s k = (case gm_get (seqs s) k of None \<Rightarrow> 0 | Some n \<Rightarrow> n)"

definition list_rows :: "MemStore \<Rightarrow> string \<Rightarrow> string \<Rightarrow> nat \<Rightarrow> (nat \<times> ManifestKey \<times> ObjectManifest) list" where
  "list_rows s tenantID bucket after = sort_key fst
    (map (\<lambda>(lk, mk). (seq_of s mk, mk, the (gm_get (byKey s) mk)))
      (filter (\<lambda>(lk, mk). lk_TenantID lk = tenantID \<and> lk_Bucket lk = bucket
         \<and> seq_of s mk > after \<and> gm_get (byKey s) mk \<noteq> None) (latest s)))"

definition Mem_List :: "string \<Rightarrow> string \<Rightarrow> string \<Rightarrow> int \<Rightarrow> MemStore \<Rightarrow> (store_error, ListResult) result" where
  "Mem_List tenantID bucket cursor limit s =
    (let lim = nat (if limit \<le> 0 then 1000 else limit) in
     case (if cursor = [] then Inr 0 else ParseUint cursor) of
       Inl err \<Rightarrow> Inl (ErrCursor err)
     | Inr after \<Rightarrow>
         let rows = list_rows s tenantID bucket after in
         if length rows > lim
         then Inr \<lparr>lr_Manifests = map (snd \<circ> snd) (take lim rows),
                   lr_NextCursor = FormatUint (fst (last (take lim rows)))\<rparr>
         else Inr \<lparr>lr_Manifests = map (snd \<circ> snd) rows, lr_NextCursor = []\<rparr>)"

definition Mem_HasManifestWithPieceID :: "string \<Rightarrow> string \<Rightarrow> MemStore \<Rightarrow> (store_error, bool) result" where
  "Mem_HasManifestWithPieceID tenantID pieceID s =
    (if tenantID = [] \<or> pieceID = [] then Inr False
     else Inr (list_ex (\<lambda>(k, m). k_TenantID k = tenantID
       \<and> list_ex (\<lambda>p. p_PieceID p = pieceID) (m_Pieces m)) (byKey s)))"

definition Mem_ListVersions ::
  "string \<Rightarrow> string \<Rightarrow> string \<Rightarrow> MemStore \<Rightarrow> (store_error, ObjectManifest list) result" where
  "Mem_ListVersions tenantID bucket objectKeyHash s =
    Inr (map snd (sort_key (\<lambda>r. - int (fst r)) (map (\<lambda>(k, m). (seq_of s k, m))
      (filter (\<lambda>(k, m). k_TenantID k = tenantID \<and> k_Bucket k = bucket \<and> k_ObjectKeyHash k = objectKeyHash)
        (byKey s)))))"

definition scanKeyLess :: "ManifestKey \<Rightarrow> ManifestKey \<Rightarrow> bool" where
  "scanKeyLess a b =
    (if k_TenantID a \<noteq> k_TenantID b then k_TenantID a < k_TenantID b
     else if k_Bucket a \<noteq> k_Bucket b then k_Bucket a < k_Bucket b
     else if k_ObjectKeyHash a \<noteq> k_ObjectKeyHash b then k_ObjectKeyHash a < k_ObjectKeyHash b
     else k_VersionID a < k_VersionID b)"

definition key_tuple :: "ManifestKey \<Rightarrow> string \<times> string \<times> string \<times> string" where
  "key_tuple k = (k_TenantID k, k_Bucket k, k_ObjectKeyHash k, k_VersionID k)"

definition scan_keys :: "ManifestKey option \<Rightarrow> MemStore \<Rightarrow> ManifestKey list" where
  "scan_keys cursor s = sort_key key_tuple (filter (\<lambda>k. case cursor of
     None \<Rightarrow> True | Some after \<Rightarrow> scanKeyLess after k) (map fst (byKey s)))"

definition Mem_ScanManifests :: "ManifestKey option \<Rightarrow> int \<Rightarrow> MemStore \<Rightarrow> (store_error, ScanResult) result" where
  "Mem_ScanManifests cursor limit s =
    (let lim = nat (if limit \<le> 0 then 1000 else limit);
         keys = scan_keys cursor s;
         entry = (\<lambda>k. (k, the (gm_get (byKey s) k)))
     in if length keys > lim
        then Inr \<lparr>sr_Manifests = map entry (take lim keys), sr_NextCursor = Some (keys ! (lim - 1))\<rparr>
        else Inr \<lparr>sr_Manifests = map entry keys, sr_NextCursor = None\<rparr>)"

definition mem_ops :: "MemStore ManifestStore" where
  "mem_ops = \<lparr>op_Put = Mem_Put, op_UpdateManifest = Mem_UpdateManifest, op_Get = Mem_Get,
     op_Delete = Mem_Delete, op_List = Mem_List, op_HasManifestWithPieceID = Mem_HasManifestWithPieceID,
     op_ListVersions = Mem_ListVersions, op_ScanManifests = Mem_ScanManifests\<rparr>"

section \<open>The invariant of the in-memory store\<close>

text \<open>
  Every stored version has its own positive sequence number, no larger than the
  counter, and the latest pointer of an object, where there is one, names the
  stored version of the object with the largest sequence number.
\<close>

definition mem_inv :: "MemStore \<Rightarrow> bool" where
  "mem_inv s \<longleftrightarrow> gm_wf (byKey s) \<and> gm_wf (latest s) \<and> gm_wf (seqs s)
    \<and> (\<forall>k. gm_get (seqs s) k = None \<longleftrightarrow> gm_get (byKey s) k = None)
    \<and> (\<forall>k n. gm_get (seqs s) k = Some n \<longrightarrow> 0 < n \<and> n \<le> order s)
    \<and> (\<forall>k k' n. gm_get (seqs s) k = Some n \<and> gm_get (seqs s) k' = Some n \<longrightarrow> k = k')
    \<and> (\<forall>lk k. gm_get (latest s) lk = Some k \<longrightarrow> lk_of k = lk \<and> gm_get (byKey s) k \<noteq> None
        \<and> (\<forall>k'. lk_of k' = lk \<and> gm_get (byKey s) k' \<noteq> None \<longrightarrow> seq_of s k' \<le> seq_of s k))"

lemma mem_invD:
  assumes "mem_inv s"
  shows "gm_wf (byKey s)" "gm_wf (latest s)" "gm_wf (seqs s)"
    and "gm_get (seqs s) k = None \<longleftrightarrow> gm_get (byKey s) k = None"
    and "gm_get (seqs s) k = Some n \<Longrightarrow> 0 < n \<and> n \<le> order s"
    and "gm_get (seqs s) k = Some n \<Longrightarrow> gm_get (seqs s) k' = Some n \<Longrightarrow> k = k'"
    and "gm_get (latest s) lk = Some k \<Longrightarrow> lk_of k = lk"
    and "gm_get (latest s) lk = Some k \<Longrightarrow> gm_get (byKey s) k \<noteq> None"
    and "gm_get (latest s) lk = Some k \<Longrightarrow> lk_of k' = lk \<Longrightarrow> gm_get (byKey s) k' \<noteq> None
      \<Longrightarrow> seq_of s k' \<le> seq_of s k"
  using assms unfolding mem_inv_def by blast+

lemma mem_invI:
  assumes "gm_wf (byKey s)" "gm_wf (latest s)" "gm_wf (seqs s)"
    and "\<And>k. gm_get (seqs s) k = None \<longleftrightarrow> gm_get (byKey s) k = None"
    and "\<And>k n. gm_get (seqs s) k = Some n \<Longrightarrow> 0 < n \<and> n \<le> order s"
    and "\<And>k k' n. gm_get (seqs s) k = Some n \<Longrightarrow> gm_get (seqs s) k' = Some n \<Longrightarrow> k = k'"
    and "\<And>lk k. gm_get (latest s) lk = Some k \<Longrightarrow> lk_of k = lk \<and> gm_get (byKey s) k \<noteq> None"
    and "\<And>lk k k'. gm_get (latest s) lk = Some k \<Longrightarrow> lk_of k' = lk \<Longrightarrow> gm_get (byKey s) k' \<noteq> None
      \<Longrightarrow> seq_of s k' \<le> seq_of s k"
  shows "mem_inv s"
  unfolding mem_inv_def using assms by blast

lemma seq_of_le_order: "mem_inv s \<Longrightarrow> seq_of s k \<le> order s"
  by (auto simp: seq_of_def mem_inv_def split: option.split)

lemma seq_of_inj:
  assumes "mem_inv s" "gm_get (byKey s) k \<noteq> None" "gm_get (byKey s) k' \<noteq> None" "seq_of s k = seq_of s k'"
  shows "k = k'"
  using assms mem_invD(4) [OF assms(1)] mem_invD(6) [OF assms(1)]
  by (auto simp: seq_of_def split: option.splits)

lemma seq_of_pos: "mem_inv s \<Longrightarrow> gm_get (byKey s) k \<noteq> None \<Longrightarrow> 0 < seq_of s k"
  using mem_invD(4,5) [of s k] by (auto simp: seq_of_def split: option.split)

lemma mem_inv_New [inv_intros]: "mem_inv NewMemStore"
  by (simp add: mem_inv_def NewMemStore_def store_simps)

lemma mem_inv_Put [inv_intros]:
  assumes inv: "mem_inv s" and put: "Mem_Put key m s = Inr s'"
  shows "mem_inv s'"
proof -
  have s': "byKey s' = gm_set key m (byKey s)" "latest s' = gm_set (lk_of key) key (latest s)"
      "order s' = order s + 1" "seqs s' = gm_set key (order s + 1) (seqs s)"
    using put by (auto simp: Mem_Put_def Let_def)
  have seq: "seq_of s' k = (if k = key then order s + 1 else seq_of s k)" for k
    by (simp add: seq_of_def s' store_simps)
  have top: "seq_of s k \<le> order s + 1" for k
    using seq_of_le_order [OF inv, of k] by simp
  have le: "n \<le> order s" if "gm_get (seqs s) k = Some n" for k n
    using mem_invD(5) [OF inv that] by simp
  show ?thesis
  proof (rule mem_invI)
    show "gm_wf (byKey s')" "gm_wf (latest s')" "gm_wf (seqs s')"
      using mem_invD(1-3) [OF inv] by (simp_all add: s')
    show "gm_get (seqs s') k = None \<longleftrightarrow> gm_get (byKey s') k = None" for k
      using mem_invD(4) [OF inv, of k] by (simp add: s' store_simps)
    show "0 < n \<and> n \<le> order s'" if "gm_get (seqs s') k = Some n" for k n
      using that mem_invD(5) [OF inv, of k n] by (auto simp: s' store_simps split: if_splits)
    show "k = k'" if "gm_get (seqs s') k = Some n" "gm_get (seqs s') k' = Some n" for k k' n
      using that le [of k n] le [of k' n] mem_invD(6) [OF inv, of k n k']
      by (auto simp: s' store_simps split: if_splits)
    show "lk_of k = lk \<and> gm_get (byKey s') k \<noteq> None" if "gm_get (latest s') lk = Some k" for lk k
      using that mem_invD(7,8) [OF inv, of lk k] by (auto simp: s' store_simps split: if_splits)
    show "seq_of s' k' \<le> seq_of s' k"
      if "gm_get (latest s') lk = Some k" "lk_of k' = lk" "gm_get (byKey s') k' \<noteq> None" for lk k k'
      using that top [of k'] mem_invD(7,9) [OF inv, of lk k] unfolding seq
      by (auto simp: s' store_simps split: if_splits)
  qed
qed

lemma mem_inv_Update [inv_intros]:
  assumes "mem_inv s" "Mem_UpdateManifest key m s = Inr s'"
  shows "mem_inv s'"
proof -
  have s': "s' = s\<lparr>byKey := gm_set key m (byKey s)\<rparr>" and "gm_get (byKey s) key \<noteq> None"
    using assms(2) by (auto simp: Mem_UpdateManifest_def split: option.splits)
  moreover have "seq_of s' k = seq_of s k" for k
    by (simp add: s' seq_of_def)
  ultimately show ?thesis
    using assms(1) by (auto simp: mem_inv_def store_simps split: if_splits)
qed

lemma Mem_resolve_lk: "mem_inv s \<Longrightarrow> Mem_resolve key s = Some k \<Longrightarrow> lk_of k = lk_of key"
  using mem_invD(7) by (auto simp: Mem_resolve_def split: if_splits)

lemma mem_inv_Delete [inv_intros]:
  assumes inv: "mem_inv s" and del: "Mem_Delete key s = Inr s'"
  shows "mem_inv s'"
proof -
  obtain k where k: "Mem_resolve key s = Some k" "gm_get (byKey s) k \<noteq> None"
    and s': "byKey s' = gm_del k (byKey s)" "seqs s' = gm_del k (seqs s)" "order s' = order s"
      "latest s' = (if gm_get (latest s) (lk_of key) = Some k then gm_del (lk_of key) (latest s) else latest s)"
    using del by (auto simp: Mem_Delete_def split: option.splits)
  have lk: "lk_of k = lk_of key"
    by (rule Mem_resolve_lk [OF inv k(1)])
  have seq: "seq_of s' j = (if j = k then 0 else seq_of s j)" for j
    by (simp add: seq_of_def s' store_simps)
  have latest: "gm_get (latest s) l = Some j \<and> j \<noteq> k" if "gm_get (latest s') l = Some j" for l j
    using that lk mem_invD(7) [OF inv, of l j] by (auto simp: s' store_simps split: if_splits)
  show ?thesis
  proof (rule mem_invI)
    show "gm_wf (byKey s')" "gm_wf (latest s')" "gm_wf (seqs s')"
      using mem_invD(1-3) [OF inv] by (simp_all add: s')
    show "gm_get (seqs s') j = None \<longleftrightarrow> gm_get (byKey s') j = None" for j
      using mem_invD(4) [OF inv, of j] by (simp add: s' store_simps)
    show "0 < n \<and> n \<le> order s'" if "gm_get (seqs s') j = Some n" for j n
      using that mem_invD(5) [OF inv, of j n] by (simp add: s' store_simps split: if_splits)
    show "j = j'" if "gm_get (seqs s') j = Some n" "gm_get (seqs s') j' = Some n" for j j' n
      using that mem_invD(6) [OF inv, of j n j'] by (simp add: s' store_simps split: if_splits)
    show "lk_of j = l \<and> gm_get (byKey s') j \<noteq> None" if "gm_get (latest s') l = Some j" for l j
      using latest [OF that] mem_invD(7,8) [OF inv, of l j] by (simp add: s' store_simps)
    show "seq_of s' j' \<le> seq_of s' j"
      if "gm_get (latest s') l = Some j" "lk_of j' = l" "gm_get (byKey s') j' \<noteq> None" for l j j'
      using latest [OF that(1)] that(2,3) mem_invD(9) [OF inv, of l j j'] unfolding seq
      by (simp add: s' store_simps split: if_splits)
  qed
qed

section \<open>What a client relies on\<close>

text \<open>
  The abstract view of a store: the manifest of each version, and the current
  version of each object.  A key with an empty version id addresses the current
  version.
\<close>

definition resolve_key :: "(latestKey \<Rightarrow> ManifestKey option) \<Rightarrow> ManifestKey \<Rightarrow> ManifestKey option" where
  "resolve_key cur k = (if k_VersionID k = [] then cur (lk_of k) else Some k)"

locale manifest_store =
  fixes ops :: "'s ManifestStore"
    and invar :: "'s \<Rightarrow> bool"
    and versions :: "'s \<Rightarrow> ManifestKey \<Rightarrow> ObjectManifest option"
    and current :: "'s \<Rightarrow> latestKey \<Rightarrow> ManifestKey option"
  assumes put_law: "invar s \<Longrightarrow> op_Put ops k m s = Inr s' \<Longrightarrow>
      invar s' \<and> versions s' = (versions s)(k \<mapsto> m) \<and> current s' = (current s)(lk_of k \<mapsto> k)"
    and update_law: "invar s \<Longrightarrow> op_UpdateManifest ops k m s = Inr s' \<Longrightarrow>
      invar s' \<and> versions s k \<noteq> None \<and> versions s' = (versions s)(k \<mapsto> m) \<and> current s' = current s"
    and get_law: "invar s \<Longrightarrow> op_Get ops k s = Inr m \<Longrightarrow>
      \<exists>k'. resolve_key (current s) k = Some k' \<and> versions s k' = Some m"
    and get_missing_law: "invar s \<Longrightarrow> op_Get ops k s = Inl ErrNotFound \<Longrightarrow>
      resolve_key (current s) k = Some k' \<Longrightarrow> versions s k' = None"
    and delete_law: "invar s \<Longrightarrow> op_Delete ops k s = Inr s' \<Longrightarrow>
      invar s' \<and> (\<exists>t. resolve_key (current s) k = Some t \<and> versions s t \<noteq> None
        \<and> versions s' = (versions s)(t := None)
        \<and> (\<forall>lk. current s lk \<noteq> Some t \<longrightarrow> current s' lk = current s lk)
        \<and> current s' (lk_of t) \<noteq> Some t)"
    and current_law: "invar s \<Longrightarrow> current s lk = Some k \<Longrightarrow> lk_of k = lk \<and> versions s k \<noteq> None"
    and has_piece_law: "invar s \<Longrightarrow> op_HasManifestWithPieceID ops t p s = Inr b \<Longrightarrow>
      b \<longleftrightarrow> t \<noteq> [] \<and> p \<noteq> [] \<and> (\<exists>k m. versions s k = Some m \<and> k_TenantID k = t
        \<and> p \<in> p_PieceID ` set (m_Pieces m))"
    and list_versions_law: "invar s \<Longrightarrow> op_ListVersions ops t bucket h s = Inr ms \<Longrightarrow>
      set ms = {m. \<exists>k. versions s k = Some m \<and> k_TenantID k = t \<and> k_Bucket k = bucket \<and> k_ObjectKeyHash k = h}"
    and delete_missing_law: "invar s \<Longrightarrow> op_Delete ops k s = Inl ErrNotFound \<Longrightarrow>
      resolve_key (current s) k = Some k' \<Longrightarrow> versions s k' = None"
begin

text \<open>A version that is written is the one read back, by its key and as the current version.\<close>

lemma get_put:
  assumes "invar s" "op_Put ops k m s = Inr s'" "op_Get ops k' s' = Inr m'"
    and "k' = k \<or> k_VersionID k' = [] \<and> lk_of k' = lk_of k"
  shows "m' = m"
proof -
  note put = put_law [OF assms(1,2)]
  obtain t where "resolve_key (current s') k' = Some t" "versions s' t = Some m'"
    using get_law [OF _ assms(3)] put by blast
  then show ?thesis
    using put assms(4) by (auto simp: resolve_key_def split: if_splits)
qed

text \<open>A write leaves every other version as it was.\<close>

lemma versions_put_other:
  assumes "invar s" "op_Put ops k m s = Inr s'" "j \<noteq> k"
  shows "versions s' j = versions s j"
  using put_law [OF assms(1,2)] assms(3) by simp

lemma versions_update_other:
  assumes "invar s" "op_UpdateManifest ops k m s = Inr s'" "j \<noteq> k"
  shows "versions s' j = versions s j"
  using update_law [OF assms(1,2)] assms(3) by simp

text \<open>A delete removes at most the version its key resolves to.\<close>

lemma versions_delete_other:
  assumes "invar s" "op_Delete ops k s = Inr s'" "resolve_key (current s) k \<noteq> Some j"
  shows "versions s' j = versions s j"
  using delete_law [OF assms(1,2)] assms(3) by auto

lemma get_deleted:
  assumes "invar s" "op_Delete ops k s = Inr s'" "k_VersionID k \<noteq> []"
  shows "op_Get ops k s' \<noteq> Inr m"
  using delete_law [OF assms(1,2)] get_law [of s' k m] assms(3) by (auto simp: resolve_key_def)

end

definition mem_versions :: "MemStore \<Rightarrow> ManifestKey \<Rightarrow> ObjectManifest option" where
  "mem_versions s k = gm_get (byKey s) k"

definition mem_current :: "MemStore \<Rightarrow> latestKey \<Rightarrow> ManifestKey option" where
  "mem_current s lk = gm_get (latest s) lk"

lemma Mem_resolve_eq: "Mem_resolve k s = resolve_key (mem_current s) k"
  by (simp add: Mem_resolve_def resolve_key_def mem_current_def)

lemma Mem_Get_iff:
  "Mem_Get k s = Inr m \<longleftrightarrow> (\<exists>t. resolve_key (mem_current s) k = Some t \<and> mem_versions s t = Some m)"
  by (auto simp: Mem_Get_def Mem_resolve_eq mem_versions_def split: option.split)

lemma Mem_Get_not_found:
  "Mem_Get k s = Inl e \<longleftrightarrow> e = ErrNotFound
    \<and> (\<forall>t. resolve_key (mem_current s) k = Some t \<longrightarrow> mem_versions s t = None)"
  by (auto simp: Mem_Get_def Mem_resolve_eq mem_versions_def split: option.split)

lemma Mem_HasManifestWithPieceID_iff:
  assumes "mem_inv s"
  shows "Mem_HasManifestWithPieceID t p s = Inr b \<longleftrightarrow>
    (b \<longleftrightarrow> t \<noteq> [] \<and> p \<noteq> [] \<and> (\<exists>k m. mem_versions s k = Some m \<and> k_TenantID k = t
        \<and> p \<in> p_PieceID ` set (m_Pieces m)))"
proof -
  have "list_ex (\<lambda>(k, m). k_TenantID k = t \<and> list_ex (\<lambda>q. p_PieceID q = p) (m_Pieces m)) (byKey s)
    \<longleftrightarrow> (\<exists>k m. mem_versions s k = Some m \<and> k_TenantID k = t \<and> p \<in> p_PieceID ` set (m_Pieces m))"
    unfolding list_ex_iff mem_versions_def gm_in_iff [OF mem_invD(1) [OF assms], symmetric]
    by (auto simp: image_iff)
  then show ?thesis
    by (auto simp: Mem_HasManifestWithPieceID_def)
qed

lemma Mem_ListVersions_set:
  assumes "mem_inv s"
  shows "Mem_ListVersions t b h s = Inr ms \<Longrightarrow> set ms =
    {m. \<exists>k. mem_versions s k = Some m \<and> k_TenantID k = t \<and> k_Bucket k = b \<and> k_ObjectKeyHash k = h}"
  unfolding mem_versions_def gm_in_iff [OF mem_invD(1) [OF assms], symmetric] Mem_ListVersions_def
  by (force simp: image_iff)

text \<open>Each operation of the in-memory store refines its abstract counterpart.\<close>

lemma Mem_Put_refines:
  assumes "Mem_Put k m s = Inr s'"
  shows "mem_versions s' = (mem_versions s)(k \<mapsto> m)" "mem_current s' = (mem_current s)(lk_of k \<mapsto> k)"
proof -
  have "byKey s' = gm_set k m (byKey s)" "latest s' = gm_set (lk_of k) k (latest s)"
    using assms by (auto simp: Mem_Put_def Let_def)
  then show "mem_versions s' = (mem_versions s)(k \<mapsto> m)" "mem_current s' = (mem_current s)(lk_of k \<mapsto> k)"
    by (auto simp: mem_versions_def mem_current_def store_simps intro!: ext)
qed

lemma Mem_UpdateManifest_refines:
  assumes "Mem_UpdateManifest k m s = Inr s'"
  shows "mem_versions s k \<noteq> None" "mem_versions s' = (mem_versions s)(k \<mapsto> m)" "mem_current s' = mem_current s"
proof -
  have "s' = s\<lparr>byKey := gm_set k m (byKey s)\<rparr>" "gm_get (byKey s) k \<noteq> None"
    using assms by (auto simp: Mem_UpdateManifest_def split: option.splits)
  then show "mem_versions s k \<noteq> None" "mem_versions s' = (mem_versions s)(k \<mapsto> m)" "mem_current s' = mem_current s"
    by (auto simp: mem_versions_def mem_current_def store_simps intro!: ext)
qed

lemma Mem_Delete_refines:
  assumes inv: "mem_inv s" and del: "Mem_Delete k s = Inr s'"
  obtains t where "resolve_key (mem_current s) k = Some t" "mem_versions s t \<noteq> None"
    "mem_versions s' = (mem_versions s)(t := None)"
    "mem_current s' = (if mem_current s (lk_of t) = Some t then (mem_current s)(lk_of t := None) else mem_current s)"
proof -
  obtain t where t: "Mem_resolve k s = Some t" "gm_get (byKey s) t \<noteq> None"
    and s': "byKey s' = gm_del t (byKey s)"
      "latest s' = (if gm_get (latest s) (lk_of k) = Some t then gm_del (lk_of k) (latest s) else latest s)"
    using del by (auto simp: Mem_Delete_def split: option.splits)
  have lk: "lk_of t = lk_of k"
    by (rule Mem_resolve_lk [OF inv t(1)])
  show thesis
  proof (rule that [of t])
    show "resolve_key (mem_current s) k = Some t" "mem_versions s t \<noteq> None"
      using t by (simp_all add: Mem_resolve_eq mem_versions_def)
    show "mem_versions s' = (mem_versions s)(t := None)"
      by (rule ext) (simp add: mem_versions_def s' store_simps)
    show "mem_current s' =
        (if mem_current s (lk_of t) = Some t then (mem_current s)(lk_of t := None) else mem_current s)"
      by (rule ext) (simp add: mem_current_def s' store_simps lk)
  qed
qed

interpretation mem: manifest_store mem_ops mem_inv mem_versions mem_current
proof (unfold_locales, goal_cases)
  case (1 s k m s')
  then have put: "Mem_Put k m s = Inr s'" by (simp add: mem_ops_def)
  show ?case
    using mem_inv_Put [OF 1(1) put] Mem_Put_refines [OF put] by simp
next
  case (2 s k m s')
  then have upd: "Mem_UpdateManifest k m s = Inr s'" by (simp add: mem_ops_def)
  show ?case
    using mem_inv_Update [OF 2(1) upd] Mem_UpdateManifest_refines [OF upd] by simp
next
  case (3 s k m)
  then show ?case by (simp add: mem_ops_def Mem_Get_iff)
next
  case (4 s k k')
  then show ?case by (simp add: mem_ops_def Mem_Get_not_found)
next
  case (5 s k s')
  then have del: "Mem_Delete k s = Inr s'" by (simp add: mem_ops_def)
  obtain t where t: "resolve_key (mem_current s) k = Some t" "mem_versions s t \<noteq> None"
      "mem_versions s' = (mem_versions s)(t := None)"
      "mem_current s' = (if mem_current s (lk_of t) = Some t then (mem_current s)(lk_of t := None) else mem_current s)"
    using Mem_Delete_refines [OF 5(1) del] .
  have "mem_current s' lk = mem_current s lk" if "mem_current s lk \<noteq> Some t" for lk
    using t(4) that by (cases "lk = lk_of t") auto
  then show ?case
    using mem_inv_Delete [OF 5(1) del] t by (intro conjI exI [of _ t]) auto
next
  case (6 s lk k)
  then show ?case using mem_invD(7,8) [OF 6(1)] by (simp add: mem_versions_def mem_current_def)
next
  case (7 s t p b)
  then show ?case by (simp add: mem_ops_def Mem_HasManifestWithPieceID_iff)
next
  case (8 s t bucket h ms)
  then show ?case using Mem_ListVersions_set [OF 8(1)] by (simp add: mem_ops_def)
next
  case (9 s k k')
  then show ?case
    by (simp add: mem_ops_def Mem_Delete_def Mem_resolve_eq mem_versions_def split: option.splits)
qed

section \<open>Listing\<close>

lemma list_rows_set:
  "(n, k, m) \<in> set (list_rows s t b after) \<longleftrightarrow>
    (\<exists>lk. (lk, k) \<in> set (latest s) \<and> lk_TenantID lk = t \<and> lk_Bucket lk = b
      \<and> n = seq_of s k \<and> after < n \<and> gm_get (byKey s) k = Some m)"
  by (force simp: list_rows_def)

lemma list_rows_sorted:
  assumes inv: "mem_inv s"
  shows "sorted_wrt (\<lambda>a b. fst a < fst b) (list_rows s t b after)"
proof -
  let ?P = "\<lambda>(lk, mk). lk_TenantID lk = t \<and> lk_Bucket lk = b \<and> seq_of s mk > after
    \<and> gm_get (byKey s) mk \<noteq> None"
  let ?L = "filter ?P (latest s)"
  have "inj_on (\<lambda>(lk, mk). seq_of s mk) (set ?L)"
  proof (rule inj_onI, clarsimp)
    fix l k l' k' assume a: "(l, k) \<in> set (latest s)" "(l', k') \<in> set (latest s)" "seq_of s k = seq_of s k'"
    have "gm_get (latest s) l = Some k" "gm_get (latest s) l' = Some k'"
      using a gm_in_iff [OF mem_invD(2) [OF inv]] by auto
    then show "l = l' \<and> k = k'"
      using seq_of_inj [OF inv _ _ a(3)] mem_invD(7,8) [OF inv] by metis
  qed
  moreover have "distinct ?L"
    using mem_invD(2) [OF inv] by (simp add: gm_wf_def distinct_map)
  ultimately have "distinct (map (\<lambda>(lk, mk). seq_of s mk) ?L)"
    by (simp add: distinct_map)
  moreover have "map fst (map (\<lambda>(lk, mk). (seq_of s mk, mk, the (gm_get (byKey s) mk))) ?L)
      = map (\<lambda>(lk, mk). seq_of s mk) ?L"
    by (auto simp: case_prod_beta)
  ultimately have "distinct (map fst (list_rows s t b after))"
    unfolding list_rows_def by (metis (no_types, lifting) distinct_map distinct_sort inj_on_cong set_sort)
  moreover have "sorted (map fst (list_rows s t b after))"
    by (simp add: list_rows_def)
  ultimately have "sorted_wrt (<) (map fst (list_rows s t b after))"
    by (simp add: strict_sorted_iff)
  then show ?thesis
    by (simp add: sorted_wrt_map)
qed

lemma list_rows_after:
  assumes "mem_inv s"
  shows "list_rows s t b after = rows_after fst (list_rows s t b 0) (Some after)"
proof -
  have "0 < seq_of s mk" if "gm_get (byKey s) mk \<noteq> None" for mk
    by (rule seq_of_pos [OF assms that])
  then show ?thesis
    by (auto simp: list_rows_def rows_after_def filter_sort filter_map comp_def case_prod_beta
        intro!: arg_cong [where f = "sort_key fst"] map_cong filter_cong)
qed

interpretation list_pager: keyset_pager mem_inv "\<lambda>s. list_rows s t b 0" "\<lambda>s. fst" for t b
  by unfold_locales (rule list_rows_sorted)

definition page_limit :: "int \<Rightarrow> nat" where
  "page_limit limit = nat (if limit \<le> 0 then 1000 else limit)"

definition list_cursor :: "nat option \<Rightarrow> string" where
  "list_cursor c = (case c of None \<Rightarrow> [] | Some n \<Rightarrow> FormatUint n)"

text \<open>\<open>List\<close> is the pager over the rows of the bucket, with decimal cursors.\<close>

lemma Mem_List_page:
  assumes "mem_inv s" "\<And>n. c = Some n \<Longrightarrow> n < 2 ^ 64"
  shows "Mem_List t b (list_cursor c) limit s =
    (let (rs, nc) = page_of fst (list_rows s t b 0) (page_limit limit) c in
     Inr \<lparr>lr_Manifests = map (snd \<circ> snd) rs, lr_NextCursor = list_cursor nc\<rparr>)"
proof (cases c)
  case None
  then show ?thesis
    by (simp add: Mem_List_def list_cursor_def page_of_def rows_after_def page_limit_def Let_def)
next
  case (Some n)
  then have "ParseUint (list_cursor c) = Inr n" "list_cursor c \<noteq> []"
    using assms(2) by (simp_all add: list_cursor_def)
  then show ?thesis
    unfolding Mem_List_def by (simp add: Some list_rows_after [OF assms(1), of t b n, symmetric]
        page_of_def page_limit_def Let_def list_cursor_def)
qed

text \<open>The loop of a caller that lists a bucket to its end.\<close>

fun list_drain :: "nat \<Rightarrow> 's ManifestStore \<Rightarrow> string \<Rightarrow> string \<Rightarrow> string \<Rightarrow> int \<Rightarrow> 's
    \<Rightarrow> ObjectManifest list option" where
  "list_drain 0 ops t b cursor limit s = None"
| "list_drain (Suc fuel) ops t b cursor limit s =
    (case op_List ops t b cursor limit s of
       Inl _ \<Rightarrow> None
     | Inr r \<Rightarrow> if lr_NextCursor r = [] then Some (lr_Manifests r)
         else map_option ((@) (lr_Manifests r)) (list_drain fuel ops t b (lr_NextCursor r) limit s))"

lemma page_limit_pos [simp]: "0 < page_limit limit"
  by (simp add: page_limit_def)

lemma list_cursor_eq_Nil [simp]: "list_cursor c = [] \<longleftrightarrow> c = None"
  by (simp add: list_cursor_def split: option.split)

lemma page_of_cursor:
  assumes "mem_inv s" "page_of fst (list_rows s t b 0) lim c = (rs, Some n)" "0 < lim"
  shows "n \<le> order s"
proof -
  let ?r = "rows_after fst (list_rows s t b 0) c"
  have "lim < length ?r" and n: "n = fst (last (take lim ?r))"
    using assms(2) by (auto simp: page_of_def Let_def split: if_splits)
  then have "last (take lim ?r) \<in> set ?r"
    using assms(3) by (intro in_set_takeD [OF last_in_set]) auto
  then have "last (take lim ?r) \<in> set (list_rows s t b 0)"
    by (auto simp: rows_after_def split: option.splits)
  then obtain k m where "(n, k, m) \<in> set (list_rows s t b 0)"
    by (metis n prod.collapse)
  then show ?thesis
    using seq_of_le_order [OF assms(1)] by (auto simp: list_rows_set)
qed

lemma list_drain_pages:
  assumes "mem_inv s" "order s < 2 ^ 64" "\<And>n. c = Some n \<Longrightarrow> n \<le> order s"
  shows "list_drain fuel mem_ops t b (list_cursor c) limit s =
    map_option (map (snd \<circ> snd)) (drain_pages fuel fst (list_rows s t b 0) (page_limit limit) c)"
  using assms(3)
proof (induction fuel arbitrary: c)
  case (Suc fuel)
  obtain rs nc where page: "page_of fst (list_rows s t b 0) (page_limit limit) c = (rs, nc)" by fastforce
  have "n < 2 ^ 64" if "c = Some n" for n
    using Suc.prems [OF that] assms(2) by simp
  then have "op_List mem_ops t b (list_cursor c) limit s =
      Inr \<lparr>lr_Manifests = map (snd \<circ> snd) rs, lr_NextCursor = list_cursor nc\<rparr>"
    by (simp add: mem_ops_def Mem_List_page [OF assms(1)] page)
  moreover have "n \<le> order s" if "nc = Some n" for n
    using page_of_cursor [OF assms(1) page [unfolded that]] by simp
  ultimately show ?case
    using Suc.IH [of nc] page by (cases nc) (simp_all add: option.map_comp comp_def)
qed simp

lemma list_rows_keys:
  assumes inv: "mem_inv s"
  shows "set (map (fst \<circ> snd) (list_rows s t b 0)) =
    {k. mem_current s (lk_of k) = Some k \<and> k_TenantID k = t \<and> k_Bucket k = b}"
proof (intro equalityI subsetI)
  fix k assume "k \<in> set (map (fst \<circ> snd) (list_rows s t b 0))"
  then obtain r where "r \<in> set (list_rows s t b 0)" "k = fst (snd r)"
    by auto
  then have "(fst r, k, snd (snd r)) \<in> set (list_rows s t b 0)"
    by simp
  then obtain lk where "gm_get (latest s) lk = Some k" "lk_TenantID lk = t" "lk_Bucket lk = b"
    unfolding list_rows_set gm_in_iff [OF mem_invD(2) [OF inv]] by blast
  moreover from this have "lk = lk_of k"
    using mem_invD(7) [OF inv] by simp
  ultimately show "k \<in> {k. mem_current s (lk_of k) = Some k \<and> k_TenantID k = t \<and> k_Bucket k = b}"
    by (simp add: mem_current_def lk_of_def)
next
  fix k assume "k \<in> {k. mem_current s (lk_of k) = Some k \<and> k_TenantID k = t \<and> k_Bucket k = b}"
  then have k: "gm_get (latest s) (lk_of k) = Some k" "k_TenantID k = t" "k_Bucket k = b"
    by (simp_all add: mem_current_def)
  then obtain m where m: "gm_get (byKey s) k = Some m"
    using mem_invD(8) [OF inv] by blast
  then have "(seq_of s k, k, m) \<in> set (list_rows s t b 0)"
    unfolding list_rows_set gm_in_iff [OF mem_invD(2) [OF inv]]
    using k seq_of_pos [OF inv, of k] by (intro exI [of _ "lk_of k"]) (simp add: lk_of_def)
  then show "k \<in> set (map (fst \<circ> snd) (list_rows s t b 0))"
    by force
qed

lemma list_rows_by_key:
  "map (snd \<circ> snd) (list_rows s t b 0) =
    map (\<lambda>k. the (mem_versions s k)) (map (fst \<circ> snd) (list_rows s t b 0))"
  by (auto simp: mem_versions_def list_rows_set)

lemma list_rows_key_order:
  assumes "mem_inv s"
  shows "sorted_wrt (\<lambda>a b. seq_of s a < seq_of s b) (map (fst \<circ> snd) (list_rows s t b 0))"
proof -
  have "fst r = seq_of s (fst (snd r))" if "r \<in> set (list_rows s t b 0)" for r
    using that list_rows_set [of "fst r" "fst (snd r)" "snd (snd r)"] by auto
  then have "sorted_wrt (\<lambda>a b. seq_of s (fst (snd a)) < seq_of s (fst (snd b))) (list_rows s t b 0)"
    by (intro sorted_wrt_mono_rel [OF _ list_rows_sorted [OF assms, of t b 0]]) simp
  then show ?thesis
    by (simp add: sorted_wrt_map)
qed

lemma length_list_rows: "length (list_rows s t b after) \<le> length (latest s)"
  by (simp add: list_rows_def)

text \<open>
  C19: listing a bucket page by page, with any page size, ends and yields the
  manifest of the current version of every object of the bucket, each exactly
  once, in the order in which they were written.
\<close>

theorem List_drain_complete:
  assumes "mem_inv s" "order s < 2 ^ 64" "length (latest s) < fuel"
  shows "\<exists>ks. list_drain fuel mem_ops tenantID bucket [] limit s
      = Some (map (\<lambda>k. the (mem_versions s k)) ks)
    \<and> sorted_wrt (\<lambda>a b. seq_of s a < seq_of s b) ks
    \<and> set ks = {k. mem_current s (lk_of k) = Some k \<and> k_TenantID k = tenantID \<and> k_Bucket k = bucket}"
proof (intro exI conjI)
  let ?rows = "list_rows s tenantID bucket 0"
  have "drain_pages fuel fst ?rows (page_limit limit) None = Some ?rows"
    using assms length_list_rows [of s tenantID bucket 0] by (intro list_pager.drain_complete) auto
  then show "list_drain fuel mem_ops tenantID bucket [] limit s =
      Some (map (\<lambda>k. the (mem_versions s k)) (map (fst \<circ> snd) ?rows))"
    unfolding list_rows_by_key [symmetric]
    using list_drain_pages [OF assms(1,2), of None fuel tenantID bucket limit]
    by (simp add: list_cursor_def)
  show "sorted_wrt (\<lambda>a b. seq_of s a < seq_of s b) (map (fst \<circ> snd) ?rows)"
    by (rule list_rows_key_order [OF assms(1)])
  show "set (map (fst \<circ> snd) ?rows) =
      {k. mem_current s (lk_of k) = Some k \<and> k_TenantID k = tenantID \<and> k_Bucket k = bucket}"
    by (rule list_rows_keys [OF assms(1)])
qed

text \<open>A store filled by a sequence of writes, for concrete instances.\<close>

definition mem_put_all :: "(ManifestKey \<times> ObjectManifest) list \<Rightarrow> MemStore \<Rightarrow> MemStore" where
  "mem_put_all kms s = foldl (\<lambda>s (k, m). projr (Mem_Put k m s)) s kms"

definition mkey :: "string \<Rightarrow> string \<Rightarrow> string \<Rightarrow> string \<Rightarrow> ManifestKey" where
  "mkey t b h v = \<lparr>k_TenantID = t, k_Bucket = b, k_ObjectKeyHash = h, k_VersionID = v\<rparr>"

definition sample_manifest :: "string \<Rightarrow> ObjectManifest" where
  "sample_manifest v = zero_ObjectManifest\<lparr>m_VersionID := v\<rparr>"

lemma mem_inv_put_all: "mem_inv s \<Longrightarrow> mem_inv (mem_put_all kms s)"
proof (induction kms arbitrary: s)
  case (Cons km kms)
  obtain k m where km: "km = (k, m)" by fastforce
  have "Mem_Put k m s = Inr (projr (Mem_Put k m s))"
    by (simp add: Mem_Put_def Let_def)
  then have "mem_inv (projr (Mem_Put k m s))"
    by (rule mem_inv_Put [OF Cons.prems])
  then show ?case
    using Cons.IH by (simp add: mem_put_all_def km)
qed (simp add: mem_put_all_def)

definition sample_store :: MemStore where
  "sample_store = mem_put_all
    [(mkey ''t'' ''b'' ''h1'' ''v1'', sample_manifest ''v1''),
     (mkey ''t'' ''b'' ''h2'' ''v2'', sample_manifest ''v2''),
     (mkey ''t'' ''b'' ''h1'' ''v3'', sample_manifest ''v3'')] NewMemStore"

lemma mem_inv_sample: "mem_inv sample_store"
  by (simp add: sample_store_def mem_inv_put_all mem_inv_New)

lemma sample_store_sizes: "order sample_store = 3" "length (latest sample_store) = 2"
  by code_simp+

theorem List_drain_complete_witness:
  "\<exists>ks. list_drain 3 mem_ops ''t'' ''b'' [] 1 sample_store
      = Some (map (\<lambda>k. the (mem_versions sample_store k)) ks)
    \<and> sorted_wrt (\<lambda>a b. seq_of sample_store a < seq_of sample_store b) ks
    \<and> set ks = {k. mem_current sample_store (lk_of k) = Some k \<and> k_TenantID k = ''t'' \<and> k_Bucket k = ''b''}"
  using List_drain_complete [OF mem_inv_sample, of 3 "''t''" "''b''" 1] by (simp add: sample_store_sizes)

section \<open>Scanning\<close>

lemma scanKeyLess_iff: "scanKeyLess a b \<longleftrightarrow> key_tuple a < key_tuple b"
  by (auto simp: scanKeyLess_def key_tuple_def less_prod_def)

lemma key_tuple_inj: "key_tuple a = key_tuple b \<longleftrightarrow> a = b"
  by (auto simp: key_tuple_def)

lemma scan_keys_sorted:
  assumes "mem_inv s"
  shows "sorted_wrt (\<lambda>a b. key_tuple a < key_tuple b) (scan_keys None s)"
proof -
  have "distinct (map key_tuple (scan_keys None s))"
    using mem_invD(1) [OF assms]
    by (simp add: scan_keys_def gm_wf_def distinct_map inj_on_def key_tuple_inj)
  then have "sorted_wrt (<) (map key_tuple (scan_keys None s))"
    by (simp add: strict_sorted_iff scan_keys_def)
  then show ?thesis
    by (simp add: sorted_wrt_map)
qed

lemma scan_keys_after: "scan_keys (Some c) s = rows_after key_tuple (scan_keys None s) (Some (key_tuple c))"
  by (simp add: scan_keys_def rows_after_def filter_sort scanKeyLess_iff)

interpretation scan_pager: keyset_pager mem_inv "scan_keys None" "\<lambda>s. key_tuple"
  by unfold_locales (rule scan_keys_sorted)

fun scan_drain :: "nat \<Rightarrow> 's ManifestStore \<Rightarrow> ManifestKey option \<Rightarrow> int \<Rightarrow> 's
    \<Rightarrow> (ManifestKey \<times> ObjectManifest) list option" where
  "scan_drain 0 ops cursor limit s = None"
| "scan_drain (Suc fuel) ops cursor limit s =
    (case op_ScanManifests ops cursor limit s of
       Inl _ \<Rightarrow> None
     | Inr r \<Rightarrow> (case sr_NextCursor r of
           None \<Rightarrow> Some (sr_Manifests r)
         | Some c \<Rightarrow> map_option ((@) (sr_Manifests r)) (scan_drain fuel ops (Some c) limit s)))"

definition scan_entry :: "MemStore \<Rightarrow> ManifestKey \<Rightarrow> ManifestKey \<times> ObjectManifest" where
  "scan_entry s k = (k, the (mem_versions s k))"

lemma Mem_Scan_page:
  "\<exists>rs nc. page_of key_tuple (scan_keys None s) (page_limit limit) (map_option key_tuple c)
      = (rs, map_option key_tuple nc)
    \<and> op_ScanManifests mem_ops c limit s = Inr \<lparr>sr_Manifests = map (scan_entry s) rs, sr_NextCursor = nc\<rparr>"
proof -
  let ?rs = "rows_after key_tuple (scan_keys None s) (map_option key_tuple c)" and ?lim = "page_limit limit"
  have keys: "scan_keys c s = ?rs"
    by (cases c) (simp_all add: scan_keys_after, simp add: rows_after_def)
  have last: "last (take ?lim ?rs) = ?rs ! (?lim - 1)" if "?lim < length ?rs"
    using that page_limit_pos [of limit] by (subst last_conv_nth) (auto simp del: page_limit_pos)
  show ?thesis
  proof (cases "?lim < length ?rs")
    case True
    then show ?thesis
      using last by (intro exI [of _ "take ?lim ?rs"] exI [of _ "Some (?rs ! (?lim - 1))"])
        (simp add: page_of_def Let_def mem_ops_def Mem_ScanManifests_def keys scan_entry_def
          mem_versions_def flip: page_limit_def)
  next
    case False
    then show ?thesis
      by (intro exI [of _ ?rs] exI [of _ None])
        (simp add: page_of_def Let_def mem_ops_def Mem_ScanManifests_def keys scan_entry_def
          mem_versions_def flip: page_limit_def)
  qed
qed

lemma scan_drain_pages:
  "scan_drain fuel mem_ops c limit s = map_option (map (scan_entry s))
    (drain_pages fuel key_tuple (scan_keys None s) (page_limit limit) (map_option key_tuple c))"
proof (induction fuel arbitrary: c)
  case (Suc fuel)
  obtain rs nc where "page_of key_tuple (scan_keys None s) (page_limit limit) (map_option key_tuple c)
      = (rs, map_option key_tuple nc)"
      "op_ScanManifests mem_ops c limit s = Inr \<lparr>sr_Manifests = map (scan_entry s) rs, sr_NextCursor = nc\<rparr>"
    using Mem_Scan_page by blast
  then show ?case
    using Suc.IH [of nc] by (cases nc) (simp_all add: option.map_comp comp_def)
qed simp

lemma length_scan_keys: "length (scan_keys None s) = length (byKey s)"
  by (simp add: scan_keys_def)

lemma scan_keys_set: "set (scan_keys None s) = dom (mem_versions s)"
proof -
  have "mem_versions s = map_of (byKey s)"
    by (rule ext) (simp add: mem_versions_def gm_get_def)
  then show ?thesis
    by (simp add: scan_keys_def dom_map_of_conv_image_fst)
qed



section \<open>Versions\<close>

lemma sort_key_hd_max:
  fixes f :: "'a \<Rightarrow> int"
  assumes "x \<in> set xs" "\<And>y. y \<in> set xs \<Longrightarrow> f x \<le> f y" "\<And>y. y \<in> set xs \<Longrightarrow> f y = f x \<Longrightarrow> y = x"
  shows "\<exists>ys. sort_key f xs = x # ys"
proof -
  obtain y ys where y: "sort_key f xs = y # ys"
    using assms(1) by (cases "sort_key f xs") (auto dest: arg_cong [where f = set])
  then have "y \<in> set xs" "\<forall>z \<in> set xs. z = y \<or> f y \<le> f z"
    using sorted_sort_key [of f xs] set_sort [of f xs] by (auto simp: y)
  then have "f y = f x"
    using assms(1,2) by force
  then show ?thesis
    using assms(3) \<open>y \<in> set xs\<close> y by blast
qed

text \<open>
  C26: reading an object without a version id returns its most recently written
  stored version, the one \<open>ListVersions\<close> reports first.
\<close>

theorem Get_current_is_newest:
  assumes inv: "mem_inv s" and get: "Mem_Get (mkey t b h []) s = Inr m"
  shows "\<exists>ms. Mem_ListVersions t b h s = Inr (m # ms)"
proof -
  let ?P = "\<lambda>(k, m). k_TenantID k = t \<and> k_Bucket k = b \<and> k_ObjectKeyHash k = h"
  let ?R = "map (\<lambda>(k, m). (seq_of s k, m)) (filter ?P (byKey s))"
  note wf = gm_in_iff [OF mem_invD(1) [OF inv]]
  obtain k where k: "gm_get (latest s) (lk_of (mkey t b h [])) = Some k" "gm_get (byKey s) k = Some m"
    using get by (auto simp: Mem_Get_iff resolve_key_def mkey_def mem_current_def mem_versions_def)
  have lk: "lk_of k = lk_of (mkey t b h [])"
    by (rule mem_invD(7) [OF inv k(1)])
  then have "(k, m) \<in> set (filter ?P (byKey s))"
    using k(2) wf by (simp add: lk_of_def mkey_def)
  then have mem: "(seq_of s k, m) \<in> set ?R" by force
  have row: "\<exists>k'. gm_get (byKey s) k' = Some (snd r) \<and> fst r = seq_of s k' \<and> lk_of k' = lk_of (mkey t b h [])"
    if "r \<in> set ?R" for r
    using that wf by (auto simp: lk_of_def mkey_def)
  have "\<exists>ys. sort_key (\<lambda>r. - int (fst r)) ?R = (seq_of s k, m) # ys"
  proof (rule sort_key_hd_max [OF mem])
    fix r assume r: "r \<in> set ?R"
    obtain k' where k': "gm_get (byKey s) k' = Some (snd r)" "fst r = seq_of s k'"
        "lk_of k' = lk_of (mkey t b h [])"
      using row [OF r] by blast
    show "- int (fst (seq_of s k, m)) \<le> - int (fst r)"
      using mem_invD(9) [OF inv k(1) k'(3)] k' by simp
    assume "- int (fst r) = - int (fst (seq_of s k, m))"
    then have "k' = k"
      using seq_of_inj [OF inv, of k' k] k' k(2) by simp
    then show "r = (seq_of s k, m)"
      using k' k(2) by (metis option.inject prod.collapse)
  qed
  then show ?thesis
    by (auto simp: Mem_ListVersions_def)
qed

theorem Get_current_is_newest_witness:
  "\<exists>ms. Mem_ListVersions ''t'' ''b'' ''h1'' sample_store = Inr (sample_manifest ''v3'' # ms)"
proof -
  have "Mem_Get (mkey ''t'' ''b'' ''h1'' []) sample_store = Inr (sample_manifest ''v3'')"
    by code_simp
  then show ?thesis
    by (rule Get_current_is_newest [OF mem_inv_sample])
qed

text \<open>
  C20: a write is read back, by its own key and as the current version of its
  object, and no read of another version or of another object changes.
\<close>

theorem Put_read_back:
  assumes "Mem_Put key m s = Inr s'" "k_VersionID j \<noteq> [] \<and> j \<noteq> key \<or> lk_of j \<noteq> lk_of key"
    and "mem_inv s"
  shows "Mem_Get key s' = Inr m \<and> Mem_Get (key\<lparr>k_VersionID := []\<rparr>) s' = Inr m
    \<and> Mem_Get j s' = Mem_Get j s"
proof (intro conjI)
  note put = Mem_Put_refines [OF assms(1)]
  show "Mem_Get key s' = Inr m" "Mem_Get (key\<lparr>k_VersionID := []\<rparr>) s' = Inr m"
    by (simp_all add: Mem_Get_iff put resolve_key_def lk_of_def)
  have "resolve_key (mem_current s') j = resolve_key (mem_current s) j"
    using assms(2) put(2) by (auto simp: resolve_key_def)
  moreover have "t \<noteq> key" if "resolve_key (mem_current s) j = Some t" for t
    using assms(2) Mem_resolve_lk [OF assms(3), of j t] that
    by (auto simp: resolve_key_def Mem_resolve_eq split: if_splits)
  ultimately show "Mem_Get j s' = Mem_Get j s"
    using put(1) by (cases "resolve_key (mem_current s) j")
      (auto simp: Mem_Get_def Mem_resolve_eq mem_versions_def fun_upd_def fun_eq_iff)
qed

theorem Put_read_back_witness:
  "\<exists>s'. Mem_Put (mkey ''t'' ''b'' ''h1'' ''v4'') (sample_manifest ''v4'') sample_store = Inr s'
    \<and> Mem_Get (mkey ''t'' ''b'' ''h1'' []) s' = Inr (sample_manifest ''v4'')
    \<and> Mem_Get (mkey ''t'' ''b'' ''h2'' []) s' = Mem_Get (mkey ''t'' ''b'' ''h2'' []) sample_store"
proof -
  obtain s' where s': "Mem_Put (mkey ''t'' ''b'' ''h1'' ''v4'') (sample_manifest ''v4'') sample_store = Inr s'"
    by (simp add: Mem_Put_def Let_def)
  then show ?thesis
    using Put_read_back [OF s', of "mkey ''t'' ''b'' ''h2'' []"] mem_inv_sample
    by (simp add: mkey_def lk_of_def)
qed

text \<open>
  C38: deleting the current version of an object leaves the object without a
  current version.  Older versions stay readable by their id but the object can
  no longer be read, listed or deleted without one.
\<close>

theorem Delete_current_hides_object:
  assumes "mem_inv s" "Mem_Delete key s = Inr s'"
    and "k_VersionID key = [] \<or> mem_current s (lk_of key) = Some key"
  shows "Mem_Get (key\<lparr>k_VersionID := []\<rparr>) s' = Inl ErrNotFound
    \<and> (\<forall>j. mem_current s (lk_of key) \<noteq> Some j \<longrightarrow> mem_versions s' j = mem_versions s j)"
proof (intro conjI allI impI)
  obtain t where t: "resolve_key (mem_current s) key = Some t"
      "mem_versions s' = (mem_versions s)(t := None)"
      "mem_current s' = (if mem_current s (lk_of t) = Some t then (mem_current s)(lk_of t := None) else mem_current s)"
    by (rule Mem_Delete_refines [OF assms(1,2)])
  have cur: "mem_current s (lk_of key) = Some t"
    using assms(3) t(1) by (auto simp: resolve_key_def split: if_splits)
  have "lk_of t = lk_of key"
    using Mem_resolve_lk [OF assms(1), of key t] t(1) by (simp add: Mem_resolve_eq)
  then have "mem_current s' (lk_of key) = None"
    using cur t(3) by simp
  then show "Mem_Get (key\<lparr>k_VersionID := []\<rparr>) s' = Inl ErrNotFound"
    by (simp add: Mem_Get_not_found resolve_key_def lk_of_def)
  show "mem_versions s' j = mem_versions s j" if "mem_current s (lk_of key) \<noteq> Some j" for j
    using cur t(2) that by auto
qed

theorem Delete_current_hides_object_witness:
  "\<exists>s'. Mem_Delete (mkey ''t'' ''b'' ''h1'' []) sample_store = Inr s'
    \<and> Mem_Get (mkey ''t'' ''b'' ''h1'' []) s' = Inl ErrNotFound
    \<and> mem_versions s' (mkey ''t'' ''b'' ''h1'' ''v1'') = Some (sample_manifest ''v1'')"
proof -
  have e: "mem_current sample_store (lk_of (mkey ''t'' ''b'' ''h1'' [])) = Some (mkey ''t'' ''b'' ''h1'' ''v3'')"
      "mem_versions sample_store (mkey ''t'' ''b'' ''h1'' ''v1'') = Some (sample_manifest ''v1'')"
      "is_ok (Mem_Delete (mkey ''t'' ''b'' ''h1'' []) sample_store)"
    by code_simp+
  then obtain s' where s': "Mem_Delete (mkey ''t'' ''b'' ''h1'' []) sample_store = Inr s'"
    by (auto simp: is_ok_def split: sum.splits)
  then show ?thesis
    using Delete_current_hides_object [OF mem_inv_sample s'] e(1,2) by (simp add: mkey_def)
qed

end
