(* ===== verification/Go_Time.thy ===== *)
theory Go_Time
  imports Fabric_Prelude
begin

text \<open>
  The calendar part of the Go package \<open>time\<close> the sources use, in UTC: the civil
  date of a time, \<open>Date\<close> with its normalisation of days, \<open>AddDate\<close> with whole
  years and days, and \<open>Truncate\<close> to a day.  The day number 0 is
  1 January of year 1, the day of the zero Time.
\<close>

definition is_leap :: "int \<Rightarrow> bool" where
  "is_leap y \<longleftrightarrow> y mod 4 = 0 \<and> (y mod 100 \<noteq> 0 \<or> y mod 400 = 0)"

definition days_before_year :: "int \<Rightarrow> int" where
  "days_before_year y = 365 * (y - 1) + (y - 1) div 4 - (y - 1) div 100 + (y - 1) div 400"

definition days_before_month :: "int \<Rightarrow> nat \<Rightarrow> int" where
  "days_before_month y m =
    [0, 31, 59, 90, 120, 151, 181, 212, 243, 273, 304, 334, 365] ! (m - 1)
      + (if is_leap y \<and> m > 2 then 1 else 0)"

lemma div_pred:
  fixes y k :: int
  assumes "0 < k"
  shows "y div k - (y - 1) div k = (if y mod k = 0 then 1 else 0)"
proof -
  have "y - 1 = k * (y div k) + (y mod k - 1)"
    using mult_div_mod_eq [of k y] by linarith
  then have "(y - 1) div k = (k * (y div k) + (y mod k - 1)) div k"
    by metis
  also have "\<dots> = y div k + (y mod k - 1) div k"
    using assms by (subst div_mult_self4) auto
  also have "(y mod k - 1) div k = (if y mod k = 0 then - 1 else 0)"
  proof (cases "y mod k = 0")
    case True
    then show ?thesis using assms by (simp add: div_eq_minus1)
  next
    case False
    then have "0 \<le> y mod k - 1" "y mod k - 1 < k"
      using assms pos_mod_bound [OF assms, of y] pos_mod_sign [OF assms, of y] by linarith+
    then show ?thesis using False by (simp add: div_pos_pos_trivial)
  qed
  finally show ?thesis by simp
qed

lemma days_before_year_step: "days_before_year (y + 1) = days_before_year y + 365 + (if is_leap y then 1 else 0)"
proof -
  have c: "y mod 400 = 0 \<Longrightarrow> y mod 100 = 0" "y mod 100 = 0 \<Longrightarrow> y mod 4 = 0"
    using dvd_trans [of 100 400 y] dvd_trans [of 4 100 y] by (simp_all add: mod_eq_0_iff_dvd)
  have "days_before_year (y + 1) - days_before_year y =
      365 + (y div 4 - (y - 1) div 4) - (y div 100 - (y - 1) div 100) + (y div 400 - (y - 1) div 400)"
    by (simp only: days_before_year_def) simp
  also have "\<dots> = 365 + (if y mod 4 = 0 then 1 else 0) - (if y mod 100 = 0 then 1 else 0)
      + (if y mod 400 = 0 then 1 else 0)"
    by (simp only: div_pred [of 4 y] div_pred [of 100 y] div_pred [of 400 y] zero_less_numeral)
  also have "\<dots> = 365 + (if is_leap y then 1 else 0)"
    unfolding is_leap_def using c
    by (cases "y mod 4 = 0"; cases "y mod 100 = 0"; cases "y mod 400 = 0") (simp_all only: if_True if_False, simp_all)
  finally show ?thesis by linarith
qed

function year_from :: "int \<Rightarrow> int \<Rightarrow> int" where
  "year_from y d = (if days_before_year (y + 1) \<le> d then year_from (y + 1) d else y)"
  by pat_completeness auto
termination
  by (relation "measure (\<lambda>(y, d). nat (d - days_before_year y))") (auto simp: days_before_year_step split: if_splits)

declare year_from.simps [simp del]

definition year_of_day :: "int \<Rightarrow> int" where
  "year_of_day d = year_from (d div 366 + 1) d"

fun month_from :: "nat \<Rightarrow> int \<Rightarrow> int \<Rightarrow> nat \<Rightarrow> nat" where
  "month_from 0 y yd m = m"
| "month_from (Suc fuel) y yd m = (if days_before_month y (m + 1) \<le> yd then month_from fuel y yd (m + 1) else m)"

definition day_number :: "gotime \<Rightarrow> int" where "day_number t = t div day"

definition Year :: "gotime \<Rightarrow> int" where "Year t = year_of_day (day_number t)"

definition Month :: "gotime \<Rightarrow> nat" where
  "Month t = month_from 11 (Year t) (day_number t - days_before_year (Year t)) 1"

definition Day :: "gotime \<Rightarrow> int" where
  "Day t = day_number t - days_before_year (Year t) - days_before_month (Year t) (Month t) + 1"

text \<open>\<open>time.Date\<close> for a month in range, at a time of day: days overflow into the next months.\<close>

definition Date :: "int \<Rightarrow> nat \<Rightarrow> int \<Rightarrow> duration \<Rightarrow> gotime" where
  "Date y m d clock = (days_before_year y + days_before_month y m + d - 1) * day + clock"

definition AddDate :: "gotime \<Rightarrow> int \<Rightarrow> int \<Rightarrow> gotime" where
  "AddDate t years days = Date (Year t + years) (Month t) (Day t + days) (t mod day)"

definition TruncateDay :: "gotime \<Rightarrow> gotime" where "TruncateDay t = t div day * day"

section \<open>Facts\<close>

lemma day_pos [simp]: "0 < day"
  by (simp add: day_def hour_def second_def)

lemma days_before_year_ge:
  assumes "0 \<le> n"
  shows "days_before_year y + 365 * n \<le> days_before_year (y + n)"
  using assms
proof (induction n rule: int_ge_induct)
  case (step n)
  then show ?case
    using days_before_year_step [of "y + n"] by (simp add: add.assoc split: if_splits)
qed simp

lemma year_from_le: "y \<le> year_from y d"
proof (induction y d rule: year_from.induct)
  case (1 y d)
  then show ?case
    by (subst year_from.simps) (auto intro: order_trans [of y "y + 1"])
qed

lemma year_from_upper: "d < days_before_year (year_from y d + 1)"
  by (induction y d rule: year_from.induct) (subst year_from.simps, auto)

lemma year_from_lower: "days_before_year y \<le> d \<Longrightarrow> days_before_year (year_from y d) \<le> d"
  by (induction y d rule: year_from.induct) (subst year_from.simps, auto)

lemma days_before_year_le: "0 \<le> n \<Longrightarrow> days_before_year (n + 1) \<le> 366 * n"
proof (induction n rule: int_ge_induct)
  case (step n)
  then show ?case
    using days_before_year_step [of "n + 1"] by (simp split: if_splits)
qed (simp add: days_before_year_def)

lemma Year_bounds:
  assumes "0 \<le> t"
  shows "days_before_year (Year t) \<le> day_number t" "day_number t < days_before_year (Year t + 1)" "1 \<le> Year t"
proof -
  have d: "0 \<le> day_number t"
    using assms by (simp add: day_number_def pos_imp_zdiv_nonneg_iff)
  have "days_before_year (day_number t div 366 + 1) \<le> 366 * (day_number t div 366)"
    using d by (intro days_before_year_le) (simp add: pos_imp_zdiv_nonneg_iff)
  also have "\<dots> \<le> day_number t"
    using mult_div_mod_eq [of 366 "day_number t"] pos_mod_sign [of 366 "day_number t"] by linarith
  finally show "days_before_year (Year t) \<le> day_number t"
    unfolding Year_def year_of_day_def by (rule year_from_lower)
  show "day_number t < days_before_year (Year t + 1)"
    unfolding Year_def year_of_day_def by (rule year_from_upper)
  show "1 \<le> Year t"
    using d year_from_le [of "day_number t div 366 + 1" "day_number t"]
    unfolding Year_def year_of_day_def by (simp add: pos_imp_zdiv_nonneg_iff)
qed

text \<open>\<open>Date\<close> of the civil date and clock of a time is the time.\<close>

lemma Date_civil: "Date (Year t) (Month t) (Day t) (t mod day) = t"
  by (simp add: Date_def Day_def day_number_def)

lemma AddDate_days: "AddDate t 0 n = t + n * day"
proof -
  have "AddDate t 0 n = Date (Year t) (Month t) (Day t) (t mod day) + n * day"
    by (simp add: AddDate_def Date_def algebra_simps)
  then show ?thesis by (simp add: Date_civil)
qed

lemma days_before_month_leap: "days_before_month y m - 1 \<le> days_before_month y' m"
  by (simp add: days_before_month_def)

lemma AddDate_years:
  assumes "0 < n"
  shows "t + 364 * n * day \<le> AddDate t n 0"
proof -
  have *: "days_before_year (Year t) + days_before_month (Year t) (Month t) + 364 * n
      \<le> days_before_year (Year t + n) + days_before_month (Year t + n) (Month t)"
    using days_before_year_ge [of n "Year t"] days_before_month_leap [of "Year t" "Month t" "Year t + n"] assms
    by linarith
  have "t + 364 * n * day = Date (Year t) (Month t) (Day t) (t mod day) + 364 * n * day"
    by (simp add: Date_civil)
  also have "\<dots> = (days_before_year (Year t) + days_before_month (Year t) (Month t) + 364 * n + Day t - 1) * day
      + t mod day"
    by (simp add: Date_def algebra_simps)
  also have "\<dots> \<le> AddDate t n 0"
    unfolding AddDate_def Date_def using * by (intro add_right_mono mult_right_mono less_imp_le [OF day_pos]) auto
  finally show ?thesis .
qed

lemma TruncateDay_le: "TruncateDay t \<le> t" "t < TruncateDay t + day"
  using div_mult_mod_eq [of t day] pos_mod_sign [OF day_pos, of t] pos_mod_bound [OF day_pos, of t]
  unfolding TruncateDay_def by linarith+

end
