(* ===== verification/Object_Lock.thy ===== *)
theory Object_Lock
  imports Manifest Go_Time
begin

text \<open>
  S3 Object Lock: the domain types of \<open>src/metadata/object_lock/object_lock.go\<close>
  and the decisions the gateway takes from them
  (\<open>src/api/s3compat/object_lock_handler.go\<close>): which versions may be deleted,
  which changes weaken a retention, and the default retention of a new version.
  Modes and hold statuses stay the strings the API carries, since any string can
  arrive there.
\<close>

abbreviation ModeGovernance :: string where "ModeGovernance \<equiv> ''GOVERNANCE''"
abbreviation ModeCompliance :: string where "ModeCompliance \<equiv> ''COMPLIANCE''"

definition RetentionMode_Valid :: "string \<Rightarrow> bool" where
  "RetentionMode_Valid m \<longleftrightarrow> m = ModeGovernance \<or> m = ModeCompliance"

abbreviation LegalHoldOff :: string where "LegalHoldOff \<equiv> ''OFF''"
abbreviation LegalHoldOn :: string where "LegalHoldOn \<equiv> ''ON''"

definition LegalHoldStatus_Valid :: "string \<Rightarrow> bool" where
  "LegalHoldStatus_Valid s \<longleftrightarrow> s = LegalHoldOff \<or> s = LegalHoldOn"

record LockConfig =
  ol_Enabled :: bool
  ol_DefaultMode :: string
  ol_DefaultDays :: int
  ol_DefaultYears :: int

definition zero_LockConfig :: LockConfig where
  "zero_LockConfig = \<lparr>ol_Enabled = False, ol_DefaultMode = [], ol_DefaultDays = 0, ol_DefaultYears = 0\<rparr>"

datatype lock_error =
    LockRuleOnDisabled
  | LockBadMode
  | LockDaysXorYears
  | LockNegativePeriod
  | LockNoDate

definition LockConfig_Valid :: "LockConfig \<Rightarrow> (lock_error, unit) result" where
  "LockConfig_Valid c =
    (if \<not> ol_Enabled c then
       (if ol_DefaultMode c \<noteq> [] \<or> ol_DefaultDays c \<noteq> 0 \<or> ol_DefaultYears c \<noteq> 0
        then Inl LockRuleOnDisabled else Inr ())
     else
       let hasRule = ol_DefaultMode c \<noteq> [] \<or> ol_DefaultDays c \<noteq> 0 \<or> ol_DefaultYears c \<noteq> 0 in
       if \<not> hasRule then Inr ()
       else if \<not> RetentionMode_Valid (ol_DefaultMode c) then Inl LockBadMode
       else if (ol_DefaultDays c > 0) = (ol_DefaultYears c > 0) then Inl LockDaysXorYears
       else if ol_DefaultDays c < 0 \<or> ol_DefaultYears c < 0 then Inl LockNegativePeriod
       else Inr ())"

definition HasDefaultRetention :: "LockConfig \<Rightarrow> bool" where
  "HasDefaultRetention c \<longleftrightarrow> ol_Enabled c \<and> RetentionMode_Valid (ol_DefaultMode c)
    \<and> (ol_DefaultDays c > 0 \<or> ol_DefaultYears c > 0)"

definition DefaultRetainUntil :: "LockConfig \<Rightarrow> gotime \<Rightarrow> gotime" where
  "DefaultRetainUntil c now =
    (if ol_DefaultDays c > 0 then AddDate now 0 (ol_DefaultDays c)
     else AddDate now (ol_DefaultYears c) 0)"

record Retention =
  rt_Mode :: string
  rt_RetainUntil :: gotime

definition Retention_Active :: "Retention \<Rightarrow> gotime \<Rightarrow> bool" where
  "Retention_Active r now \<longleftrightarrow> RetentionMode_Valid (rt_Mode r) \<and> rt_RetainUntil r > now"

definition Retention_Valid :: "Retention \<Rightarrow> (lock_error, unit) result" where
  "Retention_Valid r =
    (if \<not> RetentionMode_Valid (rt_Mode r) then Inl LockBadMode
     else if rt_RetainUntil r = zero_time then Inl LockNoDate
     else Inr ())"

section \<open>Decisions of the gateway\<close>

definition manifestRetention :: "ObjectManifest \<Rightarrow> Retention" where
  "manifestRetention m = \<lparr>rt_Mode = m_RetentionMode m, rt_RetainUntil = m_RetainUntil m\<rparr>"

definition objectLockBlocksDelete :: "ObjectManifest \<Rightarrow> gotime \<Rightarrow> bool \<Rightarrow> bool" where
  "objectLockBlocksDelete m now bypassGovernance =
    (if m_LegalHold m then True
     else if \<not> Retention_Active (manifestRetention m) now then False
     else if rt_Mode (manifestRetention m) = ModeGovernance \<and> bypassGovernance then False
     else True)"

definition weakensRetention :: "Retention \<Rightarrow> Retention \<Rightarrow> bool" where
  "weakensRetention cur nxt =
    (if \<not> RetentionMode_Valid (rt_Mode nxt) then True
     else if rt_Mode cur = ModeCompliance \<and> rt_Mode nxt = ModeGovernance then True
     else rt_RetainUntil nxt < rt_RetainUntil cur)"

text \<open>
  The stamping of the bucket default onto a fresh manifest, given the bucket's
  configuration (None where no configuration store is wired).
\<close>

definition applyDefaultRetention :: "LockConfig option \<Rightarrow> gotime \<Rightarrow> ObjectManifest \<Rightarrow> ObjectManifest" where
  "applyDefaultRetention cfg now m =
    (case cfg of
       None \<Rightarrow> m
     | Some c \<Rightarrow>
         if m_DeleteMarker m then m
         else if m_RetentionMode m \<noteq> [] then m
         else if \<not> HasDefaultRetention c then m
         else m\<lparr>m_RetentionMode := ol_DefaultMode c, m_RetainUntil := DefaultRetainUntil c now\<rparr>)"

text \<open>
  The guard of \<open>PutObjectRetention\<close>: a change that weakens a retention still in
  force is refused in compliance mode, and in governance mode without the bypass
  header.
\<close>

definition retentionChangeAllowed :: "Retention \<Rightarrow> Retention \<Rightarrow> gotime \<Rightarrow> bool \<Rightarrow> bool" where
  "retentionChangeAllowed existing newRet now bypass =
    (if Retention_Active existing now \<and> weakensRetention existing newRet then
       (if rt_Mode existing = ModeCompliance then False
        else if rt_Mode existing = ModeGovernance then bypass
        else True)
     else True)"

section \<open>Lemmas\<close>

text \<open>
  The protection a compliance retention gives: nobody may remove the version, or
  weaken its retention, before the date.
\<close>

definition compliance_until :: "gotime \<Rightarrow> ObjectManifest \<Rightarrow> bool" where
  "compliance_until T m \<longleftrightarrow> m_RetentionMode m = ModeCompliance \<and> T \<le> m_RetainUntil m"

lemma compliance_blocks_delete:
  "compliance_until T m \<Longrightarrow> now < T \<Longrightarrow> objectLockBlocksDelete m now bypass"
  by (auto simp: compliance_until_def objectLockBlocksDelete_def Retention_Active_def
      manifestRetention_def RetentionMode_Valid_def)

lemma legal_hold_blocks_delete: "m_LegalHold m \<Longrightarrow> objectLockBlocksDelete m now bypass"
  by (simp add: objectLockBlocksDelete_def)

lemma compliance_change_keeps:
  assumes "compliance_until T m" "now < T" "retentionChangeAllowed (manifestRetention m) r now bypass"
  shows "compliance_until T (m\<lparr>m_RetentionMode := rt_Mode r, m_RetainUntil := rt_RetainUntil r\<rparr>)"
  using assms by (auto simp: compliance_until_def retentionChangeAllowed_def Retention_Active_def
      manifestRetention_def RetentionMode_Valid_def weakensRetention_def split: if_splits)

lemma LockConfig_Valid_iff:
  "LockConfig_Valid c = Inr () \<and> ol_Enabled c \<and> ol_DefaultMode c \<noteq> [] \<Longrightarrow> HasDefaultRetention c"
  by (auto simp: LockConfig_Valid_def HasDefaultRetention_def Let_def split: if_splits)

lemma DefaultRetainUntil_later:
  assumes "HasDefaultRetention c"
  shows "now < DefaultRetainUntil c now"
proof (cases "ol_DefaultDays c > 0")
  case True
  then show ?thesis
    using day_pos by (simp add: DefaultRetainUntil_def AddDate_days)
next
  case False
  then have y: "0 < ol_DefaultYears c"
    using assms by (auto simp: HasDefaultRetention_def)
  then have "0 < 364 * ol_DefaultYears c * day"
    by simp
  then have "now < AddDate now (ol_DefaultYears c) 0"
    using AddDate_years [OF y, of now] by linarith
  then show ?thesis
    using False by (simp add: DefaultRetainUntil_def)
qed


definition sample_lock :: LockConfig where
  "sample_lock = \<lparr>ol_Enabled = True, ol_DefaultMode = ModeCompliance, ol_DefaultDays = 0, ol_DefaultYears = 1\<rparr>"


end
