(* ===== verification/Storage_Provider.thy ===== *)
theory Storage_Provider
  imports Go_Strings "HOL-Library.Char_ord" "HOL-Library.List_Lexorder"
begin

text \<open>
  Storage backends: the interface \<open>StorageProvider\<close>
  (\<open>src/providers/provider.go\<close>), the filesystem provider
  (\<open>src/providers/local_fs_dev/local.go\<close>), and the dual-write provider that
  combines two others during a migration
  (\<open>src/migration/dual_write/dual_write.go\<close>).

  A provider is a record of operations over its state; a body that is streamed is
  a byte string.  The locale \<open>storage_provider\<close> is the contract the gateway
  relies on, over the map from piece ids to the stored bytes.  The file system
  under the local provider is a map from piece ids to the contents of the data
  files and one to the sidecar records; failing system calls are not modelled.
\<close>

record PutOptions =
  po_ContentLength :: int
  po_ContentType :: string
  po_StorageClass :: string
  po_IfNoneMatch :: bool

record PutResult =
  pr_PieceID :: string
  pr_ETag :: string
  pr_SizeBytes :: int
  pr_Backend :: string
  pr_Locator :: string

record ByteRange =
  br_Start :: int
  br_End :: int

record PieceMetadata =
  pm_PieceID :: string
  pm_SizeBytes :: int
  pm_ETag :: string
  pm_ContentType :: string
  pm_StorageClass :: string

record ProviderCapabilities =
  cap_RangeReads :: bool
  cap_Multipart :: bool
  cap_IfNoneMatch :: bool
  cap_ServerSideCopy :: bool
  cap_MaxObjectSizeBytes :: int
  cap_MinStorageDurationDays :: int

record PlacementLabels =
  pl_Provider :: string
  pl_Region :: string
  pl_Country :: string
  pl_StorageClass :: string
  pl_FailureZone :: string

record 'p StorageProvider =
  sp_PutPiece :: "string \<Rightarrow> bytes \<Rightarrow> PutOptions \<Rightarrow> 'p \<Rightarrow> (string, PutResult) result \<times> 'p"
  sp_GetPiece :: "string \<Rightarrow> ByteRange option \<Rightarrow> 'p \<Rightarrow> (string, bytes) result"
  sp_HeadPiece :: "string \<Rightarrow> 'p \<Rightarrow> (string, PieceMetadata) result"
  sp_DeletePiece :: "string \<Rightarrow> 'p \<Rightarrow> (string, unit) result \<times> 'p"
  sp_Capabilities :: ProviderCapabilities
  sp_PlacementLabels :: PlacementLabels

section \<open>The filesystem provider\<close>

record LocalFS =
  fs_data :: "(string, bytes) gomap"
  fs_meta :: "(string, PieceMetadata) gomap"

definition validatePieceID :: "string \<Rightarrow> (string, unit) result" where
  "validatePieceID pieceID =
    (if pieceID = [] then Inl ''pieceID is required''
     else if CHR ''/'' \<in> set pieceID \<or> CHR 0x5C \<in> set pieceID then Inl ''path separators''
     else if has_prefix pieceID ''.'' then Inl ''relative path component''
     else if CHR 0x00 \<in> set pieceID then Inl ''NUL bytes''
     else Inr ())"

definition local_etag :: "bytes \<Rightarrow> string" where
  "local_etag body = ''W/'' @ [CHR 0x22] @ FormatUint (length body) @ [CHR 0x22]"

definition sidecar :: "string \<Rightarrow> bytes \<Rightarrow> PutOptions \<Rightarrow> PieceMetadata" where
  "sidecar pieceID body opts = \<lparr>pm_PieceID = pieceID, pm_SizeBytes = int (length body),
     pm_ETag = local_etag body, pm_ContentType = po_ContentType opts, pm_StorageClass = po_StorageClass opts\<rparr>"

definition Local_PutPiece ::
  "string \<Rightarrow> bytes \<Rightarrow> PutOptions \<Rightarrow> LocalFS \<Rightarrow> (string, PutResult) result \<times> LocalFS" where
  "Local_PutPiece pieceID body opts fs =
    (case validatePieceID pieceID of
       Inl err \<Rightarrow> (Inl err, fs)
     | Inr _ \<Rightarrow>
         if po_IfNoneMatch opts \<and> gm_get (fs_data fs) pieceID \<noteq> None
         then (Inl ''already exists'', fs)
         else (Inr \<lparr>pr_PieceID = pieceID, pr_ETag = local_etag body, pr_SizeBytes = int (length body),
                    pr_Backend = ''local_fs_dev'', pr_Locator = ''file://'' @ pieceID @ ''.bin''\<rparr>,
               fs\<lparr>fs_data := gm_set pieceID body (fs_data fs),
                  fs_meta := gm_set pieceID (sidecar pieceID body opts) (fs_meta fs)\<rparr>))"

text \<open>The slice of a body that a byte range names, with the clamping the provider does.\<close>

definition range_slice :: "ByteRange \<Rightarrow> bytes \<Rightarrow> bytes option" where
  "range_slice r body =
    (let size = int (length body);
         stop = (if br_End r < 0 \<or> br_End r \<ge> size then size - 1 else br_End r)
     in if br_Start r < 0 \<or> br_Start r > stop then None
        else Some (take (nat (stop - br_Start r + 1)) (drop (nat (br_Start r)) body)))"

definition Local_GetPiece :: "string \<Rightarrow> ByteRange option \<Rightarrow> LocalFS \<Rightarrow> (string, bytes) result" where
  "Local_GetPiece pieceID byteRange fs =
    (case validatePieceID pieceID of
       Inl err \<Rightarrow> Inl err
     | Inr _ \<Rightarrow>
         (case gm_get (fs_data fs) pieceID of
            None \<Rightarrow> Inl ''not found''
          | Some body \<Rightarrow>
              (case byteRange of
                 None \<Rightarrow> Inr body
               | Some r \<Rightarrow> (case range_slice r body of None \<Rightarrow> Inl ''invalid byte range'' | Some d \<Rightarrow> Inr d))))"

definition Local_HeadPiece :: "string \<Rightarrow> LocalFS \<Rightarrow> (string, PieceMetadata) result" where
  "Local_HeadPiece pieceID fs =
    (case validatePieceID pieceID of
       Inl err \<Rightarrow> Inl err
     | Inr _ \<Rightarrow> (case gm_get (fs_meta fs) pieceID of None \<Rightarrow> Inl ''not found'' | Some sc \<Rightarrow> Inr sc))"

definition Local_DeletePiece :: "string \<Rightarrow> LocalFS \<Rightarrow> (string, unit) result \<times> LocalFS" where
  "Local_DeletePiece pieceID fs =
    (case validatePieceID pieceID of
       Inl err \<Rightarrow> (Inl err, fs)
     | Inr _ \<Rightarrow>
         (case gm_get (fs_data fs) pieceID of
            None \<Rightarrow> (Inl ''not found'', fs)
          | Some _ \<Rightarrow> (Inr (), fs\<lparr>fs_data := gm_del pieceID (fs_data fs), fs_meta := gm_del pieceID (fs_meta fs)\<rparr>)))"

definition Local_ListPieces :: "string \<Rightarrow> string \<Rightarrow> LocalFS \<Rightarrow> PieceMetadata list \<times> string" where
  "Local_ListPieces prefix cursor fs =
    (let ids = sort (filter (\<lambda>i. (prefix = [] \<or> has_prefix i prefix) \<and> (cursor = [] \<or> \<not> i \<le> cursor))
                 (map fst (fs_data fs)));
         page = (if length ids > 1000 then take 1000 ids else ids);
         nxt = (if length ids > 1000 then ids ! 999 else [])
     in (concat (map (\<lambda>i. case gm_get (fs_meta fs) i of None \<Rightarrow> [] | Some sc \<Rightarrow> [sc]) page), nxt))"

definition Local_Capabilities :: ProviderCapabilities where
  "Local_Capabilities = \<lparr>cap_RangeReads = True, cap_Multipart = False, cap_IfNoneMatch = True,
     cap_ServerSideCopy = False, cap_MaxObjectSizeBytes = 2 ^ 40, cap_MinStorageDurationDays = 0\<rparr>"

definition Local_PlacementLabels :: PlacementLabels where
  "Local_PlacementLabels = \<lparr>pl_Provider = ''local_fs_dev'', pl_Region = ''local'', pl_Country = ''XX'',
     pl_StorageClass = [], pl_FailureZone = []\<rparr>"

definition local_provider :: "LocalFS StorageProvider" where
  "local_provider = \<lparr>sp_PutPiece = Local_PutPiece, sp_GetPiece = Local_GetPiece,
     sp_HeadPiece = Local_HeadPiece, sp_DeletePiece = Local_DeletePiece,
     sp_Capabilities = Local_Capabilities, sp_PlacementLabels = Local_PlacementLabels\<rparr>"

section \<open>The dual-write provider\<close>

definition Dual_PutPiece :: "'p StorageProvider \<Rightarrow> 'q StorageProvider \<Rightarrow> string \<Rightarrow> bytes \<Rightarrow> PutOptions
    \<Rightarrow> 'p \<times> 'q \<Rightarrow> (string, PutResult) result \<times> ('p \<times> 'q)" where
  "Dual_PutPiece primary secondary pieceID body opts st =
    (case sp_PutPiece primary pieceID body opts (fst st) of
       (Inl err, p) \<Rightarrow> (Inl err, (p, snd st))
     | (Inr primaryRes, p) \<Rightarrow>
         (case sp_PutPiece secondary pieceID body opts (snd st) of
            (_, s) \<Rightarrow> (Inr primaryRes, (p, s))))"

definition Dual_GetPiece :: "'p StorageProvider \<Rightarrow> 'q StorageProvider \<Rightarrow> string \<Rightarrow> ByteRange option
    \<Rightarrow> 'p \<times> 'q \<Rightarrow> (string, bytes) result" where
  "Dual_GetPiece primary secondary pieceID byteRange st =
    (case sp_GetPiece primary pieceID byteRange (fst st) of
       Inr rc \<Rightarrow> Inr rc
     | Inl _ \<Rightarrow> sp_GetPiece secondary pieceID byteRange (snd st))"

definition Dual_HeadPiece :: "'p StorageProvider \<Rightarrow> 'q StorageProvider \<Rightarrow> string \<Rightarrow> 'p \<times> 'q
    \<Rightarrow> (string, PieceMetadata) result" where
  "Dual_HeadPiece primary secondary pieceID st =
    (case sp_HeadPiece primary pieceID (fst st) of
       Inr md \<Rightarrow> Inr md
     | Inl _ \<Rightarrow> sp_HeadPiece secondary pieceID (snd st))"

definition Dual_DeletePiece :: "'p StorageProvider \<Rightarrow> 'q StorageProvider \<Rightarrow> string \<Rightarrow> 'p \<times> 'q
    \<Rightarrow> (string, unit) result \<times> ('p \<times> 'q)" where
  "Dual_DeletePiece primary secondary pieceID st =
    (case sp_DeletePiece primary pieceID (fst st) of
       (primaryErr, p) \<Rightarrow> (case sp_DeletePiece secondary pieceID (snd st) of (_, s) \<Rightarrow> (primaryErr, (p, s))))"

definition minInt64 :: "int \<Rightarrow> int \<Rightarrow> int" where
  "minInt64 a b = (if a = 0 then b else if b = 0 then a else if a < b then a else b)"

definition maxInt :: "int \<Rightarrow> int \<Rightarrow> int" where
  "maxInt a b = (if a > b then a else b)"

definition Dual_Capabilities :: "'p StorageProvider \<Rightarrow> 'q StorageProvider \<Rightarrow> ProviderCapabilities" where
  "Dual_Capabilities primary secondary =
    (let p = sp_Capabilities primary; s = sp_Capabilities secondary in
     \<lparr>cap_RangeReads = (cap_RangeReads p \<and> cap_RangeReads s),
      cap_Multipart = (cap_Multipart p \<and> cap_Multipart s),
      cap_IfNoneMatch = (cap_IfNoneMatch p \<and> cap_IfNoneMatch s),
      cap_ServerSideCopy = (cap_ServerSideCopy p \<and> cap_ServerSideCopy s),
      cap_MaxObjectSizeBytes = minInt64 (cap_MaxObjectSizeBytes p) (cap_MaxObjectSizeBytes s),
      cap_MinStorageDurationDays = maxInt (cap_MinStorageDurationDays p) (cap_MinStorageDurationDays s)\<rparr>)"

definition dual_write :: "'p StorageProvider \<Rightarrow> 'q StorageProvider \<Rightarrow> ('p \<times> 'q) StorageProvider" where
  "dual_write primary secondary = \<lparr>sp_PutPiece = Dual_PutPiece primary secondary,
     sp_GetPiece = Dual_GetPiece primary secondary, sp_HeadPiece = Dual_HeadPiece primary secondary,
     sp_DeletePiece = Dual_DeletePiece primary secondary,
     sp_Capabilities = Dual_Capabilities primary secondary,
     sp_PlacementLabels = sp_PlacementLabels primary\<rparr>"

section \<open>The contract\<close>

text \<open>
  A failed write or delete touches at most the piece it names, and never tears
  it: the piece is as before, absent, or (for a write) completely written.
\<close>

locale storage_provider =
  fixes ops :: "'p StorageProvider" and invar :: "'p \<Rightarrow> bool" and pieces :: "'p \<Rightarrow> string \<Rightarrow> bytes option"
  assumes put_ok: "invar p \<Longrightarrow> sp_PutPiece ops i d opts p = (Inr r, p') \<Longrightarrow>
      invar p' \<and> pieces p' = (pieces p)(i \<mapsto> d) \<and> pr_PieceID r = i \<and> pr_SizeBytes r = int (length d)"
    and put_err: "invar p \<Longrightarrow> sp_PutPiece ops i d opts p = (Inl e, p') \<Longrightarrow>
      invar p' \<and> (\<forall>j. j \<noteq> i \<longrightarrow> pieces p' j = pieces p j) \<and> pieces p' i \<in> {pieces p i, None, Some d}"
    and get_ok: "invar p \<Longrightarrow> sp_GetPiece ops i None p = Inr d \<Longrightarrow> pieces p i = Some d"
    and get_range_ok: "invar p \<Longrightarrow> sp_GetPiece ops i (Some rng) p = Inr d \<Longrightarrow>
      \<exists>body. pieces p i = Some body \<and> range_slice rng body = Some d"
    and del_ok: "invar p \<Longrightarrow> sp_DeletePiece ops i p = (Inr u, p') \<Longrightarrow>
      invar p' \<and> pieces p' = (pieces p)(i := None)"
    and del_err: "invar p \<Longrightarrow> sp_DeletePiece ops i p = (Inl e, p') \<Longrightarrow>
      invar p' \<and> (\<forall>j. j \<noteq> i \<longrightarrow> pieces p' j = pieces p j) \<and> pieces p' i \<in> {pieces p i, None}"
    and head_ok: "invar p \<Longrightarrow> sp_HeadPiece ops i p = Inr md \<Longrightarrow>
      \<exists>d. pieces p i = Some d \<and> pm_SizeBytes md = int (length d)"
begin

lemma put_invar: "invar p \<Longrightarrow> sp_PutPiece ops i d opts p = (x, p') \<Longrightarrow> invar p'"
  by (cases x) (auto dest: put_ok put_err)

lemma put_other: "invar p \<Longrightarrow> sp_PutPiece ops i d opts p = (x, p') \<Longrightarrow> j \<noteq> i \<Longrightarrow> pieces p' j = pieces p j"
  by (cases x) (auto dest: put_ok put_err)

lemma put_same: "invar p \<Longrightarrow> sp_PutPiece ops i d opts p = (x, p') \<Longrightarrow>
    pieces p' i \<in> {pieces p i, None, Some d}"
  by (cases x) (auto dest: put_ok put_err)

lemma del_invar: "invar p \<Longrightarrow> sp_DeletePiece ops i p = (x, p') \<Longrightarrow> invar p'"
  by (cases x) (auto dest: del_ok del_err)

lemma del_same: "invar p \<Longrightarrow> sp_DeletePiece ops i p = (x, p') \<Longrightarrow> pieces p' i \<in> {pieces p i, None}"
  by (cases x) (auto dest: del_ok del_err)

lemma del_other: "invar p \<Longrightarrow> sp_DeletePiece ops i p = (x, p') \<Longrightarrow> j \<noteq> i \<Longrightarrow> pieces p' j = pieces p j"
  by (cases x) (auto dest: del_ok del_err)

end

subsection \<open>The filesystem provider keeps it\<close>

definition local_inv :: "LocalFS \<Rightarrow> bool" where
  "local_inv fs \<longleftrightarrow> (\<forall>i sc. gm_get (fs_meta fs) i = Some sc \<longrightarrow>
    (\<exists>d. gm_get (fs_data fs) i = Some d \<and> pm_SizeBytes sc = int (length d)))"

definition local_pieces :: "LocalFS \<Rightarrow> string \<Rightarrow> bytes option" where
  "local_pieces fs i = gm_get (fs_data fs) i"

lemma Local_PutPiece_cases:
  assumes "Local_PutPiece i d opts fs = (x, fs')"
  obtains e where "x = Inl e" "fs' = fs"
  | r where "x = Inr r" "pr_PieceID r = i" "pr_SizeBytes r = int (length d)"
      "fs' = fs\<lparr>fs_data := gm_set i d (fs_data fs), fs_meta := gm_set i (sidecar i d opts) (fs_meta fs)\<rparr>"
proof (cases "validatePieceID i")
  case (Inl err)
  then show ?thesis using assms that(1) [of err] by (auto simp: Local_PutPiece_def)
next
  case (Inr u)
  then show ?thesis using assms that by (auto simp: Local_PutPiece_def split: if_splits)
qed

lemma Local_DeletePiece_cases:
  assumes "Local_DeletePiece i fs = (x, fs')"
  obtains e where "x = Inl e" "fs' = fs"
  | "x = Inr ()" "fs' = fs\<lparr>fs_data := gm_del i (fs_data fs), fs_meta := gm_del i (fs_meta fs)\<rparr>"
proof (cases "validatePieceID i")
  case (Inl err)
  then show ?thesis using assms that(1) [of err] by (auto simp: Local_DeletePiece_def)
next
  case (Inr u)
  then show ?thesis using assms that by (auto simp: Local_DeletePiece_def split: option.splits)
qed

lemma sidecar_size [simp]: "pm_SizeBytes (sidecar i d opts) = int (length d)"
  by (simp add: sidecar_def)

lemma local_inv_put:
  "local_inv fs \<Longrightarrow> pm_SizeBytes sc = int (length d) \<Longrightarrow>
    local_inv (fs\<lparr>fs_data := gm_set i d (fs_data fs), fs_meta := gm_set i sc (fs_meta fs)\<rparr>)"
  by (simp add: local_inv_def store_simps)

lemma local_inv_del:
  "local_inv fs \<Longrightarrow> local_inv (fs\<lparr>fs_data := gm_del i (fs_data fs), fs_meta := gm_del i (fs_meta fs)\<rparr>)"
  by (simp add: local_inv_def store_simps)

lemma local_pieces_put:
  "local_pieces (fs\<lparr>fs_data := gm_set i d (fs_data fs), fs_meta := gm_set i sc (fs_meta fs)\<rparr>)
    = (local_pieces fs)(i \<mapsto> d)"
  by (rule ext) (simp add: local_pieces_def store_simps)

lemma local_pieces_del:
  "local_pieces (fs\<lparr>fs_data := gm_del i (fs_data fs), fs_meta := gm_del i (fs_meta fs)\<rparr>)
    = (local_pieces fs)(i := None)"
  by (rule ext) (simp add: local_pieces_def store_simps)

interpretation local_fs: storage_provider local_provider local_inv local_pieces
proof (unfold_locales, goal_cases)
  case (1 p i d opts r p')
  then show ?case
    by (auto simp: local_provider_def local_pieces_put local_inv_put elim!: Local_PutPiece_cases)
next
  case (2 p i d opts e p')
  then show ?case
    by (auto simp: local_provider_def elim!: Local_PutPiece_cases)
next
  case (3 p i d)
  then show ?case
    by (auto simp: local_provider_def Local_GetPiece_def local_pieces_def split: sum.splits option.splits)
next
  case (4 p i rng d)
  then show ?case
    by (auto simp: local_provider_def Local_GetPiece_def local_pieces_def split: sum.splits option.splits)
next
  case (5 p i u p')
  then show ?case
    by (auto simp: local_provider_def local_pieces_del local_inv_del elim!: Local_DeletePiece_cases)
next
  case (6 p i e p')
  then show ?case
    by (auto simp: local_provider_def elim!: Local_DeletePiece_cases)
next
  case (7 p i md)
  then show ?case
    by (auto simp: local_provider_def Local_HeadPiece_def local_pieces_def local_inv_def
        split: sum.splits option.splits)
qed

subsection \<open>The dual-write provider over two providers\<close>

text \<open>
  What the dual-write provider serves: the primary's piece, else the secondary's.
  Piece ids are written once, so while both hold a piece they hold the same bytes.
\<close>

definition dual_pieces :: "('p \<Rightarrow> string \<Rightarrow> bytes option) \<Rightarrow> ('q \<Rightarrow> string \<Rightarrow> bytes option)
    \<Rightarrow> 'p \<times> 'q \<Rightarrow> string \<Rightarrow> bytes option" where
  "dual_pieces pc1 pc2 st i = (case pc1 (fst st) i of Some d \<Rightarrow> Some d | None \<Rightarrow> pc2 (snd st) i)"

definition copies_agree :: "('p \<Rightarrow> string \<Rightarrow> bytes option) \<Rightarrow> ('q \<Rightarrow> string \<Rightarrow> bytes option)
    \<Rightarrow> 'p \<times> 'q \<Rightarrow> bool" where
  "copies_agree pc1 pc2 st \<longleftrightarrow>
    (\<forall>i d1 d2. pc1 (fst st) i = Some d1 \<longrightarrow> pc2 (snd st) i = Some d2 \<longrightarrow> d1 = d2)"

locale dual_providers =
  P: storage_provider ops1 invar1 pieces1 + S: storage_provider ops2 invar2 pieces2
  for ops1 :: "'p StorageProvider" and invar1 pieces1
    and ops2 :: "'q StorageProvider" and invar2 pieces2
begin

lemma dual_put:
  assumes inv: "invar1 p" "invar2 s" and agree: "copies_agree pieces1 pieces2 (p, s)"
    and fresh: "pieces2 s i = None"
    and put: "Dual_PutPiece ops1 ops2 i d opts (p, s) = (Inr r, (p', s'))"
  shows "invar1 p' \<and> invar2 s' \<and> copies_agree pieces1 pieces2 (p', s')"
    and "pieces1 p' i = Some d" and "pieces2 s' i \<in> {None, Some d}"
    and "j \<noteq> i \<Longrightarrow> dual_pieces pieces1 pieces2 (p', s') j = dual_pieces pieces1 pieces2 (p, s) j"
proof -
  obtain x where 1: "sp_PutPiece ops1 i d opts p = (Inr r, p')"
      and 2: "sp_PutPiece ops2 i d opts s = (x, s')"
    using put by (auto simp: Dual_PutPiece_def split: prod.splits sum.splits)
  note p1 = P.put_ok [OF inv(1) 1] and s2 = S.put_same [OF inv(2) 2] and so = S.put_other [OF inv(2) 2]
  show "pieces1 p' i = Some d" "pieces2 s' i \<in> {None, Some d}"
    using p1 s2 fresh by auto
  show "j \<noteq> i \<Longrightarrow> dual_pieces pieces1 pieces2 (p', s') j = dual_pieces pieces1 pieces2 (p, s) j"
    using p1 so [of j] by (simp add: dual_pieces_def split: option.split)
  have "d1 = d2" if "pieces1 p' j = Some d1" "pieces2 s' j = Some d2" for j d1 d2
    using that p1 s2 so [of j] agree fresh by (cases "j = i") (auto simp: copies_agree_def)
  then show "invar1 p' \<and> invar2 s' \<and> copies_agree pieces1 pieces2 (p', s')"
    using p1 S.put_invar [OF inv(2) 2] by (simp add: copies_agree_def)
qed

lemma dual_get:
  assumes inv: "invar1 p" "invar2 s" and agree: "copies_agree pieces1 pieces2 (p, s)"
    and get: "Dual_GetPiece ops1 ops2 i None (p, s) = Inr d"
  shows "dual_pieces pieces1 pieces2 (p, s) i = Some d"
proof (cases "sp_GetPiece ops1 i None p")
  case (Inr rc)
  then show ?thesis
    using get P.get_ok [OF inv(1) Inr] by (simp add: Dual_GetPiece_def dual_pieces_def)
next
  case (Inl e)
  then have "pieces2 s i = Some d"
    using get S.get_ok [OF inv(2), of i d] by (simp add: Dual_GetPiece_def)
  then show ?thesis
    using agree by (auto simp: copies_agree_def dual_pieces_def split: option.splits)
qed

lemma dual_get_range:
  assumes inv: "invar1 p" "invar2 s" and agree: "copies_agree pieces1 pieces2 (p, s)"
    and get: "Dual_GetPiece ops1 ops2 i (Some rng) (p, s) = Inr d"
  shows "\<exists>body. dual_pieces pieces1 pieces2 (p, s) i = Some body \<and> range_slice rng body = Some d"
proof (cases "sp_GetPiece ops1 i (Some rng) p")
  case (Inr rc)
  then show ?thesis
    using get P.get_range_ok [OF inv(1) Inr] by (auto simp: Dual_GetPiece_def dual_pieces_def)
next
  case (Inl e)
  then obtain body where "pieces2 s i = Some body" "range_slice rng body = Some d"
    using get S.get_range_ok [OF inv(2), of i rng d] by (auto simp: Dual_GetPiece_def)
  then show ?thesis
    using agree by (auto simp: copies_agree_def dual_pieces_def split: option.splits)
qed

lemma dual_delete:
  assumes inv: "invar1 p" "invar2 s" and agree: "copies_agree pieces1 pieces2 (p, s)"
    and del: "Dual_DeletePiece ops1 ops2 i (p, s) = (x, (p', s'))"
  shows "invar1 p' \<and> invar2 s' \<and> copies_agree pieces1 pieces2 (p', s')"
    and "j \<noteq> i \<Longrightarrow> dual_pieces pieces1 pieces2 (p', s') j = dual_pieces pieces1 pieces2 (p, s) j"
proof -
  obtain y where 1: "sp_DeletePiece ops1 i p = (x, p')" and 2: "sp_DeletePiece ops2 i s = (y, s')"
    using del by (auto simp: Dual_DeletePiece_def split: prod.splits)
  have 3: "pieces1 p' i \<in> {pieces1 p i, None}" "pieces2 s' i \<in> {pieces2 s i, None}"
    using P.del_same [OF inv(1) 1] S.del_same [OF inv(2) 2] by simp_all
  note o = P.del_other [OF inv(1) 1] S.del_other [OF inv(2) 2]
  show "j \<noteq> i \<Longrightarrow> dual_pieces pieces1 pieces2 (p', s') j = dual_pieces pieces1 pieces2 (p, s) j"
    using o [of j] by (simp add: dual_pieces_def split: option.split)
  have "d1 = d2" if "pieces1 p' j = Some d1" "pieces2 s' j = Some d2" for j d1 d2
    using that 3 o [of j] agree by (cases "j = i") (auto simp: copies_agree_def)
  then show "invar1 p' \<and> invar2 s' \<and> copies_agree pieces1 pieces2 (p', s')"
    using P.del_invar [OF inv(1) 1] S.del_invar [OF inv(2) 2] by (simp add: copies_agree_def)
qed

end

interpretation dual_local: dual_providers local_provider local_inv local_pieces
    local_provider local_inv local_pieces ..


definition empty_fs :: LocalFS where "empty_fs = \<lparr>fs_data = [], fs_meta = []\<rparr>"

definition default_opts :: PutOptions where
  "default_opts = \<lparr>po_ContentLength = 0, po_ContentType = [], po_StorageClass = [], po_IfNoneMatch = False\<rparr>"


end
