(* ===== verification/Content_Index.thy ===== *)
theory Content_Index
  imports Manifest_Store Storage_Provider
begin

text \<open>
  The content index for intra-tenant deduplication
  (\<open>src/metadata/content_index\<close>): the entries with their reference counts, the
  store interface and its in-memory implementation (\<open>memory_store.go\<close>), and the
  orphan sweep (\<open>orphan_gc.go\<close>), which consults the manifest store and deletes
  pieces on the backends.

  The backends of the gateway are a partial map from names to providers, and the
  state of the world is a state per backend name.
\<close>

record PieceRef =
  pf_PieceID :: string
  pf_Backend :: string
  pf_PartNumber :: int
  pf_SizeBytes :: int

record ContentIndexEntry =
  ce_TenantID :: string
  ce_ContentHash :: string
  ce_PieceID :: string
  ce_Backend :: string
  ce_RefCount :: int
  ce_SizeBytes :: int
  ce_ETag :: string
  ce_PieceIDs :: "PieceRef list"
  ce_PlaintextHash :: string
  ce_CreatedAt :: gotime

record memoryKey =
  ck_TenantID :: string
  ck_ContentHash :: string

definition ckey :: "string \<Rightarrow> string \<Rightarrow> memoryKey" where
  "ckey t h = \<lparr>ck_TenantID = t, ck_ContentHash = h\<rparr>"

datatype ci_error = CINotFound | CIAlreadyExists | CIInvalidRefCount | CIRefCountNonZero | CIOther string

record 's ContentIndex =
  ci_Lookup :: "string \<Rightarrow> string \<Rightarrow> 's \<Rightarrow> (ci_error, ContentIndexEntry) result"
  ci_LookupByPlaintextHash :: "string \<Rightarrow> string \<Rightarrow> 's \<Rightarrow> (ci_error, ContentIndexEntry) result"
  ci_Register :: "gotime \<Rightarrow> ContentIndexEntry \<Rightarrow> 's \<Rightarrow> (ci_error, 's) result"
  ci_IncrementRef :: "string \<Rightarrow> string \<Rightarrow> 's \<Rightarrow> (ci_error, 's) result"
  ci_DecrementRef :: "string \<Rightarrow> string \<Rightarrow> 's \<Rightarrow> (ci_error, int \<times> 's) result"
  ci_Delete :: "string \<Rightarrow> string \<Rightarrow> 's \<Rightarrow> (ci_error, 's) result"
  ci_ScanAll :: "string \<Rightarrow> 's \<Rightarrow> (ci_error, ContentIndexEntry list) result"
  ci_ListTenants :: "'s \<Rightarrow> (ci_error, string list) result"

section \<open>The in-memory store\<close>

type_synonym CIStore = "(memoryKey, ContentIndexEntry) gomap"

definition NewCIStore :: CIStore where "NewCIStore = []"

definition CI_Lookup :: "string \<Rightarrow> string \<Rightarrow> CIStore \<Rightarrow> (ci_error, ContentIndexEntry) result" where
  "CI_Lookup tenantID contentHash s =
    (case gm_get s (ckey tenantID contentHash) of None \<Rightarrow> Inl CINotFound | Some e \<Rightarrow> Inr e)"

definition CI_LookupByPlaintextHash :: "string \<Rightarrow> string \<Rightarrow> CIStore \<Rightarrow> (ci_error, ContentIndexEntry) result" where
  "CI_LookupByPlaintextHash tenantID plaintextHash s =
    (if plaintextHash = [] then Inl CINotFound
     else case find (\<lambda>(k, e). ck_TenantID k = tenantID \<and> ce_PlaintextHash e = plaintextHash) s of
       None \<Rightarrow> Inl CINotFound | Some (k, e) \<Rightarrow> Inr e)"

definition registered_entry :: "gotime \<Rightarrow> ContentIndexEntry \<Rightarrow> ContentIndexEntry" where
  "registered_entry now entry =
    (let e1 = (if ce_RefCount entry \<le> 0 then entry\<lparr>ce_RefCount := 1\<rparr> else entry)
     in if ce_CreatedAt e1 = zero_time then e1\<lparr>ce_CreatedAt := now\<rparr> else e1)"

definition CI_Register :: "gotime \<Rightarrow> ContentIndexEntry \<Rightarrow> CIStore \<Rightarrow> (ci_error, CIStore) result" where
  "CI_Register now entry s =
    (let k = ckey (ce_TenantID entry) (ce_ContentHash entry) in
     case gm_get s k of
       Some _ \<Rightarrow> Inl CIAlreadyExists
     | None \<Rightarrow> Inr (gm_set k (registered_entry now entry) s))"

definition CI_IncrementRef :: "string \<Rightarrow> string \<Rightarrow> CIStore \<Rightarrow> (ci_error, CIStore) result" where
  "CI_IncrementRef tenantID contentHash s =
    (let k = ckey tenantID contentHash in
     case gm_get s k of
       None \<Rightarrow> Inl CINotFound
     | Some e \<Rightarrow> Inr (gm_set k (e\<lparr>ce_RefCount := ce_RefCount e + 1\<rparr>) s))"

definition CI_DecrementRef :: "string \<Rightarrow> string \<Rightarrow> CIStore \<Rightarrow> (ci_error, int \<times> CIStore) result" where
  "CI_DecrementRef tenantID contentHash s =
    (let k = ckey tenantID contentHash in
     case gm_get s k of
       None \<Rightarrow> Inl CINotFound
     | Some e \<Rightarrow>
         if ce_RefCount e \<le> 0 then Inl CIInvalidRefCount
         else Inr (ce_RefCount e - 1, gm_set k (e\<lparr>ce_RefCount := ce_RefCount e - 1\<rparr>) s))"

definition CI_Delete :: "string \<Rightarrow> string \<Rightarrow> CIStore \<Rightarrow> (ci_error, CIStore) result" where
  "CI_Delete tenantID contentHash s =
    (let k = ckey tenantID contentHash in
     case gm_get s k of
       None \<Rightarrow> Inl CINotFound
     | Some e \<Rightarrow> if ce_RefCount e > 0 then Inl CIRefCountNonZero else Inr (gm_del k s))"

definition CI_ScanAll :: "string \<Rightarrow> CIStore \<Rightarrow> (ci_error, ContentIndexEntry list) result" where
  "CI_ScanAll tenantID s = Inr (map snd (filter (\<lambda>(k, e). ck_TenantID k = tenantID) s))"

definition CI_ListTenants :: "CIStore \<Rightarrow> (ci_error, string list) result" where
  "CI_ListTenants s = Inr (remdups (map (\<lambda>(k, e). ck_TenantID k) s))"

definition ci_ops :: "CIStore ContentIndex" where
  "ci_ops = \<lparr>ci_Lookup = CI_Lookup, ci_LookupByPlaintextHash = CI_LookupByPlaintextHash,
     ci_Register = CI_Register, ci_IncrementRef = CI_IncrementRef, ci_DecrementRef = CI_DecrementRef,
     ci_Delete = CI_Delete, ci_ScanAll = CI_ScanAll, ci_ListTenants = CI_ListTenants\<rparr>"

section \<open>The orphan sweep\<close>

record SweepStats =
  ss_TenantsScanned :: nat
  ss_RowsScanned :: nat
  ss_RowsOrphaned :: nat
  ss_PiecesDeleted :: nat
  ss_IndexRowsDeleted :: nat
  ss_Errors :: nat

definition zero_SweepStats :: SweepStats where
  "zero_SweepStats = \<lparr>ss_TenantsScanned = 0, ss_RowsScanned = 0, ss_RowsOrphaned = 0,
     ss_PiecesDeleted = 0, ss_IndexRowsDeleted = 0, ss_Errors = 0\<rparr>"

type_synonym 'p backends = "string \<Rightarrow> 'p StorageProvider option"
type_synonym 'p world = "string \<Rightarrow> 'p"

definition world_delete :: "'p backends \<Rightarrow> string \<Rightarrow> string \<Rightarrow> 'p world \<Rightarrow> (string, unit) result option \<times> 'p world" where
  "world_delete provs backend pieceID w =
    (case provs backend of
       None \<Rightarrow> (None, w)
     | Some pv \<Rightarrow> (case sp_DeletePiece pv pieceID (w backend) of (r, p) \<Rightarrow> (Some r, w(backend := p))))"

text \<open>
  The reference of an orphan row is drained.  Every branch of the loop in the
  source leaves it after one decrement.
\<close>

definition gc_drain :: "'i ContentIndex \<Rightarrow> ContentIndexEntry \<Rightarrow> 'i \<times> SweepStats \<Rightarrow> 'i \<times> SweepStats" where
  "gc_drain ci e st =
    (let idx = fst st; stats = snd st in
     case ci_DecrementRef ci (ce_TenantID e) (ce_ContentHash e) idx of
       Inl CINotFound \<Rightarrow> (idx, stats\<lparr>ss_IndexRowsDeleted := ss_IndexRowsDeleted stats + 1\<rparr>)
     | Inl CIInvalidRefCount \<Rightarrow>
         ((case ci_Delete ci (ce_TenantID e) (ce_ContentHash e) idx of Inl _ \<Rightarrow> idx | Inr idx' \<Rightarrow> idx'),
          stats\<lparr>ss_IndexRowsDeleted := ss_IndexRowsDeleted stats + 1\<rparr>)
     | Inl _ \<Rightarrow> (idx, stats\<lparr>ss_Errors := ss_Errors stats + 1\<rparr>)
     | Inr (n, idx1) \<Rightarrow>
         if n = 0 then
           (case ci_Delete ci (ce_TenantID e) (ce_ContentHash e) idx1 of
              Inr idx2 \<Rightarrow> (idx2, stats\<lparr>ss_IndexRowsDeleted := ss_IndexRowsDeleted stats + 1\<rparr>)
            | Inl CIRefCountNonZero \<Rightarrow> (idx1, stats)
            | Inl CINotFound \<Rightarrow> (idx1, stats)
            | Inl _ \<Rightarrow> (idx1, stats\<lparr>ss_Errors := ss_Errors stats + 1\<rparr>))
         else (idx1, stats))"

definition gc_row :: "'i ContentIndex \<Rightarrow> 'm ManifestStore \<Rightarrow> 'p backends \<Rightarrow> 'm \<Rightarrow> ContentIndexEntry
    \<Rightarrow> 'i \<times> 'p world \<times> SweepStats \<Rightarrow> 'i \<times> 'p world \<times> SweepStats" where
  "gc_row ci ms provs mst e st =
    (let idx = fst st; w = fst (snd st); stats = snd (snd st) in
     case op_HasManifestWithPieceID ms (ce_TenantID e) (ce_PieceID e) mst of
       Inl _ \<Rightarrow> (idx, w, stats\<lparr>ss_Errors := ss_Errors stats + 1\<rparr>)
     | Inr live \<Rightarrow>
         if live then (idx, w, stats)
         else
           let stats1 = stats\<lparr>ss_RowsOrphaned := ss_RowsOrphaned stats + 1\<rparr> in
           case world_delete provs (ce_Backend e) (ce_PieceID e) w of
             (Some (Inl _), w') \<Rightarrow> (idx, w', stats1\<lparr>ss_Errors := ss_Errors stats1 + 1\<rparr>)
           | (Some (Inr _), w') \<Rightarrow>
               (case gc_drain ci e (idx, stats1\<lparr>ss_PiecesDeleted := ss_PiecesDeleted stats1 + 1\<rparr>) of
                  (idx', stats') \<Rightarrow> (idx', w', stats'))
           | (None, w') \<Rightarrow> (case gc_drain ci e (idx, stats1) of (idx', stats') \<Rightarrow> (idx', w', stats')))"

definition sweepTenant :: "'i ContentIndex \<Rightarrow> 'm ManifestStore \<Rightarrow> 'p backends \<Rightarrow> 'm \<Rightarrow> string
    \<Rightarrow> 'i \<times> 'p world \<times> SweepStats \<Rightarrow> 'i \<times> 'p world \<times> SweepStats" where
  "sweepTenant ci ms provs mst tenantID st =
    (case ci_ScanAll ci tenantID (fst st) of
       Inl _ \<Rightarrow> (fst st, fst (snd st), (snd (snd st))\<lparr>ss_Errors := ss_Errors (snd (snd st)) + 1\<rparr>)
     | Inr entries \<Rightarrow>
         fold (gc_row ci ms provs mst) entries
           (fst st, fst (snd st),
            (snd (snd st))\<lparr>ss_RowsScanned := ss_RowsScanned (snd (snd st)) + length entries\<rparr>))"

definition Sweep :: "'i ContentIndex \<Rightarrow> 'm ManifestStore \<Rightarrow> 'p backends \<Rightarrow> 'm \<Rightarrow> 'i \<Rightarrow> 'p world
    \<Rightarrow> (ci_error, 'i \<times> 'p world \<times> SweepStats) result" where
  "Sweep ci ms provs mst idx w =
    (case ci_ListTenants ci idx of
       Inl err \<Rightarrow> Inl err
     | Inr tenants \<Rightarrow>
         Inr (fold (sweepTenant ci ms provs mst) tenants
           (idx, w, zero_SweepStats\<lparr>ss_TenantsScanned := length tenants\<rparr>)))"

section \<open>The contract of the index\<close>

definition bump :: "int \<Rightarrow> ContentIndexEntry \<Rightarrow> ContentIndexEntry" where
  "bump n e = e\<lparr>ce_RefCount := ce_RefCount e + n\<rparr>"

definition registered_as :: "ContentIndexEntry \<Rightarrow> ContentIndexEntry \<Rightarrow> bool" where
  "registered_as e e' \<longleftrightarrow> ce_TenantID e' = ce_TenantID e \<and> ce_ContentHash e' = ce_ContentHash e
    \<and> ce_PieceID e' = ce_PieceID e \<and> ce_Backend e' = ce_Backend e \<and> ce_SizeBytes e' = ce_SizeBytes e
    \<and> ce_ETag e' = ce_ETag e \<and> ce_PieceIDs e' = ce_PieceIDs e \<and> ce_PlaintextHash e' = ce_PlaintextHash e
    \<and> ce_RefCount e' = (if ce_RefCount e \<le> 0 then 1 else ce_RefCount e)"

locale content_index =
  fixes ci :: "'i ContentIndex" and cinv :: "'i \<Rightarrow> bool" and entries :: "'i \<Rightarrow> memoryKey \<Rightarrow> ContentIndexEntry option"
  assumes lookup_ok: "cinv s \<Longrightarrow> ci_Lookup ci t h s = Inr e \<Longrightarrow> entries s (ckey t h) = Some e"
    and lookup_missing: "cinv s \<Longrightarrow> ci_Lookup ci t h s = Inl CINotFound \<Longrightarrow> entries s (ckey t h) = None"
    and register_ok: "cinv s \<Longrightarrow> ci_Register ci now e s = Inr s' \<Longrightarrow>
      cinv s' \<and> entries s (ckey (ce_TenantID e) (ce_ContentHash e)) = None
      \<and> (\<exists>e'. registered_as e e' \<and> entries s' = (entries s)(ckey (ce_TenantID e) (ce_ContentHash e) \<mapsto> e'))"
    and register_dup: "cinv s \<Longrightarrow> ci_Register ci now e s = Inl CIAlreadyExists \<Longrightarrow>
      entries s (ckey (ce_TenantID e) (ce_ContentHash e)) \<noteq> None"
    and increment_ok: "cinv s \<Longrightarrow> ci_IncrementRef ci t h s = Inr s' \<Longrightarrow>
      cinv s' \<and> (\<exists>e. entries s (ckey t h) = Some e \<and> entries s' = (entries s)(ckey t h \<mapsto> bump 1 e))"
    and decrement_ok: "cinv s \<Longrightarrow> ci_DecrementRef ci t h s = Inr (n, s') \<Longrightarrow>
      cinv s' \<and> (\<exists>e. entries s (ckey t h) = Some e \<and> 0 < ce_RefCount e \<and> n = ce_RefCount e - 1
        \<and> entries s' = (entries s)(ckey t h \<mapsto> bump (- 1) e))"
    and decrement_missing: "cinv s \<Longrightarrow> ci_DecrementRef ci t h s = Inl CINotFound \<Longrightarrow> entries s (ckey t h) = None"
    and delete_ok: "cinv s \<Longrightarrow> ci_Delete ci t h s = Inr s' \<Longrightarrow>
      cinv s' \<and> (\<exists>e. entries s (ckey t h) = Some e \<and> ce_RefCount e \<le> 0 \<and> entries s' = (entries s)(ckey t h := None))"
    and scan_ok: "cinv s \<Longrightarrow> ci_ScanAll ci t s = Inr es \<Longrightarrow>
      set es = {e. \<exists>k. entries s k = Some e \<and> ck_TenantID k = t}"
    and entry_key: "cinv s \<Longrightarrow> entries s k = Some e \<Longrightarrow>
      ck_TenantID k = ce_TenantID e \<and> ck_ContentHash k = ce_ContentHash e \<and> 0 \<le> ce_RefCount e"
begin

lemma lookup_iff:
  "cinv s \<Longrightarrow> ci_Lookup ci t h s = Inr e \<Longrightarrow> ce_TenantID e = t \<and> ce_ContentHash e = h"
  using lookup_ok [of s t h e] entry_key [of s "ckey t h" e] by (simp add: ckey_def)

end

definition ci_inv :: "CIStore \<Rightarrow> bool" where
  "ci_inv s \<longleftrightarrow> gm_wf s \<and> (\<forall>k e. gm_get s k = Some e \<longrightarrow>
    ck_TenantID k = ce_TenantID e \<and> ck_ContentHash k = ce_ContentHash e \<and> 0 \<le> ce_RefCount e)"

lemma ci_inv_set:
  "ci_inv s \<Longrightarrow> ck_TenantID k = ce_TenantID e \<Longrightarrow> ck_ContentHash k = ce_ContentHash e \<Longrightarrow> 0 \<le> ce_RefCount e
    \<Longrightarrow> ci_inv (gm_set k e s)"
  by (simp add: ci_inv_def store_simps)

lemma ci_inv_del: "ci_inv s \<Longrightarrow> ci_inv (gm_del k s)"
  by (simp add: ci_inv_def store_simps)

lemma gm_get_set_fun: "gm_get (gm_set k v m) = (gm_get m)(k \<mapsto> v)"
  by (rule ext) (simp add: store_simps)

lemma gm_get_del_fun: "gm_get (gm_del k m) = (gm_get m)(k := None)"
  by (rule ext) (simp add: store_simps)

lemma registered_as_entry: "registered_as e (registered_entry now e)"
  by (simp add: registered_as_def registered_entry_def Let_def)

lemma CI_Register_ok:
  assumes inv: "ci_inv s" and reg: "CI_Register now e s = Inr s'"
  shows "ci_inv s' \<and> gm_get s (ckey (ce_TenantID e) (ce_ContentHash e)) = None
      \<and> (\<exists>e'. registered_as e e' \<and> gm_get s' = (gm_get s)(ckey (ce_TenantID e) (ce_ContentHash e) \<mapsto> e'))"
proof -
  let ?k = "ckey (ce_TenantID e) (ce_ContentHash e)"
  have s': "s' = gm_set ?k (registered_entry now e) s" "gm_get s ?k = None"
    using reg by (auto simp: CI_Register_def Let_def split: option.splits)
  then have "ci_inv s'"
    using ci_inv_set [OF inv, of ?k "registered_entry now e"] registered_as_entry [of e now]
    by (simp add: registered_as_def ckey_def split: if_splits)
  then show ?thesis
    using s' registered_as_entry by (auto simp: gm_get_set_fun)
qed

interpretation mem_index: content_index ci_ops ci_inv gm_get
proof (unfold_locales, goal_cases)
  case (1 s t h e)
  then show ?case by (simp add: ci_ops_def CI_Lookup_def split: option.splits)
next
  case (2 s t h)
  then show ?case by (simp add: ci_ops_def CI_Lookup_def split: option.splits)
next
  case (3 s now e s')
  then show ?case using CI_Register_ok [of s now e s'] by (simp add: ci_ops_def)
next
  case (4 s now e)
  then show ?case by (auto simp: ci_ops_def CI_Register_def Let_def split: option.splits)
next
  case (5 s t h s')
  then obtain e where "gm_get s (ckey t h) = Some e" "s' = gm_set (ckey t h) (bump 1 e) s"
    by (auto simp: ci_ops_def CI_IncrementRef_def Let_def bump_def split: option.splits)
  moreover from this 5 have "ci_inv s'"
    using ci_inv_set [OF 5(1), of "ckey t h" "bump 1 e"] by (auto simp: ci_inv_def bump_def)
  ultimately show ?case by (simp add: gm_get_set_fun)
next
  case (6 s t h n s')
  then obtain e where "gm_get s (ckey t h) = Some e" "0 < ce_RefCount e" "n = ce_RefCount e - 1"
      "s' = gm_set (ckey t h) (bump (- 1) e) s"
    by (auto simp: ci_ops_def CI_DecrementRef_def Let_def bump_def split: option.splits if_splits)
  moreover from this 6 have "ci_inv s'"
    using ci_inv_set [OF 6(1), of "ckey t h" "bump (- 1) e"] by (auto simp: ci_inv_def bump_def)
  ultimately show ?case by (simp add: gm_get_set_fun)
next
  case (7 s t h)
  then show ?case by (simp add: ci_ops_def CI_DecrementRef_def Let_def split: option.splits if_splits)
next
  case (8 s t h s')
  then show ?case
    by (auto simp: ci_ops_def CI_Delete_def Let_def ci_inv_del gm_get_del_fun split: option.splits if_splits)
next
  case (9 s t es)
  then have "es = map snd (filter (\<lambda>(k, e). ck_TenantID k = t) s)" "gm_wf s"
    by (simp_all add: ci_ops_def CI_ScanAll_def ci_inv_def)
  then show ?case
    unfolding gm_in_iff [OF \<open>gm_wf s\<close>, symmetric] by force
next
  case (10 s k e)
  then show ?case by (simp add: ci_inv_def)
qed

section \<open>Safety of the sweep\<close>

definition world_ok :: "'p backends \<Rightarrow> ('p \<Rightarrow> bool) \<Rightarrow> 'p world \<Rightarrow> bool" where
  "world_ok provs pinv w \<longleftrightarrow> (\<forall>b pv. provs b = Some pv \<longrightarrow> pinv (w b))"

definition rows_from :: "(memoryKey \<Rightarrow> ContentIndexEntry option) \<Rightarrow> (memoryKey \<Rightarrow> ContentIndexEntry option) \<Rightarrow> bool" where
  "rows_from ents ents' \<longleftrightarrow> (\<forall>k r. ents' k = Some r \<longrightarrow> (\<exists>r0 n. ents k = Some r0 \<and> r = bump n r0))"

lemma bump_add: "bump m (bump n e) = bump (m + n) e" "bump 0 e = e"
  by (simp_all add: bump_def)

lemma rows_from_refl: "rows_from ents ents"
  unfolding rows_from_def by (metis bump_add(2))

lemma rows_from_trans: "rows_from a b \<Longrightarrow> rows_from b c \<Longrightarrow> rows_from a c"
  unfolding rows_from_def by (metis bump_add(1))

lemma rows_from_drop: "rows_from ents (ents(k := None))"
  unfolding rows_from_def by (auto intro: bump_add(2) [symmetric])

lemma rows_from_bump: "ents k = Some e \<Longrightarrow> rows_from ents (ents(k \<mapsto> bump n e))"
  unfolding rows_from_def by (auto intro: bump_add(2) [symmetric])

text \<open>The index names a piece only in rows of the tenant t.\<close>

definition piece_rows_of :: "(memoryKey \<Rightarrow> ContentIndexEntry option) \<Rightarrow> string \<Rightarrow> string \<Rightarrow> bool" where
  "piece_rows_of ents i t \<longleftrightarrow> (\<forall>k e. ents k = Some e \<and> ce_PieceID e = i \<longrightarrow> ce_TenantID e = t)"

locale orphan_gc =
  C: content_index ci cinv entries + M: manifest_store ms minv versions current
  for ci :: "'i ContentIndex" and cinv entries
    and ms :: "'m ManifestStore" and minv versions current +
  fixes provs :: "'p backends" and pinv :: "'p \<Rightarrow> bool" and pieces :: "'p \<Rightarrow> string \<Rightarrow> bytes option"
  assumes providers: "provs b = Some pv \<Longrightarrow> storage_provider pv pinv pieces"
begin

lemma world_delete_other:
  assumes "world_ok provs pinv w" "world_delete provs b i w = (r, w')" "(b', i') \<noteq> (b, i)"
  shows "pieces (w' b') i' = pieces (w b') i'"
proof (cases "provs b")
  case None
  then show ?thesis using assms(2) by (simp add: world_delete_def)
next
  case (Some pv)
  then obtain r0 p where del: "sp_DeletePiece pv i (w b) = (r0, p)" "w' = w(b := p)"
    using assms(2) by (auto simp: world_delete_def split: prod.splits)
  have "pinv (w b)" using assms(1) Some by (simp add: world_ok_def)
  then show ?thesis
    using storage_provider.del_other [OF providers [OF Some] _ del(1), of i'] assms(3) del(2) by auto
qed

lemma world_delete_ok:
  assumes "world_ok provs pinv w" "world_delete provs b i w = (r, w')"
  shows "world_ok provs pinv w'"
proof (cases "provs b")
  case None
  then show ?thesis using assms by (simp add: world_delete_def)
next
  case (Some pv)
  then obtain r0 p where del: "sp_DeletePiece pv i (w b) = (r0, p)" "w' = w(b := p)"
    using assms(2) by (auto simp: world_delete_def split: prod.splits)
  have "pinv p"
    using storage_provider.del_invar [OF providers [OF Some] _ del(1)] assms(1) Some by (simp add: world_ok_def)
  then show ?thesis
    using assms(1) del(2) by (simp add: world_ok_def)
qed

text \<open>Draining changes nothing of the rows but their counts, and may drop rows.\<close>

lemma gc_drain_rows:
  assumes inv: "cinv idx" and drain: "gc_drain ci e (idx, stats) = (idx', stats')"
  shows "cinv idx' \<and> rows_from (entries idx) (entries idx')"
proof (cases "ci_DecrementRef ci (ce_TenantID e) (ce_ContentHash e) idx")
  case (Inl err)
  have "idx' = idx \<or> ci_Delete ci (ce_TenantID e) (ce_ContentHash e) idx = Inr idx'"
    using drain Inl by (cases err) (auto simp: gc_drain_def Let_def split: sum.splits)
  then show ?thesis
    using inv C.delete_ok [OF inv, of "ce_TenantID e" "ce_ContentHash e" idx']
    by (auto simp: rows_from_refl rows_from_drop)
next
  case (Inr p)
  obtain n j where p: "p = (n, j)" by fastforce
  note dec = C.decrement_ok [OF inv Inr [unfolded p]]
  then have j: "cinv j" "rows_from (entries idx) (entries j)"
    by (auto simp: rows_from_bump)
  have "idx' = j \<or> ci_Delete ci (ce_TenantID e) (ce_ContentHash e) j = Inr idx'"
    using drain Inr p by (auto simp: gc_drain_def Let_def split: if_splits sum.splits ci_error.splits)
  then show ?thesis
    using j C.delete_ok [OF j(1), of "ce_TenantID e" "ce_ContentHash e" idx']
    by (auto simp: rows_from_trans [OF j(2) rows_from_drop])
qed

lemma gc_drain_piece_rows:
  assumes "cinv idx" "gc_drain ci e (idx, stats) = (idx', stats')" "piece_rows_of (entries idx) i t"
  shows "piece_rows_of (entries idx') i t"
  unfolding piece_rows_of_def
proof (intro allI impI)
  fix k r assume "entries idx' k = Some r \<and> ce_PieceID r = i"
  then show "ce_TenantID r = t"
    using gc_drain_rows [OF assms(1,2)] assms(3) by (fastforce simp: piece_rows_of_def rows_from_def bump_def)
qed

lemma gc_row_safe:
  assumes inv: "cinv idx" "minv mst" "world_ok provs pinv w"
    and live: "t \<noteq> []" "i \<noteq> []" "versions mst k = Some m" "k_TenantID k = t" "i \<in> p_PieceID ` set (m_Pieces m)"
    and rows: "piece_rows_of (entries idx) i t" "ce_PieceID e = i \<longrightarrow> ce_TenantID e = t"
    and row: "gc_row ci ms provs mst e (idx, w, stats) = (idx', w', stats')"
  shows "cinv idx' \<and> world_ok provs pinv w' \<and> piece_rows_of (entries idx') i t
    \<and> (\<forall>b. pieces (w' b) i = pieces (w b) i)"
proof (cases "op_HasManifestWithPieceID ms (ce_TenantID e) (ce_PieceID e) mst")
  case (Inl err)
  then show ?thesis using assms by (simp add: gc_row_def Let_def)
next
  case (Inr b)
  show ?thesis
  proof (cases b)
    case True
    then show ?thesis using assms Inr by (simp add: gc_row_def Let_def)
  next
    case False
    have other: "ce_PieceID e \<noteq> i"
    proof
      assume "ce_PieceID e = i"
      then have "b" using M.has_piece_law [OF inv(2) Inr] live rows(2) by blast
      then show False using False by simp
    qed
    obtain r w1 where del: "world_delete provs (ce_Backend e) (ce_PieceID e) w = (r, w1)" by fastforce
    have w1: "world_ok provs pinv w1" "pieces (w1 b') i = pieces (w b') i" for b'
      using world_delete_ok [OF inv(3) del] world_delete_other [OF inv(3) del, of b' i] other by auto
    have "w' = w1 \<and> (idx' = idx \<or> (\<exists>s0 s1. gc_drain ci e (idx, s0) = (idx', s1)))"
      using row Inr False del
      by (auto simp: gc_row_def Let_def split: option.splits sum.splits prod.splits)
    then show ?thesis
      using w1 inv(1) rows(1) gc_drain_rows [OF inv(1)] gc_drain_piece_rows [OF inv(1) _ rows(1)] by metis
  qed
qed

text \<open>What a sweep keeps of a piece i that a manifest of tenant t references.\<close>

definition gc_keeps :: "string \<Rightarrow> string \<Rightarrow> 'p world \<Rightarrow> 'i \<times> 'p world \<times> SweepStats \<Rightarrow> bool" where
  "gc_keeps i t w0 st \<longleftrightarrow> cinv (fst st) \<and> world_ok provs pinv (fst (snd st))
    \<and> piece_rows_of (entries (fst st)) i t \<and> (\<forall>b. pieces (fst (snd st) b) i = pieces (w0 b) i)"

lemma gc_row_keeps:
  assumes "minv mst" "t \<noteq> []" "i \<noteq> []" "versions mst k = Some m" "k_TenantID k = t"
    "i \<in> p_PieceID ` set (m_Pieces m)" "ce_PieceID e = i \<longrightarrow> ce_TenantID e = t" "gc_keeps i t w0 st"
  shows "gc_keeps i t w0 (gc_row ci ms provs mst e st)"
proof -
  obtain idx w stats where st: "st = (idx, w, stats)" by (cases st) auto
  obtain idx' w' stats' where r: "gc_row ci ms provs mst e (idx, w, stats) = (idx', w', stats')"
    by (cases "gc_row ci ms provs mst e (idx, w, stats)") auto
  show ?thesis
    using gc_row_safe [OF _ assms(1) _ assms(2-6) _ assms(7) r] assms(8) r by (simp add: gc_keeps_def st)
qed

lemma gc_rows_keep:
  assumes "minv mst" "t \<noteq> []" "i \<noteq> []" "versions mst k = Some m" "k_TenantID k = t"
    "i \<in> p_PieceID ` set (m_Pieces m)" "\<forall>e \<in> set es. ce_PieceID e = i \<longrightarrow> ce_TenantID e = t"
    "gc_keeps i t w0 st"
  shows "gc_keeps i t w0 (fold (gc_row ci ms provs mst) es st)"
  using assms(7,8)
proof (induction es arbitrary: st)
  case (Cons e es)
  have "gc_keeps i t w0 (gc_row ci ms provs mst e st)"
    using gc_row_keeps [OF assms(1-6), of e w0 st] Cons.prems by simp
  then show ?case
    using Cons.IH [of "gc_row ci ms provs mst e st"] Cons.prems(1) by simp
qed simp

lemma sweepTenant_keeps:
  assumes "minv mst" "t \<noteq> []" "i \<noteq> []" "versions mst k = Some m" "k_TenantID k = t"
    "i \<in> p_PieceID ` set (m_Pieces m)" "gc_keeps i t w0 st"
  shows "gc_keeps i t w0 (sweepTenant ci ms provs mst tn st)"
proof (cases "ci_ScanAll ci tn (fst st)")
  case (Inl err)
  then show ?thesis using assms(7) by (simp add: sweepTenant_def gc_keeps_def)
next
  case (Inr es)
  have "cinv (fst st)" "piece_rows_of (entries (fst st)) i t"
    using assms(7) by (simp_all add: gc_keeps_def)
  then have "\<forall>e \<in> set es. ce_PieceID e = i \<longrightarrow> ce_TenantID e = t"
    using C.scan_ok [OF _ Inr] by (auto simp: piece_rows_of_def)
  moreover have "gc_keeps i t w0 (fst st, fst (snd st),
      (snd (snd st))\<lparr>ss_RowsScanned := ss_RowsScanned (snd (snd st)) + length es\<rparr>)"
    using assms(7) by (simp add: gc_keeps_def)
  ultimately show ?thesis
    using gc_rows_keep [OF assms(1-6), of es w0] by (simp add: sweepTenant_def Inr)
qed

lemma Sweep_keeps:
  assumes "minv mst" "t \<noteq> []" "i \<noteq> []" "versions mst k = Some m" "k_TenantID k = t"
    "i \<in> p_PieceID ` set (m_Pieces m)" "cinv idx" "world_ok provs pinv w" "piece_rows_of (entries idx) i t"
    and sweep: "Sweep ci ms provs mst idx w = Inr (idx', w', stats)"
  shows "pieces (w' b) i = pieces (w b) i"
proof -
  have *: "gc_keeps i t w (fold (sweepTenant ci ms provs mst) ts st)" if "gc_keeps i t w st" for ts st
    using that
  proof (induction ts arbitrary: st)
    case (Cons tn ts)
    then show ?case
      using sweepTenant_keeps [OF assms(1-6) Cons.prems, of tn] by simp
  qed simp
  obtain ts st where "fold (sweepTenant ci ms provs mst) ts st = (idx', w', stats)" "fst st = idx" "fst (snd st) = w"
    using sweep by (auto simp: Sweep_def split: sum.splits)
  moreover from this have "gc_keeps i t w st"
    using assms(7-9) by (simp add: gc_keeps_def)
  ultimately have "gc_keeps i t w (idx', w', stats)"
    using * by metis
  then show ?thesis by (simp add: gc_keeps_def)
qed

end

definition local_backends :: "string list \<Rightarrow> LocalFS backends" where
  "local_backends names b = (if b \<in> set names then Some local_provider else None)"

interpretation mem_gc: orphan_gc ci_ops ci_inv gm_get mem_ops mem_inv mem_versions mem_current
    "local_backends names" local_inv local_pieces for names
proof (rule orphan_gc.intro [OF mem_index.content_index_axioms mem.manifest_store_axioms],
    rule orphan_gc_axioms.intro)
  fix b pv assume "local_backends names b = Some pv"
  then show "storage_provider pv local_inv local_pieces"
    using local_fs.storage_provider_axioms by (simp add: local_backends_def split: if_splits)
qed

text \<open>
  C15: the orphan sweep never removes a piece that a manifest still references.
  For every tenant, every manifest of the tenant and every piece it lists, the
  stored bytes of the piece are the same on every backend after a sweep, as long
  as the index lists the piece under that tenant only.
\<close>

theorem Sweep_keeps_referenced_pieces:
  assumes "orphan_gc ci cinv entries ms minv versions current provs pinv pieces"
    and "minv mst" "cinv idx" "world_ok provs pinv w"
    and "versions mst k = Some m" "k_TenantID k = t" "i \<in> p_PieceID ` set (m_Pieces m)" "t \<noteq> []" "i \<noteq> []"
    and "piece_rows_of (entries idx) i t"
    and "Sweep ci ms provs mst idx w = Inr (idx', w', stats)"
  shows "pieces (w' b) i = pieces (w b) i"
  using orphan_gc.Sweep_keeps [OF assms(1,2,8,9,5,6,7,3,4,10,11)] .

definition sample_entry :: "string \<Rightarrow> string \<Rightarrow> int \<Rightarrow> ContentIndexEntry" where
  "sample_entry h i n = \<lparr>ce_TenantID = ''t'', ce_ContentHash = h, ce_PieceID = i, ce_Backend = ''local'',
     ce_RefCount = n, ce_SizeBytes = 1, ce_ETag = [], ce_PieceIDs = [], ce_PlaintextHash = [], ce_CreatedAt = 1\<rparr>"

definition sample_piece :: "string \<Rightarrow> Piece" where
  "sample_piece i = zero_Piece\<lparr>p_PieceID := i, p_Backend := ''local''\<rparr>"

definition sample_fs :: LocalFS where
  "sample_fs = snd (Local_PutPiece ''orphan'' [7] default_opts (snd (Local_PutPiece ''live'' [9] default_opts empty_fs)))"

definition sample_index :: CIStore where
  "sample_index = [(ckey ''t'' ''h1'', sample_entry ''h1'' ''live'' 1), (ckey ''t'' ''h2'', sample_entry ''h2'' ''orphan'' 2)]"

definition sample_manifests :: MemStore where
  "sample_manifests = mem_put_all
    [(mkey ''t'' ''b'' ''k'' ''v'', zero_ObjectManifest\<lparr>m_Pieces := [sample_piece ''live'']\<rparr>)] NewMemStore"

lemma sample_gc_state:
  "ci_inv sample_index" "mem_inv sample_manifests"
  "world_ok (local_backends [''local'']) local_inv (\<lambda>_. sample_fs)"
proof -
  show "ci_inv sample_index"
    by (auto simp: ci_inv_def gm_wf_def gm_get_def sample_index_def sample_entry_def ckey_def split: if_splits)
  show "mem_inv sample_manifests"
    by (simp add: sample_manifests_def mem_inv_put_all mem_inv_New)
  have "local_inv empty_fs"
    by (simp add: local_inv_def empty_fs_def store_simps)
  then have "local_inv (snd (Local_PutPiece i d default_opts fs))" if "local_inv fs" for i d fs
    using that by (cases "Local_PutPiece i d default_opts fs")
      (auto elim!: Local_PutPiece_cases simp: local_inv_put)
  with \<open>local_inv empty_fs\<close> show "world_ok (local_backends [''local'']) local_inv (\<lambda>_. sample_fs)"
    by (simp add: world_ok_def sample_fs_def)
qed

theorem Sweep_keeps_referenced_pieces_witness:
  "\<exists>idx' w' stats. Sweep ci_ops mem_ops (local_backends [''local'']) sample_manifests sample_index (\<lambda>_. sample_fs)
      = Inr (idx', w', stats)
    \<and> local_pieces (w' ''local'') ''live'' = Some [9]"
proof -
  have "\<exists>r. Sweep ci_ops mem_ops (local_backends [''local'']) sample_manifests sample_index (\<lambda>_. sample_fs) = Inr r"
    by (simp add: Sweep_def ci_ops_def CI_ListTenants_def) (meson prod_cases3)
  then obtain idx' w' stats where sw: "Sweep ci_ops mem_ops (local_backends [''local'']) sample_manifests sample_index
      (\<lambda>_. sample_fs) = Inr (idx', w', stats)"
    by (metis prod_cases3)
  have v: "mem_versions sample_manifests (mkey ''t'' ''b'' ''k'' ''v'') =
      Some (zero_ObjectManifest\<lparr>m_Pieces := [sample_piece ''live'']\<rparr>)"
      "local_pieces sample_fs ''live'' = Some [9]"
    by code_simp+
  have rows: "piece_rows_of (gm_get sample_index) ''live'' ''t''"
    by (auto simp: piece_rows_of_def gm_get_def sample_index_def sample_entry_def split: if_splits)
  have i: "''live'' \<in> p_PieceID ` set (m_Pieces (zero_ObjectManifest\<lparr>m_Pieces := [sample_piece ''live'']\<rparr>))"
    by (simp add: sample_piece_def)
  have "local_pieces (w' ''local'') ''live'' = local_pieces sample_fs ''live''"
    by (rule Sweep_keeps_referenced_pieces [OF mem_gc.orphan_gc_axioms sample_gc_state(2,1,3) v(1) _ i _ _ rows sw])
      (simp_all add: mkey_def)
  then show ?thesis
    using sw v(2) by simp
qed

text \<open>
  C35: an orphan row with more than one reference outlives its piece.  When no
  manifest references the piece of a row and its count is above one, the sweep
  deletes the piece from the backend and decrements the row once; the row stays,
  and the next upload of the same content is answered from it.
\<close>

theorem gc_row_leaves_dangling_row:
  assumes "gm_get idx (ckey (ce_TenantID e) (ce_ContentHash e)) = Some e" "1 < ce_RefCount e"
    and "op_HasManifestWithPieceID mem_ops (ce_TenantID e) (ce_PieceID e) mst = Inr False"
    and "Local_DeletePiece (ce_PieceID e) (w (ce_Backend e)) = (Inr (), fs')" "ce_Backend e \<in> set names"
    and "gc_row ci_ops mem_ops (local_backends names) mst e (idx, w, stats) = (idx', w', stats')"
  shows "local_pieces (w' (ce_Backend e)) (ce_PieceID e) = None
    \<and> CI_Lookup (ce_TenantID e) (ce_ContentHash e) idx' = Inr (bump (- 1) e)"
proof -
  have "world_delete (local_backends names) (ce_Backend e) (ce_PieceID e) w
      = (Some (Inr ()), w(ce_Backend e := fs'))"
    using assms(4,5) by (simp add: world_delete_def local_backends_def local_provider_def)
  moreover have "gc_drain ci_ops e (idx, st) =
      (gm_set (ckey (ce_TenantID e) (ce_ContentHash e)) (bump (- 1) e) idx, st)" for st
    using assms(1,2) by (simp add: gc_drain_def ci_ops_def CI_DecrementRef_def Let_def bump_def)
  ultimately have "w' = w(ce_Backend e := fs')"
      "idx' = gm_set (ckey (ce_TenantID e) (ce_ContentHash e)) (bump (- 1) e) idx"
    using assms(3,6) by (simp_all add: gc_row_def Let_def)
  moreover have "local_pieces fs' (ce_PieceID e) = None"
    using assms(4) by (auto elim!: Local_DeletePiece_cases simp: local_pieces_del)
  ultimately show ?thesis
    by (simp add: CI_Lookup_def store_simps)
qed

theorem gc_row_leaves_dangling_row_witness:
  "case gc_row ci_ops mem_ops (local_backends [''local'']) sample_manifests (sample_entry ''h2'' ''orphan'' 2)
      (sample_index, (\<lambda>_. sample_fs), zero_SweepStats) of (idx', w', stats') \<Rightarrow>
    local_pieces (w' ''local'') ''orphan'' = None
    \<and> CI_Lookup ''t'' ''h2'' idx' = Inr (sample_entry ''h2'' ''orphan'' 1)"
proof -
  let ?e = "sample_entry ''h2'' ''orphan'' 2"
  have e: "ce_TenantID ?e = ''t''" "ce_ContentHash ?e = ''h2''" "ce_PieceID ?e = ''orphan''"
      "ce_Backend ?e = ''local''" "1 < ce_RefCount ?e" "bump (- 1) ?e = sample_entry ''h2'' ''orphan'' 1"
    by (simp_all add: sample_entry_def bump_def)
  have row: "gm_get sample_index (ckey ''t'' ''h2'') = Some ?e"
    by (simp add: gm_get_def sample_index_def ckey_def)
  have probe: "op_HasManifestWithPieceID mem_ops ''t'' ''orphan'' sample_manifests = Inr False"
      "fst (Local_DeletePiece ''orphan'' sample_fs) = Inr ()"
    by code_simp+
  then have del: "Local_DeletePiece ''orphan'' sample_fs = (Inr (), snd (Local_DeletePiece ''orphan'' sample_fs))"
    by (metis prod.collapse)
  obtain idx' w' stats' where r: "gc_row ci_ops mem_ops (local_backends [''local'']) sample_manifests ?e
      (sample_index, (\<lambda>_. sample_fs), zero_SweepStats) = (idx', w', stats')"
    by (metis prod_cases3)
  show ?thesis
    using gc_row_leaves_dangling_row [of sample_index ?e sample_manifests "\<lambda>_. sample_fs", OF _ _ _ _ _ r]
      e row probe del r by simp
qed

end
