(* ===== verification/Bucket_Rules.thy ===== *)
theory Bucket_Rules
  imports Go_Strings Go_Time Object_Lock
begin

text \<open>
  The bucket-level rule documents: CORS rules and their wildcard matching
  (\<open>metadata/cors/cors.go\<close>), lifecycle rules with their filters and dates
  (\<open>metadata/lifecycle/lifecycle.go\<close>), the default server-side encryption
  (\<open>metadata/sse/sse.go\<close>) and the event matching of notification rules
  (\<open>metadata/notification/notification.go\<close>).  A validation error is its message, without
  the rule number and the quoted value the code formats into it.
\<close>

section \<open>Sequential validation\<close>

text \<open>A Go loop that returns the first error of a check.\<close>

fun first_error :: "('a \<Rightarrow> ('e, unit) result) \<Rightarrow> 'a list \<Rightarrow> ('e, unit) result" where
  "first_error f [] = Inr ()"
| "first_error f (x # xs) = (case f x of Inl e \<Rightarrow> Inl e | Inr _ \<Rightarrow> first_error f xs)"

lemma first_error_ok [simp]: "first_error f xs = Inr u \<longleftrightarrow> (\<forall>x \<in> set xs. f x = Inr ())"
  by (induction xs) (auto split: sum.splits)

definition require :: "bool \<Rightarrow> 'e \<Rightarrow> ('e, unit) result" where
  "require c e = (if c then Inr () else Inl e)"

lemma require_ok [simp]: "require c e = Inr u \<longleftrightarrow> c"
  by (simp add: require_def)

section \<open>CORS\<close>

record CORSRule =
  cr_ID :: string
  cr_AllowedOrigins :: "string list"
  cr_AllowedMethods :: "string list"
  cr_AllowedHeaders :: "string list"
  cr_ExposeHeaders :: "string list"
  cr_MaxAgeSeconds :: int

type_synonym CORSConfig = "CORSRule list"

definition validMethods :: "string list" where
  "validMethods = [''GET'', ''PUT'', ''HEAD'', ''POST'', ''DELETE'']"

definition stars :: "string \<Rightarrow> nat" where
  "stars s = length (filter (\<lambda>c. c = CHR ''*'') s)"

definition CORSRule_valid :: "CORSRule \<Rightarrow> (string, unit) result" where
  "CORSRule_valid r =
    (if cr_AllowedOrigins r = [] then Inl ''at least one AllowedOrigin is required''
     else if cr_AllowedMethods r = [] then Inl ''at least one AllowedMethod is required''
     else
       bind_result (first_error (\<lambda>o'.
           if o' = [] then Inl ''AllowedOrigin must not be empty''
           else require (stars o' \<le> 1) ''AllowedOrigin may contain at most one wildcard'')
         (cr_AllowedOrigins r)) (\<lambda>_.
       bind_result (first_error (\<lambda>m. require (m \<in> set validMethods) ''AllowedMethod must be one of GET, PUT, HEAD, POST, DELETE'')
         (cr_AllowedMethods r)) (\<lambda>_.
       bind_result (first_error (\<lambda>h. require (stars h \<le> 1) ''AllowedHeader may contain at most one wildcard'')
         (cr_AllowedHeaders r)) (\<lambda>_.
       if length (cr_ID r) > 255 then Inl ''ID must be at most 255 characters''
       else if cr_MaxAgeSeconds r < 0 then Inl ''MaxAgeSeconds must not be negative''
       else Inr ()))))"

definition CORSConfig_Valid :: "CORSConfig \<Rightarrow> (string, unit) result" where
  "CORSConfig_Valid rules =
    (if rules = [] then Inl ''cors: configuration must contain at least one CORSRule''
     else if length rules > 100 then Inl ''cors: at most 100 CORSRules are allowed''
     else first_error CORSRule_valid rules)"

definition wildcardMatch :: "string \<Rightarrow> string \<Rightarrow> bool" where
  "wildcardMatch pattern s =
    (case IndexByte pattern (CHR ''*'') of
       None \<Rightarrow> pattern = s
     | Some star \<Rightarrow>
         let prefix = take star pattern; suffix = drop (star + 1) pattern in
         if length s < length prefix + length suffix then False
         else has_prefix s prefix \<and> has_suffix s suffix)"

definition originMatches :: "string \<Rightarrow> string \<Rightarrow> bool" where
  "originMatches pattern origin = wildcardMatch pattern origin"

definition headerMatches :: "string \<Rightarrow> string \<Rightarrow> bool" where
  "headerMatches pattern header = wildcardMatch (ToLower pattern) (ToLower header)"

definition allowsMethod :: "CORSRule \<Rightarrow> string \<Rightarrow> bool" where
  "allowsMethod r method = list_ex (\<lambda>m. m = method) (cr_AllowedMethods r)"

definition matchesOrigin :: "CORSRule \<Rightarrow> string \<Rightarrow> bool" where
  "matchesOrigin r origin = (if origin = [] then False else list_ex (\<lambda>p. originMatches p origin) (cr_AllowedOrigins r))"

fun CORS_Match :: "CORSConfig \<Rightarrow> string \<Rightarrow> string \<Rightarrow> CORSRule option" where
  "CORS_Match [] origin method = None"
| "CORS_Match (r # rs) origin method =
    (if matchesOrigin r origin \<and> allowsMethod r method then Some r else CORS_Match rs origin method)"

definition allowsHeader :: "CORSRule \<Rightarrow> string \<Rightarrow> bool" where
  "allowsHeader r header = list_ex (\<lambda>p. headerMatches p header) (cr_AllowedHeaders r)"

definition AllowsHeaders :: "CORSRule \<Rightarrow> string list \<Rightarrow> bool" where
  "AllowsHeaders r requested =
    list_all (\<lambda>h. let h = TrimSpace h in h = [] \<or> allowsHeader r h) requested"

section \<open>Default server-side encryption\<close>

record SSEConfig =
  se_Algorithm :: string
  se_KMSMasterKeyID :: string
  se_BucketKeyEnabled :: bool

definition zero_SSEConfig :: SSEConfig where
  "zero_SSEConfig = \<lparr>se_Algorithm = [], se_KMSMasterKeyID = [], se_BucketKeyEnabled = False\<rparr>"

definition SSEConfig_Empty :: "SSEConfig \<Rightarrow> bool" where
  "SSEConfig_Empty c = (se_Algorithm c = [])"

definition SSEConfig_Valid :: "SSEConfig \<Rightarrow> (string, unit) result" where
  "SSEConfig_Valid c =
    (if se_Algorithm c = ''AES256'' then
       require (se_KMSMasterKeyID c = []) ''sse: KMSMasterKeyID is only valid with the aws:kms algorithm''
     else if se_Algorithm c = ''aws:kms'' then Inr ()
     else if se_Algorithm c = [] then Inl ''sse: SSEAlgorithm is required''
     else Inl ''sse: SSEAlgorithm must be one of AES256 or aws:kms'')"

section \<open>Lifecycle\<close>

abbreviation StatusEnabled :: string where "StatusEnabled \<equiv> ''Enabled''"
abbreviation StatusDisabled :: string where "StatusDisabled \<equiv> ''Disabled''"

definition validStorageClasses :: "string list" where
  "validStorageClasses = [''STANDARD_IA'', ''ONEZONE_IA'', ''INTELLIGENT_TIERING'', ''GLACIER'', ''GLACIER_IR'', ''DEEP_ARCHIVE'']"

record LCFilter =
  lf_Prefix :: string
  lf_Tags :: "(string, string) gomap"
  lf_ObjectSizeGreaterThan :: "int option"
  lf_ObjectSizeLessThan :: "int option"

record Expiration =
  ex_Days :: int
  ex_Date :: gotime
  ex_ExpiredObjectDeleteMarker :: bool

record Transition =
  tr_Days :: int
  tr_Date :: gotime
  tr_StorageClass :: string

record LCRule =
  lr_ID :: string
  lr_Status :: string
  lr_Filter :: LCFilter
  lr_Expiration :: "Expiration option"
  lr_Transitions :: "Transition list"
  lr_AbortDays :: "int option"

type_synonym LCConfig = "LCRule list"

definition LCRule_Enabled :: "LCRule \<Rightarrow> bool" where
  "LCRule_Enabled r = (lr_Status r = StatusEnabled)"

definition LCFilter_valid :: "LCFilter \<Rightarrow> (string, unit) result" where
  "LCFilter_valid f =
    bind_result (first_error (\<lambda>(k, v). require (k \<noteq> []) ''filter tag key must not be empty'') (lf_Tags f)) (\<lambda>_.
    if (case lf_ObjectSizeGreaterThan f of Some n \<Rightarrow> n < 0 | None \<Rightarrow> False) then
      Inl ''ObjectSizeGreaterThan must not be negative''
    else if (case lf_ObjectSizeLessThan f of Some n \<Rightarrow> n < 1 | None \<Rightarrow> False) then
      Inl ''ObjectSizeLessThan must be a positive number of bytes''
    else (case (lf_ObjectSizeGreaterThan f, lf_ObjectSizeLessThan f) of
       (Some a, Some b) \<Rightarrow> require (\<not> a \<ge> b) ''ObjectSizeGreaterThan must be less than ObjectSizeLessThan''
     | _ \<Rightarrow> Inr ()))"

definition Expiration_valid :: "Expiration \<Rightarrow> (string, unit) result" where
  "Expiration_valid e =
    (let n = (if ex_Days e \<noteq> 0 then 1 else 0) + (if ex_Date e \<noteq> zero_time then 1 else 0)
           + (if ex_ExpiredObjectDeleteMarker e then 1 else 0 :: nat) in
     if n = 0 then Inl ''Expiration must set one of Days, Date, or ExpiredObjectDeleteMarker''
     else if n > 1 then Inl ''Expiration must set exactly one of Days, Date, or ExpiredObjectDeleteMarker''
     else if ex_Days e < 0 then Inl ''Expiration.Days must be a positive number of days''
     else Inr ())"

definition Transition_valid :: "Transition \<Rightarrow> (string, unit) result" where
  "Transition_valid t =
    (if tr_StorageClass t = [] then Inl ''StorageClass is required''
     else if tr_StorageClass t \<notin> set validStorageClasses then Inl ''StorageClass is not a valid transition target''
     else if (tr_Days t \<noteq> 0) = (tr_Date t \<noteq> zero_time) then Inl ''transition must set exactly one of Days or Date''
     else if tr_Days t < 0 then Inl ''Transition.Days must be a positive number of days''
     else Inr ())"

definition LCRule_valid :: "LCRule \<Rightarrow> (string, unit) result" where
  "LCRule_valid r =
    (if lr_Status r \<noteq> StatusEnabled \<and> lr_Status r \<noteq> StatusDisabled then Inl ''status must be Enabled or Disabled''
     else if length (lr_ID r) > 255 then Inl ''ID must be at most 255 characters''
     else bind_result (LCFilter_valid (lr_Filter r)) (\<lambda>_.
       if \<not> (lr_Expiration r \<noteq> None \<or> lr_Transitions r \<noteq> [] \<or> lr_AbortDays r \<noteq> None) then
         Inl ''rule must specify at least one action (Expiration, Transition, or AbortIncompleteMultipartUpload)''
       else bind_result (case lr_Expiration r of None \<Rightarrow> Inr () | Some e \<Rightarrow> Expiration_valid e) (\<lambda>_.
       bind_result (first_error Transition_valid (lr_Transitions r)) (\<lambda>_.
       case lr_AbortDays r of
         None \<Rightarrow> Inr ()
       | Some n \<Rightarrow>
           if n \<le> 0 then Inl ''AbortIncompleteMultipartUpload.DaysAfterInitiation must be a positive number of days''
           else if lf_Tags (lr_Filter r) \<noteq> [] then Inl ''AbortIncompleteMultipartUpload cannot be combined with a tag filter''
           else Inr ()))))"

fun lc_rules_valid :: "string list \<Rightarrow> LCConfig \<Rightarrow> (string, unit) result" where
  "lc_rules_valid seenIDs [] = Inr ()"
| "lc_rules_valid seenIDs (r # rs) =
    bind_result (LCRule_valid r) (\<lambda>_.
      if lr_ID r \<noteq> [] then
        (if lr_ID r \<in> set seenIDs then Inl ''duplicate rule ID'' else lc_rules_valid (lr_ID r # seenIDs) rs)
      else lc_rules_valid seenIDs rs)"

definition LCConfig_Valid :: "LCConfig \<Rightarrow> (string, unit) result" where
  "LCConfig_Valid rules =
    (if rules = [] then Inl ''lifecycle: configuration must contain at least one Rule''
     else if length rules > 1000 then Inl ''lifecycle: at most 1000 Rules are allowed''
     else lc_rules_valid [] rules)"

text \<open>Indexing a Go map gives the zero string for a key it lacks.\<close>

definition tag_value :: "(string, string) gomap \<Rightarrow> string \<Rightarrow> string" where
  "tag_value tags k = (case gm_get tags k of None \<Rightarrow> [] | Some v \<Rightarrow> v)"

definition LCRule_Matches :: "LCRule \<Rightarrow> string \<Rightarrow> (string, string) gomap \<Rightarrow> int \<Rightarrow> bool" where
  "LCRule_Matches r key tags sz =
    (let f = lr_Filter r in
     if lf_Prefix f \<noteq> [] \<and> \<not> has_prefix key (lf_Prefix f) then False
     else if \<not> list_all (\<lambda>(k, v). tag_value tags k = v) (lf_Tags f) then False
     else if (case lf_ObjectSizeGreaterThan f of Some n \<Rightarrow> sz \<le> n | None \<Rightarrow> False) then False
     else if (case lf_ObjectSizeLessThan f of Some n \<Rightarrow> sz \<ge> n | None \<Rightarrow> False) then False
     else True)"

definition ceilToUTCMidnight :: "gotime \<Rightarrow> gotime" where
  "ceilToUTCMidnight t =
    (let midnight = Date (Year t) (Month t) (Day t) 0 in
     if t = midnight then midnight else AddDate midnight 0 1)"

definition ExpiresAt :: "LCRule \<Rightarrow> gotime \<Rightarrow> gotime option" where
  "ExpiresAt r createdAt =
    (case lr_Expiration r of
       None \<Rightarrow> None
     | Some e \<Rightarrow>
         if ex_ExpiredObjectDeleteMarker e then None
         else if ex_Date e \<noteq> zero_time then Some (ex_Date e)
         else if ex_Days e \<le> 0 \<or> createdAt = zero_time then None
         else Some (ceilToUTCMidnight (AddDate createdAt 0 (ex_Days e))))"

definition AbortStaleBefore :: "LCRule \<Rightarrow> gotime \<Rightarrow> gotime option" where
  "AbortStaleBefore r now =
    (case lr_AbortDays r of
       None \<Rightarrow> None
     | Some n \<Rightarrow> if n \<le> 0 then None else Some (AddDate now 0 (- n)))"

section \<open>Notification events\<close>

abbreviation ObjectCreatedAll :: string where "ObjectCreatedAll \<equiv> ''s3:ObjectCreated:*''"
abbreviation ObjectRemovedAll :: string where "ObjectRemovedAll \<equiv> ''s3:ObjectRemoved:*''"

text \<open>The text before the last colon, empty when there is none (\<open>strings.LastIndex\<close>).\<close>

definition event_class :: "string \<Rightarrow> string" where
  "event_class e =
    (case IndexByte (rev e) (CHR '':'') of None \<Rightarrow> [] | Some j \<Rightarrow> take (length e - Suc j) e)"

definition IsObjectCreated :: "string \<Rightarrow> bool" where
  "IsObjectCreated e = (event_class e = ''s3:ObjectCreated'')"

definition event_covers :: "string \<Rightarrow> string \<Rightarrow> bool" where
  "event_covers sub emitted =
    (if sub = emitted then True
     else if sub = ObjectCreatedAll \<or> sub = ObjectRemovedAll then event_class sub = event_class emitted
     else False)"

record NotificationRule =
  nr_ID :: string
  nr_Events :: "string list"
  nr_Endpoint :: string
  nr_Prefix :: string
  nr_Suffix :: string

definition Notification_Match :: "NotificationRule list \<Rightarrow> string \<Rightarrow> string \<Rightarrow> NotificationRule list" where
  "Notification_Match rules emitted key =
    filter (\<lambda>r.
      if nr_Prefix r \<noteq> [] \<and> \<not> has_prefix key (nr_Prefix r) then False
      else if nr_Suffix r \<noteq> [] \<and> \<not> has_suffix key (nr_Suffix r) then False
      else list_ex (\<lambda>sub. event_covers sub emitted) (nr_Events r)) rules"

section \<open>Lemmas\<close>

lemma midnight_of_civil: "Date (Year t) (Month t) (Day t) 0 = t - t mod day"
proof -
  have "Date (Year t) (Month t) (Day t) (t mod day) = t"
    by (rule Date_civil)
  then show ?thesis
    unfolding Date_def by linarith
qed

lemma ceilToUTCMidnight_bounds:
  "ceilToUTCMidnight t mod day = 0" "t \<le> ceilToUTCMidnight t" "ceilToUTCMidnight t < t + day"
proof -
  have m: "ceilToUTCMidnight t = (if t mod day = 0 then t else t - t mod day + day)"
    unfolding ceilToUTCMidnight_def Let_def midnight_of_civil AddDate_days by auto
  have b: "0 \<le> t mod day" "t mod day < day"
    using pos_mod_sign [OF day_pos] pos_mod_bound [OF day_pos] by auto
  have d: "day dvd t - t mod day"
    by (simp add: dvd_minus_mod)
  show "ceilToUTCMidnight t mod day = 0"
    using d unfolding m by (simp add: mod_eq_0_iff_dvd)
  have "t \<le> ceilToUTCMidnight t \<and> ceilToUTCMidnight t < t + day"
  proof (cases "t mod day = 0")
    case True
    then show ?thesis by (simp add: m)
  next
    case False
    then have "ceilToUTCMidnight t = t - t mod day + day" by (simp add: m)
    then show ?thesis using b False by linarith
  qed
  then show "t \<le> ceilToUTCMidnight t" "ceilToUTCMidnight t < t + day"
    by blast+
qed

lemma stars_append [simp]: "stars (a @ b) = stars a + stars b"
  by (simp add: stars_def)

lemma stars_Cons [simp]: "stars (c # b) = (if c = CHR ''*'' then 1 else 0) + stars b"
  by (simp add: stars_def)

lemma stars_zero: "stars s = 0 \<longleftrightarrow> CHR ''*'' \<notin> set s"
  by (induction s) (auto simp: stars_def)

lemma IndexByte_stars: "stars pattern \<le> 1 \<Longrightarrow> IndexByte pattern (CHR ''*'') = Some i
  \<Longrightarrow> CHR ''*'' \<notin> set (drop (i + 1) pattern)"
proof -
  assume s: "stars pattern \<le> 1" and i: "IndexByte pattern (CHR ''*'') = Some i"
  then have "pattern = take i pattern @ CHR ''*'' # drop (i + 1) pattern"
    using id_take_nth_drop [of i pattern] by (simp add: IndexByte_Some_iff)
  then have "stars pattern = stars (take i pattern @ CHR ''*'' # drop (i + 1) pattern)"
    by metis
  then have "stars (drop (i + 1) pattern) = 0"
    using s by simp
  then show "CHR ''*'' \<notin> set (drop (i + 1) pattern)"
    by (simp add: stars_zero)
qed

lemma wildcardMatch_star:
  assumes "CHR ''*'' \<notin> set p"
  shows "wildcardMatch (p @ CHR ''*'' # q) s \<longleftrightarrow> (\<exists>m. s = p @ m @ q)"
proof -
  have "wildcardMatch (p @ CHR ''*'' # q) s \<longleftrightarrow>
      length p + length q \<le> length s \<and> has_prefix s p \<and> has_suffix s q"
    using IndexByte_append [OF assms, of q] by (auto simp: wildcardMatch_def Let_def)
  also have "\<dots> \<longleftrightarrow> (\<exists>m. s = p @ m @ q)"
  proof
    assume a: "length p + length q \<le> length s \<and> has_prefix s p \<and> has_suffix s q"
    then obtain r where r: "s = p @ r"
      by (auto simp: has_prefix_iff)
    with a have "has_suffix r q"
      by (auto simp: has_suffix_def)
    with r show "\<exists>m. s = p @ m @ q"
      by (auto simp: has_suffix_iff)
  next
    assume "\<exists>m. s = p @ m @ q"
    then show "length p + length q \<le> length s \<and> has_prefix s p \<and> has_suffix s q"
      by (auto simp: has_prefix_iff) (metis append.assoc has_suffix_iff)
  qed
  finally show ?thesis .
qed

lemma wildcardMatch_literal: "CHR ''*'' \<notin> set p \<Longrightarrow> wildcardMatch p s \<longleftrightarrow> s = p"
  by (auto simp: wildcardMatch_def IndexByte_None_iff [THEN iffD2])

lemma CORS_Match_first:
  "CORS_Match rules origin method = Some r \<longleftrightarrow>
    (\<exists>a b. rules = a @ r # b \<and> matchesOrigin r origin \<and> allowsMethod r method
       \<and> (\<forall>x \<in> set a. \<not> (matchesOrigin x origin \<and> allowsMethod x method)))"
proof (induction rules)
  case (Cons x xs)
  define P where "P y \<longleftrightarrow> matchesOrigin y origin \<and> allowsMethod y method" for y
  have IH: "CORS_Match xs origin method = Some r \<longleftrightarrow> (\<exists>a b. xs = a @ r # b \<and> P r \<and> (\<forall>y \<in> set a. \<not> P y))"
    using Cons by (simp add: P_def)
  have "CORS_Match (x # xs) origin method = Some r \<longleftrightarrow>
      (\<exists>a b. x # xs = a @ r # b \<and> P r \<and> (\<forall>y \<in> set a. \<not> P y))"
  proof (cases "P x")
    case True
    have "x = r" if "x # xs = a @ r # b" "\<forall>y \<in> set a. \<not> P y" for a b
      using that True by (cases a) auto
    moreover have "\<exists>a b. x # xs = a @ x # b \<and> P x \<and> (\<forall>y \<in> set a. \<not> P y)"
      using True by (intro exI [of _ "[]"] exI [of _ xs]) simp
    moreover have "CORS_Match (x # xs) origin method = Some x"
      using True by (simp add: P_def)
    ultimately show ?thesis
      by (metis option.inject)
  next
    case False
    have "(\<exists>a b. x # xs = a @ r # b \<and> P r \<and> (\<forall>y \<in> set a. \<not> P y)) \<longleftrightarrow>
        (\<exists>a b. xs = a @ r # b \<and> P r \<and> (\<forall>y \<in> set a. \<not> P y))" (is "?l \<longleftrightarrow> ?r")
    proof
      assume ?l
      then obtain a b where ab: "x # xs = a @ r # b" "P r" "\<forall>y \<in> set a. \<not> P y"
        by blast
      with False obtain a' where "a = x # a'"
        by (cases a) auto
      with ab show ?r by auto
    next
      assume ?r
      then obtain a b where "xs = a @ r # b" "P r" "\<forall>y \<in> set a. \<not> P y"
        by blast
      then show ?l
        using False by (intro exI [of _ "x # a"] exI [of _ b]) simp
    qed
    with False IH show ?thesis
      by (simp add: P_def [symmetric])
  qed
  then show ?case
    by (simp only: P_def conj_assoc)
qed simp

section \<open>Properties\<close>

definition origin_in_pattern :: "string \<Rightarrow> string \<Rightarrow> bool" where
  "origin_in_pattern pattern origin \<longleftrightarrow>
    (if CHR ''*'' \<in> set pattern
     then (\<exists>p q m. pattern = p @ CHR ''*'' # q \<and> CHR ''*'' \<notin> set p \<and> CHR ''*'' \<notin> set q \<and> origin = p @ m @ q)
     else origin = pattern)"

lemma originMatches_iff:
  assumes "stars pattern \<le> 1"
  shows "originMatches pattern origin \<longleftrightarrow> origin_in_pattern pattern origin"
proof (cases "IndexByte pattern (CHR ''*'')")
  case None
  then have "CHR ''*'' \<notin> set pattern"
    by (simp add: IndexByte_None_iff)
  then show ?thesis
    by (auto simp: originMatches_def origin_in_pattern_def wildcardMatch_literal)
next
  case (Some i)
  let ?p = "take i pattern" and ?q = "drop (i + 1) pattern"
  have i: "i < length pattern" "pattern ! i = CHR ''*''" "CHR ''*'' \<notin> set ?p"
    using Some by (simp_all add: IndexByte_Some_iff)
  have q: "CHR ''*'' \<notin> set ?q"
    using IndexByte_stars [OF assms Some] .
  have e: "pattern = ?p @ CHR ''*'' # ?q"
    using id_take_nth_drop [OF i(1)] unfolding i(2) Suc_eq_plus1 .
  have star: "CHR ''*'' \<in> set pattern"
    using nth_mem [OF i(1)] unfolding i(2) .
  have u: "p = ?p \<and> q = ?q" if "pattern = p @ CHR ''*'' # q" "CHR ''*'' \<notin> set p" for p q
  proof -
    have "i = length p"
      using IndexByte_append [OF that(2), of q] Some unfolding that(1) by simp
    then show ?thesis by (simp add: that(1))
  qed
  have "originMatches pattern origin \<longleftrightarrow> (\<exists>m. origin = ?p @ m @ ?q)"
    unfolding originMatches_def using wildcardMatch_star [OF i(3), of ?q origin] unfolding e [symmetric] .
  also have "\<dots> \<longleftrightarrow> origin_in_pattern pattern origin"
    unfolding origin_in_pattern_def if_P [OF star]
  proof
    assume "\<exists>m. origin = ?p @ m @ ?q"
    then obtain m where "origin = ?p @ m @ ?q" ..
    then show "\<exists>p q m. pattern = p @ CHR ''*'' # q \<and> CHR ''*'' \<notin> set p \<and> CHR ''*'' \<notin> set q \<and> origin = p @ m @ q"
      using e i(3) q by (intro exI [of _ ?p] exI [of _ ?q] exI [of _ m] conjI)
  next
    assume "\<exists>p q m. pattern = p @ CHR ''*'' # q \<and> CHR ''*'' \<notin> set p \<and> CHR ''*'' \<notin> set q \<and> origin = p @ m @ q"
    then obtain p' q' m where m: "pattern = p' @ CHR ''*'' # q'" "CHR ''*'' \<notin> set p'" "origin = p' @ m @ q'"
      by (elim exE conjE) (rule that)
    from u [OF m(1,2)] have "origin = ?p @ m @ ?q"
      using m(3) by (simp only:)
    then show "\<exists>m. origin = ?p @ m @ ?q" ..
  qed
  finally show ?thesis .
qed

text \<open>
  C30: a bucket's CORS configuration that passed validation grants a cross-origin
  request exactly by the first rule, in order, one of whose origins is the
  request's origin with at most one stretch of text in place of the star, and
  which lists the method.
\<close>

theorem CORS_Match_sound_complete:
  assumes "CORSConfig_Valid rules = Inr ()" "origin \<noteq> []"
  shows "CORS_Match rules origin method = Some r \<longleftrightarrow>
    (\<exists>a b. rules = a @ r # b
       \<and> (\<exists>p \<in> set (cr_AllowedOrigins r). origin_in_pattern p origin) \<and> method \<in> set (cr_AllowedMethods r)
       \<and> (\<forall>x \<in> set a. \<not> ((\<exists>p \<in> set (cr_AllowedOrigins x). origin_in_pattern p origin)
            \<and> method \<in> set (cr_AllowedMethods x))))"
proof -
  have v: "stars p \<le> 1" if "x \<in> set rules" "p \<in> set (cr_AllowedOrigins x)" for x p
    using assms(1) that by (auto simp: CORSConfig_Valid_def CORSRule_valid_def split: if_splits)
  have o: "matchesOrigin x origin = (\<exists>p \<in> set (cr_AllowedOrigins x). origin_in_pattern p origin)"
    if "x \<in> set rules" for x
    using assms(2) originMatches_iff [OF v [OF that]] by (auto simp: matchesOrigin_def list_ex_iff)
  have m: "allowsMethod x method = (method \<in> set (cr_AllowedMethods x))" for x
    by (auto simp: allowsMethod_def list_ex_iff)
  show ?thesis
    unfolding CORS_Match_first m
  proof (intro ex_cong1 conj_cong refl)
    fix a b assume e: "rules = a @ r # b"
    show "matchesOrigin r origin = (\<exists>p \<in> set (cr_AllowedOrigins r). origin_in_pattern p origin)"
      by (rule o) (simp add: e)
    show "(\<forall>x \<in> set a. \<not> (matchesOrigin x origin \<and> method \<in> set (cr_AllowedMethods x))) =
      (\<forall>x \<in> set a. \<not> ((\<exists>p \<in> set (cr_AllowedOrigins x). origin_in_pattern p origin)
            \<and> method \<in> set (cr_AllowedMethods x)))"
    proof (rule ball_cong [OF refl])
      fix x assume "x \<in> set a"
      then have "x \<in> set rules"
        by (simp add: e)
      from o [OF this] show "(\<not> (matchesOrigin x origin \<and> method \<in> set (cr_AllowedMethods x))) =
          (\<not> ((\<exists>p \<in> set (cr_AllowedOrigins x). origin_in_pattern p origin) \<and> method \<in> set (cr_AllowedMethods x)))"
        by simp
    qed
  qed
qed

definition sample_cors :: CORSConfig where
  "sample_cors = [\<lparr>cr_ID = [], cr_AllowedOrigins = [''https://*.example''], cr_AllowedMethods = [''GET''],
     cr_AllowedHeaders = [], cr_ExposeHeaders = [], cr_MaxAgeSeconds = 0\<rparr>]"

theorem CORS_Match_sound_complete_witness:
  "CORS_Match sample_cors ''https://a.example'' ''GET'' = Some (hd sample_cors)
    \<and> (\<exists>p \<in> set (cr_AllowedOrigins (hd sample_cors)). origin_in_pattern p ''https://a.example'')"
proof -
  have v: "CORSConfig_Valid sample_cors = Inr ()" "CORS_Match sample_cors ''https://a.example'' ''GET'' = Some (hd sample_cors)"
    by code_simp+
  then show ?thesis
    using CORS_Match_sound_complete [OF v(1), of "''https://a.example''" "''GET''" "hd sample_cors"] by auto
qed


definition sample_lc :: "int \<Rightarrow> (string, string) gomap \<Rightarrow> LCRule" where
  "sample_lc n tags = \<lparr>lr_ID = [], lr_Status = StatusEnabled,
     lr_Filter = \<lparr>lf_Prefix = [], lf_Tags = tags, lf_ObjectSizeGreaterThan = None, lf_ObjectSizeLessThan = None\<rparr>,
     lr_Expiration = Some \<lparr>ex_Days = n, ex_Date = zero_time, ex_ExpiredObjectDeleteMarker = False\<rparr>,
     lr_Transitions = [], lr_AbortDays = None\<rparr>"


text \<open>
  C40: a valid lifecycle rule whose tag filter asks for an empty value selects the
  objects that do not carry the tag at all.
\<close>

theorem tag_filter_empty_value:
  assumes "k \<noteq> []" "gm_get tags k = None" "0 < n"
  shows "LCConfig_Valid [sample_lc n [(k, [])]] = Inr () \<and> LCRule_Matches (sample_lc n [(k, [])]) key tags sz"
  using assms
  by (simp add: LCConfig_Valid_def LCRule_valid_def LCFilter_valid_def Expiration_valid_def sample_lc_def
      LCRule_Matches_def tag_value_def Let_def require_def)

theorem tag_filter_empty_value_witness:
  "LCRule_Matches (sample_lc 1 [(''temp'', [])]) ''k'' [] 0"
  using tag_filter_empty_value [of "''temp''" "[]" 1 "''k''" 0] by (simp add: gm_get_def)

end
