(* ===== verification/Bucket_Config.thy ===== *)
theory Bucket_Config
  imports Bucket_Rules
begin

text \<open>
  The per-bucket configuration store
  (\<open>metadata/bucket_config/store.go\<close>, \<open>memory_store.go\<close>): versioning, Object
  Lock, CORS, lifecycle and default encryption of a bucket, each in a map whose
  key is the tenant and the bucket joined by a NUL byte.  The operations clone
  what they store and return; on values a clone is the value itself.  The
  notification setting is left out.
\<close>

section \<open>Versioning state\<close>

abbreviation (input) VersioningUnset :: string where "VersioningUnset \<equiv> ''''"
abbreviation VersioningEnabled :: string where "VersioningEnabled \<equiv> ''Enabled''"
abbreviation VersioningSuspended :: string where "VersioningSuspended \<equiv> ''Suspended''"

definition VersioningState_Valid :: "string \<Rightarrow> bool" where
  "VersioningState_Valid v = (v = VersioningEnabled \<or> v = VersioningSuspended)"

section \<open>The interface\<close>

record LifecycleEntry =
  le_TenantID :: string
  le_Bucket :: string
  le_Config :: LCConfig

record 's BucketConfig =
  bc_GetVersioning :: "string \<Rightarrow> string \<Rightarrow> 's \<Rightarrow> (string, string) result"
  bc_SetVersioning :: "string \<Rightarrow> string \<Rightarrow> string \<Rightarrow> 's \<Rightarrow> (string, 's) result"
  bc_GetObjectLock :: "string \<Rightarrow> string \<Rightarrow> 's \<Rightarrow> (string, LockConfig) result"
  bc_SetObjectLock :: "string \<Rightarrow> string \<Rightarrow> LockConfig \<Rightarrow> 's \<Rightarrow> (string, 's) result"
  bc_GetCORS :: "string \<Rightarrow> string \<Rightarrow> 's \<Rightarrow> (string, CORSConfig) result"
  bc_SetCORS :: "string \<Rightarrow> string \<Rightarrow> CORSConfig \<Rightarrow> 's \<Rightarrow> (string, 's) result"
  bc_DeleteCORS :: "string \<Rightarrow> string \<Rightarrow> 's \<Rightarrow> (string, 's) result"
  bc_GetLifecycle :: "string \<Rightarrow> string \<Rightarrow> 's \<Rightarrow> (string, LCConfig) result"
  bc_SetLifecycle :: "string \<Rightarrow> string \<Rightarrow> LCConfig \<Rightarrow> 's \<Rightarrow> (string, 's) result"
  bc_DeleteLifecycle :: "string \<Rightarrow> string \<Rightarrow> 's \<Rightarrow> (string, 's) result"
  bc_ListLifecycle :: "'s \<Rightarrow> (string, LifecycleEntry list) result"
  bc_GetEncryption :: "string \<Rightarrow> string \<Rightarrow> 's \<Rightarrow> (string, SSEConfig) result"
  bc_SetEncryption :: "string \<Rightarrow> string \<Rightarrow> SSEConfig \<Rightarrow> 's \<Rightarrow> (string, 's) result"
  bc_DeleteEncryption :: "string \<Rightarrow> string \<Rightarrow> 's \<Rightarrow> (string, 's) result"

section \<open>The in-memory store\<close>

record BCStore =
  bs_versioning :: "(string, string) gomap"
  bs_objectLock :: "(string, LockConfig) gomap"
  bs_cors :: "(string, CORSConfig) gomap"
  bs_lifecycle :: "(string, LCConfig) gomap"
  bs_encryption :: "(string, SSEConfig) gomap"

definition NewBCStore :: BCStore where
  "NewBCStore = \<lparr>bs_versioning = [], bs_objectLock = [], bs_cors = [], bs_lifecycle = [], bs_encryption = []\<rparr>"

abbreviation NUL :: char where "NUL \<equiv> CHR 0x00"

definition memKey :: "string \<Rightarrow> string \<Rightarrow> string" where
  "memKey tenantID bucket = tenantID @ NUL # bucket"

definition bc_named :: "string \<Rightarrow> string \<Rightarrow> 'a \<Rightarrow> (string, 'a) result" where
  "bc_named tenantID bucket r =
    (if tenantID = [] \<or> bucket = [] then Inl ''bucket_config: tenant_id and bucket are required'' else Inr r)"

text \<open>A Go map read: the zero value where the key is absent.\<close>

definition gm_read :: "'v \<Rightarrow> (string, 'v) gomap \<Rightarrow> string \<Rightarrow> 'v" where
  "gm_read z m k = (case gm_get m k of None \<Rightarrow> z | Some v \<Rightarrow> v)"

definition BC_GetVersioning :: "string \<Rightarrow> string \<Rightarrow> BCStore \<Rightarrow> (string, string) result" where
  "BC_GetVersioning t b s = bc_named t b (gm_read VersioningUnset (bs_versioning s) (memKey t b))"

definition BC_SetVersioning :: "string \<Rightarrow> string \<Rightarrow> string \<Rightarrow> BCStore \<Rightarrow> (string, BCStore) result" where
  "BC_SetVersioning t b state s =
    bind_result (bc_named t b ()) (\<lambda>_.
      if \<not> VersioningState_Valid state then Inl ''bucket_config: state must be Enabled or Suspended''
      else Inr (s\<lparr>bs_versioning := gm_set (memKey t b) state (bs_versioning s)\<rparr>))"

definition BC_GetObjectLock :: "string \<Rightarrow> string \<Rightarrow> BCStore \<Rightarrow> (string, LockConfig) result" where
  "BC_GetObjectLock t b s = bc_named t b (gm_read zero_LockConfig (bs_objectLock s) (memKey t b))"

definition BC_SetObjectLock :: "string \<Rightarrow> string \<Rightarrow> LockConfig \<Rightarrow> BCStore \<Rightarrow> (string, BCStore) result" where
  "BC_SetObjectLock t b cfg s =
    bind_result (bc_named t b ()) (\<lambda>_.
      case LockConfig_Valid cfg of
        Inl _ \<Rightarrow> Inl ''object_lock: invalid configuration''
      | Inr _ \<Rightarrow> Inr (s\<lparr>bs_objectLock := gm_set (memKey t b) cfg (bs_objectLock s)\<rparr>))"

definition BC_GetCORS :: "string \<Rightarrow> string \<Rightarrow> BCStore \<Rightarrow> (string, CORSConfig) result" where
  "BC_GetCORS t b s = bc_named t b (gm_read [] (bs_cors s) (memKey t b))"

definition BC_SetCORS :: "string \<Rightarrow> string \<Rightarrow> CORSConfig \<Rightarrow> BCStore \<Rightarrow> (string, BCStore) result" where
  "BC_SetCORS t b cfg s =
    bind_result (bc_named t b ()) (\<lambda>_. bind_result (CORSConfig_Valid cfg) (\<lambda>_.
      Inr (s\<lparr>bs_cors := gm_set (memKey t b) cfg (bs_cors s)\<rparr>)))"

definition BC_DeleteCORS :: "string \<Rightarrow> string \<Rightarrow> BCStore \<Rightarrow> (string, BCStore) result" where
  "BC_DeleteCORS t b s = bc_named t b (s\<lparr>bs_cors := gm_del (memKey t b) (bs_cors s)\<rparr>)"

definition BC_GetLifecycle :: "string \<Rightarrow> string \<Rightarrow> BCStore \<Rightarrow> (string, LCConfig) result" where
  "BC_GetLifecycle t b s = bc_named t b (gm_read [] (bs_lifecycle s) (memKey t b))"

definition BC_SetLifecycle :: "string \<Rightarrow> string \<Rightarrow> LCConfig \<Rightarrow> BCStore \<Rightarrow> (string, BCStore) result" where
  "BC_SetLifecycle t b cfg s =
    bind_result (bc_named t b ()) (\<lambda>_. bind_result (LCConfig_Valid cfg) (\<lambda>_.
      Inr (s\<lparr>bs_lifecycle := gm_set (memKey t b) cfg (bs_lifecycle s)\<rparr>)))"

definition BC_DeleteLifecycle :: "string \<Rightarrow> string \<Rightarrow> BCStore \<Rightarrow> (string, BCStore) result" where
  "BC_DeleteLifecycle t b s = bc_named t b (s\<lparr>bs_lifecycle := gm_del (memKey t b) (bs_lifecycle s)\<rparr>)"

definition BC_ListLifecycle :: "BCStore \<Rightarrow> (string, LifecycleEntry list) result" where
  "BC_ListLifecycle s =
    Inr (concat (map (\<lambda>(k, cfg).
      case CutByte k NUL of
        None \<Rightarrow> []
      | Some (tenantID, bucket) \<Rightarrow> [\<lparr>le_TenantID = tenantID, le_Bucket = bucket, le_Config = cfg\<rparr>])
      (bs_lifecycle s)))"

definition BC_GetEncryption :: "string \<Rightarrow> string \<Rightarrow> BCStore \<Rightarrow> (string, SSEConfig) result" where
  "BC_GetEncryption t b s = bc_named t b (gm_read zero_SSEConfig (bs_encryption s) (memKey t b))"

definition BC_SetEncryption :: "string \<Rightarrow> string \<Rightarrow> SSEConfig \<Rightarrow> BCStore \<Rightarrow> (string, BCStore) result" where
  "BC_SetEncryption t b cfg s =
    bind_result (bc_named t b ()) (\<lambda>_. bind_result (SSEConfig_Valid cfg) (\<lambda>_.
      Inr (s\<lparr>bs_encryption := gm_set (memKey t b) cfg (bs_encryption s)\<rparr>)))"

definition BC_DeleteEncryption :: "string \<Rightarrow> string \<Rightarrow> BCStore \<Rightarrow> (string, BCStore) result" where
  "BC_DeleteEncryption t b s = bc_named t b (s\<lparr>bs_encryption := gm_del (memKey t b) (bs_encryption s)\<rparr>)"

definition bc_ops :: "BCStore BucketConfig" where
  "bc_ops = \<lparr>bc_GetVersioning = BC_GetVersioning, bc_SetVersioning = BC_SetVersioning,
     bc_GetObjectLock = BC_GetObjectLock, bc_SetObjectLock = BC_SetObjectLock,
     bc_GetCORS = BC_GetCORS, bc_SetCORS = BC_SetCORS, bc_DeleteCORS = BC_DeleteCORS,
     bc_GetLifecycle = BC_GetLifecycle, bc_SetLifecycle = BC_SetLifecycle, bc_DeleteLifecycle = BC_DeleteLifecycle,
     bc_ListLifecycle = BC_ListLifecycle, bc_GetEncryption = BC_GetEncryption,
     bc_SetEncryption = BC_SetEncryption, bc_DeleteEncryption = BC_DeleteEncryption\<rparr>"

section \<open>One setting of a bucket\<close>

text \<open>
  The contract every setting keeps: a write is read back and touches no other
  key, and a rejected write changes nothing.  A write is effective when its names
  are not empty and its value is valid.
\<close>

definition apply_setting :: "(string \<Rightarrow> string \<Rightarrow> 'c \<Rightarrow> 's \<Rightarrow> (string, 's) result) \<Rightarrow> string \<times> string \<times> 'c \<Rightarrow> 's \<Rightarrow> 's" where
  "apply_setting put = (\<lambda>(t, b, c) s. case put t b c s of Inl _ \<Rightarrow> s | Inr s' \<Rightarrow> s')"

definition effective_write :: "('c \<Rightarrow> bool) \<Rightarrow> string \<Rightarrow> string \<Rightarrow> string \<times> string \<times> 'c \<Rightarrow> bool" where
  "effective_write valid t b = (\<lambda>(t', b', c). t' = t \<and> b' = b \<and> valid c)"

locale bucket_setting =
  fixes get :: "string \<Rightarrow> string \<Rightarrow> 's \<Rightarrow> (string, 'c) result"
    and put :: "string \<Rightarrow> string \<Rightarrow> 'c \<Rightarrow> 's \<Rightarrow> (string, 's) result"
    and valid :: "'c \<Rightarrow> bool"
  assumes put_ok: "(\<exists>s'. put t b c s = Inr s') \<longleftrightarrow> t \<noteq> [] \<and> b \<noteq> [] \<and> valid c"
    and put_get: "put t b c s = Inr s' \<Longrightarrow> get t b s' = Inr c"
    and put_frame: "put t b c s = Inr s' \<Longrightarrow> memKey t' b' \<noteq> memKey t b \<Longrightarrow> get t' b' s' = get t' b' s"
begin

lemma apply_get:
  assumes "t \<noteq> []" "b \<noteq> []" "NUL \<notin> set t" "NUL \<notin> set (fst w)"
  shows "get t b (apply_setting put w s) = (if effective_write valid t b w then Inr (snd (snd w)) else get t b s)"
proof -
  obtain t' b' c where w: "w = (t', b', c)"
    by (cases w)
  have inj: "memKey t b \<noteq> memKey t' b'" if "(t, b) \<noteq> (t', b')"
    using CutByte_append [OF assms(3), of b] CutByte_append [of NUL t' b'] assms(4) that
    by (auto simp: memKey_def w)
  show ?thesis
  proof (cases "put t' b' c s")
    case (Inl e)
    then have "\<not> (t' \<noteq> [] \<and> b' \<noteq> [] \<and> valid c)"
      using put_ok [of t' b' c s] by simp
    with Inl assms(1,2) show ?thesis
      by (auto simp: apply_setting_def effective_write_def w)
  next
    case (Inr s')
    then have v: "valid c"
      using put_ok [of t' b' c s] by blast
    show ?thesis
    proof (cases "(t, b) = (t', b')")
      case True
      with put_get [OF Inr] Inr v show ?thesis
        by (simp add: apply_setting_def effective_write_def w)
    next
      case False
      with put_frame [OF Inr inj [OF False]] Inr show ?thesis
        by (auto simp: apply_setting_def effective_write_def w)
    qed
  qed
qed

text \<open>After any writes, a setting is the last effective write to its bucket.\<close>

lemma history:
  assumes "t \<noteq> []" "b \<noteq> []" "NUL \<notin> set t" "\<forall>w \<in> set ws. NUL \<notin> set (fst w)"
  shows "get t b (fold (apply_setting put) ws s) =
    (case filter (effective_write valid t b) ws of [] \<Rightarrow> get t b s | _ \<Rightarrow> Inr (snd (snd (last (filter (effective_write valid t b) ws)))))"
  using assms(4)
proof (induction ws arbitrary: s)
  case (Cons w ws)
  have "get t b (apply_setting put w s) = (if effective_write valid t b w then Inr (snd (snd w)) else get t b s)"
    by (rule apply_get [OF assms(1-3)]) (use Cons.prems in simp)
  with Cons show ?case
    by (simp split: list.splits)
qed simp

end

lemma bc_named_ok [simp]: "bc_named t b r = Inr x \<longleftrightarrow> t \<noteq> [] \<and> b \<noteq> [] \<and> x = r"
  by (auto simp: bc_named_def)

lemma gm_read_set [simp]: "gm_read z (gm_set k v m) k' = (if k' = k then v else gm_read z m k')"
  by (simp add: gm_read_def store_simps)

interpretation versioning: bucket_setting BC_GetVersioning BC_SetVersioning VersioningState_Valid
  by unfold_locales (auto simp: BC_GetVersioning_def BC_SetVersioning_def bc_named_def split: if_splits)

interpretation object_lock: bucket_setting BC_GetObjectLock BC_SetObjectLock "\<lambda>c. LockConfig_Valid c = Inr ()"
  by unfold_locales (auto simp: BC_GetObjectLock_def BC_SetObjectLock_def bc_named_def split: if_splits sum.splits)

interpretation cors: bucket_setting BC_GetCORS BC_SetCORS "\<lambda>c. CORSConfig_Valid c = Inr ()"
  by unfold_locales (auto simp: BC_GetCORS_def BC_SetCORS_def bc_named_def split: if_splits)

interpretation lifecycle: bucket_setting BC_GetLifecycle BC_SetLifecycle "\<lambda>c. LCConfig_Valid c = Inr ()"
  by unfold_locales (auto simp: BC_GetLifecycle_def BC_SetLifecycle_def bc_named_def split: if_splits)

interpretation encryption: bucket_setting BC_GetEncryption BC_SetEncryption "\<lambda>c. SSEConfig_Valid c = Inr ()"
  by unfold_locales (auto simp: BC_GetEncryption_def BC_SetEncryption_def bc_named_def split: if_splits)

text \<open>
  C29: whatever the tenants of a gateway write, the Object Lock configuration the
  store returns for a bucket is the last valid one written to that very bucket
  by its tenant (or the initial one): no other tenant, no other bucket and no
  rejected request can change it, provided tenant names carry no NUL byte.
\<close>

theorem ObjectLock_last_write_wins:
  assumes "t \<noteq> []" "b \<noteq> []" "NUL \<notin> set t" "\<forall>w \<in> set ws. NUL \<notin> set (fst w)"
  shows "BC_GetObjectLock t b (fold (apply_setting BC_SetObjectLock) ws s) =
    (case filter (effective_write (\<lambda>c. LockConfig_Valid c = Inr ()) t b) ws of
       [] \<Rightarrow> BC_GetObjectLock t b s
     | vs \<Rightarrow> Inr (snd (snd (last vs))))"
  using object_lock.history [OF assms] by (simp split: list.splits)

theorem ObjectLock_last_write_wins_witness:
  "BC_GetObjectLock ''t'' ''b''
     (fold (apply_setting BC_SetObjectLock) [(''t'', ''b'', sample_lock), (''u'', ''b'', zero_LockConfig)] NewBCStore)
    = Inr sample_lock"
proof -
  have "LockConfig_Valid sample_lock = Inr ()"
    by code_simp
  then have f: "filter (effective_write (\<lambda>c. LockConfig_Valid c = Inr ()) ''t'' ''b'')
      [(''t'', ''b'', sample_lock), (''u'', ''b'', zero_LockConfig)] = [(''t'', ''b'', sample_lock)]"
    by (simp add: effective_write_def)
  show ?thesis
    using ObjectLock_last_write_wins [of "''t''" "''b''" "[(''t'', ''b'', sample_lock), (''u'', ''b'', zero_LockConfig)]" NewBCStore]
    unfolding f by simp
qed

text \<open>
  The tenant-name hypothesis is needed: the joined key does not separate a tenant
  name that ends in a NUL byte from a bucket name that starts with one.
\<close>

lemma memKey_collision: "memKey [CHR ''a'', NUL] ''b'' = memKey ''a'' [NUL, CHR ''b'']"
  by (simp add: memKey_def)

end
