(* ===== verification/Go_Crypto.thy ===== *)
theory Go_Crypto
  imports Go_Strings
begin

text \<open>
  What the sources use of \<open>crypto/sha256\<close> and \<open>encoding/hex\<close>: the SHA-256
  digest of a byte string and its lower-case hexadecimal form, with the piece and
  version identifiers built from them.  Nothing is assumed about collisions; a
  property that needs distinct digests says so.
\<close>

unbundle bit_operations_syntax

section \<open>SHA-256\<close>

type_synonym u32 = "32 word"

text \<open>
  FIPS 180-4 takes its constants from the primes: the first 32 bits of the fractional
  part of their cube roots (round constants) and of their square roots (initial state).
  \<open>root_floor k n i r\<close> settles the lowest \<open>i\<close> bits of the integer \<open>k\<close>-th root of \<open>n\<close>.
\<close>

fun root_floor :: "nat \<Rightarrow> int \<Rightarrow> nat \<Rightarrow> int \<Rightarrow> int" where
  "root_floor k n 0 r = r"
| "root_floor k n (Suc i) r = root_floor k n i (if (r + 2 ^ i) ^ k \<le> n then r + 2 ^ i else r)"

definition root_frac32 :: "nat \<Rightarrow> nat \<Rightarrow> u32" where
  "root_frac32 k p = of_int (root_floor k (int p * 2 ^ (32 * k)) 35 0)"

definition primes_below :: "nat \<Rightarrow> nat list" where
  "primes_below n = filter (\<lambda>p. list_all (\<lambda>d. p mod d \<noteq> 0) [2..<p]) [2..<n]"

definition sha256_K :: "u32 list" where
  "sha256_K = map (root_frac32 3) (primes_below 312)"

definition sha256_H0 :: "u32 list" where
  "sha256_H0 = map (root_frac32 2) (primes_below 20)"

definition be32 :: "bytes \<Rightarrow> u32" where
  "be32 bs = foldl (\<lambda>a b. push_bit 8 a OR ucast b) 0 bs"

definition bytes_of_be32 :: "u32 \<Rightarrow> bytes" where
  "bytes_of_be32 w = [ucast (drop_bit 24 w), ucast (drop_bit 16 w), ucast (drop_bit 8 w), ucast w]"

definition sha256_pad :: "bytes \<Rightarrow> bytes" where
  "sha256_pad m =
    (let n = length m; z = (119 - n mod 64) mod 64; bits = of_nat (8 * n) :: 64 word
     in m @ 0x80 # replicate z 0 @ map (\<lambda>i. ucast (drop_bit (56 - 8 * i) bits)) [0..<8])"

fun chunks_of :: "nat \<Rightarrow> nat \<Rightarrow> 'a list \<Rightarrow> 'a list list" where
  "chunks_of 0 n xs = []"
| "chunks_of (Suc fuel) n xs = (if xs = [] then [] else take n xs # chunks_of fuel n (drop n xs))"

definition blocks :: "nat \<Rightarrow> 'a list \<Rightarrow> 'a list list" where
  "blocks n xs = chunks_of (length xs) n xs"

text \<open>The message schedule, newest word first.\<close>

fun sha256_schedule :: "nat \<Rightarrow> u32 list \<Rightarrow> u32 list" where
  "sha256_schedule 0 w = w"
| "sha256_schedule (Suc n) w =
    (let w15 = w ! 14; w2 = w ! 1;
         s0 = word_rotr 7 w15 XOR word_rotr 18 w15 XOR drop_bit 3 w15;
         s1 = word_rotr 17 w2 XOR word_rotr 19 w2 XOR drop_bit 10 w2
     in sha256_schedule n ((w ! 15 + s0 + w ! 6 + s1) # w))"

fun sha256_round :: "u32 list \<Rightarrow> u32 \<times> u32 \<Rightarrow> u32 list" where
  "sha256_round [a, b, c, d, e, f, g, h] (k, w) =
    (let s1 = word_rotr 6 e XOR word_rotr 11 e XOR word_rotr 25 e;
         ch = (e AND f) XOR (NOT e AND g);
         t1 = h + s1 + ch + k + w;
         s0 = word_rotr 2 a XOR word_rotr 13 a XOR word_rotr 22 a;
         maj = (a AND b) XOR (a AND c) XOR (b AND c);
         t2 = s0 + maj
     in [t1 + t2, a, b, c, d + t1, e, f, g])"
| "sha256_round hs kw = hs"

definition sha256_block :: "u32 list \<Rightarrow> bytes \<Rightarrow> u32 list" where
  "sha256_block hs blk =
    (let ws = rev (sha256_schedule 48 (rev (map be32 (blocks 4 blk))))
     in map2 (+) hs (foldl sha256_round hs (zip sha256_K ws)))"

definition sha256 :: "bytes \<Rightarrow> bytes" where
  "sha256 m = concat (map bytes_of_be32 (foldl sha256_block sha256_H0 (blocks 64 (sha256_pad m))))"

section \<open>Hexadecimal\<close>

definition hex_digit :: "nat \<Rightarrow> char" where
  "hex_digit n = char_of (if n < 10 then 48 + n else 87 + n)"

definition EncodeToString :: "bytes \<Rightarrow> string" where
  "EncodeToString bs = concat (map (\<lambda>b. [hex_digit (unat b div 16), hex_digit (unat b mod 16)]) bs)"

definition bytes_of_string :: "string \<Rightarrow> bytes" where
  "bytes_of_string s = map of_char s"

section \<open>Facts\<close>

lemma length_sha256_round [simp]: "length (sha256_round hs kw) = length hs"
  by (cases "(hs, kw)" rule: sha256_round.cases) (simp_all add: Let_def)

lemma length_sha256_rounds: "length (foldl sha256_round hs kws) = length hs"
  by (induction kws arbitrary: hs) simp_all

lemma length_sha256_block: "length (sha256_block hs blk) = length hs"
  by (simp add: sha256_block_def Let_def length_sha256_rounds)

lemma length_sha256_blocks: "length (foldl sha256_block hs bs) = length hs"
  by (induction bs arbitrary: hs) (simp_all add: length_sha256_block)

lemma length_sha256_H0: "length sha256_H0 = 8"
  by (simp add: sha256_H0_def primes_below_def upt_rec)

lemma length_sha256 [simp]: "length (sha256 m) = 32"
proof -
  have "length (concat (map bytes_of_be32 ws)) = 4 * length ws" for ws
    by (induction ws) (simp_all add: bytes_of_be32_def)
  then show ?thesis
    by (simp add: sha256_def length_sha256_blocks length_sha256_H0)
qed

lemma length_EncodeToString [simp]: "length (EncodeToString bs) = 2 * length bs"
  by (induction bs) (simp_all add: EncodeToString_def)

definition is_hex_digit :: "char \<Rightarrow> bool" where
  "is_hex_digit c \<longleftrightarrow> (let n = of_char c :: nat in 48 \<le> n \<and> n \<le> 57 \<or> 97 \<le> n \<and> n \<le> 102)"

lemma hex_digit_is: "n < 16 \<Longrightarrow> is_hex_digit (hex_digit n)"
  by (simp add: is_hex_digit_def hex_digit_def Let_def of_char_of take_bit_eq_mod)

lemma EncodeToString_digits: "list_all is_hex_digit (EncodeToString bs)"
proof (induction bs)
  case (Cons b bs)
  have "unat b < 256"
    using unsigned_less [of b] by simp
  then have "unat b div 16 < 16"
    by (simp add: less_mult_imp_div_less)
  with Cons show ?case
    by (simp add: EncodeToString_def hex_digit_is)
qed (simp add: EncodeToString_def)

lemma is_hex_digit_not:
  "is_hex_digit c \<Longrightarrow> c \<noteq> CHR ''/''" "is_hex_digit c \<Longrightarrow> c \<noteq> CHR ''.''" "is_hex_digit c \<Longrightarrow> c \<noteq> CHR 0x5C"
  "is_hex_digit c \<Longrightarrow> c \<noteq> CHR 0x00"
  by (auto simp: is_hex_digit_def Let_def)

lemma unat_of_char: "unat (of_char c :: byte) = of_char c"
proof -
  have "unat (word_of_nat (of_char c) :: byte) = of_char c"
    using nat_of_char_less_256 [of c] by (simp only: unat_of_nat) simp
  then show ?thesis
    by (simp only: of_nat_of_char)
qed

lemma bytes_of_string_inj: "bytes_of_string s = bytes_of_string t \<Longrightarrow> s = t"
proof -
  have "inj (of_char :: char \<Rightarrow> byte)"
    by (rule injI) (metis unat_of_char of_char_eq_iff)
  then show "bytes_of_string s = bytes_of_string t \<Longrightarrow> s = t"
    by (simp add: bytes_of_string_def inj_map_eq_map)
qed

lemma hex_digit_inj: "m < 16 \<Longrightarrow> n < 16 \<Longrightarrow> hex_digit m = hex_digit n \<Longrightarrow> m = n"
  by (auto simp: hex_digit_def char_of_eq_iff take_bit_eq_mod split: if_splits)

lemma EncodeToString_Cons:
  "EncodeToString (b # bs) = hex_digit (unat b div 16) # hex_digit (unat b mod 16) # EncodeToString bs"
  by (simp add: EncodeToString_def)

lemma EncodeToString_inj: "EncodeToString xs = EncodeToString ys \<Longrightarrow> xs = ys"
proof (induction xs arbitrary: ys)
  case Nil
  then show ?case
    by (cases ys) (simp_all add: EncodeToString_def)
next
  case (Cons x xs)
  then obtain y zs where y: "ys = y # zs"
    by (cases ys) (simp_all add: EncodeToString_def)
  have "unat b < 256" for b :: byte
    using unsigned_less [of b] by simp
  then have "unat b div 16 < 16" for b :: byte
    by (simp add: less_mult_imp_div_less)
  then have "unat x div 16 = unat y div 16" "unat x mod 16 = unat y mod 16"
    using Cons.prems y hex_digit_inj by (simp_all add: EncodeToString_Cons)
  then have "unat x = unat y"
    by (metis mult_div_mod_eq)
  then have "x = y"
    by (simp add: word_unat_eq_iff)
  then show ?case
    using Cons y by (simp add: EncodeToString_Cons)
qed

end
