(* ===== verification/Client_SDK.thy ===== *)
theory Client_SDK
  imports Go_Binary Go_Crypto
begin

text \<open>
  The encryption SDK (\<open>src/encryption/client_sdk\<close>): chunked sealing of an object
  into frames, opening, the size prediction, data-key generation and derivation,
  and the wrapping of data keys by a local master key.

  XChaCha20-Poly1305 and HKDF (\<open>golang.org/x/crypto\<close>) are third-party code and a
  parameter: the record \<open>Crypto\<close>.  What the SDK relies on is \<open>crypto_laws\<close>: a
  sealed text is 16 bytes longer than the plaintext, opening what was sealed with
  the same key, nonce and additional data returns it, opening accepts nothing but
  a sealed text, and HKDF fills the buffer it is asked to fill.

  A source of bytes is its content and the error it ends with (None for a clean
  end of file); the random source is the list of the buffers it will deliver.
\<close>

record Crypto =
  cr_Seal :: "bytes \<Rightarrow> bytes \<Rightarrow> bytes \<Rightarrow> bytes \<Rightarrow> bytes"
  cr_Open :: "bytes \<Rightarrow> bytes \<Rightarrow> bytes \<Rightarrow> bytes \<Rightarrow> bytes option"
  cr_HKDF :: "bytes \<Rightarrow> bytes \<Rightarrow> bytes \<Rightarrow> nat \<Rightarrow> bytes"

abbreviation KeySize :: nat where "KeySize \<equiv> 32"
abbreviation NonceSizeX :: nat where "NonceSizeX \<equiv> 24"
abbreviation Overhead :: nat where "Overhead \<equiv> 16"

definition crypto_laws :: "Crypto \<Rightarrow> bool" where
  "crypto_laws cr \<longleftrightarrow>
    (\<forall>k n p a. length k = KeySize \<longrightarrow> length n = NonceSizeX \<longrightarrow>
       length (cr_Seal cr k n p a) = length p + Overhead \<and> cr_Open cr k n (cr_Seal cr k n p a) a = Some p)
    \<and> (\<forall>k n c a p. cr_Open cr k n c a = Some p \<longrightarrow> c = cr_Seal cr k n p a)
    \<and> (\<forall>s t i n. length (cr_HKDF cr s t i n) = n)"

section \<open>Reading\<close>

datatype read_status = ROk | REOF | RUnexpectedEOF | RErr string

text \<open>\<open>io.ReadFull\<close> of n bytes: the bytes read, the status and the rest.\<close>

definition ReadFull :: "nat \<Rightarrow> bytes \<Rightarrow> string option \<Rightarrow> bytes \<times> read_status \<times> bytes" where
  "ReadFull n src err =
    (if n \<le> length src then (take n src, ROk, drop n src)
     else case err of
       Some e \<Rightarrow> (src, RErr e, [])
     | None \<Rightarrow> if src = [] then ([], REOF, []) else (src, RUnexpectedEOF, []))"

section \<open>Options and readers\<close>

record Options =
  op_ChunkSize :: int
  op_ConvergentNonce :: bool
  op_ChunkAAD :: bytes

definition zero_Options :: Options where
  "zero_Options = \<lparr>op_ChunkSize = 0, op_ConvergentNonce = False, op_ChunkAAD = []\<rparr>"

definition DefaultChunkSize :: int where "DefaultChunkSize = 16 * 1024 * 1024"

definition chunkSize :: "Options \<Rightarrow> int" where
  "chunkSize o' = (if op_ChunkSize o' > 0 then op_ChunkSize o' else DefaultChunkSize)"

record encryptReader =
  er_src :: bytes
  er_srcErr :: "string option"
  er_chunkSize :: nat
  er_eof :: bool
  er_convergent :: bool
  er_dek :: bytes
  er_chunkIndex :: "64 word"
  er_chunkAAD :: bytes
  er_rand :: "bytes list"

record decryptReader =
  dr_src :: bytes
  dr_srcErr :: "string option"
  dr_chunkSize :: nat
  dr_eof :: bool
  dr_dek :: bytes
  dr_chunkIndex :: "64 word"
  dr_chunkAAD :: bytes

definition EncryptObject :: "bytes \<Rightarrow> string option \<Rightarrow> bytes \<Rightarrow> Options \<Rightarrow> bytes list \<Rightarrow> (string, encryptReader) result" where
  "EncryptObject plaintext srcErr dek opts rand =
    (if op_ConvergentNonce opts \<and> op_ChunkAAD opts \<noteq> [] then
       Inl ''client_sdk: ConvergentNonce and ChunkAAD are mutually exclusive''
     else if length dek \<noteq> KeySize then Inl ''client_sdk: new xchacha20-poly1305''
     else Inr \<lparr>er_src = plaintext, er_srcErr = srcErr, er_chunkSize = nat (chunkSize opts), er_eof = False,
       er_convergent = op_ConvergentNonce opts, er_dek = dek, er_chunkIndex = 0,
       er_chunkAAD = op_ChunkAAD opts, er_rand = rand\<rparr>)"

definition DecryptObject :: "bytes \<Rightarrow> string option \<Rightarrow> bytes \<Rightarrow> Options \<Rightarrow> (string, decryptReader) result" where
  "DecryptObject ciphertext srcErr dek opts =
    (if length dek \<noteq> KeySize then Inl ''client_sdk: new xchacha20-poly1305''
     else Inr \<lparr>dr_src = ciphertext, dr_srcErr = srcErr, dr_chunkSize = nat (chunkSize opts), dr_eof = False,
       dr_dek = dek, dr_chunkIndex = 0, dr_chunkAAD = op_ChunkAAD opts\<rparr>)"

definition chunkAADBytes :: "bytes \<Rightarrow> 64 word \<Rightarrow> bytes" where
  "chunkAADBytes chunkAAD chunkIndex =
    (if chunkAAD = [] then [] else chunkAAD @ bytes_of_string ''|'' @ PutUint64 chunkIndex)"

definition deriveConvergentNonce :: "Crypto \<Rightarrow> bytes \<Rightarrow> 64 word \<Rightarrow> bytes" where
  "deriveConvergentNonce cr dek chunkIndex =
    cr_HKDF cr dek [] (bytes_of_string ''zkof-nonce-v1'' @ PutUint64 chunkIndex) NonceSizeX"

abbreviation chunkHeaderSize :: nat where "chunkHeaderSize \<equiv> NonceSizeX + 4"
abbreviation chunkTrailerSize :: nat where "chunkTrailerSize \<equiv> Overhead"

section \<open>Sealing\<close>

definition enc_nonce :: "Crypto \<Rightarrow> encryptReader \<Rightarrow> (string, bytes \<times> bytes list) result" where
  "enc_nonce cr r =
    (if er_convergent r then Inr (deriveConvergentNonce cr (er_dek r) (er_chunkIndex r), er_rand r)
     else case er_rand r of
       [] \<Rightarrow> Inl ''client_sdk: generate nonce''
     | nonce # rest \<Rightarrow> Inr (nonce, rest))"

definition frame :: "Crypto \<Rightarrow> bytes \<Rightarrow> bytes \<Rightarrow> 64 word \<Rightarrow> bytes \<Rightarrow> bytes \<Rightarrow> bytes" where
  "frame cr dek aad i nonce chunk =
    (let sealed = cr_Seal cr dek nonce chunk (chunkAADBytes aad i)
     in nonce @ PutUint32 (word_of_nat (length sealed)) @ sealed)"

definition enc_nextFrame :: "Crypto \<Rightarrow> encryptReader \<Rightarrow> (string, bytes \<times> encryptReader) result" where
  "enc_nextFrame cr r =
    (case ReadFull (er_chunkSize r) (er_src r) (er_srcErr r) of (buf, st, rest) \<Rightarrow>
      case st of
        REOF \<Rightarrow> Inr ([], r\<lparr>er_eof := True\<rparr>)
      | RErr e \<Rightarrow> Inl ''client_sdk: read plaintext''
      | _ \<Rightarrow> bind_result (enc_nonce cr r) (\<lambda>(nonce, rand).
          Inr (frame cr (er_dek r) (er_chunkAAD r) (er_chunkIndex r) nonce buf,
            r\<lparr>er_src := rest, er_eof := (st = RUnexpectedEOF), er_chunkIndex := er_chunkIndex r + 1,
              er_rand := rand\<rparr>)))"

text \<open>Draining the reader: \<open>io.ReadAll\<close> over \<open>Read\<close>; None when it would never end.\<close>

partial_function (option) enc_ReadAll :: "Crypto \<Rightarrow> encryptReader \<Rightarrow> (string, bytes) result option" where
  "enc_ReadAll cr r =
    (if er_eof r then Some (Inr [])
     else case enc_nextFrame cr r of
       Inl err \<Rightarrow> Some (Inl err)
     | Inr (f, r') \<Rightarrow>
         Option.bind (enc_ReadAll cr r') (\<lambda>res. Some (bind_result res (\<lambda>rest. Inr (f @ rest)))))"

section \<open>Opening\<close>

definition dec_nextFrame :: "Crypto \<Rightarrow> decryptReader \<Rightarrow> (string, bytes \<times> decryptReader) result" where
  "dec_nextFrame cr r =
    (case ReadFull chunkHeaderSize (dr_src r) (dr_srcErr r) of (hdr, st, rest) \<Rightarrow>
      if st = REOF then Inr ([], r\<lparr>dr_eof := True\<rparr>)
      else if st \<noteq> ROk then Inl ''client_sdk: read frame header''
      else
        let nonce = take NonceSizeX hdr;
            ctLen = Uint32 (drop NonceSizeX hdr);
            maxCT = word_of_nat (dr_chunkSize r + Overhead) :: 32 word
        in if ctLen = 0 \<or> ctLen > maxCT then Inl ''client_sdk: frame length out of bounds''
        else (case ReadFull (unat ctLen) rest (dr_srcErr r) of (ct, st', rest') \<Rightarrow>
          if st' \<noteq> ROk then Inl ''client_sdk: read frame body''
          else (case cr_Open cr (dr_dek r) nonce ct (chunkAADBytes (dr_chunkAAD r) (dr_chunkIndex r)) of
            None \<Rightarrow> Inl ''client_sdk: open frame''
          | Some pt \<Rightarrow> Inr (pt, r\<lparr>dr_src := rest', dr_eof := (length pt < dr_chunkSize r),
              dr_chunkIndex := dr_chunkIndex r + 1\<rparr>))))"

lemma dec_nextFrame_consumes:
  "dec_nextFrame cr r = Inr (pt, r') \<Longrightarrow> \<not> dr_eof r' \<Longrightarrow> length (dr_src r') < length (dr_src r)"
  by (auto simp: dec_nextFrame_def ReadFull_def Let_def split: if_splits option.splits)

function dec_ReadAll :: "Crypto \<Rightarrow> decryptReader \<Rightarrow> (string, bytes) result" where
  "dec_ReadAll cr r =
    (if dr_eof r then Inr []
     else case dec_nextFrame cr r of
       Inl err \<Rightarrow> Inl err
     | Inr (pt, r') \<Rightarrow> bind_result (if dr_eof r' then Inr [] else dec_ReadAll cr r') (\<lambda>rest. Inr (pt @ rest)))"
  by pat_completeness auto
termination
  by (relation "measure (\<lambda>(cr, r). length (dr_src r))") (auto dest: dec_nextFrame_consumes)

declare dec_ReadAll.simps [simp del]

section \<open>Size prediction\<close>

datatype size_error = ErrEncryptedSizeOverflow | ErrEncryptedSizeNegativePlaintext | ErrEncryptedSizeInvalidChunkSize

definition EncryptedSize :: "int \<Rightarrow> Options \<Rightarrow> (size_error, int) result" where
  "EncryptedSize plaintextLen opts =
    (if plaintextLen < 0 then Inl ErrEncryptedSizeNegativePlaintext
     else if plaintextLen = 0 then Inr 0
     else let chunk = chunkSize opts in
       if chunk \<le> 0 then Inl ErrEncryptedSizeInvalidChunkSize
       else (case Add64 (nat plaintextLen) (nat (chunk - 1)) of (numeratorLo, carry) \<Rightarrow>
         if carry \<noteq> 0 \<or> numeratorLo > MaxInt64 then Inl ErrEncryptedSizeOverflow
         else let numChunks = numeratorLo div nat chunk in
           (case Mul64 numChunks (chunkHeaderSize + chunkTrailerSize) of (overheadHi, overheadLo) \<Rightarrow>
             if overheadHi \<noteq> 0 \<or> overheadLo > MaxInt64 then Inl ErrEncryptedSizeOverflow
             else (case Add64 (nat plaintextLen) overheadLo of (tot, carry') \<Rightarrow>
               if carry' \<noteq> 0 \<or> tot > MaxInt64 then Inl ErrEncryptedSizeOverflow
               else Inr (int tot)))))"

section \<open>Data keys\<close>

text \<open>A buffer the random source delivers; it fails when exhausted.\<close>

definition GenerateDEK :: "bytes list \<Rightarrow> (string, bytes \<times> bytes list) result" where
  "GenerateDEK rand = (case rand of [] \<Rightarrow> Inl ''client_sdk: generate dek'' | k # rest \<Rightarrow> Inr (k, rest))"

definition DeriveConvergentDEK :: "Crypto \<Rightarrow> bytes \<Rightarrow> string \<Rightarrow> (string, bytes) result" where
  "DeriveConvergentDEK cr contentHash tenantID =
    (if contentHash = [] then Inl ''client_sdk: convergent DEK: contentHash is required''
     else if tenantID = [] then Inl ''client_sdk: convergent DEK: tenantID is required''
     else Inr (cr_HKDF cr contentHash (bytes_of_string tenantID) (bytes_of_string ''zkof-convergent-dek-v1'') KeySize))"

record WrappedDEK =
  wd_KeyID :: string
  wd_Algorithm :: string
  wd_WrappedKey :: bytes
  wd_WrapAlgorithm :: string

record CustomerMasterKeyRef =
  ck_URI :: string
  ck_Version :: int
  ck_HolderClass :: string

abbreviation ContentAlgorithm :: string where "ContentAlgorithm \<equiv> ''xchacha20-poly1305''"
abbreviation WrapAlgorithm :: string where "WrapAlgorithm \<equiv> ''xchacha20-poly1305-wrap-v1''"

definition dekKeyID :: "bytes \<Rightarrow> CustomerMasterKeyRef \<Rightarrow> string" where
  "dekKeyID dek cmk =
    ''dek-'' @ EncodeToString (take 16 (sha256 (dek @ [0] @ bytes_of_string (ck_URI cmk) @ [0]
      @ bytes_of_string (FormatInt (ck_Version cmk)))))"

text \<open>The master key file: its content, or None when the path is empty or cannot be read.\<close>

definition loadMasterKey :: "bytes option \<Rightarrow> (string, bytes) result" where
  "loadMasterKey file =
    (case file of
       None \<Rightarrow> Inl ''client_sdk: read cmk''
     | Some data \<Rightarrow> if length data \<noteq> KeySize then Inl ''client_sdk: cmk size'' else Inr data)"

definition WrapDEK :: "Crypto \<Rightarrow> bytes option \<Rightarrow> bytes \<Rightarrow> CustomerMasterKeyRef \<Rightarrow> bytes list
    \<Rightarrow> (string, WrappedDEK \<times> bytes list) result" where
  "WrapDEK cr file dek cmk rand =
    (if length dek \<noteq> KeySize then Inl ''client_sdk: dek size''
     else bind_result (loadMasterKey file) (\<lambda>master.
       case rand of
         [] \<Rightarrow> Inl ''client_sdk: wrap nonce''
       | nonce # rest \<Rightarrow>
           Inr (\<lparr>wd_KeyID = dekKeyID dek cmk, wd_Algorithm = ContentAlgorithm,
             wd_WrappedKey = nonce @ cr_Seal cr master nonce dek (bytes_of_string (ck_URI cmk)),
             wd_WrapAlgorithm = WrapAlgorithm\<rparr>, rest)))"

definition UnwrapDEK :: "Crypto \<Rightarrow> bytes option \<Rightarrow> WrappedDEK \<Rightarrow> CustomerMasterKeyRef \<Rightarrow> (string, bytes) result" where
  "UnwrapDEK cr file wrapped cmk =
    (if wd_WrapAlgorithm wrapped \<noteq> WrapAlgorithm then Inl ''client_sdk: unknown wrap algorithm''
     else bind_result (loadMasterKey file) (\<lambda>master.
       if length (wd_WrappedKey wrapped) < NonceSizeX then Inl ''client_sdk: wrapped dek is truncated''
       else case cr_Open cr master (take NonceSizeX (wd_WrappedKey wrapped)) (drop NonceSizeX (wd_WrappedKey wrapped))
              (bytes_of_string (ck_URI cmk)) of
         None \<Rightarrow> Inl ''client_sdk: unwrap dek''
       | Some dek \<Rightarrow> Inr dek))"

section \<open>The frames of a plaintext\<close>

text \<open>
  The reference form of a sealed object: the chunks of the plaintext, each sealed
  at its index, one nonce per chunk.
\<close>

fun frames :: "Crypto \<Rightarrow> nat \<Rightarrow> bytes \<Rightarrow> bytes \<Rightarrow> 64 word \<Rightarrow> bytes list \<Rightarrow> bytes \<Rightarrow> bytes" where
  "frames cr cs dek aad i [] p = []"
| "frames cr cs dek aad i (n # ns) p =
    (if p = [] then [] else frame cr dek aad i n (take cs p) @ frames cr cs dek aad (i + 1) ns (drop cs p))"

definition num_chunks :: "nat \<Rightarrow> nat \<Rightarrow> nat" where
  "num_chunks cs n = (n + cs - 1) div cs"

definition nonces :: "Crypto \<Rightarrow> encryptReader \<Rightarrow> nat \<Rightarrow> bytes list" where
  "nonces cr r k =
    (if er_convergent r then map (\<lambda>j. deriveConvergentNonce cr (er_dek r) (er_chunkIndex r + word_of_nat j)) [0..<k]
     else take k (er_rand r))"

lemma num_chunks_0 [simp]: "0 < cs \<Longrightarrow> num_chunks cs 0 = 0"
  by (simp add: num_chunks_def div_eq_0_iff)

lemma num_chunks_step:
  assumes "0 < cs" "0 < n"
  shows "num_chunks cs n = Suc (num_chunks cs (n - cs))"
proof (cases "n \<le> cs")
  case True
  then have "(n + cs - 1) div cs = 1"
    using assms by (intro div_nat_eqI) auto
  with True assms show ?thesis
    by (simp add: num_chunks_def div_eq_0_iff)
next
  case False
  then have e: "n + cs - 1 = (n - cs + cs - 1) + cs"
    by simp
  have "((n - cs + cs - 1) + cs) div cs = Suc ((n - cs + cs - 1) div cs)"
    by (rule div_add_self2 [THEN trans]) (use assms(1) in simp_all)
  then show ?thesis
    unfolding num_chunks_def by (subst e)
qed

lemma num_chunks_add:
  assumes "0 < cs" "0 < n"
  shows "num_chunks cs (cs * k + n) = k + num_chunks cs n"
proof -
  have "cs * k + n + cs - 1 = (n + cs - 1) + cs * k"
    using assms by simp
  then have "(cs * k + n + cs - 1) div cs = ((n + cs - 1) + cs * k) div cs"
    by (rule arg_cong)
  also have "\<dots> = k + (n + cs - 1) div cs"
    using assms(1) by (subst div_mult_self2) simp_all
  finally show ?thesis
    by (simp only: num_chunks_def)
qed

lemma nonces_Suc:
  assumes "k \<noteq> 0" "\<not> er_convergent r \<Longrightarrow> k \<le> length (er_rand r)"
  obtains nonce rand where "enc_nonce cr r = Inr (nonce, rand)"
    "\<And>s e. nonces cr r k = nonce # nonces cr (r\<lparr>er_src := s, er_eof := e, er_chunkIndex := er_chunkIndex r + 1, er_rand := rand\<rparr>) (k - 1)"
    "\<not> er_convergent r \<Longrightarrow> er_rand r = nonce # rand"
proof (cases "er_convergent r")
  case True
  obtain j where j: "k = Suc j"
    using assms(1) by (cases k) auto
  have "[0..<Suc j] = 0 # map Suc [0..<j]"
    by (simp add: upt_conv_Cons map_Suc_upt)
  then show ?thesis
    using that [of "deriveConvergentNonce cr (er_dek r) (er_chunkIndex r)" "er_rand r"] True
    by (simp add: j enc_nonce_def nonces_def o_def add.assoc)
next
  case False
  with assms obtain n ns where "er_rand r = n # ns"
    by (cases "er_rand r") auto
  with False assms(1) that [of n ns] show ?thesis
    by (simp add: enc_nonce_def nonces_def take_Cons')
qed

text \<open>Draining an encrypting reader ends, with the frames of its source.\<close>

lemma enc_ReadAll_frames:
  assumes "0 < er_chunkSize r" "\<not> er_eof r" "er_srcErr r = None"
    "\<not> er_convergent r \<Longrightarrow> num_chunks (er_chunkSize r) (length (er_src r)) \<le> length (er_rand r)"
  shows "enc_ReadAll cr r = Some (Inr (frames cr (er_chunkSize r) (er_dek r) (er_chunkAAD r) (er_chunkIndex r)
    (nonces cr r (num_chunks (er_chunkSize r) (length (er_src r)))) (er_src r)))"
  using assms
proof (induction "length (er_src r)" arbitrary: r rule: less_induct)
  case less
  let ?cs = "er_chunkSize r" and ?p = "er_src r" and ?k = "num_chunks (er_chunkSize r) (length (er_src r))"
  show ?case
  proof (cases "?p = []")
    case True
    then show ?thesis
      using less.prems enc_ReadAll.simps [of cr "r\<lparr>er_eof := True\<rparr>"]
      by (subst enc_ReadAll.simps) (simp add: enc_nextFrame_def ReadFull_def nonces_def)
  next
    case False
    then have k: "?k = Suc (num_chunks ?cs (length ?p - ?cs))"
      using less.prems(1) by (intro num_chunks_step) auto
    obtain nonce rand where n: "enc_nonce cr r = Inr (nonce, rand)"
        "\<And>s e. nonces cr r ?k = nonce # nonces cr (r\<lparr>er_src := s, er_eof := e,
            er_chunkIndex := er_chunkIndex r + 1, er_rand := rand\<rparr>) (?k - 1)"
        "\<not> er_convergent r \<Longrightarrow> er_rand r = nonce # rand"
    proof (rule nonces_Suc [of ?k r cr])
      show "?k \<noteq> 0" by (simp add: k)
    qed (use less.prems(4) in auto)
    show ?thesis
    proof (cases "?cs \<le> length ?p")
      case True
      let ?r = "r\<lparr>er_src := drop ?cs ?p, er_eof := False, er_chunkIndex := er_chunkIndex r + 1, er_rand := rand\<rparr>"
      have next_frame: "enc_nextFrame cr r =
          Inr (frame cr (er_dek r) (er_chunkAAD r) (er_chunkIndex r) nonce (take ?cs ?p), ?r)"
        using True n(1) by (simp add: enc_nextFrame_def ReadFull_def)
      have IH: "enc_ReadAll cr ?r = Some (Inr (frames cr ?cs (er_dek r) (er_chunkAAD r) (er_chunkIndex r + 1)
          (nonces cr ?r (num_chunks ?cs (length ?p - ?cs))) (drop ?cs ?p)))"
        using less.hyps [of ?r] less.prems False k n(3) True by simp
      show ?thesis
        using less.prems(2) False n(2) [where s = "drop ?cs ?p" and e = False] k
        by (subst enc_ReadAll.simps) (simp add: next_frame IH)
    next
      case short: False
      let ?r = "r\<lparr>er_src := [], er_eof := True, er_chunkIndex := er_chunkIndex r + 1, er_rand := rand\<rparr>"
      have next_frame: "enc_nextFrame cr r =
          Inr (frame cr (er_dek r) (er_chunkAAD r) (er_chunkIndex r) nonce ?p, ?r)"
        using short n(1) False less.prems(3) by (simp add: enc_nextFrame_def ReadFull_def)
      have "enc_ReadAll cr ?r = Some (Inr [])"
        by (subst enc_ReadAll.simps) simp
      moreover have "frames cr cs d a i ns [] = []" for cs d a i ns
        by (cases ns) auto
      ultimately show ?thesis
        using less.prems(2) False n(2) [where s = "[]" and e = True] k short
        by (subst enc_ReadAll.simps) (simp add: next_frame)
    qed
  qed
qed

section \<open>Opening the frames\<close>

lemma crypto_lawsD:
  assumes "crypto_laws cr"
  shows "length k = KeySize \<Longrightarrow> length n = NonceSizeX \<Longrightarrow> length (cr_Seal cr k n p a) = length p + Overhead"
    and "length k = KeySize \<Longrightarrow> length n = NonceSizeX \<Longrightarrow> cr_Open cr k n (cr_Seal cr k n p a) a = Some p"
    and "cr_Open cr k n c a = Some q \<Longrightarrow> c = cr_Seal cr k n q a"
    and "length (cr_HKDF cr s t i m) = m"
  using assms by (auto simp: crypto_laws_def)

lemma ReadFull_append: "length a = n \<Longrightarrow> ReadFull n (a @ b) e = (a, ROk, b)"
  by (simp add: ReadFull_def)

text \<open>The chunk size keeps frame lengths inside the 32-bit length field.\<close>

definition chunk_fits :: "nat \<Rightarrow> bool" where
  "chunk_fits cs \<longleftrightarrow> 0 < cs \<and> cs + Overhead < 2 ^ 32"

lemma frame_length_word:
  assumes "chunk_fits cs" "n \<le> cs"
  shows "unat (word_of_nat (n + Overhead) :: 32 word) = n + Overhead"
    and "(word_of_nat (n + Overhead) :: 32 word) \<noteq> 0"
    and "(word_of_nat (n + Overhead) :: 32 word) \<le> word_of_nat (cs + Overhead)"
proof -
  have u: "unat (word_of_nat (m + Overhead) :: 32 word) = m + Overhead" if "m \<le> cs" for m
    using assms(1) that unfolding chunk_fits_def unat_of_nat take_bit_eq_mod by (intro mod_less) simp
  show "unat (word_of_nat (n + Overhead) :: 32 word) = n + Overhead"
    by (rule u [OF assms(2)])
  then show "(word_of_nat (n + Overhead) :: 32 word) \<noteq> 0"
    by (metis add_is_0 unat_0 zero_neq_numeral)
  show "(word_of_nat (n + Overhead) :: 32 word) \<le> word_of_nat (cs + Overhead)"
    unfolding word_le_nat_alt u [OF assms(2)] u [OF le_refl] using assms(2) by simp
qed

lemma dec_nextFrame_frame:
  assumes "crypto_laws cr" "length (dr_dek r) = KeySize" "length n = NonceSizeX"
    "chunk_fits (dr_chunkSize r)" "length chunk \<le> dr_chunkSize r"
    "dr_src r = frame cr (dr_dek r) (dr_chunkAAD r) (dr_chunkIndex r) n chunk @ rest"
  shows "dec_nextFrame cr r = Inr (chunk, r\<lparr>dr_src := rest, dr_eof := (length chunk < dr_chunkSize r),
    dr_chunkIndex := dr_chunkIndex r + 1\<rparr>)"
proof -
  let ?a = "chunkAADBytes (dr_chunkAAD r) (dr_chunkIndex r)"
  let ?ct = "cr_Seal cr (dr_dek r) n chunk ?a"
  let ?w = "word_of_nat (length chunk + Overhead) :: 32 word"
  have len: "length ?ct = length chunk + Overhead"
    using crypto_lawsD(1) [OF assms(1,2,3)] .
  have src: "dr_src r = (n @ PutUint32 ?w) @ ?ct @ rest"
    using assms(6) by (simp add: frame_def Let_def len)
  have hdr: "ReadFull chunkHeaderSize (dr_src r) (dr_srcErr r) = (n @ PutUint32 ?w, ROk, ?ct @ rest)"
    unfolding src using assms(3) by (intro ReadFull_append) simp
  have body: "ReadFull (unat ?w) (?ct @ rest) (dr_srcErr r) = (?ct, ROk, rest)"
    using frame_length_word(1) [OF assms(4,5)] by (intro ReadFull_append) (simp add: len)
  have "\<not> (?w = 0 \<or> ?w > word_of_nat (dr_chunkSize r + Overhead))"
    using frame_length_word(2,3) [OF assms(4,5)] by (simp add: not_less)
  then show ?thesis
    unfolding dec_nextFrame_def hdr using body crypto_lawsD(2) [OF assms(1,2,3)] assms(3)
    by (simp add: Let_def)
qed

lemma dec_ReadAll_frames:
  assumes "crypto_laws cr" "length (dr_dek r) = KeySize" "chunk_fits (dr_chunkSize r)" "\<not> dr_eof r"
    "dr_srcErr r = None" "num_chunks (dr_chunkSize r) (length p) \<le> length ns" "\<forall>n \<in> set ns. length n = NonceSizeX"
    "dr_src r = frames cr (dr_chunkSize r) (dr_dek r) (dr_chunkAAD r) (dr_chunkIndex r) ns p"
  shows "dec_ReadAll cr r = Inr p"
  using assms
proof (induction ns arbitrary: r p)
  case Nil
  let ?cs = "dr_chunkSize r"
  have cs: "0 < ?cs" using Nil.prems(3) by (simp add: chunk_fits_def)
  have "p = []"
  proof (rule ccontr)
    assume "p \<noteq> []"
    then have "num_chunks ?cs (length p) = Suc (num_chunks ?cs (length p - ?cs))"
      using cs by (intro num_chunks_step) auto
    with Nil.prems(6) show False by simp
  qed
  with Nil.prems show ?case
    by (subst dec_ReadAll.simps) (simp add: dec_nextFrame_def ReadFull_def)
next
  case (Cons n ns)
  let ?cs = "dr_chunkSize r"
  have cs: "0 < ?cs" using Cons.prems(3) by (simp add: chunk_fits_def)
  show ?case
  proof (cases "p = []")
    case True
    with Cons.prems show ?thesis
      by (subst dec_ReadAll.simps) (simp add: dec_nextFrame_def ReadFull_def)
  next
    case False
    let ?rest = "frames cr ?cs (dr_dek r) (dr_chunkAAD r) (dr_chunkIndex r + 1) ns (drop ?cs p)"
    let ?r = "r\<lparr>dr_src := ?rest, dr_eof := (length (take ?cs p) < ?cs), dr_chunkIndex := dr_chunkIndex r + 1\<rparr>"
    have nf: "dec_nextFrame cr r = Inr (take ?cs p, ?r)"
      using Cons.prems False by (intro dec_nextFrame_frame) auto
    show ?thesis
    proof (cases "length p < ?cs")
      case True
      with Cons.prems(4) nf show ?thesis
        by (subst dec_ReadAll.simps) simp
    next
      case full: False
      have "num_chunks ?cs (length p) = Suc (num_chunks ?cs (length p - ?cs))"
        using cs False by (intro num_chunks_step) auto
      then have "dec_ReadAll cr ?r = Inr (drop ?cs p)"
        using Cons.prems full by (intro Cons.IH) auto
      with Cons.prems(4) nf full show ?thesis
        by (subst dec_ReadAll.simps) simp
    qed
  qed
qed

lemma dec_nextFrame_inv:
  assumes "crypto_laws cr" "length (dr_dek r) = KeySize" "dec_nextFrame cr r = Inr (pt, r')"
  shows "pt = [] \<and> dr_eof r' \<or>
    (\<exists>n. length n = NonceSizeX \<and> length pt \<le> dr_chunkSize r
       \<and> dr_src r = frame cr (dr_dek r) (dr_chunkAAD r) (dr_chunkIndex r) n pt @ dr_src r'
       \<and> r' = r\<lparr>dr_src := dr_src r', dr_eof := (length pt < dr_chunkSize r), dr_chunkIndex := dr_chunkIndex r + 1\<rparr>)"
proof (cases "chunkHeaderSize \<le> length (dr_src r)")
  case False
  then show ?thesis
    using assms(3) by (auto simp: dec_nextFrame_def ReadFull_def split: if_splits option.splits)
next
  case True
  define hdr where "hdr = take chunkHeaderSize (dr_src r)"
  define n where "n = take NonceSizeX hdr"
  define w where "w = Uint32 (drop NonceSizeX hdr)"
  define rest where "rest = drop chunkHeaderSize (dr_src r)"
  define ct where "ct = take (unat w) rest"
  have hl: "length hdr = chunkHeaderSize"
    using True by (simp add: hdr_def)
  have ok: "unat w \<le> length rest" "w \<le> word_of_nat (dr_chunkSize r + Overhead)"
      "cr_Open cr (dr_dek r) n ct (chunkAADBytes (dr_chunkAAD r) (dr_chunkIndex r)) = Some pt"
      "r' = r\<lparr>dr_src := drop (unat w) rest, dr_eof := (length pt < dr_chunkSize r), dr_chunkIndex := dr_chunkIndex r + 1\<rparr>"
    using assms(3) True
    by (auto simp: dec_nextFrame_def ReadFull_def Let_def hdr_def n_def w_def rest_def ct_def not_less
        split: if_splits option.splits)
  have nl: "length n = NonceSizeX"
    by (simp add: n_def hl)
  have ct: "ct = cr_Seal cr (dr_dek r) n pt (chunkAADBytes (dr_chunkAAD r) (dr_chunkIndex r))"
    by (rule crypto_lawsD(3) [OF assms(1) ok(3)])
  have "length ct = unat w"
    using ok(1) by (simp add: ct_def)
  then have lw: "unat w = length pt + Overhead"
    using crypto_lawsD(1) [OF assms(1,2) nl] ct by simp
  have "unat w \<le> dr_chunkSize r + Overhead"
    using ok(2) unfolding word_le_nat_alt unat_of_nat take_bit_eq_mod
    by (rule order_trans) (rule mod_less_eq_dividend)
  with lw have le: "length pt \<le> dr_chunkSize r"
    by simp
  have "PutUint32 w = drop NonceSizeX hdr"
    unfolding w_def by (rule PutUint32_Uint32) (simp add: hl)
  moreover have "word_of_nat (length ct) = w"
    using \<open>length ct = unat w\<close> by simp
  ultimately have "hdr = n @ PutUint32 (word_of_nat (length ct))"
    by (simp add: n_def)
  then have "frame cr (dr_dek r) (dr_chunkAAD r) (dr_chunkIndex r) n pt = hdr @ ct"
    by (simp add: frame_def Let_def ct)
  moreover have "dr_src r = hdr @ ct @ drop (unat w) rest"
    unfolding hdr_def ct_def rest_def by (metis append_take_drop_id)
  ultimately show ?thesis
    using nl le ok(4) by auto
qed

lemma dec_ReadAll_authentic:
  assumes "crypto_laws cr" "length (dr_dek r) = KeySize" "0 < dr_chunkSize r" "dec_ReadAll cr r = Inr p"
  shows "\<exists>ns rest. length ns = num_chunks (dr_chunkSize r) (length p) \<and> (\<forall>n \<in> set ns. length n = NonceSizeX)
    \<and> dr_src r = frames cr (dr_chunkSize r) (dr_dek r) (dr_chunkAAD r) (dr_chunkIndex r) ns p @ rest"
  using assms
proof (induction cr r arbitrary: p rule: dec_ReadAll.induct)
  case (1 cr r)
  let ?cs = "dr_chunkSize r"
  have nil: ?case if "p = []"
    using that "1.prems"(3) by (intro exI [of _ "[]"] exI [of _ "dr_src r"]) simp
  show ?case
  proof (cases "dr_eof r")
    case True
    with "1.prems"(4) nil show ?thesis
      by (simp add: dec_ReadAll.simps)
  next
    case False
    with "1.prems"(4) obtain pt r' where nf: "dec_nextFrame cr r = Inr (pt, r')"
      by (subst (asm) dec_ReadAll.simps) (auto split: sum.splits)
    from dec_nextFrame_inv [OF "1.prems"(1,2) nf] show ?thesis
    proof
      assume "pt = [] \<and> dr_eof r'"
      with "1.prems"(4) False nf nil show ?thesis
        by (subst (asm) dec_ReadAll.simps) simp
    next
      assume "\<exists>n. length n = NonceSizeX \<and> length pt \<le> ?cs
       \<and> dr_src r = frame cr (dr_dek r) (dr_chunkAAD r) (dr_chunkIndex r) n pt @ dr_src r'
       \<and> r' = r\<lparr>dr_src := dr_src r', dr_eof := (length pt < ?cs), dr_chunkIndex := dr_chunkIndex r + 1\<rparr>"
      then obtain n where n: "length n = NonceSizeX" "length pt \<le> ?cs"
          "dr_src r = frame cr (dr_dek r) (dr_chunkAAD r) (dr_chunkIndex r) n pt @ dr_src r'"
          "r' = r\<lparr>dr_src := dr_src r', dr_eof := (length pt < ?cs), dr_chunkIndex := dr_chunkIndex r + 1\<rparr>"
        by blast
      show ?thesis
      proof (cases "length pt < ?cs")
        case True
        then have "dr_eof r'"
          by (subst n(4)) simp
        with "1.prems"(4) False nf have p: "p = pt"
          by (subst (asm) dec_ReadAll.simps) simp
        show ?thesis
        proof (cases "pt = []")
          case False
          have "num_chunks ?cs (length pt) = 1"
            using False True num_chunks_step [OF "1.prems"(3), of "length pt"] "1.prems"(3) by simp
          with True False n(1,3) show ?thesis
            by (intro exI [of _ "[n]"] exI [of _ "dr_src r'"]) (simp add: p)
        qed (use nil p in simp)
      next
        case full: False
        have ne: "\<not> dr_eof r'"
          using full by (subst n(4)) simp
        have lp: "length pt = ?cs"
          using n(2) full by simp
        obtain q where q: "dec_ReadAll cr r' = Inr q" "p = pt @ q"
          using "1.prems"(4) False nf ne by (subst (asm) dec_ReadAll.simps) auto
        have f: "dr_dek r' = dr_dek r" "dr_chunkSize r' = ?cs" "dr_chunkAAD r' = dr_chunkAAD r"
            "dr_chunkIndex r' = dr_chunkIndex r + 1"
          by (subst n(4), simp)+
        have "\<exists>ns rest. length ns = num_chunks ?cs (length q) \<and> (\<forall>n \<in> set ns. length n = NonceSizeX)
          \<and> dr_src r' = frames cr ?cs (dr_dek r) (dr_chunkAAD r) (dr_chunkIndex r + 1) ns q @ rest"
          using "1.IH" [OF False nf refl ne, of q] "1.prems" q(1) by (simp add: f)
        then obtain ns rest where ns: "length ns = num_chunks ?cs (length q)" "\<forall>n \<in> set ns. length n = NonceSizeX"
          "dr_src r' = frames cr ?cs (dr_dek r) (dr_chunkAAD r) (dr_chunkIndex r + 1) ns q @ rest"
          by blast
        have "num_chunks ?cs (length p) = Suc (num_chunks ?cs (length q))"
          using num_chunks_step [OF "1.prems"(3), of "length p"] lp "1.prems"(3) by (simp add: q(2))
        with ns n(1,3) lp "1.prems"(3) show ?thesis
          by (intro exI [of _ "n # ns"] exI [of _ rest]) (auto simp: q(2))
      qed
    qed
  qed
qed

section \<open>Properties\<close>

text \<open>Enough nonces of the right size for a plaintext of the given length.\<close>

definition nonces_suffice :: "Options \<Rightarrow> nat \<Rightarrow> bytes list \<Rightarrow> bool" where
  "nonces_suffice opts n rand \<longleftrightarrow>
    op_ConvergentNonce opts \<or>
      num_chunks (nat (chunkSize opts)) n \<le> length rand \<and> list_all (\<lambda>x. length x = NonceSizeX) rand"

lemma EncryptObject_frames:
  assumes "crypto_laws cr" "EncryptObject p None dek opts rand = Inr er" "0 < nat (chunkSize opts)"
    "nonces_suffice opts (length p) rand"
  obtains ns where "enc_ReadAll cr er = Some (Inr (frames cr (nat (chunkSize opts)) dek (op_ChunkAAD opts) 0 ns p))"
    "length ns = num_chunks (nat (chunkSize opts)) (length p)" "\<forall>n \<in> set ns. length n = NonceSizeX"
    "length dek = KeySize"
proof -
  let ?ns = "nonces cr er (num_chunks (nat (chunkSize opts)) (length p))"
  have er: "er_src er = p" "er_srcErr er = None" "er_chunkSize er = nat (chunkSize opts)" "\<not> er_eof er"
      "er_convergent er = op_ConvergentNonce opts" "er_dek er = dek" "er_chunkIndex er = 0"
      "er_chunkAAD er = op_ChunkAAD opts" "er_rand er = rand" "length dek = KeySize"
    using assms(2) by (auto simp: EncryptObject_def split: if_splits)
  have "enc_ReadAll cr er = Some (Inr (frames cr (nat (chunkSize opts)) dek (op_ChunkAAD opts) 0 ?ns p))"
    using enc_ReadAll_frames [of er cr] er assms(3,4) by (auto simp: nonces_suffice_def)
  moreover have "length ?ns = num_chunks (nat (chunkSize opts)) (length p)"
    using assms(4) er by (auto simp: nonces_def nonces_suffice_def)
  moreover have "\<forall>n \<in> set ?ns. length n = NonceSizeX"
    using assms(4) er crypto_lawsD(4) [OF assms(1)]
    by (auto simp: nonces_def nonces_suffice_def deriveConvergentNonce_def list_all_iff dest: in_set_takeD)
  ultimately show ?thesis
    using that er(10) by blast
qed

lemma chunkSize_pos: "0 < chunkSize opts"
  by (simp add: chunkSize_def DefaultChunkSize_def)

lemma seal_open:
  assumes "crypto_laws cr" "EncryptObject p None dek opts rand = Inr er"
    "chunkSize opts + int Overhead < 2 ^ 32" "nonces_suffice opts (length p) rand"
  shows "\<exists>c dr. enc_ReadAll cr er = Some (Inr c) \<and> DecryptObject c None dek opts = Inr dr \<and> dec_ReadAll cr dr = Inr p"
proof -
  have cs: "chunk_fits (nat (chunkSize opts))"
    using assms(3) chunkSize_pos [of opts] by (simp add: chunk_fits_def)
  then have pos: "0 < nat (chunkSize opts)"
    by (simp add: chunk_fits_def)
  obtain ns where ns: "enc_ReadAll cr er = Some (Inr (frames cr (nat (chunkSize opts)) dek (op_ChunkAAD opts) 0 ns p))"
      "length ns = num_chunks (nat (chunkSize opts)) (length p)" "\<forall>n \<in> set ns. length n = NonceSizeX"
      "length dek = KeySize"
    using EncryptObject_frames [OF assms(1,2) pos assms(4)] .
  show ?thesis
    unfolding ns(1) using ns(2-4) assms(1) cs
    by (auto simp: DecryptObject_def intro!: dec_ReadAll_frames [where ns = ns])
qed

text \<open>
  C12: sealing then opening an object returns it.  For every plaintext, key and
  option set whose chunk size leaves the frame length inside its 32-bit field,
  draining the encrypting reader ends, and draining the decrypting reader over
  the result yields the plaintext.
\<close>

theorem EncryptObject_DecryptObject:
  assumes "crypto_laws cr" "EncryptObject p None dek opts rand = Inr er"
    "chunkSize opts + int Overhead < 2 ^ 32" "nonces_suffice opts (length p) rand"
  shows "\<exists>c dr. enc_ReadAll cr er = Some (Inr c) \<and> DecryptObject c None dek opts = Inr dr \<and> dec_ReadAll cr dr = Inr p"
  using seal_open [OF assms] .


definition demo_tag :: "bytes \<Rightarrow> bytes" where
  "demo_tag aad = take 16 (rev aad @ replicate 16 0)"

definition demo_crypto :: Crypto where
  "demo_crypto = \<lparr>cr_Seal = (\<lambda>k n p a. p @ demo_tag a),
     cr_Open = (\<lambda>k n c a. if 16 \<le> length c \<and> drop (length c - 16) c = demo_tag a then Some (take (length c - 16) c) else None),
     cr_HKDF = (\<lambda>s t i n. take n (i @ replicate n 0))\<rparr>"

lemma demo_crypto_laws: "crypto_laws demo_crypto"
proof -
  have t: "length (demo_tag a) = 16" for a
    by (simp add: demo_tag_def)
  have "c = take (length c - 16) c @ demo_tag a" if "16 \<le> length c" "drop (length c - 16) c = demo_tag a" for c a
    using that by (metis append_take_drop_id)
  then show ?thesis
    by (auto simp: crypto_laws_def demo_crypto_def t split: if_splits)
qed

definition demo_options :: Options where
  "demo_options = \<lparr>op_ChunkSize = 2, op_ConvergentNonce = False, op_ChunkAAD = [1]\<rparr>"

definition demo_key :: bytes where "demo_key = replicate 32 7"
definition demo_rand :: "bytes list" where "demo_rand = replicate 3 (replicate 24 5)"

lemma demo_encrypt:
  "\<exists>er. EncryptObject [10, 20, 30, 40, 50] None demo_key demo_options demo_rand = Inr er"
  by (simp add: EncryptObject_def demo_options_def demo_key_def)

lemma demo_side_conditions:
  "chunkSize demo_options + int Overhead < 2 ^ 32" "nonces_suffice demo_options 5 demo_rand"
  by (simp_all add: demo_options_def chunkSize_def nonces_suffice_def num_chunks_def demo_rand_def list_all_iff)

theorem EncryptObject_DecryptObject_witness:
  "\<exists>er c dr. EncryptObject [10, 20, 30, 40, 50] None demo_key demo_options demo_rand = Inr er
    \<and> enc_ReadAll demo_crypto er = Some (Inr c) \<and> DecryptObject c None demo_key demo_options = Inr dr
    \<and> dec_ReadAll demo_crypto dr = Inr [10, 20, 30, 40, 50]"
proof -
  obtain er where er: "EncryptObject [10, 20, 30, 40, 50] None demo_key demo_options demo_rand = Inr er"
    using demo_encrypt by blast
  have n: "nonces_suffice demo_options (length [10, 20, 30, 40, 50 :: byte]) demo_rand"
    using demo_side_conditions(2) by (simp add: numeral_eq_Suc)
  show ?thesis
    using EncryptObject_DecryptObject [OF demo_crypto_laws er demo_side_conditions(1) n] er by blast
qed

lemma enc_nextFrame_consumes:
  "enc_nextFrame cr r = Inr (f, r') \<Longrightarrow> 0 < er_chunkSize r \<Longrightarrow>
    er_chunkSize r' = er_chunkSize r \<and> (er_eof r' \<or> length (er_src r') < length (er_src r))"
  by (auto simp: enc_nextFrame_def ReadFull_def Let_def split: if_splits option.splits read_status.splits)

lemma enc_ReadAll_returns:
  assumes "0 < er_chunkSize r"
  shows "\<exists>x. enc_ReadAll cr r = Some x"
  using assms
proof (induction "length (er_src r)" arbitrary: r rule: less_induct)
  case less
  show ?case
  proof (cases "er_eof r")
    case False
    show ?thesis
    proof (cases "enc_nextFrame cr r")
      case (Inr fr)
      obtain f r' where fr: "fr = (f, r')"
        by (cases fr)
      have c: "er_chunkSize r' = er_chunkSize r" "er_eof r' \<or> length (er_src r') < length (er_src r)"
        using enc_nextFrame_consumes [of cr r f r'] Inr fr less.prems by auto
      have "\<exists>x. enc_ReadAll cr r' = Some x"
      proof (cases "er_eof r'")
        case True
        then show ?thesis
          by (simp add: enc_ReadAll.simps)
      next
        case False
        then show ?thesis
          using c less by auto
      qed
      then show ?thesis
        using False Inr fr by (auto simp: enc_ReadAll.simps [of cr r])
    qed (simp add: enc_ReadAll.simps False)
  qed (simp add: enc_ReadAll.simps)
qed

text \<open>
  C34: draining the encrypting reader always ends.  Whatever the plaintext, the error
  its source ends with, the key, the options and the random source, the loop that reads
  frame after frame returns a ciphertext or an error.
\<close>

theorem EncryptObject_returns:
  assumes "EncryptObject p srcErr dek opts rand = Inr er"
  shows "\<exists>res. enc_ReadAll cr er = Some res"
  using assms chunkSize_pos [of opts]
  by (intro enc_ReadAll_returns) (auto simp: EncryptObject_def split: if_splits)

theorem EncryptObject_returns_witness:
  "\<exists>er res. EncryptObject [1, 2, 3] (Some ''reset'') demo_key demo_options [] = Inr er \<and> enc_ReadAll demo_crypto er = Some res"
proof -
  obtain er where er: "EncryptObject [1, 2, 3] (Some ''reset'') demo_key demo_options [] = Inr er"
    by (simp add: EncryptObject_def demo_options_def demo_key_def)
  from EncryptObject_returns [OF er] er show ?thesis
    by blast
qed

lemma length_frames:
  assumes "crypto_laws cr" "length dek = KeySize" "0 < cs" "length ns = num_chunks cs (length p)"
    "\<forall>n \<in> set ns. length n = NonceSizeX"
  shows "length (frames cr cs dek aad i ns p) = length p + (chunkHeaderSize + chunkTrailerSize) * num_chunks cs (length p)"
  using assms(4,5)
proof (induction ns arbitrary: p i)
  case Nil
  then have "p = []"
    using num_chunks_step [OF assms(3), of "length p"] by (cases p) auto
  then show ?case
    using assms(3) by simp
next
  case (Cons n ns)
  then have "p \<noteq> []"
    using assms(3) by (cases p) auto
  then have k: "num_chunks cs (length p) = Suc (num_chunks cs (length p - cs))"
    using assms(3) by (intro num_chunks_step) auto
  have "length (frame cr dek aad i n (take cs p)) = chunkHeaderSize + chunkTrailerSize + length (take cs p)"
    using crypto_lawsD(1) [OF assms(1,2), of n] Cons.prems(2) by (simp add: frame_def Let_def)
  with Cons \<open>p \<noteq> []\<close> k show ?case
    by simp
qed

text \<open>
  C22: the predicted size is the size.  For every plaintext whose sealing succeeds,
  the size the gateway announces to a backend is exactly the number of bytes the
  encrypting reader emits; the prediction is refused only as an overflow, and only
  when the exact size, or the length plus one chunk, does not fit an int64.
\<close>

theorem EncryptedSize_exact:
  assumes "crypto_laws cr" "EncryptObject p None dek opts rand = Inr er" "nonces_suffice opts (length p) rand"
  shows "case EncryptedSize (int (length p)) opts of
      Inr n \<Rightarrow> (\<exists>c. enc_ReadAll cr er = Some (Inr c) \<and> int (length c) = n)
    | Inl e \<Rightarrow> e = ErrEncryptedSizeOverflow
        \<and> (\<forall>c. enc_ReadAll cr er = Some (Inr c) \<longrightarrow>
             MaxInt64 < length c \<or> MaxInt64 < length p + nat (chunkSize opts) - 1)"
proof -
  let ?cs = "nat (chunkSize opts)"
  have pos: "0 < ?cs"
    using chunkSize_pos [of opts] by simp
  obtain ns where ns: "enc_ReadAll cr er = Some (Inr (frames cr ?cs dek (op_ChunkAAD opts) 0 ns p))"
      "length ns = num_chunks ?cs (length p)" "\<forall>n \<in> set ns. length n = NonceSizeX" "length dek = KeySize"
    using EncryptObject_frames [OF assms(1,2) pos assms(3)] .
  let ?c = "frames cr ?cs dek (op_ChunkAAD opts) 0 ns p" and ?k = "num_chunks ?cs (length p)"
  have len: "length ?c = length p + 44 * ?k"
    using length_frames [OF assms(1) ns(4) pos ns(2,3)] by simp
  show ?thesis
  proof (cases "p = []")
    case True
    then show ?thesis
      using len pos by (simp add: EncryptedSize_def ns(1))
  next
    case False
    define n where "n = length p + ?cs - 1"
    have n: "length p + nat (chunkSize opts - 1) = n"
      using pos by (simp add: n_def nat_diff_distrib)
    have k: "n div ?cs = ?k"
      by (simp add: n_def num_chunks_def)
    have size: "EncryptedSize (int (length p)) opts =
        (if n > MaxInt64 then Inl ErrEncryptedSizeOverflow
         else if ?k * 44 > MaxInt64 then Inl ErrEncryptedSizeOverflow
         else if length p + ?k * 44 > MaxInt64 then Inl ErrEncryptedSizeOverflow
         else Inr (int (length p + ?k * 44)))"
      using False chunkSize_pos [of opts]
      unfolding EncryptedSize_def Let_def Add64_case Mul64_case n nat_int k by simp
    show ?thesis
      unfolding size ns(1) using len by (auto simp: n_def)
  qed
qed

theorem EncryptedSize_exact_witness:
  "\<exists>er c. EncryptObject [10, 20, 30, 40, 50] None demo_key demo_options demo_rand = Inr er
    \<and> enc_ReadAll demo_crypto er = Some (Inr c) \<and> EncryptedSize 5 demo_options = Inr (int (length c))"
proof -
  obtain er where er: "EncryptObject [10, 20, 30, 40, 50] None demo_key demo_options demo_rand = Inr er"
    using demo_encrypt by blast
  have n: "nonces_suffice demo_options (length [10, 20, 30, 40, 50 :: byte]) demo_rand"
    using demo_side_conditions(2) by (simp add: numeral_eq_Suc)
  have "EncryptedSize 5 demo_options = Inr 137"
    unfolding EncryptedSize_def Let_def Add64_case Mul64_case
    by (simp add: chunkSize_def demo_options_def MaxInt64_def)
  then show ?thesis
    using EncryptedSize_exact [OF demo_crypto_laws er n] er by auto
qed


lemma frames_append:
  assumes "0 < cs" "length a = cs * k" "b \<noteq> []"
  shows "frames cr cs dek aad i ns (a @ b) =
    frames cr cs dek aad i (take k ns) a @ frames cr cs dek aad (i + word_of_nat k) (drop k ns) b"
  using assms(2)
proof (induction k arbitrary: a i ns)
  case 0
  then show ?case by simp
next
  case (Suc k)
  show ?case
  proof (cases ns)
    case (Cons n ns')
    have "a \<noteq> []" "cs \<le> length a"
      using Suc.prems assms(1) by auto
    then show ?thesis
      using Suc.IH [of "drop cs a" "i + 1" ns'] Suc.prems by (simp add: Cons add.assoc)
  qed simp
qed

text \<open>
  C39: the end of an object is not authenticated.  Cutting a sealed object after
  any number of full chunks gives a ciphertext that opens without error to the
  shortened plaintext.
\<close>

theorem truncation_undetected:
  assumes "crypto_laws cr" "EncryptObject (a @ b) None dek opts rand = Inr er"
    "chunkSize opts + int Overhead < 2 ^ 32" "nonces_suffice opts (length (a @ b)) rand"
    "length a mod nat (chunkSize opts) = 0" "b \<noteq> []"
  shows "\<exists>c1 c2 dr. enc_ReadAll cr er = Some (Inr (c1 @ c2)) \<and> c2 \<noteq> []
    \<and> DecryptObject c1 None dek opts = Inr dr \<and> dec_ReadAll cr dr = Inr a"
proof -
  let ?cs = "nat (chunkSize opts)" and ?A = "op_ChunkAAD opts"
  have cs: "chunk_fits ?cs" and pos: "0 < ?cs"
    using assms(3) chunkSize_pos [of opts] by (auto simp: chunk_fits_def)
  obtain ns where ns: "enc_ReadAll cr er = Some (Inr (frames cr ?cs dek ?A 0 ns (a @ b)))"
      "length ns = num_chunks ?cs (length (a @ b))" "\<forall>n \<in> set ns. length n = NonceSizeX" "length dek = KeySize"
    using EncryptObject_frames [OF assms(1,2) pos assms(4)] .
  obtain k where k: "length a = ?cs * k"
    using assms(5) by (auto simp: mod_eq_0_iff_dvd)
  have na: "num_chunks ?cs (length a) = k"
    using pos unfolding num_chunks_def k by (intro div_nat_eqI) (auto simp: algebra_simps)
  have "num_chunks ?cs (length a + length b) = k + num_chunks ?cs (length b)"
    using num_chunks_add [OF pos] assms(6) unfolding k by simp
  moreover have "0 < num_chunks ?cs (length b)"
    using num_chunks_step [OF pos, of "length b"] assms(6) by simp
  ultimately have lk: "k < length ns"
    using ns(2) by simp
  let ?c1 = "frames cr ?cs dek ?A 0 (take k ns) a" and ?c2 = "frames cr ?cs dek ?A (word_of_nat k) (drop k ns) b"
  have "?c2 \<noteq> []"
    using lk assms(6) by (cases "drop k ns") (auto simp: frame_def Let_def)
  moreover have "enc_ReadAll cr er = Some (Inr (?c1 @ ?c2))"
    using ns(1) frames_append [OF pos k assms(6)] by simp
  moreover have "dec_ReadAll cr \<lparr>dr_src = ?c1, dr_srcErr = None, dr_chunkSize = ?cs, dr_eof = False,
      dr_dek = dek, dr_chunkIndex = 0, dr_chunkAAD = ?A\<rparr> = Inr a"
    using assms(1) ns cs na lk by (intro dec_ReadAll_frames [where ns = "take k ns"]) (auto dest: in_set_takeD)
  ultimately show ?thesis
    using ns(4) by (auto simp: DecryptObject_def)
qed

theorem truncation_undetected_witness:
  "\<exists>er c1 c2 dr. EncryptObject [10, 20, 30, 40, 50] None demo_key demo_options demo_rand = Inr er
    \<and> enc_ReadAll demo_crypto er = Some (Inr (c1 @ c2)) \<and> c2 \<noteq> []
    \<and> DecryptObject c1 None demo_key demo_options = Inr dr \<and> dec_ReadAll demo_crypto dr = Inr [10, 20]"
proof -
  obtain er where er: "EncryptObject ([10, 20] @ [30, 40, 50]) None demo_key demo_options demo_rand = Inr er"
    using demo_encrypt by auto
  have n: "nonces_suffice demo_options (length ([10, 20] @ [30, 40, 50 :: byte])) demo_rand"
    using demo_side_conditions(2) by (simp add: numeral_eq_Suc)
  have m: "length [10, 20 :: byte] mod nat (chunkSize demo_options) = 0"
    by (simp add: chunkSize_def demo_options_def)
  show ?thesis
    using truncation_undetected [OF demo_crypto_laws er demo_side_conditions(1) n m] er by auto
qed


lemma unwrap_wrap:
  assumes "crypto_laws cr" "WrapDEK cr file dek cmk rand = Inr (wrapped, rand')" "length (hd rand) = NonceSizeX"
    "ck_URI cmk' = ck_URI cmk"
  shows "UnwrapDEK cr file wrapped cmk' = Inr dek"
proof -
  obtain master where m: "loadMasterKey file = Inr master"
    using assms(2) by (cases "loadMasterKey file") (auto simp: WrapDEK_def split: if_splits)
  obtain nonce where n: "rand = nonce # rand'"
    using assms(2) m by (cases rand) (auto simp: WrapDEK_def split: if_splits)
  have w: "wrapped = \<lparr>wd_KeyID = dekKeyID dek cmk, wd_Algorithm = ContentAlgorithm,
      wd_WrappedKey = nonce @ cr_Seal cr master nonce dek (bytes_of_string (ck_URI cmk)), wd_WrapAlgorithm = WrapAlgorithm\<rparr>"
    using assms(2) m n by (simp add: WrapDEK_def split: if_splits)
  have "length master = KeySize"
    using m by (auto simp: loadMasterKey_def split: option.splits if_splits)
  moreover have l: "length nonce = NonceSizeX"
    using assms(3) n by simp
  ultimately have "cr_Open cr master nonce (cr_Seal cr master nonce dek (bytes_of_string (ck_URI cmk))) (bytes_of_string (ck_URI cmk)) = Some dek"
    by (rule crypto_lawsD(2) [OF assms(1)])
  then show ?thesis
    by (simp add: UnwrapDEK_def m w l assms(4))
qed

text \<open>
  C32: a data key wrapped by the local master key is unwrapped by it, and the
  envelope binds the URI of the master key reference but neither its version nor
  its holder class: any reference with the same URI opens it.
\<close>

theorem UnwrapDEK_WrapDEK:
  assumes "crypto_laws cr" "WrapDEK cr file dek cmk rand = Inr (wrapped, rand')" "length (hd rand) = NonceSizeX"
    "ck_URI cmk' = ck_URI cmk"
  shows "UnwrapDEK cr file wrapped cmk' = Inr dek"
  using unwrap_wrap [OF assms] .

theorem UnwrapDEK_WrapDEK_witness:
  "\<exists>wrapped. WrapDEK demo_crypto (Some demo_key) demo_key \<lparr>ck_URI = ''cmk://a'', ck_Version = 1, ck_HolderClass = ''customer''\<rparr>
      demo_rand = Inr (wrapped, tl demo_rand)
    \<and> UnwrapDEK demo_crypto (Some demo_key) wrapped \<lparr>ck_URI = ''cmk://a'', ck_Version = 2, ck_HolderClass = ''none''\<rparr> = Inr demo_key"
proof -
  obtain wrapped where w: "WrapDEK demo_crypto (Some demo_key) demo_key
      \<lparr>ck_URI = ''cmk://a'', ck_Version = 1, ck_HolderClass = ''customer''\<rparr> demo_rand = Inr (wrapped, tl demo_rand)"
    by (auto simp: WrapDEK_def demo_key_def loadMasterKey_def demo_rand_def numeral_eq_Suc)
  have "length (hd demo_rand) = NonceSizeX"
    by (simp add: demo_rand_def)
  from UnwrapDEK_WrapDEK [OF demo_crypto_laws w this] w show ?thesis
    by auto
qed

end
