(* ===== verification/S3_Request.thy ===== *)
theory S3_Request
  imports Go_Crypto Storage_Provider Object_Lock
begin

text \<open>
  The request side of the S3 handlers (\<open>src/api/s3compat\<close>): requests and
  responses, path and identifier helpers, the tag and metadata headers, byte ranges
  and piece hashes.  It also holds what these use of \<open>net/http\<close> headers and of
  \<open>net/url\<close> query strings.

  Response bodies of errors keep the status and the S3 code; the prose of a message
  plays no role.  \<open>rq_now i\<close> is the value the i-th reading of the clock in a
  handler returns, and \<open>rq_rand\<close> the buffers the system's random source delivers
  while the request is served.
\<close>

section \<open>Headers and query strings\<close>

type_synonym Header = "(string, string list) gomap"

definition upper_char :: "char \<Rightarrow> char" where
  "upper_char c = (let n = of_char c :: nat in if 97 \<le> n \<and> n \<le> 122 then char_of (n - 32) else c)"

text \<open>The canonical form of a header name: upper case at the start and after a dash.\<close>

fun canonical_from :: "bool \<Rightarrow> string \<Rightarrow> string" where
  "canonical_from up [] = []"
| "canonical_from up (c # cs) = (if up then upper_char c else lower_char c) # canonical_from (c = CHR ''-'') cs"

definition CanonicalHeaderKey :: "string \<Rightarrow> string" where
  "CanonicalHeaderKey k = canonical_from True k"

definition HeaderGet :: "Header \<Rightarrow> string \<Rightarrow> string" where
  "HeaderGet h k = (case gm_get h (CanonicalHeaderKey k) of Some (v # vs) \<Rightarrow> v | _ \<Rightarrow> [])"

definition unhex :: "char \<Rightarrow> nat option" where
  "unhex c = (let n = of_char c :: nat in
     if 48 \<le> n \<and> n \<le> 57 then Some (n - 48)
     else if 97 \<le> n \<and> n \<le> 102 then Some (n - 87)
     else if 65 \<le> n \<and> n \<le> 70 then Some (n - 55)
     else None)"

fun QueryUnescape :: "string \<Rightarrow> string option" where
  "QueryUnescape [] = Some []"
| "QueryUnescape (c # cs) =
    (if c = CHR ''%'' then
       (case cs of
          a # b # rest \<Rightarrow>
            (case (unhex a, unhex b) of
               (Some x, Some y) \<Rightarrow> map_option ((#) (char_of (16 * x + y))) (QueryUnescape rest)
             | _ \<Rightarrow> None)
        | _ \<Rightarrow> None)
     else map_option ((#) (if c = CHR ''+'' then CHR '' '' else c)) (QueryUnescape cs))"

definition query_pair :: "string \<Rightarrow> Header \<times> bool \<Rightarrow> Header \<times> bool" where
  "query_pair seg acc =
    (case acc of (m, bad) \<Rightarrow>
       if CHR '';'' \<in> set seg then (m, True)
       else if seg = [] then acc
       else
         case (case CutByte seg (CHR ''='') of None \<Rightarrow> (seg, []) | Some kv \<Rightarrow> kv) of (k, v) \<Rightarrow>
         case (QueryUnescape k, QueryUnescape v) of
           (Some k', Some v') \<Rightarrow> (gm_set k' ((case gm_get m k' of None \<Rightarrow> [] | Some vs \<Rightarrow> vs) @ [v']) m, bad)
         | _ \<Rightarrow> (m, True))"

text \<open>\<open>url.ParseQuery\<close>: the values, and whether some setting was malformed.\<close>

definition ParseQuery :: "string \<Rightarrow> Header \<times> bool" where
  "ParseQuery q = fold query_pair (if q = [] then [] else SplitByte (CHR ''&'') q) ([], False)"

definition QueryGet :: "string \<Rightarrow> string \<Rightarrow> string" where
  "QueryGet rawQuery k = (case gm_get (fst (ParseQuery rawQuery)) k of Some (v # vs) \<Rightarrow> v | _ \<Rightarrow> [])"

section \<open>Requests and responses\<close>

datatype body_error = MaxBytesError | BodyError string

record Request =
  rq_Path :: string
  rq_RawQuery :: string
  rq_Header :: Header
  rq_ContentLength :: int
  rq_Body :: bytes
  rq_BodyErr :: "body_error option"
  rq_now :: "nat \<Rightarrow> gotime"
  rq_rand :: "bytes list"

record Response =
  rs_Status :: nat
  rs_Code :: string
  rs_Header :: "(string, string) gomap"
  rs_Body :: bytes

definition writeError :: "nat \<Rightarrow> string \<Rightarrow> Response" where
  "writeError status code = \<lparr>rs_Status = status, rs_Code = code, rs_Header = [], rs_Body = []\<rparr>"

definition respond :: "nat \<Rightarrow> (string, string) gomap \<Rightarrow> Response" where
  "respond status hdr = \<lparr>rs_Status = status, rs_Code = [], rs_Header = hdr, rs_Body = []\<rparr>"

definition succeeded :: "Response \<Rightarrow> bool" where
  "succeeded rs \<longleftrightarrow> 200 \<le> rs_Status rs \<and> rs_Status rs < 300"

definition writeBodyReadError :: "body_error \<Rightarrow> Response" where
  "writeBodyReadError e =
    (case e of MaxBytesError \<Rightarrow> writeError 413 ''EntityTooLarge'' | BodyError _ \<Rightarrow> writeError 400 ''InvalidArgument'')"

text \<open>A failing \<open>PutPiece\<close>: the body reader's error shows through when that is what failed.\<close>

definition writePutPieceError :: "body_error option \<Rightarrow> Response" where
  "writePutPieceError e =
    (case e of Some MaxBytesError \<Rightarrow> writeError 413 ''EntityTooLarge'' | _ \<Rightarrow> writeError 502 ''BackendPutFailed'')"

definition ReadAll :: "Request \<Rightarrow> (body_error, bytes) result" where
  "ReadAll rq = (case rq_BodyErr rq of None \<Rightarrow> Inr (rq_Body rq) | Some e \<Rightarrow> Inl e)"

definition versionId :: "Request \<Rightarrow> string" where
  "versionId rq = QueryGet (rq_RawQuery rq) ''versionId''"

definition governanceBypassRequested :: "Request \<Rightarrow> bool" where
  "governanceBypassRequested rq \<longleftrightarrow> HeaderGet (rq_Header rq) ''x-amz-bypass-governance-retention'' = ''true''"

section \<open>Paths and identifiers\<close>

definition parseBucketKey :: "string \<Rightarrow> string \<times> string" where
  "parseBucketKey path =
    (let p = TrimPrefix path ''/'' in
     if p = [] then ([], [])
     else case CutByte p (CHR ''/'') of None \<Rightarrow> (p, []) | Some bk \<Rightarrow> bk)"

definition hashObjectKey :: "string \<Rightarrow> string" where
  "hashObjectKey key = EncodeToString (sha256 (bytes_of_string key))"

text \<open>
  \<open>UnixNano\<close> counts from 1970, 719162 days after the zero time; the value is
  undefined in Go outside the years 1678 to 2262, and taken as it stands here.
\<close>

definition UnixNano :: "gotime \<Rightarrow> int" where
  "UnixNano t = t - 719162 * day"

definition newPieceID :: "string \<Rightarrow> string \<Rightarrow> string \<Rightarrow> gotime \<Rightarrow> string" where
  "newPieceID tenantID bucket key now =
    EncodeToString (sha256 (bytes_of_string
      (tenantID @ [CHR 0x00] @ bucket @ [CHR 0x00] @ key @ [CHR 0x00] @ FormatInt (UnixNano now))))"

lemma length_newPieceID [simp]: "length (newPieceID t b k now) = 64"
  by (simp add: newPieceID_def)

lemma newPieceID_ne [simp]: "newPieceID t b k now \<noteq> []" "[] \<noteq> newPieceID t b k now"
  using length_newPieceID [of t b k now] by (metis list.size(3) zero_neq_numeral)+

lemma newPieceID_digits: "list_all is_hex_digit (newPieceID t b k now)"
  by (simp add: newPieceID_def EncodeToString_digits)

section \<open>Object tags and metadata\<close>

definition validate_tags :: "(string \<times> string) list \<Rightarrow> (nat \<times> string, (string, string) gomap) result" where
  "validate_tags entries =
    fold (\<lambda>(k, v) acc. bind_result acc (\<lambda>tags.
        if k = [] \<or> length k > 128 then Inl (400, ''InvalidTag'')
        else if length v > 256 then Inl (400, ''InvalidTag'')
        else if gm_get tags k \<noteq> None then Inl (400, ''InvalidTag'')
        else Inr (gm_set k v tags))) entries (Inr [])"

definition validateTagSet :: "(string \<times> string) list \<Rightarrow> (nat \<times> string, (string, string) gomap) result" where
  "validateTagSet entries = (if length entries > 10 then Inl (400, ''BadRequest'') else validate_tags entries)"

definition parseObjectTaggingHeader :: "string \<Rightarrow> (nat \<times> string, (string, string) gomap) result" where
  "parseObjectTaggingHeader header =
    (let h = TrimSpace header in
     if h = [] then Inr []
     else case ParseQuery h of (values, bad) \<Rightarrow>
       if bad then Inl (400, ''InvalidArgument'')
       else if list_ex (\<lambda>(k, vs). length vs \<noteq> 1) values then Inl (400, ''InvalidTag'')
       else validateTagSet (map (\<lambda>(k, vs). (k, hd vs)) values))"

definition requestObjectTags :: "string \<Rightarrow> (string, string) gomap" where
  "requestObjectTags header = (case parseObjectTaggingHeader header of Inl _ \<Rightarrow> [] | Inr tags \<Rightarrow> tags)"

abbreviation userMetadataHeaderPrefix :: string where "userMetadataHeaderPrefix \<equiv> ''x-amz-meta-''"
abbreviation maxUserMetadataBytes :: nat where "maxUserMetadataBytes \<equiv> 2 * 1024"

text \<open>The key of a user-metadata header, None for any other header.\<close>

definition user_metadata_key :: "string \<Rightarrow> string option" where
  "user_metadata_key name =
    (let n = ToLower name in
     if has_prefix n userMetadataHeaderPrefix \<and> n \<noteq> userMetadataHeaderPrefix
     then Some (drop (length userMetadataHeaderPrefix) n) else None)"

definition user_metadata_bytes :: "Header \<Rightarrow> nat" where
  "user_metadata_bytes h = sum_list (map (\<lambda>(name, vals).
     case user_metadata_key name of None \<Rightarrow> 0 | Some k \<Rightarrow> length k + sum_list (map length vals)) h)"

definition validateRequestObjectMetadata :: "Header \<Rightarrow> (nat \<times> string, unit) result" where
  "validateRequestObjectMetadata h =
    (if user_metadata_bytes h > maxUserMetadataBytes then Inl (400, ''MetadataTooLarge'') else Inr ())"

fun join_comma :: "string list \<Rightarrow> string" where
  "join_comma [] = []"
| "join_comma [s] = s"
| "join_comma (s # ss) = s @ CHR '','' # join_comma ss"

definition collectUserMetadata :: "Header \<Rightarrow> (string, string) gomap" where
  "collectUserMetadata h = fold (\<lambda>(name, vals) out.
     if vals = [] then out
     else case user_metadata_key name of None \<Rightarrow> out | Some k \<Rightarrow> gm_set k (join_comma vals) out) h []"

definition applyRequestObjectMetadata :: "ObjectManifest \<Rightarrow> Header \<Rightarrow> ObjectManifest" where
  "applyRequestObjectMetadata m h =
    m\<lparr>m_ContentType := HeaderGet h ''Content-Type'', m_ContentEncoding := HeaderGet h ''Content-Encoding'',
      m_ContentDisposition := HeaderGet h ''Content-Disposition'', m_ContentLanguage := HeaderGet h ''Content-Language'',
      m_CacheControl := HeaderGet h ''Cache-Control'', m_Expires := HeaderGet h ''Expires'',
      m_UserMetadata := collectUserMetadata h\<rparr>"

section \<open>Entity tags\<close>

definition DQUOTE :: char where "DQUOTE = CHR 0x22"

definition quote :: "string \<Rightarrow> string" where
  "quote s =
    (if s = [] then []
     else if has_prefix s [DQUOTE] \<and> has_suffix s [DQUOTE] then s
     else [DQUOTE] @ s @ [DQUOTE])"

definition pieceETag :: "Piece \<Rightarrow> string" where
  "pieceETag p =
    (if p_ProviderETag p \<noteq> [] then p_ProviderETag p
     else if has_prefix (p_Hash p) ''blake3:'' then []
     else p_Hash p)"

definition etagListMatch :: "string \<Rightarrow> string \<Rightarrow> bool \<Rightarrow> bool" where
  "etagListMatch headerValue etag strong =
    (if etag = [] then False
     else
       let etagWeak = has_prefix etag ''W/''; want = TrimPrefix etag ''W/'' in
       list_ex (\<lambda>t. let tok = TrimSpace t in
           \<not> (strong \<and> (has_prefix tok ''W/'' \<or> etagWeak)) \<and> TrimPrefix tok ''W/'' = want)
         (SplitByte (CHR '','') headerValue))"

section \<open>Byte ranges\<close>

definition parseHTTPRange :: "string \<Rightarrow> int \<Rightarrow> (string, ByteRange) result" where
  "parseHTTPRange h size' =
    (if \<not> has_prefix h ''bytes='' then Inl ''invalid range header''
     else
       let spec = TrimPrefix h ''bytes='' in
       if CHR '','' \<in> set spec then Inl ''multi-range requests are not supported''
       else case CutByte spec (CHR ''-'') of
         None \<Rightarrow> Inl ''invalid range header''
       | Some (startStr, endStr) \<Rightarrow>
           if startStr = [] then
             if endStr = [] then Inl ''invalid range header''
             else (case ParseInt endStr of
                 Inl _ \<Rightarrow> Inl ''invalid suffix length''
               | Inr suffix0 \<Rightarrow>
                   if suffix0 < 0 then Inl ''invalid range header''
                   else
                     let suffix = (if suffix0 > size' then size' else suffix0) in
                     if suffix = 0 then Inl ''unsatisfiable suffix range''
                     else Inr \<lparr>br_Start = size' - suffix, br_End = size' - 1\<rparr>)
           else
             (case ParseInt startStr of
                Inl _ \<Rightarrow> Inl ''invalid range start''
              | Inr start \<Rightarrow>
                  (case (if endStr = [] then Inr (- 1) else
                           (case ParseInt endStr of
                              Inl e \<Rightarrow> Inl e
                            | Inr e \<Rightarrow> Inr (if e \<ge> size' then size' - 1 else e))) of
                     Inl _ \<Rightarrow> Inl ''invalid range end''
                   | Inr stop \<Rightarrow>
                       if start < 0 \<or> start \<ge> size' \<or> (stop \<ge> 0 \<and> start > stop) then Inl ''invalid range''
                       else Inr \<lparr>br_Start = start, br_End = stop\<rparr>)))"

text \<open>The last byte a range names, the value of \<open>Content-Range\<close> and the announced length.\<close>

definition range_last :: "ByteRange \<Rightarrow> int \<Rightarrow> int" where
  "range_last r total' = (if br_End r < 0 then total' - 1 else br_End r)"

definition formatContentRange :: "ByteRange \<Rightarrow> int \<Rightarrow> string" where
  "formatContentRange r total' =
    ''bytes '' @ FormatInt (br_Start r) @ ''-'' @ FormatInt (range_last r total') @ ''/'' @ FormatInt total'"

definition range_content_length :: "ByteRange \<Rightarrow> int \<Rightarrow> int" where
  "range_content_length r total' = range_last r total' - br_Start r + 1"

section \<open>Piece integrity\<close>

definition isSHA256Hex :: "string \<Rightarrow> bool" where
  "isSHA256Hex s \<longleftrightarrow> length s = 64 \<and> list_all is_hex_digit s"

definition stripQuotes :: "string \<Rightarrow> string" where
  "stripQuotes s =
    (if length s \<ge> 2 \<and> hd s = DQUOTE \<and> last s = DQUOTE then butlast (tl s) else s)"

datatype integrity_error = ErrIntegrityCheckFailed | ErrIntegrityClaimUnrecognized

text \<open>BLAKE3 is a library of its own: its 256-bit digest is the parameter \<open>blake3\<close>.\<close>

definition Verify :: "(bytes \<Rightarrow> bytes) \<Rightarrow> bytes \<Rightarrow> Piece \<Rightarrow> (integrity_error, unit) result" where
  "Verify blake3 body p =
    (if p_Hash p = [] then Inr ()
     else if has_prefix (p_Hash p) ''blake3:'' then
       (if EncodeToString (blake3 body) = drop (length ''blake3:'') (p_Hash p) then Inr ()
        else Inl ErrIntegrityCheckFailed)
     else
       let expected = stripQuotes (p_Hash p) in
       if \<not> isSHA256Hex expected then Inl ErrIntegrityClaimUnrecognized
       else if EncodeToString (sha256 body) = expected then Inr ()
       else Inl ErrIntegrityCheckFailed)"

end
