(* ===== verification/S3_Encryption.thy ===== *)
theory S3_Encryption
  imports S3_Request Client_SDK
begin

text \<open>
  The gateway's encryption pipeline (\<open>src/api/s3compat/encryption_pipeline.go\<close>):
  the identity bound into every chunk, sealing before a backend write and opening
  after a read, and the choice the encryption mode of a write makes.

  The wrapper that seals data keys under the master key is an interface value, the
  record \<open>GatewayEncryption\<close>; \<open>wrapper_laws\<close> states what the pipeline relies on
  and the SDK's local file wrapper is shown to provide it.  A draining of the
  encrypting reader always returns (\<open>enc_ReadAll_returns\<close>), so its result is taken
  out of the option here.  Scrubbing of buffers has no counterpart on values.
\<close>

abbreviation ManagedEncrypted :: string where "ManagedEncrypted \<equiv> ''managed''"
abbreviation PublicDistribution :: string where "PublicDistribution \<equiv> ''public_distribution''"
abbreviation StrictZK :: string where "StrictZK \<equiv> ''client_side''"
abbreviation AADVersionV1 :: string where "AADVersionV1 \<equiv> ''v1''"

section \<open>The bound identity\<close>

record aadIdentity =
  ai_TenantID :: string
  ai_Bucket :: string
  ai_ObjectKeyHash :: string
  ai_VersionID :: string

definition chunkAAD :: "aadIdentity \<Rightarrow> bytes" where
  "chunkAAD i = bytes_of_string
    (ai_TenantID i @ ''|'' @ ai_Bucket i @ ''|'' @ ai_ObjectKeyHash i @ ''|'' @ ai_VersionID i)"

definition aadIdentityOf :: "ObjectManifest \<Rightarrow> aadIdentity" where
  "aadIdentityOf m = \<lparr>ai_TenantID = m_TenantID m, ai_Bucket = m_Bucket m,
     ai_ObjectKeyHash = m_ObjectKeyHash m, ai_VersionID = m_VersionID m\<rparr>"

definition IsGatewayEncrypted :: "string \<Rightarrow> bool" where
  "IsGatewayEncrypted mode \<longleftrightarrow> mode = ManagedEncrypted \<or> mode = PublicDistribution"

definition gatewayEncryptOptions :: "EncryptionConfig \<Rightarrow> aadIdentity \<Rightarrow> Options" where
  "gatewayEncryptOptions enc i =
    (if en_AADVersion enc = AADVersionV1 then zero_Options\<lparr>op_ChunkAAD := chunkAAD i\<rparr> else zero_Options)"

definition v1EncryptionConfig :: EncryptionConfig where
  "v1EncryptionConfig = zero_EncryptionConfig\<lparr>en_AADVersion := AADVersionV1\<rparr>"

definition gatewayDecryptOptions :: "EncryptionConfig \<Rightarrow> aadIdentity \<Rightarrow> Options" where
  "gatewayDecryptOptions enc i =
    (if en_AADVersion enc = AADVersionV1 then zero_Options\<lparr>op_ChunkAAD := chunkAAD i\<rparr> else zero_Options)"

section \<open>Sealing and opening\<close>

record GatewayEncryption =
  ge_WrapDEK :: "bytes \<Rightarrow> CustomerMasterKeyRef \<Rightarrow> bytes list \<Rightarrow> (string, WrappedDEK \<times> bytes list) result"
  ge_UnwrapDEK :: "WrappedDEK \<Rightarrow> CustomerMasterKeyRef \<Rightarrow> (string, bytes) result"
  ge_CMK :: CustomerMasterKeyRef

definition drain :: "Crypto \<Rightarrow> encryptReader \<Rightarrow> (string, bytes) result" where
  "drain cr er = the (enc_ReadAll cr er)"

text \<open>What is left of the random source once a plaintext of n bytes is sealed: one nonce went to each chunk.\<close>

definition after_nonces :: "Options \<Rightarrow> nat \<Rightarrow> bytes list \<Rightarrow> bytes list" where
  "after_nonces opts n rand = drop (num_chunks (nat (chunkSize opts)) n) rand"

definition encryptForStorage :: "Crypto \<Rightarrow> GatewayEncryption option \<Rightarrow> bytes \<Rightarrow> aadIdentity \<Rightarrow> bytes list
    \<Rightarrow> (string, bytes \<times> WrappedDEK) result" where
  "encryptForStorage cr enc plaintext i rand =
    (case enc of
       None \<Rightarrow> Inl ''s3compat: gateway encryption is not configured''
     | Some ge \<Rightarrow>
         let opts = gatewayEncryptOptions v1EncryptionConfig i in
         bind_result (GenerateDEK rand) (\<lambda>(dek, rand1).
         bind_result (EncryptObject plaintext None dek opts rand1) (\<lambda>er.
         bind_result (drain cr er) (\<lambda>ciphertext.
         bind_result (ge_WrapDEK ge dek (ge_CMK ge) (after_nonces opts (length plaintext) rand1)) (\<lambda>(wrapped, rand2).
         Inr (ciphertext, wrapped))))))"

definition streamEncryptForStorage :: "GatewayEncryption option \<Rightarrow> bytes \<Rightarrow> string option \<Rightarrow> aadIdentity \<Rightarrow> bytes list
    \<Rightarrow> (string, encryptReader \<times> WrappedDEK) result" where
  "streamEncryptForStorage enc plaintext srcErr i rand =
    (case enc of
       None \<Rightarrow> Inl ''s3compat: gateway encryption is not configured''
     | Some ge \<Rightarrow>
         bind_result (GenerateDEK rand) (\<lambda>(dek, rand1).
         bind_result (EncryptObject plaintext srcErr dek (gatewayEncryptOptions v1EncryptionConfig i) rand1) (\<lambda>er.
         bind_result (ge_WrapDEK ge dek (ge_CMK ge) rand1) (\<lambda>(wrapped, rand2).
         Inr (er\<lparr>er_rand := rand2\<rparr>, wrapped)))))"

definition encryptWithDEK :: "Crypto \<Rightarrow> bytes \<Rightarrow> bytes \<Rightarrow> EncryptionConfig \<Rightarrow> aadIdentity \<Rightarrow> bytes list \<Rightarrow> (string, bytes) result" where
  "encryptWithDEK cr plaintext dek enc i rand =
    bind_result (EncryptObject plaintext None dek (gatewayEncryptOptions enc i) rand) (drain cr)"

definition decryptWithDEK :: "Crypto \<Rightarrow> bytes \<Rightarrow> bytes \<Rightarrow> EncryptionConfig \<Rightarrow> aadIdentity \<Rightarrow> (string, bytes) result" where
  "decryptWithDEK cr ciphertext dek enc i =
    bind_result (DecryptObject ciphertext None dek (gatewayDecryptOptions enc i)) (dec_ReadAll cr)"

definition wrapped_of :: "EncryptionConfig \<Rightarrow> WrappedDEK" where
  "wrapped_of enc = \<lparr>wd_KeyID = en_KeyID enc, wd_Algorithm = en_Algorithm enc,
     wd_WrappedKey = en_WrappedDEK enc, wd_WrapAlgorithm = en_WrapAlgorithm enc\<rparr>"

definition decryptFromStorage :: "Crypto \<Rightarrow> GatewayEncryption option \<Rightarrow> bytes \<Rightarrow> EncryptionConfig \<Rightarrow> aadIdentity
    \<Rightarrow> (string, bytes) result" where
  "decryptFromStorage cr enc ciphertext ec i =
    (case enc of
       None \<Rightarrow> Inl ''s3compat: gateway encryption is not configured''
     | Some ge \<Rightarrow>
         bind_result (ge_UnwrapDEK ge (wrapped_of ec) (ge_CMK ge)) (\<lambda>dek.
         decryptWithDEK cr ciphertext dek ec i))"

definition streamDecryptFromStorage :: "GatewayEncryption option \<Rightarrow> bytes \<Rightarrow> EncryptionConfig \<Rightarrow> aadIdentity
    \<Rightarrow> (string, decryptReader) result" where
  "streamDecryptFromStorage enc ciphertext ec i =
    (case enc of
       None \<Rightarrow> Inl ''s3compat: gateway encryption is not configured''
     | Some ge \<Rightarrow>
         bind_result (ge_UnwrapDEK ge (wrapped_of ec) (ge_CMK ge)) (\<lambda>dek.
         DecryptObject ciphertext None dek (gatewayDecryptOptions ec i)))"

section \<open>The mode of a write\<close>

definition managed_config :: "string \<Rightarrow> WrappedDEK \<Rightarrow> EncryptionConfig" where
  "managed_config encMode w = zero_EncryptionConfig\<lparr>en_Mode := encMode, en_Algorithm := ContentAlgorithm,
     en_KeyID := wd_KeyID w, en_WrappedDEK := wd_WrappedKey w, en_WrapAlgorithm := wd_WrapAlgorithm w,
     en_AADVersion := AADVersionV1\<rparr>"

definition client_config :: "string \<Rightarrow> string \<Rightarrow> EncryptionConfig" where
  "client_config encMode algo = zero_EncryptionConfig\<lparr>en_Mode := encMode, en_Algorithm := algo\<rparr>"

text \<open>
  What a single-piece write hands on: the configuration to record, the bytes the
  backend will read (or the failure of the stream), their announced length and the
  plaintext bytes consumed.
\<close>

record prepared =
  pd_Encryption :: EncryptionConfig
  pd_Body :: "(string, bytes) result"
  pd_ContentLength :: int
  pd_PlaintextSize :: int

definition src_error :: "Request \<Rightarrow> string option" where
  "src_error rq = (case rq_BodyErr rq of None \<Rightarrow> None | Some e \<Rightarrow> Some ''read'')"

definition raw_body :: "Request \<Rightarrow> (string, bytes) result" where
  "raw_body rq = (case src_error rq of None \<Rightarrow> Inr (rq_Body rq) | Some e \<Rightarrow> Inl e)"

definition prepareSinglePieceEncryption :: "Crypto \<Rightarrow> GatewayEncryption option \<Rightarrow> Request \<Rightarrow> string \<Rightarrow> aadIdentity
    \<Rightarrow> (Response, prepared) result" where
  "prepareSinglePieceEncryption cr enc rq encMode i =
    (if IsGatewayEncrypted encMode then
       if enc = None then Inl (writeError 500 ''EncryptionNotConfigured'')
       else if rq_ContentLength rq \<ge> 0 then
         (case EncryptedSize (rq_ContentLength rq) (gatewayEncryptOptions v1EncryptionConfig i) of
            Inl ErrEncryptedSizeOverflow \<Rightarrow> Inl (writeError 400 ''InvalidContentLength'')
          | Inl ErrEncryptedSizeNegativePlaintext \<Rightarrow> Inl (writeError 400 ''InvalidContentLength'')
          | Inl _ \<Rightarrow> Inl (writeError 500 ''EncryptionConfigInvalid'')
          | Inr ciphertextSize \<Rightarrow>
              (case streamEncryptForStorage enc (rq_Body rq) (src_error rq) i (rq_rand rq) of
                 Inl _ \<Rightarrow> Inl (writeError 500 ''EncryptionFailed'')
               | Inr (er, wrapped) \<Rightarrow>
                   Inr \<lparr>pd_Encryption = managed_config encMode wrapped, pd_Body = drain cr er,
                        pd_ContentLength = ciphertextSize, pd_PlaintextSize = int (length (rq_Body rq))\<rparr>))
       else
         (case ReadAll rq of
            Inl e \<Rightarrow> Inl (writeBodyReadError e)
          | Inr plaintext \<Rightarrow>
              (case encryptForStorage cr enc plaintext i (rq_rand rq) of
                 Inl _ \<Rightarrow> Inl (writeError 500 ''EncryptionFailed'')
               | Inr (ciphertext, wrapped) \<Rightarrow>
                   Inr \<lparr>pd_Encryption = managed_config encMode wrapped, pd_Body = Inr ciphertext,
                        pd_ContentLength = int (length ciphertext), pd_PlaintextSize = int (length plaintext)\<rparr>))
     else if encMode = StrictZK then
       let algo = HeaderGet (rq_Header rq) ''X-Amz-Meta-Zk-Encryption'' in
       if algo = [] then Inl (writeError 403 ''EncryptionRequired'')
       else Inr \<lparr>pd_Encryption = client_config encMode algo, pd_Body = raw_body rq,
                 pd_ContentLength = rq_ContentLength rq, pd_PlaintextSize = rq_ContentLength rq\<rparr>
     else Inr \<lparr>pd_Encryption = zero_EncryptionConfig, pd_Body = raw_body rq,
               pd_ContentLength = rq_ContentLength rq, pd_PlaintextSize = rq_ContentLength rq\<rparr>)"

definition prepareErasureCodedEncryption :: "Crypto \<Rightarrow> GatewayEncryption option \<Rightarrow> Request \<Rightarrow> string \<Rightarrow> bytes \<Rightarrow> aadIdentity
    \<Rightarrow> (Response, EncryptionConfig \<times> bytes) result" where
  "prepareErasureCodedEncryption cr enc rq encMode plaintext i =
    (if IsGatewayEncrypted encMode then
       if enc = None then Inl (writeError 500 ''EncryptionNotConfigured'')
       else
         (case encryptForStorage cr enc plaintext i (rq_rand rq) of
            Inl _ \<Rightarrow> Inl (writeError 500 ''EncryptionFailed'')
          | Inr (ciphertext, wrapped) \<Rightarrow> Inr (managed_config encMode wrapped, ciphertext))
     else if encMode = StrictZK then
       let algo = HeaderGet (rq_Header rq) ''X-Amz-Meta-Zk-Encryption'' in
       if algo = [] then Inl (writeError 403 ''EncryptionRequired'')
       else Inr (client_config encMode algo, plaintext)
     else Inr (zero_EncryptionConfig, plaintext))"

section \<open>What the pipeline relies on\<close>

definition nonce_sizes :: "bytes list \<Rightarrow> bool" where
  "nonce_sizes rand \<longleftrightarrow> list_all (\<lambda>n. length n = NonceSizeX) rand"

definition wrapper_laws :: "GatewayEncryption \<Rightarrow> bool" where
  "wrapper_laws ge \<longleftrightarrow>
    (\<forall>dek rand w rest. length dek = KeySize \<longrightarrow> nonce_sizes rand \<longrightarrow> ge_WrapDEK ge dek (ge_CMK ge) rand = Inr (w, rest) \<longrightarrow>
       (rest = rand \<or> rest = tl rand)
       \<and> (\<forall>w'. wd_KeyID w' = wd_KeyID w \<and> wd_WrappedKey w' = wd_WrappedKey w \<and> wd_WrapAlgorithm w' = wd_WrapAlgorithm w \<longrightarrow>
            ge_UnwrapDEK ge w' (ge_CMK ge) = Inr dek))"

definition local_wrapper :: "Crypto \<Rightarrow> bytes option \<Rightarrow> CustomerMasterKeyRef \<Rightarrow> GatewayEncryption" where
  "local_wrapper cr file cmk = \<lparr>ge_WrapDEK = WrapDEK cr file, ge_UnwrapDEK = UnwrapDEK cr file, ge_CMK = cmk\<rparr>"

lemma UnwrapDEK_cong:
  "wd_WrappedKey w' = wd_WrappedKey w \<Longrightarrow> wd_WrapAlgorithm w' = wd_WrapAlgorithm w \<Longrightarrow>
    UnwrapDEK cr file w' cmk = UnwrapDEK cr file w cmk"
  by (simp only: UnwrapDEK_def)

lemma local_wrapper_laws:
  assumes "crypto_laws cr"
  shows "wrapper_laws (local_wrapper cr file cmk)"
proof -
  have "rest = tl rand \<and> (wd_WrappedKey w' = wd_WrappedKey w \<and> wd_WrapAlgorithm w' = wd_WrapAlgorithm w \<longrightarrow>
      UnwrapDEK cr file w' cmk = Inr dek)"
    if "nonce_sizes rand" "WrapDEK cr file dek cmk rand = Inr (w, rest)" for dek rand w rest w'
  proof -
    have "rand \<noteq> []" "rest = tl rand"
      using that(2) by (cases rand; auto simp: WrapDEK_def split: if_splits)+
    then have "rest = tl rand \<and> UnwrapDEK cr file w cmk = Inr dek"
      using unwrap_wrap [OF assms that(2)] that(1) by (cases rand) (simp_all add: nonce_sizes_def)
    then show ?thesis
      using UnwrapDEK_cong [of w' w] by simp
  qed
  then show ?thesis
    by (simp add: wrapper_laws_def local_wrapper_def)
qed

text \<open>Enough randomness to seal n bytes: a key, and a nonce for each chunk and for the wrapping.\<close>

definition random_for :: "nat \<Rightarrow> bytes list \<Rightarrow> bool" where
  "random_for n rand \<longleftrightarrow>
    (case rand of [] \<Rightarrow> False | k # rest \<Rightarrow> nonce_sizes rest \<and> num_chunks (nat DefaultChunkSize) n < length rest)"

section \<open>Round trips\<close>

lemma gateway_options [simp]:
  "gatewayDecryptOptions enc i = gatewayEncryptOptions enc i"
  "chunkSize (gatewayEncryptOptions enc i) = DefaultChunkSize"
  "op_ConvergentNonce (gatewayEncryptOptions enc i) = False"
  by (simp_all add: gatewayDecryptOptions_def gatewayEncryptOptions_def chunkSize_def zero_Options_def)

lemma encrypt_options_cong: "en_AADVersion e = en_AADVersion e' \<Longrightarrow> gatewayEncryptOptions e i = gatewayEncryptOptions e' i"
  by (simp add: gatewayEncryptOptions_def)

text \<open>What a drained reader holds is opened by the same key under the same identity.\<close>

lemma drain_opens:
  assumes "crypto_laws cr" "EncryptObject p None dek (gatewayEncryptOptions ec i) rand = Inr er" "drain cr er = Inr c"
    "nonce_sizes rand" "num_chunks (nat DefaultChunkSize) (length p) \<le> length rand"
  shows "decryptWithDEK cr c dek ec i = Inr p"
proof -
  have "nonces_suffice (gatewayEncryptOptions ec i) (length p) rand"
    using assms(4,5) by (simp add: nonces_suffice_def nonce_sizes_def)
  moreover have "chunkSize (gatewayEncryptOptions ec i) + int Overhead < 2 ^ 32"
    by (simp add: DefaultChunkSize_def)
  ultimately obtain c' dr where "enc_ReadAll cr er = Some (Inr c')" "DecryptObject c' None dek (gatewayEncryptOptions ec i) = Inr dr"
      "dec_ReadAll cr dr = Inr p"
    using seal_open [OF assms(1,2)] by blast
  then show ?thesis
    using assms(3) by (simp add: drain_def decryptWithDEK_def)
qed

lemma managed_config_simps [simp]:
  "en_AADVersion (managed_config mode w) = en_AADVersion v1EncryptionConfig"
  "en_Mode (managed_config mode w) = mode"
  by (simp_all add: managed_config_def v1EncryptionConfig_def)

lemma unwrap_managed:
  assumes "wrapper_laws ge" "length dek = KeySize" "nonce_sizes rand" "ge_WrapDEK ge dek (ge_CMK ge) rand = Inr (w, rest)"
  shows "ge_UnwrapDEK ge (wrapped_of (managed_config mode w)) (ge_CMK ge) = Inr dek"
  using assms by (auto simp: wrapper_laws_def wrapped_of_def managed_config_def)

lemma decryptFromStorage_managed:
  assumes "wrapper_laws ge" "length dek = KeySize" "nonce_sizes rand" "ge_WrapDEK ge dek (ge_CMK ge) rand = Inr (w, rest)"
    and "decryptWithDEK cr c dek v1EncryptionConfig i = Inr p"
  shows "decryptFromStorage cr (Some ge) c (managed_config mode w) i = Inr p"
proof -
  have "gatewayEncryptOptions (managed_config mode w) i = gatewayEncryptOptions v1EncryptionConfig i"
    by (rule encrypt_options_cong) simp
  then show ?thesis
    using unwrap_managed [OF assms(1-4)] assms(5) by (simp add: decryptFromStorage_def decryptWithDEK_def)
qed

lemma EncryptObject_key: "EncryptObject p e dek opts rand = Inr er \<Longrightarrow> length dek = KeySize"
  by (auto simp: EncryptObject_def split: if_splits)

lemma EncryptObject_rand:
  "EncryptObject p e dek opts rand = Inr er \<Longrightarrow> EncryptObject p e dek opts rand' = Inr (er\<lparr>er_rand := rand'\<rparr>)"
  by (auto simp: EncryptObject_def split: if_splits)

lemma nonce_sizes_parts: "nonce_sizes rand \<Longrightarrow> nonce_sizes (drop n rand)" "nonce_sizes rand \<Longrightarrow> nonce_sizes (tl rand)"
  by (auto simp: nonce_sizes_def list_all_iff dest: in_set_dropD) (cases rand; simp)

lemma encryptForStorage_opens:
  assumes laws: "crypto_laws cr" "wrapper_laws ge" and rand: "random_for (length p) rand"
    and enc: "encryptForStorage cr (Some ge) p i rand = Inr (c, w)"
  shows "decryptFromStorage cr (Some ge) c (managed_config mode w) i = Inr p"
proof -
  obtain dek rest where r: "rand = dek # rest" "nonce_sizes rest" "num_chunks (nat DefaultChunkSize) (length p) < length rest"
    using rand by (auto simp: random_for_def split: list.splits)
  obtain er rand' where e: "EncryptObject p None dek (gatewayEncryptOptions v1EncryptionConfig i) rest = Inr er"
      "drain cr er = Inr c"
      "ge_WrapDEK ge dek (ge_CMK ge) (after_nonces (gatewayEncryptOptions v1EncryptionConfig i) (length p) rest) = Inr (w, rand')"
    using enc r(1) by (auto simp: encryptForStorage_def GenerateDEK_def Let_def)
  have "decryptWithDEK cr c dek v1EncryptionConfig i = Inr p"
    using drain_opens [OF laws(1) e(1,2) r(2)] r(3) by simp
  moreover have "nonce_sizes (after_nonces (gatewayEncryptOptions v1EncryptionConfig i) (length p) rest)"
    by (simp add: after_nonces_def nonce_sizes_parts r(2))
  ultimately show ?thesis
    using decryptFromStorage_managed [OF laws(2) EncryptObject_key [OF e(1)] _ e(3)] by blast
qed

lemma streamEncryptForStorage_opens:
  assumes laws: "crypto_laws cr" "wrapper_laws ge" and rand: "random_for (length p) rand"
    and enc: "streamEncryptForStorage (Some ge) p None i rand = Inr (er, w)" and c: "drain cr er = Inr c"
  shows "decryptFromStorage cr (Some ge) c (managed_config mode w) i = Inr p"
proof -
  obtain dek rest where r: "rand = dek # rest" "nonce_sizes rest" "num_chunks (nat DefaultChunkSize) (length p) < length rest"
    using rand by (auto simp: random_for_def split: list.splits)
  obtain er0 rand' where e: "EncryptObject p None dek (gatewayEncryptOptions v1EncryptionConfig i) rest = Inr er0"
      "ge_WrapDEK ge dek (ge_CMK ge) rest = Inr (w, rand')" "er = er0\<lparr>er_rand := rand'\<rparr>"
    using enc r(1) by (auto simp: streamEncryptForStorage_def GenerateDEK_def)
  have "rand' = rest \<or> rand' = tl rest"
    using laws(2) EncryptObject_key [OF e(1)] r(2) e(2) unfolding wrapper_laws_def by blast
  then have "nonce_sizes rand'" "num_chunks (nat DefaultChunkSize) (length p) \<le> length rand'"
    using r(2,3) nonce_sizes_parts(2) by auto
  moreover have "EncryptObject p None dek (gatewayEncryptOptions v1EncryptionConfig i) rand' = Inr er"
    using EncryptObject_rand [OF e(1)] e(3) by simp
  ultimately have "decryptWithDEK cr c dek v1EncryptionConfig i = Inr p"
    using drain_opens [OF laws(1) _ c] by blast
  then show ?thesis
    using decryptFromStorage_managed [OF laws(2) EncryptObject_key [OF e(1)] r(2) e(2)] by blast
qed

text \<open>A plaintext source that fails never yields a complete ciphertext.\<close>

lemma enc_ReadAll_source_error:
  assumes "er_srcErr r = Some e" "0 < er_chunkSize r" "\<not> er_eof r"
  shows "enc_ReadAll cr r \<noteq> Some (Inr c)"
  using assms
proof (induction "length (er_src r)" arbitrary: r c rule: less_induct)
  case less
  show ?case
  proof (cases "enc_nextFrame cr r")
    case (Inl err)
    then show ?thesis
      using less.prems by (simp add: enc_ReadAll.simps)
  next
    case (Inr fr)
    obtain f r' where fr: "fr = (f, r')"
      by (cases fr)
    have r': "er_srcErr r' = Some e" "\<not> er_eof r'" "er_chunkSize r' = er_chunkSize r" "length (er_src r') < length (er_src r)"
      using Inr fr less.prems
      by (auto simp: enc_nextFrame_def ReadFull_def Let_def split: if_splits option.splits read_status.splits)
    have "enc_ReadAll cr r' \<noteq> Some (Inr c')" for c'
      using less.hyps [OF r'(4) r'(1) _ r'(2)] r'(3) less.prems(2) by simp
    then show ?thesis
      using Inr fr less.prems(3) by (auto simp: enc_ReadAll.simps [of cr r] bind_eq_Some_conv)
  qed
qed

lemma drain_no_source_error:
  assumes "EncryptObject p srcErr dek opts rand = Inr er" "drain cr (er\<lparr>er_rand := rand'\<rparr>) = Inr c"
  shows "srcErr = None"
proof (rule ccontr)
  assume "srcErr \<noteq> None"
  then obtain e where e: "srcErr = Some e"
    by blast
  let ?r = "er\<lparr>er_rand := rand'\<rparr>"
  have r: "er_srcErr ?r = Some e" "0 < er_chunkSize ?r" "\<not> er_eof ?r"
    using assms(1) e chunkSize_pos [of opts] by (auto simp: EncryptObject_def split: if_splits)
  obtain res where "enc_ReadAll cr ?r = Some res"
    using enc_ReadAll_returns [OF r(2)] by blast
  then show False
    using assms(2) enc_ReadAll_source_error [OF r, of cr c] by (simp add: drain_def)
qed

lemma stream_no_source_error:
  assumes "streamEncryptForStorage (Some ge) p srcErr i rand = Inr (er, w)" "drain cr er = Inr c"
  shows "srcErr = None"
  using assms drain_no_source_error by (fastforce simp: streamEncryptForStorage_def)

section \<open>Properties\<close>

lemma prepared_opens:
  assumes "crypto_laws cr" "\<And>ge. enc = Some ge \<Longrightarrow> wrapper_laws ge"
    and "random_for (length (rq_Body rq)) (rq_rand rq)"
    and "prepareSinglePieceEncryption cr enc rq mode i = Inr pd" "pd_Body pd = Inr stored"
  shows "(if IsGatewayEncrypted mode then decryptFromStorage cr enc stored (pd_Encryption pd) i else Inr stored)
    = Inr (rq_Body rq)"
proof (cases "IsGatewayEncrypted mode")
  case gw: True
  obtain ge where ge: "enc = Some ge"
    using assms(4) gw by (auto simp: prepareSinglePieceEncryption_def split: if_splits)
  note laws = assms(1) assms(2) [OF ge]
  show ?thesis
  proof (cases "rq_ContentLength rq \<ge> 0")
    case True
    then obtain er w where e: "streamEncryptForStorage enc (rq_Body rq) (src_error rq) i (rq_rand rq) = Inr (er, w)"
        "drain cr er = Inr stored" "pd_Encryption pd = managed_config mode w"
      using assms(4,5) gw ge by (auto simp: prepareSinglePieceEncryption_def split: sum.splits size_error.splits)
    have "src_error rq = None"
      using stream_no_source_error [of ge] e(1,2) ge by blast
    then show ?thesis
      using streamEncryptForStorage_opens [OF laws assms(3)] e gw ge by simp
  next
    case False
    then obtain w where e: "encryptForStorage cr enc (rq_Body rq) i (rq_rand rq) = Inr (stored, w)"
        "pd_Encryption pd = managed_config mode w"
      using assms(4,5) gw ge by (auto simp: prepareSinglePieceEncryption_def ReadAll_def split: sum.splits option.splits)
    then show ?thesis
      using encryptForStorage_opens [OF laws assms(3)] gw ge by simp
  qed
next
  case False
  then show ?thesis
    using assms(4,5)
    by (auto simp: prepareSinglePieceEncryption_def raw_body_def Let_def split: if_splits option.splits)
qed

text \<open>
  C16: what a single-piece write stores is what the client sent.  For every encryption
  mode, body, length header and random source, when the preparation of a write succeeds
  and its stream is drained, the stored bytes are opened under the recorded
  configuration and identity to exactly the body, or are the body itself where the
  gateway does not encrypt.
\<close>

theorem prepareSinglePiece_round_trip:
  assumes "crypto_laws cr" "\<And>ge. enc = Some ge \<Longrightarrow> wrapper_laws ge"
    and "random_for (length (rq_Body rq)) (rq_rand rq)"
    and "prepareSinglePieceEncryption cr enc rq mode i = Inr pd" "pd_Body pd = Inr stored"
  shows "(if IsGatewayEncrypted mode then decryptFromStorage cr enc stored (pd_Encryption pd) i else Inr stored)
    = Inr (rq_Body rq)"
  using assms by (rule prepared_opens)

definition demo_ge :: GatewayEncryption where
  "demo_ge = local_wrapper demo_crypto (Some demo_key) \<lparr>ck_URI = ''cmk://a'', ck_Version = 1, ck_HolderClass = ''customer''\<rparr>"

definition demo_request :: "string \<Rightarrow> bytes \<Rightarrow> Request" where
  "demo_request path body = \<lparr>rq_Path = path, rq_RawQuery = [], rq_Header = [], rq_ContentLength = - 1, rq_Body = body,
     rq_BodyErr = None, rq_now = (\<lambda>i. 0), rq_rand = demo_key # demo_rand\<rparr>"

definition demo_identity :: aadIdentity where
  "demo_identity = \<lparr>ai_TenantID = ''t'', ai_Bucket = ''b'', ai_ObjectKeyHash = ''h'', ai_VersionID = ''v''\<rparr>"

lemma demo_wrapper: "wrapper_laws demo_ge"
  unfolding demo_ge_def by (rule local_wrapper_laws [OF demo_crypto_laws])

lemma demo_random: "random_for 3 (demo_key # demo_rand)"
  by (simp add: random_for_def nonce_sizes_def demo_rand_def num_chunks_def DefaultChunkSize_def list_all_iff)

lemma demo_seal:
  "\<exists>c w. encryptForStorage demo_crypto (Some demo_ge) [1, 2, 3] demo_identity (demo_key # demo_rand) = Inr (c, w)"
proof -
  let ?o = "gatewayEncryptOptions v1EncryptionConfig demo_identity"
  have n: "num_chunks (nat DefaultChunkSize) (length [1, 2, 3 :: byte]) = 1"
    by (simp add: num_chunks_def DefaultChunkSize_def)
  have rest: "after_nonces ?o (length [1, 2, 3 :: byte]) demo_rand = replicate 24 5 # [replicate 24 5]"
    unfolding after_nonces_def gateway_options n by (simp add: demo_rand_def numeral_3_eq_3)
  have "\<exists>w r. ge_WrapDEK demo_ge demo_key (ge_CMK demo_ge) (replicate 24 5 # [replicate 24 5]) = Inr (w, r)"
    by (simp add: demo_ge_def local_wrapper_def WrapDEK_def loadMasterKey_def demo_key_def)
  then obtain w r where w: "ge_WrapDEK demo_ge demo_key (ge_CMK demo_ge)
      (after_nonces ?o (length [1, 2, 3 :: byte]) demo_rand) = Inr (w, r)"
    unfolding rest by blast
  obtain er where er: "EncryptObject [1, 2, 3] None demo_key ?o demo_rand = Inr er"
    by (simp add: EncryptObject_def demo_key_def)
  have "nonces_suffice ?o (length [1, 2, 3 :: byte]) demo_rand"
    using n by (simp add: nonces_suffice_def demo_rand_def list_all_iff numeral_eq_Suc)
  moreover have "chunkSize ?o + int Overhead < 2 ^ 32"
    by (simp add: DefaultChunkSize_def)
  ultimately obtain c where "enc_ReadAll demo_crypto er = Some (Inr c)"
    using seal_open [OF demo_crypto_laws er] by blast
  then have "drain demo_crypto er = Inr c"
    by (simp add: drain_def)
  then show ?thesis
    using er w by (simp add: encryptForStorage_def GenerateDEK_def Let_def)
qed

theorem prepareSinglePiece_round_trip_witness:
  "\<exists>pd stored. prepareSinglePieceEncryption demo_crypto (Some demo_ge) (demo_request ''/b/k'' [1, 2, 3]) ManagedEncrypted demo_identity = Inr pd
    \<and> pd_Body pd = Inr stored
    \<and> decryptFromStorage demo_crypto (Some demo_ge) stored (pd_Encryption pd) demo_identity = Inr [1, 2, 3]"
proof -
  let ?rq = "demo_request ''/b/k'' [1, 2, 3]"
  obtain c w where "encryptForStorage demo_crypto (Some demo_ge) [1, 2, 3] demo_identity (demo_key # demo_rand) = Inr (c, w)"
    using demo_seal by blast
  then obtain pd where pd: "prepareSinglePieceEncryption demo_crypto (Some demo_ge) ?rq ManagedEncrypted demo_identity = Inr pd"
      "pd_Body pd = Inr c"
    by (auto simp: prepareSinglePieceEncryption_def IsGatewayEncrypted_def demo_request_def ReadAll_def)
  have "random_for (length (rq_Body ?rq)) (rq_rand ?rq)"
    using demo_random by (simp add: demo_request_def numeral_3_eq_3)
  from prepareSinglePiece_round_trip [OF demo_crypto_laws _ this pd] pd show ?thesis
    using demo_wrapper by (auto simp: IsGatewayEncrypted_def demo_request_def)
qed



end
