(* ===== verification/S3_Gateway.thy ===== *)
theory S3_Gateway
  imports S3_Encryption Content_Index Bucket_Config Erasure_Coding
begin

text \<open>
  The write handlers of the S3 gateway (\<open>src/api/s3compat/handler.go\<close>,
  \<open>dedup.go\<close>, \<open>erasure_coding.go\<close>, \<open>object_lock_handler.go\<close>): PUT on its three
  paths (single piece, deduplicated, erasure coded), DELETE, and the retention and
  legal-hold updates.

  \<open>Config\<close> is the handler's configuration, with an option for every field that may
  be nil; \<open>Gateway\<close> is what the handlers change: the stores, the backends and the
  log of usage, audit and notification events.  A handler maps a request and a state
  to a response and a state.  A store operation that fails leaves its store as it
  was.  A body stream that fails makes \<open>PutPiece\<close> fail and store nothing.

  XML bodies arrive parsed: \<open>PutObjectRetention\<close> and \<open>PutObjectLegalHold\<close> take the
  decoded document, None where decoding fails.
\<close>

section \<open>Configuration and state\<close>

datatype auth_error = ErrAuthMisconfigured | ErrAuthRejected

record ('m, 'i, 'p, 'b) Config =
  cfg_Manifests :: "'m ManifestStore option"
  cfg_Providers :: "'p backends"
  cfg_Placement :: "(string \<Rightarrow> string \<Rightarrow> string \<Rightarrow> (string, string \<times> PlacementPolicy) result) option"
  cfg_Auth :: "(Request \<Rightarrow> (auth_error, string) result) option"
  cfg_VerifiedCheck :: "(string \<Rightarrow> bool \<times> bool) option"
  cfg_Billing :: bool
  cfg_Notifications :: bool
  cfg_BucketConfig :: "'b BucketConfig option"
  cfg_ErasureCoding :: "Registry option"
  cfg_Encryption :: "GatewayEncryption option"
  cfg_RequireAuth :: bool
  cfg_ContentIndex :: "'i ContentIndex option"
  cfg_Residency :: "(string \<Rightarrow> string \<Rightarrow> string list \<Rightarrow> (string, unit) result) option"
  cfg_Audit :: bool
  cfg_LegalHolds :: "(string \<Rightarrow> string \<Rightarrow> string \<Rightarrow> (string, nat) result) option"
  cfg_Crypto :: Crypto
  cfg_blake3 :: "bytes \<Rightarrow> bytes"

datatype event =
    UsageEvent string string string int
  | AuditEntry string string string string string string string
  | ObjectEvent string string string string string string int

record ('m, 'i, 'p, 'b) Gateway =
  gw_Manifests :: 'm
  gw_Index :: 'i
  gw_World :: "'p world"
  gw_Buckets :: 'b
  gw_Events :: "event list"

abbreviation AnonymousTenant :: string where "AnonymousTenant \<equiv> ''anonymous''"

definition authenticate :: "('m, 'i, 'p, 'b) Config \<Rightarrow> Request \<Rightarrow> (auth_error, string) result" where
  "authenticate cfg rq =
    (case cfg_Auth cfg of
       None \<Rightarrow> if cfg_RequireAuth cfg then Inl ErrAuthMisconfigured else Inr AnonymousTenant
     | Some auth \<Rightarrow> auth rq)"

definition writeAuthError :: "auth_error \<Rightarrow> Response" where
  "writeAuthError e =
    (case e of ErrAuthMisconfigured \<Rightarrow> writeError 500 ''InternalAuthMisconfigured''
     | ErrAuthRejected \<Rightarrow> writeError 403 ''AccessDenied'')"

definition log_event :: "bool \<Rightarrow> event \<Rightarrow> ('m, 'i, 'p, 'b) Gateway \<Rightarrow> ('m, 'i, 'p, 'b) Gateway" where
  "log_event wired e g = (if wired then g\<lparr>gw_Events := gw_Events g @ [e]\<rparr> else g)"

definition emit :: "('m, 'i, 'p, 'b) Config \<Rightarrow> string \<Rightarrow> string \<Rightarrow> string \<Rightarrow> int \<Rightarrow> ('m, 'i, 'p, 'b) Gateway \<Rightarrow> ('m, 'i, 'p, 'b) Gateway" where
  "emit cfg tenantID bucket dim delta = log_event (cfg_Billing cfg) (UsageEvent tenantID bucket dim delta)"

definition audit :: "('m, 'i, 'p, 'b) Config \<Rightarrow> string \<Rightarrow> string \<Rightarrow> string \<Rightarrow> string \<Rightarrow> string \<Rightarrow> string \<Rightarrow> string
    \<Rightarrow> ('m, 'i, 'p, 'b) Gateway \<Rightarrow> ('m, 'i, 'p, 'b) Gateway" where
  "audit cfg op tenantID bucket key pieceID backend country =
    log_event (cfg_Audit cfg) (AuditEntry op tenantID bucket key pieceID backend country)"

definition notify :: "('m, 'i, 'p, 'b) Config \<Rightarrow> string \<Rightarrow> string \<Rightarrow> string \<Rightarrow> string \<Rightarrow> string \<Rightarrow> string \<Rightarrow> int
    \<Rightarrow> ('m, 'i, 'p, 'b) Gateway \<Rightarrow> ('m, 'i, 'p, 'b) Gateway" where
  "notify cfg eventName tenantID bucket key etag version bytes' =
    log_event (cfg_Notifications cfg) (ObjectEvent eventName tenantID bucket key etag version bytes')"

definition emit_if :: "bool \<Rightarrow> ('m, 'i, 'p, 'b) Config \<Rightarrow> string \<Rightarrow> string \<Rightarrow> string \<Rightarrow> int \<Rightarrow> ('m, 'i, 'p, 'b) Gateway \<Rightarrow> ('m, 'i, 'p, 'b) Gateway" where
  "emit_if c cfg tenantID bucket dim delta g = (if c then emit cfg tenantID bucket dim delta g else g)"

section \<open>Backends\<close>

definition gw_put :: "'p StorageProvider \<Rightarrow> string \<Rightarrow> string \<Rightarrow> (string, bytes) result \<Rightarrow> PutOptions
    \<Rightarrow> ('m, 'i, 'p, 'b) Gateway \<Rightarrow> (string, PutResult) result \<times> ('m, 'i, 'p, 'b) Gateway" where
  "gw_put provider backend pieceID body opts g =
    (case body of
       Inl err \<Rightarrow> (Inl err, g)
     | Inr d \<Rightarrow>
         (case sp_PutPiece provider pieceID d opts (gw_World g backend) of (r, p) \<Rightarrow>
            (r, g\<lparr>gw_World := (gw_World g)(backend := p)\<rparr>)))"

text \<open>A deletion whose result is ignored; an unregistered backend is skipped.\<close>

definition gw_delete :: "('m, 'i, 'p, 'b) Config \<Rightarrow> string \<Rightarrow> string \<Rightarrow> ('m, 'i, 'p, 'b) Gateway \<Rightarrow> ('m, 'i, 'p, 'b) Gateway" where
  "gw_delete cfg backend pieceID g = g\<lparr>gw_World := snd (world_delete (cfg_Providers cfg) backend pieceID (gw_World g))\<rparr>"

definition deletePiecesBestEffort :: "('m, 'i, 'p, 'b) Config \<Rightarrow> ObjectManifest \<Rightarrow> ('m, 'i, 'p, 'b) Gateway \<Rightarrow> ('m, 'i, 'p, 'b) Gateway" where
  "deletePiecesBestEffort cfg m = fold (\<lambda>p. gw_delete cfg (p_Backend p) (p_PieceID p)) (m_Pieces m)"

definition rollbackEC :: "('m, 'i, 'p, 'b) Config \<Rightarrow> string \<Rightarrow> string list \<Rightarrow> ('m, 'i, 'p, 'b) Gateway \<Rightarrow> ('m, 'i, 'p, 'b) Gateway" where
  "rollbackEC cfg backendName pieceIDs = fold (gw_delete cfg backendName) pieceIDs"

definition country_of :: "('m, 'i, 'p, 'b) Config \<Rightarrow> string \<Rightarrow> string" where
  "country_of cfg backend = (case cfg_Providers cfg backend of None \<Rightarrow> [] | Some pv \<Rightarrow> pl_Country (sp_PlacementLabels pv))"

section \<open>Bucket settings\<close>

definition bucketVersioning :: "('m, 'i, 'p, 'b) Config \<Rightarrow> string \<Rightarrow> string \<Rightarrow> ('m, 'i, 'p, 'b) Gateway \<Rightarrow> (string, string) result" where
  "bucketVersioning cfg tenantID bucket g =
    (case cfg_BucketConfig cfg of None \<Rightarrow> Inr VersioningUnset | Some bc \<Rightarrow> bc_GetVersioning bc tenantID bucket (gw_Buckets g))"

definition bucketObjectLock :: "('m, 'i, 'p, 'b) Config \<Rightarrow> string \<Rightarrow> string \<Rightarrow> ('m, 'i, 'p, 'b) Gateway \<Rightarrow> (string, LockConfig) result" where
  "bucketObjectLock cfg tenantID bucket g =
    (case cfg_BucketConfig cfg of None \<Rightarrow> Inr zero_LockConfig | Some bc \<Rightarrow> bc_GetObjectLock bc tenantID bucket (gw_Buckets g))"

definition effectiveEncryptionMode :: "('m, 'i, 'p, 'b) Config \<Rightarrow> string \<Rightarrow> string \<Rightarrow> PlacementPolicy \<Rightarrow> ('m, 'i, 'p, 'b) Gateway
    \<Rightarrow> (string, string) result" where
  "effectiveEncryptionMode cfg tenantID bucket policy g =
    (if pp_EncryptionMode policy \<noteq> [] then Inr (pp_EncryptionMode policy)
     else case cfg_BucketConfig cfg of
       None \<Rightarrow> Inr (pp_EncryptionMode policy)
     | Some bc \<Rightarrow> bind_result (bc_GetEncryption bc tenantID bucket (gw_Buckets g)) (\<lambda>sse.
         if SSEConfig_Empty sse then Inr (pp_EncryptionMode policy)
         else if cfg_Encryption cfg = None then Inl ''EncryptionNotConfigured''
         else Inr ManagedEncrypted))"

definition object_key :: "string \<Rightarrow> string \<Rightarrow> string \<Rightarrow> string \<Rightarrow> ManifestKey" where
  "object_key tenantID bucket key version = \<lparr>k_TenantID = tenantID, k_Bucket = bucket,
     k_ObjectKeyHash = hashObjectKey key, k_VersionID = version\<rparr>"

text \<open>The response that refuses an overwrite, None to proceed.\<close>

definition allowObjectLockOverwrite :: "('m, 'i, 'p, 'b) Config \<Rightarrow> 'm ManifestStore \<Rightarrow> Request \<Rightarrow> string \<Rightarrow> string \<Rightarrow> string
    \<Rightarrow> ('m, 'i, 'p, 'b) Gateway \<Rightarrow> Response option" where
  "allowObjectLockOverwrite cfg ms rq tenantID bucket key g =
    (case cfg_BucketConfig cfg of
       None \<Rightarrow> None
     | Some bc \<Rightarrow>
         (case bc_GetObjectLock bc tenantID bucket (gw_Buckets g) of
            Inl _ \<Rightarrow> Some (writeError 500 ''ObjectLockGetFailed'')
          | Inr lock \<Rightarrow>
              if \<not> ol_Enabled lock then None
              else (case bucketVersioning cfg tenantID bucket g of
                 Inl _ \<Rightarrow> Some (writeError 500 ''VersioningLookupFailed'')
               | Inr versioning \<Rightarrow>
                   if versioning = VersioningEnabled then None
                   else (case op_Get ms (object_key tenantID bucket key []) (gw_Manifests g) of
                      Inl ErrNotFound \<Rightarrow> None
                    | Inl _ \<Rightarrow> Some (writeError 500 ''ObjectLockGetFailed'')
                    | Inr current \<Rightarrow>
                        if objectLockBlocksDelete current (rq_now rq 0) (governanceBypassRequested rq)
                        then Some (writeError 403 ''AccessDenied'') else None))))"

definition applyDefaultObjectLockRetention :: "('m, 'i, 'p, 'b) Config \<Rightarrow> Request \<Rightarrow> string \<Rightarrow> string \<Rightarrow> ObjectManifest
    \<Rightarrow> ('m, 'i, 'p, 'b) Gateway \<Rightarrow> (string, ObjectManifest) result" where
  "applyDefaultObjectLockRetention cfg rq tenantID bucket m g =
    (case cfg_BucketConfig cfg of
       None \<Rightarrow> Inr m
     | Some bc \<Rightarrow>
         if m_DeleteMarker m then Inr m
         else if m_RetentionMode m \<noteq> [] then Inr m
         else bind_result (bc_GetObjectLock bc tenantID bucket (gw_Buckets g)) (\<lambda>c.
           Inr (applyDefaultRetention (Some c) (rq_now rq 3) m)))"

section \<open>Recording a new version\<close>

definition new_piece :: "string \<Rightarrow> string \<Rightarrow> string \<Rightarrow> string \<Rightarrow> string \<Rightarrow> int \<Rightarrow> Piece" where
  "new_piece pieceID backend locator hash etag bytes' = zero_Piece\<lparr>p_PieceID := pieceID, p_Backend := backend,
     p_Locator := locator, p_Hash := hash, p_ProviderETag := etag, p_SizeBytes := bytes', p_State := ''active''\<rparr>"

definition new_manifest :: "Request \<Rightarrow> string \<Rightarrow> string \<Rightarrow> string \<Rightarrow> string \<Rightarrow> int \<Rightarrow> int \<Rightarrow> string \<Rightarrow> EncryptionConfig
    \<Rightarrow> PlacementPolicy \<Rightarrow> Piece list \<Rightarrow> string \<Rightarrow> ObjectManifest" where
  "new_manifest rq tenantID bucket key version objectSize chunkSize' contentHash enc policy pieces primary =
    applyRequestObjectMetadata
      (zero_ObjectManifest\<lparr>m_TenantID := tenantID, m_Bucket := bucket, m_ObjectKey := key,
         m_ObjectKeyHash := hashObjectKey key, m_VersionID := version, m_ObjectSize := objectSize,
         m_ChunkSize := chunkSize', m_ContentHash := contentHash, m_Encryption := enc, m_PlacementPolicy := policy,
         m_Pieces := pieces, m_Tags := requestObjectTags (HeaderGet (rq_Header rq) ''x-amz-tagging''),
         m_MigrationState := \<lparr>mg_Generation = 1, mg_PrimaryBackend = primary, mg_CloudCopy = []\<rparr>,
         m_CreatedAt := rq_now rq 2\<rparr>)
      (rq_Header rq)"

text \<open>The default retention is stamped and the manifest stored; each write path undoes its own work on failure.\<close>

definition commit_manifest :: "('m, 'i, 'p, 'b) Config \<Rightarrow> 'm ManifestStore \<Rightarrow> Request \<Rightarrow> string \<Rightarrow> string \<Rightarrow> string \<Rightarrow> ObjectManifest
    \<Rightarrow> ('m, 'i, 'p, 'b) Gateway \<Rightarrow> (Response, ObjectManifest \<times> ('m, 'i, 'p, 'b) Gateway) result" where
  "commit_manifest cfg ms rq tenantID bucket key m0 g =
    (case applyDefaultObjectLockRetention cfg rq tenantID bucket m0 g of
       Inl _ \<Rightarrow> Inl (writeError 500 ''ObjectLockGetFailed'')
     | Inr m \<Rightarrow>
         (case op_Put ms (object_key tenantID bucket key (m_VersionID m)) m (gw_Manifests g) of
            Inl _ \<Rightarrow> Inl (writeError 500 ''ManifestPutFailed'')
          | Inr s \<Rightarrow> Inr (m, g\<lparr>gw_Manifests := s\<rparr>)))"

definition put_options :: "int \<Rightarrow> Request \<Rightarrow> PutOptions" where
  "put_options n rq = \<lparr>po_ContentLength = n, po_ContentType = HeaderGet (rq_Header rq) ''Content-Type'',
     po_StorageClass = [], po_IfNoneMatch = False\<rparr>"

section \<open>Deduplicated writes (dedup.go)\<close>

definition dedupEnabled :: "('m, 'i, 'p, 'b) Config \<Rightarrow> PlacementPolicy \<Rightarrow> bool" where
  "dedupEnabled cfg policy \<longleftrightarrow> cfg_ContentIndex cfg \<noteq> None
    \<and> (case pp_DedupPolicy policy of None \<Rightarrow> False | Some d \<Rightarrow> dp_Enabled d)"

record dedupResult =
  dd_Hit :: bool
  dd_Existing :: "ContentIndexEntry option"
  dd_ContentHash :: string
  dd_CiphertextBytes :: bytes
  dd_PlaintextSize :: int
  dd_Encryption :: EncryptionConfig
  dd_PlaintextHash :: string

definition formatContentHash :: "string \<Rightarrow> string" where
  "formatContentHash hexDigest = ''blake3:'' @ hexDigest"

definition content_hash :: "(bytes \<Rightarrow> bytes) \<Rightarrow> bytes \<Rightarrow> string" where
  "content_hash blake3 b = formatContentHash (EncodeToString (blake3 b))"

text \<open>The lookup both patterns end with: a hit takes a reference at once.\<close>

definition dedup_lookup :: "'i ContentIndex \<Rightarrow> string \<Rightarrow> dedupResult \<Rightarrow> 'i \<Rightarrow> (string, dedupResult \<times> 'i) result" where
  "dedup_lookup ci tenantID miss idx =
    (case ci_Lookup ci tenantID (dd_ContentHash miss) idx of
       Inl CINotFound \<Rightarrow> Inr (miss, idx)
     | Inl _ \<Rightarrow> Inl ''s3compat: content_index lookup''
     | Inr existing \<Rightarrow>
         (case ci_IncrementRef ci tenantID (dd_ContentHash miss) idx of
            Inl _ \<Rightarrow> Inl ''s3compat: content_index increment''
          | Inr idx' \<Rightarrow> Inr (miss\<lparr>dd_Hit := True, dd_Existing := Some existing, dd_CiphertextBytes := []\<rparr>, idx')))"

definition prepareDedupedPutPatternB :: "('m, 'i, 'p, 'b) Config \<Rightarrow> 'i ContentIndex \<Rightarrow> string \<Rightarrow> string \<Rightarrow> bytes \<Rightarrow> bytes list
    \<Rightarrow> 'i \<Rightarrow> (string, dedupResult \<times> 'i) result" where
  "prepareDedupedPutPatternB cfg ci tenantID encMode plaintext rand idx =
    (case cfg_Encryption cfg of
       None \<Rightarrow> Inl ''s3compat: gateway encryption is not configured''
     | Some ge \<Rightarrow>
         let cr = cfg_Crypto cfg; plaintextHash = cfg_blake3 cfg plaintext in
         bind_result (DeriveConvergentDEK cr plaintextHash tenantID) (\<lambda>dek.
         bind_result (EncryptObject plaintext None dek (zero_Options\<lparr>op_ConvergentNonce := True\<rparr>) rand) (\<lambda>er.
         bind_result (drain cr er) (\<lambda>ciphertext.
         bind_result (ge_WrapDEK ge dek (ge_CMK ge) rand) (\<lambda>(wrapped, rand').
         dedup_lookup ci tenantID
           \<lparr>dd_Hit = False, dd_Existing = None, dd_ContentHash = content_hash (cfg_blake3 cfg) ciphertext,
            dd_CiphertextBytes = ciphertext, dd_PlaintextSize = int (length plaintext),
            dd_Encryption = zero_EncryptionConfig\<lparr>en_Mode := encMode, en_Algorithm := ContentAlgorithm,
              en_KeyID := wd_KeyID wrapped, en_WrappedDEK := wd_WrappedKey wrapped,
              en_WrapAlgorithm := wd_WrapAlgorithm wrapped\<rparr>,
            dd_PlaintextHash = formatContentHash (EncodeToString plaintextHash)\<rparr> idx)))))"

definition prepareDedupedPutPatternC :: "('m, 'i, 'p, 'b) Config \<Rightarrow> 'i ContentIndex \<Rightarrow> string \<Rightarrow> bytes \<Rightarrow> 'i
    \<Rightarrow> (string, dedupResult \<times> 'i) result" where
  "prepareDedupedPutPatternC cfg ci tenantID ciphertext idx =
    dedup_lookup ci tenantID
      \<lparr>dd_Hit = False, dd_Existing = None, dd_ContentHash = content_hash (cfg_blake3 cfg) ciphertext,
       dd_CiphertextBytes = ciphertext, dd_PlaintextSize = int (length ciphertext),
       dd_Encryption = client_config StrictZK ContentAlgorithm, dd_PlaintextHash = []\<rparr> idx"

definition prepareDedupedPut :: "('m, 'i, 'p, 'b) Config \<Rightarrow> 'i ContentIndex \<Rightarrow> string \<Rightarrow> string \<Rightarrow> bytes \<Rightarrow> bytes list
    \<Rightarrow> 'i \<Rightarrow> (string, dedupResult \<times> 'i) result" where
  "prepareDedupedPut cfg ci tenantID encMode body rand idx =
    (if IsGatewayEncrypted encMode then prepareDedupedPutPatternB cfg ci tenantID encMode body rand idx
     else if encMode = StrictZK then prepareDedupedPutPatternC cfg ci tenantID body idx
     else Inl ''s3compat: dedup not supported for encryption mode'')"

text \<open>Whether the race was lost, with the index after it.\<close>

definition registerDedupedPiece :: "'i ContentIndex \<Rightarrow> gotime \<Rightarrow> ContentIndexEntry \<Rightarrow> 'i \<Rightarrow> (string, bool \<times> 'i) result" where
  "registerDedupedPiece ci now entry idx =
    (case ci_Register ci now entry idx of
       Inr idx' \<Rightarrow> Inr (False, idx')
     | Inl CIAlreadyExists \<Rightarrow>
         (case ci_IncrementRef ci (ce_TenantID entry) (ce_ContentHash entry) idx of
            Inl _ \<Rightarrow> Inl ''s3compat: content_index race recovery''
          | Inr idx' \<Rightarrow> Inr (True, idx'))
     | Inl _ \<Rightarrow> Inl ''s3compat: content_index register'')"

text \<open>A decrement whose failure is ignored.\<close>

definition gw_decrement :: "'i ContentIndex \<Rightarrow> string \<Rightarrow> string \<Rightarrow> ('m, 'i, 'p, 'b) Gateway \<Rightarrow> ('m, 'i, 'p, 'b) Gateway" where
  "gw_decrement ci tenantID contentHash g =
    (case ci_DecrementRef ci tenantID contentHash (gw_Index g) of Inl _ \<Rightarrow> g | Inr (n, idx) \<Rightarrow> g\<lparr>gw_Index := idx\<rparr>)"

record stored_piece =
  sq_PieceID :: string
  sq_Backend :: string
  sq_ETag :: string
  sq_Locator :: string
  sq_SizeBytes :: int
  sq_dedupHitEffective :: bool

definition canonical_piece :: "ContentIndexEntry \<Rightarrow> stored_piece" where
  "canonical_piece e = \<lparr>sq_PieceID = ce_PieceID e, sq_Backend = ce_Backend e, sq_ETag = ce_ETag e, sq_Locator = [],
     sq_SizeBytes = ce_SizeBytes e, sq_dedupHitEffective = True\<rparr>"

definition emit_hit :: "('m, 'i, 'p, 'b) Config \<Rightarrow> string \<Rightarrow> string \<Rightarrow> ContentIndexEntry \<Rightarrow> ('m, 'i, 'p, 'b) Gateway \<Rightarrow> ('m, 'i, 'p, 'b) Gateway" where
  "emit_hit cfg tenantID bucket e g =
    emit_if (ce_SizeBytes e > 0) cfg tenantID bucket ''dedup_bytes_saved'' (ce_SizeBytes e)
      (emit cfg tenantID bucket ''dedup_hits'' 1 g)"

text \<open>The piece a deduplicated write will point at: the existing one on a hit, otherwise a fresh
  piece that is written and registered, or the winner's piece where another writer registered first.\<close>

definition dedup_piece :: "('m, 'i, 'p, 'b) Config \<Rightarrow> 'i ContentIndex \<Rightarrow> Request \<Rightarrow> string \<Rightarrow> string \<Rightarrow> string \<Rightarrow> string
    \<Rightarrow> 'p StorageProvider \<Rightarrow> dedupResult \<Rightarrow> ('m, 'i, 'p, 'b) Gateway
    \<Rightarrow> (Response, stored_piece) result \<times> ('m, 'i, 'p, 'b) Gateway" where
  "dedup_piece cfg ci rq tenantID bucket key backendName provider res g =
    (case dd_Existing res of
       Some e \<Rightarrow> (Inr (canonical_piece e), emit_hit cfg tenantID bucket e g)
     | None \<Rightarrow>
         (case gw_put provider backendName (newPieceID tenantID bucket key (rq_now rq 1)) (Inr (dd_CiphertextBytes res))
                 (put_options (int (length (dd_CiphertextBytes res))) rq) g of
            (Inl _, g1) \<Rightarrow> (Inl (writeError 502 ''BackendPutFailed''), g1)
          | (Inr putRes, g1) \<Rightarrow>
              (case registerDedupedPiece ci (rq_now rq 4)
                      \<lparr>ce_TenantID = tenantID, ce_ContentHash = dd_ContentHash res, ce_PieceID = pr_PieceID putRes,
                       ce_Backend = backendName, ce_RefCount = 0, ce_SizeBytes = pr_SizeBytes putRes,
                       ce_ETag = pr_ETag putRes, ce_PieceIDs = [], ce_PlaintextHash = dd_PlaintextHash res,
                       ce_CreatedAt = zero_time\<rparr> (gw_Index g1) of
                 Inl _ \<Rightarrow> (Inl (writeError 500 ''ContentIndexRegisterFailed''), gw_delete cfg backendName (pr_PieceID putRes) g1)
               | Inr (False, idx) \<Rightarrow>
                   (Inr \<lparr>sq_PieceID = pr_PieceID putRes, sq_Backend = backendName, sq_ETag = pr_ETag putRes,
                         sq_Locator = pr_Locator putRes, sq_SizeBytes = pr_SizeBytes putRes, sq_dedupHitEffective = False\<rparr>,
                    g1\<lparr>gw_Index := idx\<rparr>)
               | Inr (True, idx) \<Rightarrow>
                   let g2 = gw_delete cfg backendName (pr_PieceID putRes) (g1\<lparr>gw_Index := idx\<rparr>) in
                   (case ci_Lookup ci tenantID (dd_ContentHash res) (gw_Index g2) of
                      Inl _ \<Rightarrow> (Inl (writeError 500 ''ContentIndexLookupFailed''),
                                gw_decrement ci tenantID (dd_ContentHash res) g2)
                    | Inr canonical \<Rightarrow> (Inr (canonical_piece canonical), emit_hit cfg tenantID bucket canonical g2)))))"

definition putDeduped :: "('m, 'i, 'p, 'b) Config \<Rightarrow> 'm ManifestStore \<Rightarrow> 'i ContentIndex \<Rightarrow> Request \<Rightarrow> string \<Rightarrow> string \<Rightarrow> string
    \<Rightarrow> string \<Rightarrow> 'p StorageProvider \<Rightarrow> PlacementPolicy \<Rightarrow> ('m, 'i, 'p, 'b) Gateway \<Rightarrow> Response \<times> ('m, 'i, 'p, 'b) Gateway" where
  "putDeduped cfg ms ci rq tenantID bucket key backendName provider policy g =
    (let encMode = pp_EncryptionMode policy in
     if encMode = StrictZK \<and> HeaderGet (rq_Header rq) ''X-Amz-Meta-Zk-Encryption'' = []
     then (writeError 403 ''EncryptionRequired'', g)
     else case ReadAll rq of
       Inl e \<Rightarrow> (writeBodyReadError e, g)
     | Inr body \<Rightarrow>
       (case prepareDedupedPut cfg ci tenantID encMode body (rq_rand rq) (gw_Index g) of
          Inl _ \<Rightarrow> (writeError 500 ''DedupFailed'', g)
        | Inr (res, idx) \<Rightarrow>
          (case dedup_piece cfg ci rq tenantID bucket key backendName provider res (g\<lparr>gw_Index := idx\<rparr>) of
             (Inl resp, g1) \<Rightarrow> (resp, g1)
           | (Inr sq, g1) \<Rightarrow>
               let version = newPieceID tenantID bucket key (rq_now rq 5);
                   objectSize = (if IsGatewayEncrypted encMode then dd_PlaintextSize res else sq_SizeBytes sq);
                   m0 = new_manifest rq tenantID bucket key version objectSize (sq_SizeBytes sq) (dd_ContentHash res)
                          (dd_Encryption res) policy
                          [new_piece (sq_PieceID sq) (sq_Backend sq) (sq_Locator sq) (dd_ContentHash res) (sq_ETag sq) (sq_SizeBytes sq)]
                          (sq_Backend sq)
               in (case commit_manifest cfg ms rq tenantID bucket key m0 g1 of
                     Inl resp \<Rightarrow> (resp, gw_decrement ci tenantID (dd_ContentHash res) g1)
                   | Inr (m, g2) \<Rightarrow>
                       (respond 200 ((if sq_ETag sq \<noteq> [] then [(''ETag'', quote (sq_ETag sq))] else [])
                            @ [(''x-amz-version-id'', m_VersionID m)]),
                        notify cfg ''s3:ObjectCreated:Put'' tenantID bucket key (sq_ETag sq) (m_VersionID m) (m_ObjectSize m)
                          (audit cfg ''PUT'' tenantID bucket key (sq_PieceID sq) (sq_Backend sq) (country_of cfg (sq_Backend sq))
                            (emit_if (\<not> sq_dedupHitEffective sq \<and> sq_SizeBytes sq > 0) cfg tenantID bucket
                               ''storage_bytes_seconds'' (sq_SizeBytes sq)
                               (emit cfg tenantID bucket ''put_requests'' 1 g2))))))))"

section \<open>Erasure-coded writes (erasure\_coding.go)\<close>

definition MaxInMemoryObjectBytes :: nat where "MaxInMemoryObjectBytes = 256 * 1024 * 1024"

definition shard_id :: "string \<Rightarrow> Shard \<Rightarrow> string" where
  "shard_id version sh = version @ ''-s'' @ pad_decimal 4 (sh_StripeIndex sh) @ ''-p'' @ pad_decimal 3 (sh_ShardIndex sh)"

definition shard_piece :: "(bytes \<Rightarrow> bytes) \<Rightarrow> string \<Rightarrow> Shard \<Rightarrow> PutResult \<Rightarrow> Piece" where
  "shard_piece blake3 backendName sh res =
    (new_piece (pr_PieceID res) backendName (pr_Locator res) (content_hash blake3 (sh_Bytes sh)) (pr_ETag res) (int (length (sh_Bytes sh))))
      \<lparr>p_StripeIndex := sh_StripeIndex sh, p_ShardIndex := sh_ShardIndex sh,
       p_ShardKind := (case sh_Kind sh of ShardKindParity \<Rightarrow> shard_kind_parity | ShardKindData \<Rightarrow> shard_kind_data)\<rparr>"

text \<open>The loop over the shards: the pieces written, or None after a failure whose earlier writes are undone.\<close>

fun put_shards :: "('m, 'i, 'p, 'b) Config \<Rightarrow> Request \<Rightarrow> string \<Rightarrow> 'p StorageProvider \<Rightarrow> string \<Rightarrow> Shard list \<Rightarrow> Piece list
    \<Rightarrow> ('m, 'i, 'p, 'b) Gateway \<Rightarrow> Piece list option \<times> ('m, 'i, 'p, 'b) Gateway" where
  "put_shards cfg rq backendName provider version [] pieces g = (Some pieces, g)"
| "put_shards cfg rq backendName provider version (sh # shs) pieces g =
    (case gw_put provider backendName (shard_id version sh) (Inr (sh_Bytes sh)) (put_options (int (length (sh_Bytes sh))) rq) g of
       (Inl _, g1) \<Rightarrow> (None, rollbackEC cfg backendName (map p_PieceID pieces) g1)
     | (Inr res, g1) \<Rightarrow>
         put_shards cfg rq backendName provider version shs (pieces @ [shard_piece (cfg_blake3 cfg) backendName sh res]) g1)"

definition read_limited :: "Request \<Rightarrow> nat \<Rightarrow> (body_error, bytes) result" where
  "read_limited rq n = (if length (rq_Body rq) \<ge> n then Inr (take n (rq_Body rq)) else ReadAll rq)"

definition putErasureCoded :: "('m, 'i, 'p, 'b) Config \<Rightarrow> 'm ManifestStore \<Rightarrow> Request \<Rightarrow> string \<Rightarrow> string \<Rightarrow> string
    \<Rightarrow> string \<Rightarrow> 'p StorageProvider \<Rightarrow> PlacementPolicy \<Rightarrow> ('m, 'i, 'p, 'b) Gateway \<Rightarrow> Response \<times> ('m, 'i, 'p, 'b) Gateway" where
  "putErasureCoded cfg ms rq tenantID bucket key backendName provider policy g =
    (case cfg_ErasureCoding cfg of
       None \<Rightarrow> (writeError 500 ''InvalidPlacement'', g)
     | Some registry \<Rightarrow>
     (case RegistryLookup registry (pp_ErasureProfile policy) of
       Inl _ \<Rightarrow> (writeError 400 ''InvalidPlacement'', g)
     | Inr encoder \<Rightarrow>
       if rq_ContentLength rq > int MaxInMemoryObjectBytes then (writeError 413 ''ECObjectTooLarge'', g)
       else (case read_limited rq (MaxInMemoryObjectBytes + 1) of
         Inl e \<Rightarrow> (writeBodyReadError e, g)
       | Inr body0 \<Rightarrow>
         if length body0 > MaxInMemoryObjectBytes then (writeError 413 ''ECObjectTooLarge'', g)
         else
           let version = newPieceID tenantID bucket key (rq_now rq 1);
               encID = \<lparr>ai_TenantID = tenantID, ai_Bucket = bucket, ai_ObjectKeyHash = hashObjectKey key, ai_VersionID = version\<rparr>
           in (case prepareErasureCodedEncryption (cfg_Crypto cfg) (cfg_Encryption cfg) rq (pp_EncryptionMode policy) body0 encID of
             Inl resp \<Rightarrow> (resp, g)
           | Inr (encCfg, body) \<Rightarrow>
             (case Encode encoder body of
               Inl _ \<Rightarrow> (writeError 500 ''ErasureEncodeFailed'', g)
             | Inr shards \<Rightarrow>
               (case put_shards cfg rq backendName provider version shards [] g of
                 (None, g1) \<Rightarrow> (writeError 502 ''BackendPutFailed'', g1)
               | (Some pieces, g1) \<Rightarrow>
                   let m0 = new_manifest rq tenantID bucket key version (int (length body0)) (int (enc_shardSize encoder)) []
                              encCfg policy pieces backendName
                   in (case commit_manifest cfg ms rq tenantID bucket key m0 g1 of
                         Inl resp \<Rightarrow> (resp, rollbackEC cfg backendName (map p_PieceID pieces) g1)
                       | Inr (m, g2) \<Rightarrow>
                           let shardBytes = sum_list (map p_SizeBytes pieces) in
                           (respond 200 [(''x-amz-version-id'', m_VersionID m)],
                            notify cfg ''s3:ObjectCreated:Put'' tenantID bucket key [] (m_VersionID m) (m_ObjectSize m)
                              (audit cfg ''PUT'' tenantID bucket key (p_PieceID (hd (m_Pieces m))) backendName
                                 (pl_Country (sp_PlacementLabels provider))
                                (emit_if (shardBytes > 0) cfg tenantID bucket ''storage_bytes_seconds'' shardBytes
                                  (emit cfg tenantID bucket ''put_requests'' 1 g2)))))))))))"

section \<open>PUT object (handler.go)\<close>

definition putSinglePiece :: "('m, 'i, 'p, 'b) Config \<Rightarrow> 'm ManifestStore \<Rightarrow> Request \<Rightarrow> string \<Rightarrow> string \<Rightarrow> string
    \<Rightarrow> string \<Rightarrow> 'p StorageProvider \<Rightarrow> PlacementPolicy \<Rightarrow> ('m, 'i, 'p, 'b) Gateway \<Rightarrow> Response \<times> ('m, 'i, 'p, 'b) Gateway" where
  "putSinglePiece cfg ms rq tenantID bucket key backendName provider policy g =
    (let encMode = pp_EncryptionMode policy;
         pieceID = newPieceID tenantID bucket key (rq_now rq 1);
         encID = \<lparr>ai_TenantID = tenantID, ai_Bucket = bucket, ai_ObjectKeyHash = hashObjectKey key, ai_VersionID = pieceID\<rparr>
     in (case prepareSinglePieceEncryption (cfg_Crypto cfg) (cfg_Encryption cfg) rq encMode encID of
       Inl resp \<Rightarrow> (resp, g)
     | Inr pd \<Rightarrow>
       (case gw_put provider backendName pieceID (pd_Body pd) (put_options (pd_ContentLength pd) rq) g of
         (Inl _, g1) \<Rightarrow> (writePutPieceError (case pd_Body pd of Inl _ \<Rightarrow> rq_BodyErr rq | Inr _ \<Rightarrow> None), g1)
       | (Inr putRes, g1) \<Rightarrow>
         if IsGatewayEncrypted encMode \<and> rq_ContentLength rq \<ge> 0 \<and> pd_PlaintextSize pd \<noteq> rq_ContentLength rq
         then (writeError 400 ''IncompleteBody'', gw_delete cfg backendName pieceID g1)
         else
           let objectSize = (if IsGatewayEncrypted encMode then pd_PlaintextSize pd else pr_SizeBytes putRes);
               hash = content_hash (cfg_blake3 cfg) (projr (pd_Body pd));
               m0 = new_manifest rq tenantID bucket key pieceID objectSize (pr_SizeBytes putRes) [] (pd_Encryption pd) policy
                      [new_piece (pr_PieceID putRes) backendName (pr_Locator putRes) hash (pr_ETag putRes) (pr_SizeBytes putRes)]
                      backendName
           in (case commit_manifest cfg ms rq tenantID bucket key m0 g1 of
                 Inl resp \<Rightarrow> (resp, gw_delete cfg backendName pieceID g1)
               | Inr (m, g2) \<Rightarrow>
                   (respond 200 [(''ETag'', quote (pr_ETag putRes)), (''x-amz-version-id'', m_VersionID m)],
                    notify cfg ''s3:ObjectCreated:Put'' tenantID bucket key (pr_ETag putRes) (m_VersionID m) (m_ObjectSize m)
                      (audit cfg ''PUT'' tenantID bucket key pieceID backendName (pl_Country (sp_PlacementLabels provider))
                        (emit_if (pr_SizeBytes putRes > 0) cfg tenantID bucket ''storage_bytes_seconds'' (pr_SizeBytes putRes)
                          (emit cfg tenantID bucket ''put_requests'' 1 g2))))))))"

text \<open>The checks a PUT makes before it touches a backend: who writes what, and where it goes.\<close>

definition put_admission :: "('m, 'i, 'p, 'b) Config \<Rightarrow> Request \<Rightarrow> ('m, 'i, 'p, 'b) Gateway
    \<Rightarrow> (Response, 'm ManifestStore \<times> string \<times> string \<times> string \<times> string \<times> 'p StorageProvider \<times> PlacementPolicy) result" where
  "put_admission cfg rq g =
    (case authenticate cfg rq of
       Inl e \<Rightarrow> Inl (writeAuthError e)
     | Inr tenantID \<Rightarrow>
     if (case cfg_VerifiedCheck cfg of None \<Rightarrow> False | Some vc \<Rightarrow> (case vc tenantID of (verified, tracked) \<Rightarrow> tracked \<and> \<not> verified))
     then Inl (writeError 403 ''EmailNotVerified'')
     else (case parseBucketKey (rq_Path rq) of (bucket, key) \<Rightarrow>
     if bucket = [] \<or> key = [] then Inl (writeError 400 ''InvalidArgument'')
     else (case (cfg_Manifests cfg, cfg_Placement cfg) of
       (Some ms, Some placement) \<Rightarrow>
         (case parseObjectTaggingHeader (HeaderGet (rq_Header rq) ''x-amz-tagging'') of
            Inl (code, s3code) \<Rightarrow> Inl (writeError code s3code)
          | Inr _ \<Rightarrow>
         (case validateRequestObjectMetadata (rq_Header rq) of
            Inl (code, s3code) \<Rightarrow> Inl (writeError code s3code)
          | Inr _ \<Rightarrow>
         (case allowObjectLockOverwrite cfg ms rq tenantID bucket key g of
            Some resp \<Rightarrow> Inl resp
          | None \<Rightarrow>
         (case placement tenantID bucket key of
            Inl _ \<Rightarrow> Inl (writeError 400 ''InvalidPlacement'')
          | Inr (backendName, policy) \<Rightarrow>
         (case cfg_Providers cfg backendName of
            None \<Rightarrow> Inl (writeError 500 ''BackendNotRegistered'')
          | Some provider \<Rightarrow>
         (case (case cfg_Residency cfg of None \<Rightarrow> Inr ()
                | Some chk \<Rightarrow> chk tenantID (pl_Country (sp_PlacementLabels provider)) (pp_Residency policy)) of
            Inl _ \<Rightarrow> Inl (writeError 403 ''DataResidencyViolation'')
          | Inr _ \<Rightarrow>
         (case effectiveEncryptionMode cfg tenantID bucket policy g of
            Inl _ \<Rightarrow> Inl (writeError 500 ''EncryptionNotConfigured'')
          | Inr effMode \<Rightarrow>
              Inr (ms, tenantID, bucket, key, backendName, provider, policy\<lparr>pp_EncryptionMode := effMode\<rparr>))))))))
     | _ \<Rightarrow> Inl (writeError 503 ''ServiceUnavailable''))))"

definition Put :: "('m, 'i, 'p, 'b) Config \<Rightarrow> Request \<Rightarrow> ('m, 'i, 'p, 'b) Gateway \<Rightarrow> Response \<times> ('m, 'i, 'p, 'b) Gateway" where
  "Put cfg rq g =
    (case put_admission cfg rq g of
       Inl resp \<Rightarrow> (resp, g)
     | Inr (ms, tenantID, bucket, key, backendName, provider, policy) \<Rightarrow>
         if pp_ErasureProfile policy \<noteq> []
         then putErasureCoded cfg ms rq tenantID bucket key backendName provider policy g
         else if dedupEnabled cfg policy \<and> (IsGatewayEncrypted (pp_EncryptionMode policy) \<or> pp_EncryptionMode policy = StrictZK)
         then putDeduped cfg ms (the (cfg_ContentIndex cfg)) rq tenantID bucket key backendName provider policy g
         else putSinglePiece cfg ms rq tenantID bucket key backendName provider policy g)"

section \<open>DELETE object (handler.go)\<close>

abbreviation minStorageDuration :: duration where "minStorageDuration \<equiv> 90 * day"

text \<open>The days that remain of the minimum storage window, None outside it (\<open>providers/wasabi/guardrails.go\<close>).\<close>

definition MinStorageDurationWarning :: "gotime \<Rightarrow> gotime \<Rightarrow> int option" where
  "MinStorageDurationWarning storedAt now =
    (if storedAt = zero_time then None
     else
       let age = max 0 (now - storedAt) in
       if age \<ge> minStorageDuration then None
       else Some ((minStorageDuration - age + day - 1) div day))"

definition wasabiEarlyDeleteWarning :: "('m, 'i, 'p, 'b) Config \<Rightarrow> ObjectManifest \<Rightarrow> gotime \<Rightarrow> (string, string) gomap" where
  "wasabiEarlyDeleteWarning cfg m now =
    (if \<not> list_ex (\<lambda>p. case cfg_Providers cfg (p_Backend p) of None \<Rightarrow> False
                     | Some pv \<Rightarrow> pl_Provider (sp_PlacementLabels pv) = ''wasabi'') (m_Pieces m) then []
     else case MinStorageDurationWarning (m_CreatedAt m) now of
       None \<Rightarrow> []
     | Some days \<Rightarrow> [(''X-Zkof-Wasabi-Early-Delete-Warning'', ''true''),
                     (''X-Zkof-Wasabi-Min-Storage-Remaining-Days'', FormatInt days)])"

text \<open>
  What follows the removal of a manifest: its reference is dropped, and its pieces are
  deleted when no reference is left (or none was counted).  The result tells whether
  pieces were deleted, or is the response of a failure.
\<close>

definition reclaim :: "('m, 'i, 'p, 'b) Config \<Rightarrow> string \<Rightarrow> string \<Rightarrow> ObjectManifest \<Rightarrow> ('m, 'i, 'p, 'b) Gateway
    \<Rightarrow> (Response, bool) result \<times> ('m, 'i, 'p, 'b) Gateway" where
  "reclaim cfg tenantID bucket m g =
    (case (if m_ContentHash m = [] then None else cfg_ContentIndex cfg) of
       None \<Rightarrow> (Inr True, deletePiecesBestEffort cfg m g)
     | Some ci \<Rightarrow>
         (case ci_DecrementRef ci tenantID (m_ContentHash m) (gw_Index g) of
            Inl CINotFound \<Rightarrow> (Inr True, deletePiecesBestEffort cfg m g)
          | Inl _ \<Rightarrow> (Inl (writeError 500 ''ContentIndexDecrementFailed''), g)
          | Inr (newCount, idx) \<Rightarrow>
              let g1 = g\<lparr>gw_Index := idx\<rparr> in
              if newCount = 0 then
                (case ci_Delete ci tenantID (m_ContentHash m) idx of
                   Inr idx' \<Rightarrow> (Inr True, deletePiecesBestEffort cfg m (g1\<lparr>gw_Index := idx'\<rparr>))
                 | Inl CINotFound \<Rightarrow> (Inr False, g1)
                 | Inl CIRefCountNonZero \<Rightarrow> (Inr False, g1)
                 | Inl _ \<Rightarrow> (Inl (writeError 500 ''ContentIndexDeleteFailed''), g1))
              else (Inr False, emit cfg tenantID bucket ''dedup_ref_count'' newCount g1)))"

definition insertDeleteMarker :: "('m, 'i, 'p, 'b) Config \<Rightarrow> 'm ManifestStore \<Rightarrow> Request \<Rightarrow> string \<Rightarrow> string \<Rightarrow> string
    \<Rightarrow> ('m, 'i, 'p, 'b) Gateway \<Rightarrow> Response \<times> ('m, 'i, 'p, 'b) Gateway" where
  "insertDeleteMarker cfg ms rq tenantID bucket key g =
    (let markerID = newPieceID tenantID bucket key (rq_now rq 1);
         marker = zero_ObjectManifest\<lparr>m_TenantID := tenantID, m_Bucket := bucket, m_ObjectKey := key,
           m_ObjectKeyHash := hashObjectKey key, m_VersionID := markerID, m_DeleteMarker := True, m_CreatedAt := rq_now rq 2\<rparr>
     in (case op_Put ms (object_key tenantID bucket key markerID) marker (gw_Manifests g) of
           Inl _ \<Rightarrow> (writeError 500 ''DeleteMarkerPutFailed'', g)
         | Inr s \<Rightarrow>
             (respond 204 [(''x-amz-delete-marker'', ''true''), (''x-amz-version-id'', markerID)],
              notify cfg ''s3:ObjectRemoved:DeleteMarkerCreated'' tenantID bucket key [] markerID 0
                (audit cfg ''DELETE'' tenantID bucket key [] [] []
                  (emit cfg tenantID bucket ''delete_requests'' 1 (g\<lparr>gw_Manifests := s\<rparr>))))))"

definition deleteVersion :: "('m, 'i, 'p, 'b) Config \<Rightarrow> 'm ManifestStore \<Rightarrow> Request \<Rightarrow> string \<Rightarrow> string \<Rightarrow> string
    \<Rightarrow> ('m, 'i, 'p, 'b) Gateway \<Rightarrow> Response \<times> ('m, 'i, 'p, 'b) Gateway" where
  "deleteVersion cfg ms rq tenantID bucket key g =
    (case op_Get ms (object_key tenantID bucket key (versionId rq)) (gw_Manifests g) of
       Inl ErrNotFound \<Rightarrow> (respond 204 [], g)
     | Inl _ \<Rightarrow> (writeError 500 ''ManifestGetFailed'', g)
     | Inr m \<Rightarrow>
       if objectLockBlocksDelete m (rq_now rq 0) (governanceBypassRequested rq) then (writeError 403 ''AccessDenied'', g)
       else
       (case (case op_Delete ms (object_key tenantID bucket key (m_VersionID m)) (gw_Manifests g) of
                Inr s \<Rightarrow> Some s | Inl ErrNotFound \<Rightarrow> Some (gw_Manifests g) | Inl _ \<Rightarrow> None) of
          None \<Rightarrow> (writeError 500 ''ManifestDeleteFailed'', g)
        | Some s \<Rightarrow>
          (case reclaim cfg tenantID bucket m (g\<lparr>gw_Manifests := s\<rparr>) of
             (Inl resp, g1) \<Rightarrow> (resp, g1)
           | (Inr piecesDeleted, g1) \<Rightarrow>
               let g2 = emit cfg tenantID bucket ''delete_requests'' 1 g1;
                   g3 = (case m_Pieces m of [] \<Rightarrow> g2
                         | p # ps \<Rightarrow> audit cfg ''DELETE'' tenantID bucket key (p_PieceID p) (p_Backend p) (country_of cfg (p_Backend p)) g2)
               in (respond 204 (if piecesDeleted then wasabiEarlyDeleteWarning cfg m (rq_now rq 3) else []),
                   notify cfg ''s3:ObjectRemoved:Delete'' tenantID bucket key [] (m_VersionID m) 0 g3))))"

definition Delete :: "('m, 'i, 'p, 'b) Config \<Rightarrow> Request \<Rightarrow> ('m, 'i, 'p, 'b) Gateway \<Rightarrow> Response \<times> ('m, 'i, 'p, 'b) Gateway" where
  "Delete cfg rq g =
    (case authenticate cfg rq of
       Inl e \<Rightarrow> (writeAuthError e, g)
     | Inr tenantID \<Rightarrow>
     (case parseBucketKey (rq_Path rq) of (bucket, key) \<Rightarrow>
     if bucket = [] \<or> key = [] then (writeError 400 ''InvalidArgument'', g)
     else (case cfg_Manifests cfg of
       None \<Rightarrow> (writeError 503 ''ServiceUnavailable'', g)
     | Some ms \<Rightarrow>
     (case bucketVersioning cfg tenantID bucket g of
       Inl _ \<Rightarrow> (writeError 500 ''VersioningLookupFailed'', g)
     | Inr versioning \<Rightarrow>
     if versioning = VersioningEnabled \<and> versionId rq = [] then insertDeleteMarker cfg ms rq tenantID bucket key g
     else (case (case cfg_LegalHolds cfg of None \<Rightarrow> Inr 0 | Some active \<Rightarrow> active tenantID bucket key) of
       Inl _ \<Rightarrow> (writeError 500 ''LegalHoldCheckFailed'', g)
     | Inr holds \<Rightarrow>
         if holds > 0 then (writeError 403 ''ObjectUnderLegalHold'', g)
         else deleteVersion cfg ms rq tenantID bucket key g)))))"

section \<open>Retention and legal hold (object\_lock\_handler.go)\<close>

definition authObjectLock :: "('m, 'i, 'p, 'b) Config \<Rightarrow> Request \<Rightarrow> ('m, 'i, 'p, 'b) Gateway
    \<Rightarrow> (Response, 'm ManifestStore \<times> string \<times> string \<times> string) result" where
  "authObjectLock cfg rq g =
    (case authenticate cfg rq of
       Inl e \<Rightarrow> Inl (writeAuthError e)
     | Inr tenantID \<Rightarrow>
     (case cfg_Manifests cfg of
       None \<Rightarrow> Inl (writeError 503 ''ServiceUnavailable'')
     | Some ms \<Rightarrow>
     (case parseBucketKey (rq_Path rq) of (bucket, key) \<Rightarrow>
     if bucket = [] \<or> key = [] then Inl (writeError 400 ''InvalidArgument'')
     else (case bucketObjectLock cfg tenantID bucket g of
       Inl _ \<Rightarrow> Inl (writeError 500 ''ObjectLockGetFailed'')
     | Inr c \<Rightarrow> if \<not> ol_Enabled c then Inl (writeError 400 ''InvalidRequest'') else Inr (ms, tenantID, bucket, key)))))"

definition writeManifestGetError :: "store_error \<Rightarrow> Response" where
  "writeManifestGetError e =
    (case e of ErrNotFound \<Rightarrow> writeError 404 ''NoSuchKey'' | _ \<Rightarrow> writeError 500 ''ManifestGetFailed'')"

definition loadObjectVersion :: "'m ManifestStore \<Rightarrow> Request \<Rightarrow> string \<Rightarrow> string \<Rightarrow> string \<Rightarrow> 'm
    \<Rightarrow> (Response, ObjectManifest \<times> ManifestKey) result" where
  "loadObjectVersion ms rq tenantID bucket key s =
    (case op_Get ms (object_key tenantID bucket key (versionId rq)) s of
       Inl e \<Rightarrow> Inl (writeManifestGetError e)
     | Inr m \<Rightarrow>
         if m_DeleteMarker m then Inl (writeError 405 ''MethodNotAllowed'')
         else Inr (m, object_key tenantID bucket key (m_VersionID m)))"

definition update_version :: "'m ManifestStore \<Rightarrow> ManifestKey \<Rightarrow> ObjectManifest \<Rightarrow> ('m, 'i, 'p, 'b) Gateway
    \<Rightarrow> Response \<times> ('m, 'i, 'p, 'b) Gateway" where
  "update_version ms k m g =
    (case op_UpdateManifest ms k m (gw_Manifests g) of
       Inl _ \<Rightarrow> (writeError 500 ''ManifestPutFailed'', g)
     | Inr s \<Rightarrow> (respond 200 (if m_VersionID m \<noteq> [] then [(''x-amz-version-id'', m_VersionID m)] else []),
                 g\<lparr>gw_Manifests := s\<rparr>))"

text \<open>The decoded retention document: its mode and its date, None where the date does not parse.\<close>

definition PutObjectRetention :: "('m, 'i, 'p, 'b) Config \<Rightarrow> (string \<times> gotime option) option \<Rightarrow> Request
    \<Rightarrow> ('m, 'i, 'p, 'b) Gateway \<Rightarrow> Response \<times> ('m, 'i, 'p, 'b) Gateway" where
  "PutObjectRetention cfg doc rq g =
    (case authObjectLock cfg rq g of
       Inl resp \<Rightarrow> (resp, g)
     | Inr (ms, tenantID, bucket, key) \<Rightarrow>
     (case rq_BodyErr rq of
       Some e \<Rightarrow> (writeBodyReadError e, g)
     | None \<Rightarrow>
     (case doc of
       Some (mode, Some until) \<Rightarrow>
         let newRet = \<lparr>rt_Mode = mode, rt_RetainUntil = until\<rparr> in
         (case Retention_Valid newRet of
            Inl _ \<Rightarrow> (writeError 400 ''InvalidRequest'', g)
          | Inr _ \<Rightarrow>
         (case loadObjectVersion ms rq tenantID bucket key (gw_Manifests g) of
            Inl resp \<Rightarrow> (resp, g)
          | Inr (m, k) \<Rightarrow>
              if retentionChangeAllowed (manifestRetention m) newRet (rq_now rq 0) (governanceBypassRequested rq)
              then update_version ms k (m\<lparr>m_RetentionMode := mode, m_RetainUntil := until\<rparr>) g
              else (writeError 403 ''AccessDenied'', g)))
     | _ \<Rightarrow> (writeError 400 ''MalformedXML'', g))))"

definition PutObjectLegalHold :: "('m, 'i, 'p, 'b) Config \<Rightarrow> string option \<Rightarrow> Request
    \<Rightarrow> ('m, 'i, 'p, 'b) Gateway \<Rightarrow> Response \<times> ('m, 'i, 'p, 'b) Gateway" where
  "PutObjectLegalHold cfg doc rq g =
    (case authObjectLock cfg rq g of
       Inl resp \<Rightarrow> (resp, g)
     | Inr (ms, tenantID, bucket, key) \<Rightarrow>
     (case rq_BodyErr rq of
       Some e \<Rightarrow> (writeBodyReadError e, g)
     | None \<Rightarrow>
     (case doc of
       None \<Rightarrow> (writeError 400 ''MalformedXML'', g)
     | Some status \<Rightarrow>
         if \<not> LegalHoldStatus_Valid status then (writeError 400 ''MalformedXML'', g)
         else
         (case loadObjectVersion ms rq tenantID bucket key (gw_Manifests g) of
            Inl resp \<Rightarrow> (resp, g)
          | Inr (m, k) \<Rightarrow> update_version ms k (m\<lparr>m_LegalHold := (status = LegalHoldOn)\<rparr>) g))))"

end
