(* ===== verification/Multipart_Store.thy ===== *)
theory Multipart_Store
  imports Manifest S3_Request
begin

text \<open>
  The multipart session store (\<open>src/api/s3compat/multipart/store.go\<close>): the session
  record \<open>Upload\<close> with its parts, the \<open>Store\<close> interface as the record \<open>UploadStore\<close>,
  and the in-memory store.

  \<open>Get\<close> hands out a pointer into the store, through which the handler later records
  part digests; \<open>us_Update\<close> is such a method call on the session with that identifier,
  without effect once the session has left the store.  \<open>Complete\<close> and \<open>Abort\<close> also
  return the state on an error, because the in-memory store takes the session out and
  puts it back.  Where two sessions have the same creation time the order in which
  \<open>List\<close> returns them is not fixed by the code; here it is the order of the map.

  The locale \<open>upload_store\<close> is the contract over the view of a store as a map from
  identifiers to sessions; the in-memory store is shown to keep it.
\<close>

section \<open>Sessions\<close>

record MPart =
  mpp_PartNumber :: int
  mpp_PieceID :: string
  mpp_Backend :: string
  mpp_ETag :: string
  mpp_SizeBytes :: int
  mpp_UploadedAt :: gotime

record MPObjectMetadata =
  om_Tags :: "(string, string) gomap"
  om_ContentType :: string
  om_ContentEncoding :: string
  om_ContentDisposition :: string
  om_ContentLanguage :: string
  om_CacheControl :: string
  om_Expires :: string
  om_UserMetadata :: "(string, string) gomap"

definition ObjectMetadata_IsZero :: "MPObjectMetadata \<Rightarrow> bool" where
  "ObjectMetadata_IsZero m \<longleftrightarrow> om_Tags m = [] \<and> om_ContentType m = [] \<and> om_ContentEncoding m = []
    \<and> om_ContentDisposition m = [] \<and> om_ContentLanguage m = [] \<and> om_CacheControl m = []
    \<and> om_Expires m = [] \<and> om_UserMetadata m = []"

record Upload =
  up_ID :: string
  up_TenantID :: string
  up_Bucket :: string
  up_ObjectKey :: string
  up_Backend :: string
  up_Policy :: PlacementPolicy
  up_CreatedAt :: gotime
  up_VersionID :: string
  up_EncMode :: string
  up_DEKMaterial :: bytes
  up_WrappedDEK :: bytes
  up_WrappedKeyID :: string
  up_WrapAlgorithm :: string
  up_ContentAlgorithm :: string
  up_Metadata :: MPObjectMetadata
  up_PartHashes :: "(int, bytes) gomap"
  up_PlaintextPartHashes :: "(int, bytes) gomap"
  up_parts :: "(int, MPart) gomap"

definition SetPartHash :: "int \<Rightarrow> bytes \<Rightarrow> Upload \<Rightarrow> Upload" where
  "SetPartHash partNumber hash u = u\<lparr>up_PartHashes := gm_set partNumber hash (up_PartHashes u)\<rparr>"

definition PartHash :: "Upload \<Rightarrow> int \<Rightarrow> bytes option" where
  "PartHash u partNumber = gm_get (up_PartHashes u) partNumber"

definition SetPlaintextPartHash :: "int \<Rightarrow> bytes \<Rightarrow> Upload \<Rightarrow> Upload" where
  "SetPlaintextPartHash partNumber hash u = u\<lparr>up_PlaintextPartHashes := gm_set partNumber hash (up_PlaintextPartHashes u)\<rparr>"

definition PlaintextPartHash :: "Upload \<Rightarrow> int \<Rightarrow> bytes option" where
  "PlaintextPartHash u partNumber = gm_get (up_PlaintextPartHashes u) partNumber"

definition PlaintextPartHashCount :: "Upload \<Rightarrow> nat" where
  "PlaintextPartHashCount u = length (up_PlaintextPartHashes u)"

definition sort_parts :: "MPart list \<Rightarrow> MPart list" where
  "sort_parts = sort_key mpp_PartNumber"

definition SortedParts :: "Upload \<Rightarrow> MPart list" where
  "SortedParts u = sort_parts (map snd (up_parts u))"

section \<open>The interface\<close>

datatype mp_error = MPNotFound | MPPartNotFound | MPPartETagMismatch | MPTenantMismatch | MPUploadMismatch | MPInvalid string

record PartReference =
  pref_PartNumber :: int
  pref_ETag :: string

record 'u UploadStore =
  us_Create :: "Upload \<Rightarrow> 'u \<Rightarrow> (mp_error, 'u) result"
  us_Get :: "string \<Rightarrow> string \<Rightarrow> 'u \<Rightarrow> (mp_error, Upload) result"
  us_Update :: "string \<Rightarrow> (Upload \<Rightarrow> Upload) \<Rightarrow> 'u \<Rightarrow> 'u"
  us_PutPart :: "string \<Rightarrow> string \<Rightarrow> MPart \<Rightarrow> 'u \<Rightarrow> (mp_error, 'u) result"
  us_Complete :: "string \<Rightarrow> string \<Rightarrow> string \<Rightarrow> string \<Rightarrow> PartReference list \<Rightarrow> 'u \<Rightarrow> (mp_error, MPart list \<times> Upload) result \<times> 'u"
  us_Abort :: "string \<Rightarrow> string \<Rightarrow> 'u \<Rightarrow> (mp_error, Upload \<times> MPart list) result \<times> 'u"
  us_List :: "string \<Rightarrow> string \<Rightarrow> 'u \<Rightarrow> Upload list"

section \<open>The in-memory store\<close>

type_synonym MPMemoryStore = "(string, Upload) gomap"

definition mp_Create :: "Upload \<Rightarrow> MPMemoryStore \<Rightarrow> (mp_error, MPMemoryStore) result" where
  "mp_Create u s =
    (if up_ID u = [] then Inl (MPInvalid ''multipart: upload id is required'')
     else if gm_get s (up_ID u) \<noteq> None then Inl (MPInvalid ''multipart: upload id already exists'')
     else Inr (gm_set (up_ID u) (u\<lparr>up_parts := []\<rparr>) s))"

definition mp_Get :: "string \<Rightarrow> string \<Rightarrow> MPMemoryStore \<Rightarrow> (mp_error, Upload) result" where
  "mp_Get tenantID uploadID s =
    (case gm_get s uploadID of
       None \<Rightarrow> Inl MPNotFound
     | Some u \<Rightarrow> if up_TenantID u \<noteq> tenantID then Inl MPNotFound else Inr u)"

definition mp_Update :: "string \<Rightarrow> (Upload \<Rightarrow> Upload) \<Rightarrow> MPMemoryStore \<Rightarrow> MPMemoryStore" where
  "mp_Update uploadID f s = (case gm_get s uploadID of None \<Rightarrow> s | Some u \<Rightarrow> gm_set uploadID (f u) s)"

definition mp_PutPart :: "string \<Rightarrow> string \<Rightarrow> MPart \<Rightarrow> MPMemoryStore \<Rightarrow> (mp_error, MPMemoryStore) result" where
  "mp_PutPart tenantID uploadID part s =
    bind_result (mp_Get tenantID uploadID s) (\<lambda>u.
      if mpp_PartNumber part \<le> 0 then Inl (MPInvalid ''multipart: part_number must be positive'')
      else Inr (gm_set uploadID (u\<lparr>up_parts := gm_set (mpp_PartNumber part) part (up_parts u)\<rparr>) s))"

text \<open>The loop of \<open>Complete\<close> over the client's claims.\<close>

fun claimed_parts :: "Upload \<Rightarrow> PartReference list \<Rightarrow> (mp_error, MPart list) result" where
  "claimed_parts u [] = Inr []"
| "claimed_parts u (ref # refs) =
    (case gm_get (up_parts u) (pref_PartNumber ref) of
       None \<Rightarrow> Inl MPPartNotFound
     | Some part \<Rightarrow>
         if pref_ETag ref \<noteq> [] \<and> mpp_ETag part \<noteq> [] \<and> stripQuotes (pref_ETag ref) \<noteq> stripQuotes (mpp_ETag part)
         then Inl MPPartETagMismatch
         else bind_result (claimed_parts u refs) (\<lambda>ps. Inr (part # ps)))"

definition mp_Complete :: "string \<Rightarrow> string \<Rightarrow> string \<Rightarrow> string \<Rightarrow> PartReference list \<Rightarrow> MPMemoryStore
    \<Rightarrow> (mp_error, MPart list \<times> Upload) result \<times> MPMemoryStore" where
  "mp_Complete uploadID tenantID bucket objectKey expected s =
    (case gm_get s uploadID of
       None \<Rightarrow> (Inl MPNotFound, s)
     | Some u \<Rightarrow>
         if up_TenantID u \<noteq> tenantID then (Inl MPTenantMismatch, s)
         else if up_Bucket u \<noteq> bucket \<or> up_ObjectKey u \<noteq> objectKey then (Inl MPUploadMismatch, s)
         else
           let s1 = gm_del uploadID s in
           (case claimed_parts u expected of
              Inl e \<Rightarrow> (Inl e, gm_set uploadID u s1)
            | Inr parts \<Rightarrow> (Inr (sort_parts parts, u), s1)))"

definition mp_Abort :: "string \<Rightarrow> string \<Rightarrow> MPMemoryStore \<Rightarrow> (mp_error, Upload \<times> MPart list) result \<times> MPMemoryStore" where
  "mp_Abort uploadID tenantID s =
    (case gm_get s uploadID of
       None \<Rightarrow> (Inl MPNotFound, s)
     | Some u \<Rightarrow>
         if up_TenantID u \<noteq> tenantID then (Inl MPTenantMismatch, s)
         else (Inr (u, sort_parts (map snd (up_parts u))), gm_del uploadID s))"

definition mp_List :: "string \<Rightarrow> string \<Rightarrow> MPMemoryStore \<Rightarrow> Upload list" where
  "mp_List tenantID bucket s =
    sort_key up_CreatedAt (filter (\<lambda>u. up_TenantID u = tenantID \<and> (bucket = [] \<or> up_Bucket u = bucket)) (map snd s))"

definition mp_memory_store :: "MPMemoryStore UploadStore" where
  "mp_memory_store = \<lparr>us_Create = mp_Create, us_Get = mp_Get, us_Update = mp_Update, us_PutPart = mp_PutPart,
     us_Complete = mp_Complete, us_Abort = mp_Abort, us_List = mp_List\<rparr>"

section \<open>Facts on parts\<close>

lemma claimed_parts_all:
  "claimed_parts u refs = Inr ps \<Longrightarrow>
    length ps = length refs \<and> (\<forall>i < length refs. gm_get (up_parts u) (pref_PartNumber (refs ! i)) = Some (ps ! i)
      \<and> (pref_ETag (refs ! i) = [] \<or> mpp_ETag (ps ! i) = [] \<or> stripQuotes (pref_ETag (refs ! i)) = stripQuotes (mpp_ETag (ps ! i))))"
proof (induction u refs arbitrary: ps rule: claimed_parts.induct)
  case (2 u ref refs)
  then obtain p qs where p: "gm_get (up_parts u) (pref_PartNumber ref) = Some p" "claimed_parts u refs = Inr qs" "ps = p # qs"
    "\<not> (pref_ETag ref \<noteq> [] \<and> mpp_ETag p \<noteq> [] \<and> stripQuotes (pref_ETag ref) \<noteq> stripQuotes (mpp_ETag p))"
    by (auto split: option.splits if_splits)
  with 2(1) [OF p(1) p(4) p(2)] show ?case
    by (auto simp: less_Suc_eq_0_disj)
qed simp

lemma set_claimed_parts:
  assumes "claimed_parts u refs = Inr ps"
  shows "set ps \<subseteq> {p. \<exists>n. gm_get (up_parts u) n = Some p}"
proof
  fix p
  assume "p \<in> set ps"
  then obtain i where "i < length refs" "p = ps ! i"
    using claimed_parts_all [OF assms] by (auto simp: in_set_conv_nth)
  then have "gm_get (up_parts u) (pref_PartNumber (refs ! i)) = Some p"
    using claimed_parts_all [OF assms] by simp
  then show "p \<in> {p. \<exists>n. gm_get (up_parts u) n = Some p}"
    by blast
qed

lemma set_sort_parts [simp]: "set (sort_parts ps) = set ps"
  by (simp add: sort_parts_def)

lemma sorted_sort_parts: "sorted (map mpp_PartNumber (sort_parts ps))"
  by (simp add: sort_parts_def)

lemma sort_parts_sorted: "sorted (map mpp_PartNumber ps) \<Longrightarrow> sort_parts ps = ps"
  by (simp add: sort_parts_def sorted_sort_id sort_key_id_if_sorted)

section \<open>The contract\<close>

locale upload_store =
  fixes us :: "'u UploadStore" and sessions :: "'u \<Rightarrow> string \<Rightarrow> Upload option"
  assumes create_law: "us_Create us u s = Inr s' \<Longrightarrow>
      up_ID u \<noteq> [] \<and> sessions s (up_ID u) = None \<and> sessions s' = (sessions s)(up_ID u \<mapsto> u\<lparr>up_parts := []\<rparr>)"
    and create_total: "up_ID u \<noteq> [] \<Longrightarrow> sessions s (up_ID u) = None \<Longrightarrow> is_ok (us_Create us u s)"
    and get_law: "us_Get us t i s = (case sessions s i of None \<Rightarrow> Inl MPNotFound
      | Some u \<Rightarrow> if up_TenantID u = t then Inr u else Inl MPNotFound)"
    and update_law: "sessions (us_Update us i f s) = (sessions s)(i := map_option f (sessions s i))"
    and put_part_law: "us_PutPart us t i p s = Inr s' \<Longrightarrow>
      \<exists>u. sessions s i = Some u \<and> up_TenantID u = t
        \<and> sessions s' = (sessions s)(i \<mapsto> u\<lparr>up_parts := gm_set (mpp_PartNumber p) p (up_parts u)\<rparr>)"
    and put_part_total: "sessions s i = Some u \<Longrightarrow> up_TenantID u = t \<Longrightarrow> mpp_PartNumber p > 0 \<Longrightarrow> is_ok (us_PutPart us t i p s)"
    and complete_ok: "us_Complete us i t b k refs s = (Inr (ps, u), s') \<Longrightarrow>
      sessions s i = Some u \<and> up_TenantID u = t \<and> up_Bucket u = b \<and> up_ObjectKey u = k
        \<and> (\<exists>qs. claimed_parts u refs = Inr qs \<and> ps = sort_parts qs) \<and> sessions s' = (sessions s)(i := None)"
    and complete_err: "us_Complete us i t b k refs s = (Inl e, s') \<Longrightarrow> sessions s' = sessions s"
    and complete_total: "sessions s i = Some u \<Longrightarrow> up_TenantID u = t \<Longrightarrow> up_Bucket u = b \<Longrightarrow> up_ObjectKey u = k \<Longrightarrow>
      claimed_parts u refs = Inr qs \<Longrightarrow> is_ok (fst (us_Complete us i t b k refs s))"
    and abort_ok: "us_Abort us i t s = (Inr (u, ps), s') \<Longrightarrow>
      sessions s i = Some u \<and> up_TenantID u = t \<and> ps = SortedParts u \<and> sessions s' = (sessions s)(i := None)"
    and abort_err: "us_Abort us i t s = (Inl e, s') \<Longrightarrow> sessions s' = sessions s"
begin

text \<open>No call with another tenant's name reaches a session or changes it.\<close>

lemma foreign_get: "sessions s i = Some u \<Longrightarrow> up_TenantID u \<noteq> t \<Longrightarrow> us_Get us t i s = Inl MPNotFound"
  by (simp add: get_law)

lemma foreign_put_part: "sessions s i = Some u \<Longrightarrow> up_TenantID u \<noteq> t \<Longrightarrow> \<not> is_ok (us_PutPart us t i p s)"
  using put_part_law [of t i p s] by (cases "us_PutPart us t i p s") auto

lemma foreign_complete: "sessions s i = Some u \<Longrightarrow> up_TenantID u \<noteq> t \<Longrightarrow> sessions (snd (us_Complete us i t b k refs s)) = sessions s"
  using complete_ok [of i t b k refs s] complete_err [of i t b k refs s]
  by (cases "us_Complete us i t b k refs s"; cases "fst (us_Complete us i t b k refs s)") fastforce+

lemma foreign_abort: "sessions s i = Some u \<Longrightarrow> up_TenantID u \<noteq> t \<Longrightarrow> sessions (snd (us_Abort us i t s)) = sessions s"
  using abort_ok [of i t s] abort_err [of i t s]
  by (cases "us_Abort us i t s"; cases "fst (us_Abort us i t s)") fastforce+

text \<open>A session can be finished once: after \<open>Complete\<close> no call finds it.\<close>

lemma complete_once:
  assumes "us_Complete us i t b k refs s = (Inr (ps, u), s')"
  shows "us_Get us t' i s' = Inl MPNotFound" "\<not> is_ok (us_PutPart us t' i p s')"
    "\<not> is_ok (fst (us_Complete us i t' b' k' refs' s'))"
proof -
  have none: "sessions s' i = None"
    using complete_ok [OF assms] by simp
  then show "us_Get us t' i s' = Inl MPNotFound"
    by (simp add: get_law)
  show "\<not> is_ok (us_PutPart us t' i p s')"
    using put_part_law [of t' i p s'] none by (cases "us_PutPart us t' i p s'") auto
  show "\<not> is_ok (fst (us_Complete us i t' b' k' refs' s'))"
    using complete_ok [of i t' b' k' refs' s'] none
    by (cases "us_Complete us i t' b' k' refs' s'"; cases "fst (us_Complete us i t' b' k' refs' s')") fastforce+
qed

end

lemma mp_views:
  "sessions = gm_get \<Longrightarrow> mp_Create u s = Inr s' \<Longrightarrow>
    up_ID u \<noteq> [] \<and> sessions s (up_ID u) = None \<and> sessions s' = (sessions s)(up_ID u \<mapsto> u\<lparr>up_parts := []\<rparr>)"
  by (auto simp: mp_Create_def store_simps fun_eq_iff split: if_splits)

lemma mp_Complete_laws:
  "mp_Complete i t b k refs s = (Inr (ps, u), s') \<Longrightarrow>
      gm_get s i = Some u \<and> up_TenantID u = t \<and> up_Bucket u = b \<and> up_ObjectKey u = k
        \<and> (\<exists>qs. claimed_parts u refs = Inr qs \<and> ps = sort_parts qs) \<and> gm_get s' = (gm_get s)(i := None)"
  "mp_Complete i t b k refs s = (Inl e, s') \<Longrightarrow> gm_get s' = gm_get s"
  by (auto simp: mp_Complete_def Let_def store_simps fun_eq_iff split: option.splits if_splits sum.splits)

interpretation mem_uploads: upload_store mp_memory_store gm_get
proof (unfold_locales, goal_cases)
  case (1 u s s')
  then show ?case
    by (intro mp_views) (simp_all add: mp_memory_store_def)
next
  case (7 i t b k refs s ps u s')
  then show ?case
    using mp_Complete_laws(1) [of i t b k refs s ps u s'] by (simp add: mp_memory_store_def)
next
  case (8 i t b k refs s e s')
  then show ?case
    using mp_Complete_laws(2) [of i t b k refs s e s'] by (simp add: mp_memory_store_def)
qed (auto simp: mp_memory_store_def mp_Create_def mp_Get_def mp_Update_def mp_PutPart_def mp_Complete_def mp_Abort_def SortedParts_def
    Let_def store_simps fun_eq_iff split: option.splits if_splits)

end
