(* ===== verification/Go_MD5.thy ===== *)
theory Go_MD5
  imports Go_Crypto
begin

text \<open>
  What the sources use of \<open>crypto/md5\<close> and of \<open>hex.DecodeString\<close>: the MD5 digest of a
  byte string (RFC 1321) and the reading of hexadecimal digits, the inverse of
  \<open>EncodeToString\<close>.
\<close>

unbundle bit_operations_syntax

section \<open>MD5\<close>

definition md5_K :: "u32 list" where
  "md5_K =
    [0xd76aa478, 0xe8c7b756, 0x242070db, 0xc1bdceee, 0xf57c0faf, 0x4787c62a, 0xa8304613, 0xfd469501,
     0x698098d8, 0x8b44f7af, 0xffff5bb1, 0x895cd7be, 0x6b901122, 0xfd987193, 0xa679438e, 0x49b40821,
     0xf61e2562, 0xc040b340, 0x265e5a51, 0xe9b6c7aa, 0xd62f105d, 0x02441453, 0xd8a1e681, 0xe7d3fbc8,
     0x21e1cde6, 0xc33707d6, 0xf4d50d87, 0x455a14ed, 0xa9e3e905, 0xfcefa3f8, 0x676f02d9, 0x8d2a4c8a,
     0xfffa3942, 0x8771f681, 0x6d9d6122, 0xfde5380c, 0xa4beea44, 0x4bdecfa9, 0xf6bb4b60, 0xbebfbc70,
     0x289b7ec6, 0xeaa127fa, 0xd4ef3085, 0x04881d05, 0xd9d4d039, 0xe6db99e5, 0x1fa27cf8, 0xc4ac5665,
     0xf4292244, 0x432aff97, 0xab9423a7, 0xfc93a039, 0x655b59c3, 0x8f0ccc92, 0xffeff47d, 0x85845dd1,
     0x6fa87e4f, 0xfe2ce6e0, 0xa3014314, 0x4e0811a1, 0xf7537e82, 0xbd3af235, 0x2ad7d2bb, 0xeb86d391]"

definition md5_shift :: "nat \<Rightarrow> nat" where
  "md5_shift i = [[7, 12, 17, 22], [5, 9, 14, 20], [4, 11, 16, 23], [6, 10, 15, 21]] ! (i div 16) ! (i mod 4)"

definition le32 :: "bytes \<Rightarrow> u32" where
  "le32 bs = be32 (rev bs)"

definition md5_pad :: "bytes \<Rightarrow> bytes" where
  "md5_pad m =
    (let n = length m; z = (119 - n mod 64) mod 64; bits = of_nat (8 * n) :: 64 word
     in m @ 0x80 # replicate z 0 @ map (\<lambda>i. ucast (drop_bit (8 * i) bits)) [0..<8])"

text \<open>One of the 64 operations on a block of 16 words.\<close>

fun md5_step :: "u32 list \<Rightarrow> u32 \<times> u32 \<times> u32 \<times> u32 \<Rightarrow> nat \<Rightarrow> u32 \<times> u32 \<times> u32 \<times> u32" where
  "md5_step ws (a, b, c, d) i =
    (let (f, g) =
       (if i < 16 then ((b AND c) OR (NOT b AND d), i)
        else if i < 32 then ((d AND b) OR (NOT d AND c), (5 * i + 1) mod 16)
        else if i < 48 then (b XOR c XOR d, (3 * i + 5) mod 16)
        else (c XOR (b OR NOT d), (7 * i) mod 16))
     in (d, b + word_rotl (md5_shift i) (a + f + md5_K ! i + ws ! g), b, c))"

fun md5_block :: "u32 \<times> u32 \<times> u32 \<times> u32 \<Rightarrow> bytes \<Rightarrow> u32 \<times> u32 \<times> u32 \<times> u32" where
  "md5_block (a, b, c, d) blk =
    (case foldl (md5_step (map le32 (blocks 4 blk))) (a, b, c, d) [0..<64] of
       (a', b', c', d') \<Rightarrow> (a + a', b + b', c + c', d + d'))"

definition md5 :: "bytes \<Rightarrow> bytes" where
  "md5 m =
    (case foldl md5_block (0x67452301, 0xefcdab89, 0x98badcfe, 0x10325476) (blocks 64 (md5_pad m)) of
       (a, b, c, d) \<Rightarrow> concat (map (\<lambda>w. rev (bytes_of_be32 w)) [a, b, c, d]))"

section \<open>Reading hexadecimal\<close>

definition hex_value :: "char \<Rightarrow> nat option" where
  "hex_value c =
    (let n = of_char c :: nat in
     if 48 \<le> n \<and> n \<le> 57 then Some (n - 48)
     else if 97 \<le> n \<and> n \<le> 102 then Some (n - 87)
     else if 65 \<le> n \<and> n \<le> 70 then Some (n - 55)
     else None)"

text \<open>None stands for the error of an odd length or a character that is no digit.\<close>

fun DecodeString :: "string \<Rightarrow> bytes option" where
  "DecodeString [] = Some []"
| "DecodeString [c] = None"
| "DecodeString (c # d # s) =
    (case (hex_value c, hex_value d, DecodeString s) of
       (Some x, Some y, Some bs) \<Rightarrow> Some (of_nat (16 * x + y) # bs)
     | _ \<Rightarrow> None)"

section \<open>Facts\<close>

lemma length_md5 [simp]: "length (md5 m) = 16"
  by (simp add: md5_def bytes_of_be32_def split: prod.split)

lemma hex_value_digit: "n < 16 \<Longrightarrow> hex_value (hex_digit n) = Some n"
  by (auto simp: hex_value_def hex_digit_def Let_def of_char_of take_bit_eq_mod)

theorem Decode_Encode: "DecodeString (EncodeToString bs) = Some bs"
proof (induction bs)
  case (Cons b bs)
  have "unat b < 256"
    using unsigned_less [of b] by simp
  then have "hex_value (hex_digit (unat b div 16)) = Some (unat b div 16)"
    "hex_value (hex_digit (unat b mod 16)) = Some (unat b mod 16)"
    by (simp_all add: hex_value_digit less_mult_imp_div_less)
  with Cons show ?case
    by (simp add: EncodeToString_def)
qed (simp add: EncodeToString_def)

text \<open>The digest of "abc", from the RFC's test suite.\<close>

lemma md5_abc: "EncodeToString (md5 [97, 98, 99]) = ''900150983cd24fb0d6963f7d28e17f72''"
  by code_simp

end
