(* ===== verification/S3_Multipart.thy ===== *)
theory S3_Multipart
  imports S3_Gateway Multipart_Store Go_MD5
begin

text \<open>
  The multipart handlers of the S3 gateway (\<open>src/api/s3compat/multipart_handler.go\<close>,
  \<open>multipart_metadata.go\<close>): create, upload a part, complete, abort and list, with the
  two deduplication passes that run when an upload completes.

  The state is that of the other handlers together with the session store.
  \<open>UploadPart\<close> is the composition of its three stages (look the session up and seal the
  part, write the piece, record the part), which other requests may come between.
  XML documents are exchanged decoded: \<open>CompleteMultipartUpload\<close> takes the part list,
  None where decoding fails, and create and complete return the upload identifier and
  the object's ETag beside the response.  A session in a gateway-encrypted mode exists
  only where encryption is configured; the consolidation answers as for a failed
  wrapping where it is not.  Scrubbing of keys has no counterpart on values.
\<close>

record ('m, 'i, 'p, 'b, 'u) Multi =
  mh_cfg :: "('m, 'i, 'p, 'b) Config"
  mh_Multipart :: "'u UploadStore option"

type_synonym ('m, 'i, 'p, 'b, 'u) MPState = "('m, 'i, 'p, 'b) Gateway \<times> 'u"

section \<open>Sessions and their encryption\<close>

definition uploadAADIdentity :: "Upload \<Rightarrow> aadIdentity" where
  "uploadAADIdentity u = \<lparr>ai_TenantID = up_TenantID u, ai_Bucket = up_Bucket u,
     ai_ObjectKeyHash = hashObjectKey (up_ObjectKey u), ai_VersionID = up_VersionID u\<rparr>"

definition partsEncryptionConfig :: "Upload \<Rightarrow> EncryptionConfig" where
  "partsEncryptionConfig u =
    (if up_VersionID u = [] then zero_EncryptionConfig else zero_EncryptionConfig\<lparr>en_AADVersion := AADVersionV1\<rparr>)"

definition multipartDedupEligible :: "('m, 'i, 'p, 'b) Config \<Rightarrow> Upload \<Rightarrow> bool" where
  "multipartDedupEligible cfg u \<longleftrightarrow> dedupEnabled cfg (up_Policy u) \<and> (up_EncMode u = StrictZK \<or> up_EncMode u = [])"

definition captureMultipartObjectMetadata :: "Header \<Rightarrow> MPObjectMetadata" where
  "captureMultipartObjectMetadata h =
    (let tmp = applyRequestObjectMetadata zero_ObjectManifest h in
     \<lparr>om_Tags = requestObjectTags (HeaderGet h ''x-amz-tagging''), om_ContentType = m_ContentType tmp,
      om_ContentEncoding = m_ContentEncoding tmp, om_ContentDisposition = m_ContentDisposition tmp,
      om_ContentLanguage = m_ContentLanguage tmp, om_CacheControl = m_CacheControl tmp,
      om_Expires = m_Expires tmp, om_UserMetadata = m_UserMetadata tmp\<rparr>)"

definition applyMultipartObjectMetadata :: "ObjectManifest \<Rightarrow> MPObjectMetadata \<Rightarrow> ObjectManifest" where
  "applyMultipartObjectMetadata m md = m\<lparr>m_Tags := om_Tags md, m_ContentType := om_ContentType md,
     m_ContentEncoding := om_ContentEncoding md, m_ContentDisposition := om_ContentDisposition md,
     m_ContentLanguage := om_ContentLanguage md, m_CacheControl := om_CacheControl md,
     m_Expires := om_Expires md, m_UserMetadata := om_UserMetadata md\<rparr>"

definition partPieceID :: "string \<Rightarrow> int \<Rightarrow> string" where
  "partPieceID uploadID partNumber = uploadID @ ''-p'' @ pad_decimal 5 partNumber"

definition newUploadID :: "bytes list \<Rightarrow> (string, string \<times> bytes list) result" where
  "newUploadID rand = (case rand of [] \<Rightarrow> Inl ''rand'' | b # rest \<Rightarrow> Inr (EncodeToString b, rest))"

section \<open>Create\<close>

text \<open>The guards of the handler up to the effective encryption mode.\<close>

definition create_admission :: "('m, 'i, 'p, 'b) Config \<Rightarrow> Request \<Rightarrow> ('m, 'i, 'p, 'b) Gateway
    \<Rightarrow> (Response, string \<times> string \<times> string \<times> string \<times> PlacementPolicy) result" where
  "create_admission cfg rq g =
    (case authenticate cfg rq of
       Inl e \<Rightarrow> Inl (writeAuthError e)
     | Inr tenantID \<Rightarrow>
     (case parseBucketKey (rq_Path rq) of (bucket, key) \<Rightarrow>
     if bucket = [] \<or> key = [] then Inl (writeError 400 ''InvalidArgument'')
     else (case parseObjectTaggingHeader (HeaderGet (rq_Header rq) ''x-amz-tagging'') of
       Inl (code, s3code) \<Rightarrow> Inl (writeError code s3code)
     | Inr _ \<Rightarrow>
     (case validateRequestObjectMetadata (rq_Header rq) of
       Inl (code, s3code) \<Rightarrow> Inl (writeError code s3code)
     | Inr _ \<Rightarrow>
     (case cfg_Placement cfg of
       None \<Rightarrow> Inl (writeError 503 ''ServiceUnavailable'')
     | Some placement \<Rightarrow>
     (case placement tenantID bucket key of
       Inl _ \<Rightarrow> Inl (writeError 400 ''InvalidPlacement'')
     | Inr (backend, policy) \<Rightarrow>
     (case cfg_Providers cfg backend of
       None \<Rightarrow> Inl (writeError 500 ''BackendNotRegistered'')
     | Some provider \<Rightarrow>
     (case (case cfg_Residency cfg of None \<Rightarrow> Inr ()
            | Some chk \<Rightarrow> chk tenantID (pl_Country (sp_PlacementLabels provider)) (pp_Residency policy)) of
       Inl _ \<Rightarrow> Inl (writeError 403 ''DataResidencyViolation'')
     | Inr _ \<Rightarrow>
     (case effectiveEncryptionMode cfg tenantID bucket policy g of
       Inl _ \<Rightarrow> Inl (writeError 500 ''EncryptionNotConfigured'')
     | Inr effMode \<Rightarrow> Inr (tenantID, bucket, key, backend, policy\<lparr>pp_EncryptionMode := effMode\<rparr>))))))))))"

definition new_upload :: "Request \<Rightarrow> string \<Rightarrow> string \<Rightarrow> string \<Rightarrow> string \<Rightarrow> string \<Rightarrow> PlacementPolicy \<Rightarrow> Upload" where
  "new_upload rq uploadID tenantID bucket key backend policy =
    (let now = rq_now rq 1 in
     \<lparr>up_ID = uploadID, up_TenantID = tenantID, up_Bucket = bucket, up_ObjectKey = key, up_Backend = backend,
      up_Policy = policy, up_CreatedAt = now, up_VersionID = newPieceID tenantID bucket key now,
      up_EncMode = pp_EncryptionMode policy, up_DEKMaterial = [], up_WrappedDEK = [], up_WrappedKeyID = [],
      up_WrapAlgorithm = [], up_ContentAlgorithm = [], up_Metadata = captureMultipartObjectMetadata (rq_Header rq),
      up_PartHashes = [], up_PlaintextPartHashes = [], up_parts = []\<rparr>)"

text \<open>The key of the session, for the modes in which the gateway seals the parts.\<close>

definition session_key :: "('m, 'i, 'p, 'b) Config \<Rightarrow> bytes list \<Rightarrow> Upload \<Rightarrow> (Response, Upload) result" where
  "session_key cfg rand u =
    (if \<not> IsGatewayEncrypted (up_EncMode u) then Inr u
     else case cfg_Encryption cfg of
       None \<Rightarrow> Inl (writeError 500 ''EncryptionNotConfigured'')
     | Some ge \<Rightarrow>
     (case GenerateDEK rand of
       Inl _ \<Rightarrow> Inl (writeError 500 ''DEKGenerationFailed'')
     | Inr (dek, rand1) \<Rightarrow>
     (case ge_WrapDEK ge dek (ge_CMK ge) rand1 of
       Inl _ \<Rightarrow> Inl (writeError 500 ''DEKWrapFailed'')
     | Inr (wrapped, rand2) \<Rightarrow>
         Inr (u\<lparr>up_DEKMaterial := dek, up_WrappedDEK := wd_WrappedKey wrapped, up_WrappedKeyID := wd_KeyID wrapped,
           up_WrapAlgorithm := wd_WrapAlgorithm wrapped, up_ContentAlgorithm := ContentAlgorithm\<rparr>))))"

definition CreateMultipartUpload :: "('m, 'i, 'p, 'b, 'u) Multi \<Rightarrow> Request \<Rightarrow> ('m, 'i, 'p, 'b, 'u) MPState
    \<Rightarrow> Response \<times> string \<times> ('m, 'i, 'p, 'b, 'u) MPState" where
  "CreateMultipartUpload mh rq st =
    (case mh_Multipart mh of
       None \<Rightarrow> (writeError 501 ''NotImplemented'', [], st)
     | Some us \<Rightarrow>
     (case create_admission (mh_cfg mh) rq (fst st) of
       Inl resp \<Rightarrow> (resp, [], st)
     | Inr (tenantID, bucket, key, backend, policy) \<Rightarrow>
     (case newUploadID (rq_rand rq) of
       Inl _ \<Rightarrow> (writeError 500 ''InternalError'', [], st)
     | Inr (uploadID, rand) \<Rightarrow>
     (case session_key (mh_cfg mh) rand (new_upload rq uploadID tenantID bucket key backend policy) of
       Inl resp \<Rightarrow> (resp, [], st)
     | Inr upload \<Rightarrow>
     (case us_Create us upload (snd st) of
       Inl _ \<Rightarrow> (writeError 500 ''MultipartCreateFailed'', [], st)
     | Inr u \<Rightarrow> (respond 200 [(''Content-Type'', ''application/xml'')], uploadID, (fst st, u)))))))"

section \<open>Upload a part\<close>

record part_upload =
  pu_TenantID :: string
  pu_UploadID :: string
  pu_PartNumber :: int
  pu_Upload :: Upload
  pu_Body :: "(string, bytes) result"
  pu_ContentLength :: int
  pu_PlaintextSize :: int

text \<open>The switch on the session's mode: the bytes to store, their announced length and the plaintext size,
  with the session after the plaintext digest was recorded.\<close>

definition seal_part :: "('m, 'i, 'p, 'b) Config \<Rightarrow> Request \<Rightarrow> 'u UploadStore \<Rightarrow> string \<Rightarrow> int \<Rightarrow> Upload \<Rightarrow> 'u
    \<Rightarrow> (Response, (string, bytes) result \<times> int \<times> int) result \<times> 'u" where
  "seal_part cfg rq us uploadID partNumber upload u =
    (if up_EncMode upload = ManagedEncrypted \<or> up_EncMode upload = PublicDistribution then
       (case ReadAll rq of
          Inl e \<Rightarrow> (Inl (writeBodyReadError e), u)
        | Inr plaintext \<Rightarrow>
            let u1 = (if dedupEnabled cfg (up_Policy upload)
                      then us_Update us uploadID (SetPlaintextPartHash partNumber (cfg_blake3 cfg plaintext)) u else u)
            in (case encryptWithDEK (cfg_Crypto cfg) plaintext (up_DEKMaterial upload) (partsEncryptionConfig upload)
                       (uploadAADIdentity upload) (rq_rand rq) of
                  Inl _ \<Rightarrow> (Inl (writeError 500 ''EncryptionFailed''), u1)
                | Inr ciphertext \<Rightarrow> (Inr (Inr ciphertext, int (length ciphertext), int (length plaintext)), u1)))
     else if up_EncMode upload = StrictZK \<and> HeaderGet (rq_Header rq) ''X-Amz-Meta-Zk-Encryption'' = []
     then (Inl (writeError 403 ''EncryptionRequired''), u)
     else (Inr (raw_body rq, rq_ContentLength rq, rq_ContentLength rq), u))"

definition upload_begin :: "('m, 'i, 'p, 'b) Config \<Rightarrow> 'u UploadStore \<Rightarrow> Request \<Rightarrow> 'u \<Rightarrow> (Response, part_upload) result \<times> 'u" where
  "upload_begin cfg us rq u =
    (case authenticate cfg rq of
       Inl e \<Rightarrow> (Inl (writeAuthError e), u)
     | Inr tenantID \<Rightarrow>
     let uploadID = QueryGet (rq_RawQuery rq) ''uploadId'' in
     (case ParseInt (QueryGet (rq_RawQuery rq) ''partNumber'') of
       Inl _ \<Rightarrow> (Inl (writeError 400 ''InvalidArgument''), u)
     | Inr partNumber \<Rightarrow>
     if partNumber < 1 \<or> partNumber > 10000 then (Inl (writeError 400 ''InvalidArgument''), u)
     else (case us_Get us tenantID uploadID u of
       Inl MPNotFound \<Rightarrow> (Inl (writeError 404 ''NoSuchUpload''), u)
     | Inl _ \<Rightarrow> (Inl (writeError 500 ''MultipartGetFailed''), u)
     | Inr upload \<Rightarrow>
     if up_TenantID upload \<noteq> tenantID then (Inl (writeError 404 ''NoSuchUpload''), u)
     else (case cfg_Providers cfg (up_Backend upload) of
       None \<Rightarrow> (Inl (writeError 500 ''BackendNotRegistered''), u)
     | Some provider \<Rightarrow>
     (case seal_part cfg rq us uploadID partNumber upload u of
       (Inl resp, u1) \<Rightarrow> (Inl resp, u1)
     | (Inr (body, contentLength, plaintextSize), u1) \<Rightarrow>
         (Inr \<lparr>pu_TenantID = tenantID, pu_UploadID = uploadID, pu_PartNumber = partNumber, pu_Upload = upload,
               pu_Body = body, pu_ContentLength = contentLength, pu_PlaintextSize = plaintextSize\<rparr>, u1))))))"

text \<open>The piece is written and its digest recorded through the session pointer.\<close>

definition upload_write :: "('m, 'i, 'p, 'b) Config \<Rightarrow> 'u UploadStore \<Rightarrow> Request \<Rightarrow> part_upload \<Rightarrow> ('m, 'i, 'p, 'b, 'u) MPState
    \<Rightarrow> (Response, PutResult) result \<times> ('m, 'i, 'p, 'b, 'u) MPState" where
  "upload_write cfg us rq pu st =
    (case cfg_Providers cfg (up_Backend (pu_Upload pu)) of
       None \<Rightarrow> (Inl (writeError 500 ''BackendNotRegistered''), st)
     | Some provider \<Rightarrow>
     (case gw_put provider (up_Backend (pu_Upload pu)) (partPieceID (pu_UploadID pu) (pu_PartNumber pu)) (pu_Body pu)
             (put_options (pu_ContentLength pu) rq) (fst st) of
       (Inl _, g1) \<Rightarrow> (Inl (writePutPieceError (case pu_Body pu of Inl _ \<Rightarrow> rq_BodyErr rq | Inr _ \<Rightarrow> None)), (g1, snd st))
     | (Inr res, g1) \<Rightarrow>
         (Inr res, (g1, us_Update us (pu_UploadID pu)
            (SetPartHash (pu_PartNumber pu) (cfg_blake3 cfg (projr (pu_Body pu)))) (snd st)))))"

definition upload_record :: "('m, 'i, 'p, 'b) Config \<Rightarrow> 'u UploadStore \<Rightarrow> Request \<Rightarrow> part_upload \<Rightarrow> PutResult \<Rightarrow> ('m, 'i, 'p, 'b, 'u) MPState
    \<Rightarrow> Response \<times> ('m, 'i, 'p, 'b, 'u) MPState" where
  "upload_record cfg us rq pu res st =
    (let upload = pu_Upload pu;
         recordedSize = (if IsGatewayEncrypted (up_EncMode upload) then pu_PlaintextSize pu else pr_SizeBytes res)
     in (case us_PutPart us (pu_TenantID pu) (pu_UploadID pu)
                \<lparr>mpp_PartNumber = pu_PartNumber pu, mpp_PieceID = pr_PieceID res, mpp_Backend = up_Backend upload,
                 mpp_ETag = pr_ETag res, mpp_SizeBytes = recordedSize, mpp_UploadedAt = rq_now rq 1\<rparr> (snd st) of
           Inl _ \<Rightarrow> (writeError 500 ''MultipartPutPartFailed'',
                    (gw_delete cfg (up_Backend upload) (partPieceID (pu_UploadID pu) (pu_PartNumber pu)) (fst st), snd st))
         | Inr u \<Rightarrow>
             (respond 200 (if pr_ETag res \<noteq> [] then [(''ETag'', quote (pr_ETag res))] else []),
              (emit_if (pr_SizeBytes res > 0) cfg (pu_TenantID pu) (up_Bucket upload) ''storage_bytes_seconds'' (pr_SizeBytes res)
                 (emit cfg (pu_TenantID pu) (up_Bucket upload) ''put_requests'' 1 (fst st)), u))))"

definition UploadPart :: "('m, 'i, 'p, 'b, 'u) Multi \<Rightarrow> Request \<Rightarrow> ('m, 'i, 'p, 'b, 'u) MPState \<Rightarrow> Response \<times> ('m, 'i, 'p, 'b, 'u) MPState" where
  "UploadPart mh rq st =
    (case mh_Multipart mh of
       None \<Rightarrow> (writeError 501 ''NotImplemented'', st)
     | Some us \<Rightarrow>
     (case upload_begin (mh_cfg mh) us rq (snd st) of
       (Inl resp, u1) \<Rightarrow> (resp, (fst st, u1))
     | (Inr pu, u1) \<Rightarrow>
     (case upload_write (mh_cfg mh) us rq pu (fst st, u1) of
       (Inl resp, st2) \<Rightarrow> (resp, st2)
     | (Inr res, st2) \<Rightarrow> upload_record (mh_cfg mh) us rq pu res st2)))"

section \<open>Complete\<close>

definition part_hash_string :: "Upload \<Rightarrow> int \<Rightarrow> string" where
  "part_hash_string upload partNumber =
    (case PartHash upload partNumber of
       None \<Rightarrow> []
     | Some raw \<Rightarrow> if raw = [] then [] else ''blake3:'' @ EncodeToString raw)"

definition part_piece :: "Upload \<Rightarrow> MPart \<Rightarrow> Piece" where
  "part_piece upload p = zero_Piece\<lparr>p_PieceID := mpp_PieceID p, p_Hash := part_hash_string upload (mpp_PartNumber p),
     p_ProviderETag := mpp_ETag p, p_Backend := mpp_Backend p, p_State := ''active'', p_PartNumber := mpp_PartNumber p,
     p_SizeBytes := mpp_SizeBytes p\<rparr>"

text \<open>The sum is the wrapping one of int64.\<close>

definition wrap_int64 :: "int \<Rightarrow> int" where
  "wrap_int64 n = (n + 2 ^ 63) mod 2 ^ 64 - 2 ^ 63"

definition total_part_size :: "MPart list \<Rightarrow> int" where
  "total_part_size parts = foldl (\<lambda>n p. wrap_int64 (n + mpp_SizeBytes p)) 0 parts"

definition trim_quotes :: "string \<Rightarrow> string" where
  "trim_quotes s = (let q = (\<lambda>c. c = CHR 0x22) in rev (dropWhile q (rev (dropWhile q s))))"

definition etag_bytes :: "MPart \<Rightarrow> bytes" where
  "etag_bytes p =
    (let etag = trim_quotes (mpp_ETag p) in
     case DecodeString etag of
       Some b \<Rightarrow> if length b = 16 then b else bytes_of_string etag
     | None \<Rightarrow> bytes_of_string etag)"

definition computeMultipartETag :: "MPart list \<Rightarrow> string" where
  "computeMultipartETag parts =
    EncodeToString (md5 (concat (map etag_bytes parts))) @ ''-'' @ FormatUint (length parts)"

definition firstPartSize :: "MPart list \<Rightarrow> int" where
  "firstPartSize parts = (case parts of [] \<Rightarrow> 0 | p # _ \<Rightarrow> mpp_SizeBytes p)"

definition session_encryption :: "Upload \<Rightarrow> EncryptionConfig" where
  "session_encryption u =
    (let e = zero_EncryptionConfig\<lparr>en_Mode := up_EncMode u\<rparr> in
     if up_EncMode u = ManagedEncrypted \<or> up_EncMode u = PublicDistribution then
       e\<lparr>en_Algorithm := up_ContentAlgorithm u, en_KeyID := up_WrappedKeyID u, en_WrappedDEK := up_WrappedDEK u,
         en_WrapAlgorithm := up_WrapAlgorithm u, en_AADVersion := (if up_VersionID u \<noteq> [] then AADVersionV1 else [])\<rparr>
     else if up_EncMode u = StrictZK then e\<lparr>en_Algorithm := ContentAlgorithm\<rparr>
     else e)"

definition complete_manifest :: "Request \<Rightarrow> string \<Rightarrow> string \<Rightarrow> string \<Rightarrow> Upload \<Rightarrow> MPart list \<Rightarrow> ObjectManifest" where
  "complete_manifest rq tenantID bucket key upload parts =
    applyMultipartObjectMetadata
      (zero_ObjectManifest\<lparr>m_TenantID := tenantID, m_Bucket := bucket, m_ObjectKey := key,
         m_ObjectKeyHash := hashObjectKey key,
         m_VersionID := (if up_VersionID upload \<noteq> [] then up_VersionID upload else newPieceID tenantID bucket key (rq_now rq 1)),
         m_ObjectSize := total_part_size parts, m_ChunkSize := firstPartSize parts,
         m_Encryption := session_encryption upload, m_PlacementPolicy := up_Policy upload,
         m_Pieces := map (part_piece upload) parts,
         m_MigrationState := \<lparr>mg_Generation = 1, mg_PrimaryBackend = up_Backend upload, mg_CloudCopy = []\<rparr>,
         m_CreatedAt := rq_now rq 2\<rparr>)
      (up_Metadata upload)"

definition deleteUploadedParts :: "('m, 'i, 'p, 'b) Config \<Rightarrow> MPart list \<Rightarrow> ('m, 'i, 'p, 'b) Gateway \<Rightarrow> ('m, 'i, 'p, 'b) Gateway" where
  "deleteUploadedParts cfg parts = fold (\<lambda>p. gw_delete cfg (mpp_Backend p) (mpp_PieceID p)) parts"

subsection \<open>Deduplication of convergent parts\<close>

fun read_pieces :: "('m, 'i, 'p, 'b) Config \<Rightarrow> (string \<times> string) list \<Rightarrow> ('m, 'i, 'p, 'b) Gateway \<Rightarrow> (string, bytes list) result" where
  "read_pieces cfg [] g = Inr []"
| "read_pieces cfg ((backend, pieceID) # ps) g =
    (case cfg_Providers cfg backend of
       None \<Rightarrow> Inl ''s3compat: backend not registered''
     | Some provider \<Rightarrow>
         bind_result (sp_GetPiece provider pieceID None (gw_World g backend)) (\<lambda>b.
         bind_result (read_pieces cfg ps g) (\<lambda>bs. Inr (b # bs))))"

definition hashAssembledPieces :: "('m, 'i, 'p, 'b) Config \<Rightarrow> Piece list \<Rightarrow> ('m, 'i, 'p, 'b) Gateway \<Rightarrow> (string, string) result" where
  "hashAssembledPieces cfg ps g =
    bind_result (read_pieces cfg (map (\<lambda>p. (p_Backend p, p_PieceID p)) ps) g) (\<lambda>bs. Inr (content_hash (cfg_blake3 cfg) (concat bs)))"

definition computeMultipartContentHash :: "('m, 'i, 'p, 'b) Config \<Rightarrow> Upload \<Rightarrow> Piece list \<Rightarrow> MPart list \<Rightarrow> ('m, 'i, 'p, 'b) Gateway
    \<Rightarrow> (string, string) result" where
  "computeMultipartContentHash cfg upload ps parts g =
    (if ps = [] then Inl ''s3compat: multipart content hash: no pieces''
     else case those (map (\<lambda>p. PartHash upload (mpp_PartNumber p)) parts) of
       None \<Rightarrow> hashAssembledPieces cfg ps g
     | Some digests \<Rightarrow>
         if length ps = 1 then Inr (formatContentHash (EncodeToString (hd digests)))
         else Inr (content_hash (cfg_blake3 cfg) (concat digests)))"

definition pieceRefsFromParts :: "MPart list \<Rightarrow> PieceRef list" where
  "pieceRefsFromParts parts = map (\<lambda>p. \<lparr>pf_PieceID = mpp_PieceID p, pf_Backend = mpp_Backend p,
     pf_PartNumber = mpp_PartNumber p, pf_SizeBytes = mpp_SizeBytes p\<rparr>) parts"

definition set_primary :: "string \<Rightarrow> ObjectManifest \<Rightarrow> ObjectManifest" where
  "set_primary backend m = m\<lparr>m_MigrationState := (m_MigrationState m)\<lparr>mg_PrimaryBackend := backend\<rparr>\<rparr>"

fun redirect_parts :: "(int, PieceRef) gomap \<Rightarrow> Piece list \<Rightarrow> (string, Piece list) result" where
  "redirect_parts byPart [] = Inr []"
| "redirect_parts byPart (p # ps) =
    (case gm_get byPart (p_PartNumber p) of
       None \<Rightarrow> Inl ''s3compat: dedup redirect: canonical missing part''
     | Some ref \<Rightarrow> bind_result (redirect_parts byPart ps) (\<lambda>qs.
         Inr (p\<lparr>p_PieceID := pf_PieceID ref, p_Backend := pf_Backend ref, p_SizeBytes := pf_SizeBytes ref\<rparr> # qs)))"

definition redirectManifestToCanonical :: "ObjectManifest \<Rightarrow> ContentIndexEntry \<Rightarrow> (string, ObjectManifest) result" where
  "redirectManifestToCanonical m e =
    (if ce_PieceIDs e = [] then
       (case m_Pieces m of
          [p] \<Rightarrow> Inr (set_primary (ce_Backend e)
             (m\<lparr>m_Pieces := [p\<lparr>p_PieceID := ce_PieceID e, p_Backend := ce_Backend e, p_Hash := [],
                p_ProviderETag := ce_ETag e, p_SizeBytes := ce_SizeBytes e\<rparr>]\<rparr>))
        | _ \<Rightarrow> Inl ''s3compat: dedup redirect: canonical is single-piece'')
     else
       bind_result (redirect_parts (fold (\<lambda>ref. gm_set (pf_PartNumber ref) ref) (ce_PieceIDs e) []) (m_Pieces m)) (\<lambda>qs.
         Inr (case qs of [] \<Rightarrow> m\<lparr>m_Pieces := qs\<rparr> | q # _ \<Rightarrow> set_primary (p_Backend q) (m\<lparr>m_Pieces := qs\<rparr>))))"

definition parts_entry :: "string \<Rightarrow> string \<Rightarrow> MPart list \<Rightarrow> ContentIndexEntry" where
  "parts_entry tenantID contentHash parts =
    \<lparr>ce_TenantID = tenantID, ce_ContentHash = contentHash, ce_PieceID = mpp_PieceID (hd parts), ce_Backend = mpp_Backend (hd parts),
     ce_RefCount = 0, ce_SizeBytes = (if length parts > 1 then total_part_size parts else mpp_SizeBytes (hd parts)),
     ce_ETag = mpp_ETag (hd parts), ce_PieceIDs = (if length parts > 1 then pieceRefsFromParts parts else []),
     ce_PlaintextHash = [], ce_CreatedAt = zero_time\<rparr>"

text \<open>The manifest is pointed at a row that already carries this upload's reference, which is given back when it cannot be.\<close>

definition redirect_or_release :: "('m, 'i, 'p, 'b) Config \<Rightarrow> 'i ContentIndex \<Rightarrow> string \<Rightarrow> string \<Rightarrow> string \<Rightarrow> ObjectManifest
    \<Rightarrow> ContentIndexEntry \<Rightarrow> ('m, 'i, 'p, 'b) Gateway \<Rightarrow> (Response, ObjectManifest) result \<times> ('m, 'i, 'p, 'b) Gateway" where
  "redirect_or_release cfg ci tenantID bucket contentHash m e g =
    (case redirectManifestToCanonical m e of
       Inl _ \<Rightarrow> (Inl (writeError 500 ''DedupRedirectFailed''), gw_decrement ci tenantID contentHash g)
     | Inr m' \<Rightarrow> (Inr m', emit_hit cfg tenantID bucket e g))"

definition dedup_convergent_parts :: "('m, 'i, 'p, 'b) Config \<Rightarrow> 'i ContentIndex \<Rightarrow> Request \<Rightarrow> string \<Rightarrow> string \<Rightarrow> Upload \<Rightarrow> MPart list
    \<Rightarrow> ObjectManifest \<Rightarrow> ('m, 'i, 'p, 'b) Gateway \<Rightarrow> (Response, ObjectManifest) result \<times> ('m, 'i, 'p, 'b) Gateway" where
  "dedup_convergent_parts cfg ci rq tenantID bucket upload parts m0 g =
    (case computeMultipartContentHash cfg upload (m_Pieces m0) parts g of
       Inl _ \<Rightarrow> (Inl (writeError 500 ''DedupHashFailed''), deleteUploadedParts cfg parts g)
     | Inr contentHash \<Rightarrow>
     let m = m0\<lparr>m_ContentHash := contentHash\<rparr> in
     (case ci_Lookup ci tenantID contentHash (gw_Index g) of
       Inr existing \<Rightarrow>
         (case ci_IncrementRef ci tenantID contentHash (gw_Index g) of
            Inl _ \<Rightarrow> (Inl (writeError 500 ''ContentIndexIncrementFailed''), deleteUploadedParts cfg parts g)
          | Inr idx \<Rightarrow>
              redirect_or_release cfg ci tenantID bucket contentHash m existing (deleteUploadedParts cfg parts (g\<lparr>gw_Index := idx\<rparr>)))
     | Inl CINotFound \<Rightarrow>
         (case registerDedupedPiece ci (rq_now rq 4) (parts_entry tenantID contentHash parts) (gw_Index g) of
            Inl _ \<Rightarrow> (Inl (writeError 500 ''ContentIndexRegisterFailed''), deleteUploadedParts cfg parts g)
          | Inr (False, idx) \<Rightarrow> (Inr m, g\<lparr>gw_Index := idx\<rparr>)
          | Inr (True, idx) \<Rightarrow>
              let g1 = deleteUploadedParts cfg parts (g\<lparr>gw_Index := idx\<rparr>) in
              (case ci_Lookup ci tenantID contentHash (gw_Index g1) of
                 Inl _ \<Rightarrow> (Inl (writeError 500 ''ContentIndexLookupFailed''), gw_decrement ci tenantID contentHash g1)
               | Inr canonical \<Rightarrow> redirect_or_release cfg ci tenantID bucket contentHash m canonical g1))
     | Inl _ \<Rightarrow> (Inl (writeError 500 ''ContentIndexLookupFailed''), deleteUploadedParts cfg parts g)))"

subsection \<open>Consolidation of sealed parts\<close>

fun assembleManagedMultipartPlaintext :: "('m, 'i, 'p, 'b) Config \<Rightarrow> Upload \<Rightarrow> MPart list \<Rightarrow> ('m, 'i, 'p, 'b) Gateway \<Rightarrow> (string, bytes) result" where
  "assembleManagedMultipartPlaintext cfg upload [] g = Inr []"
| "assembleManagedMultipartPlaintext cfg upload (p # ps) g =
    (case cfg_Providers cfg (mpp_Backend p) of
       None \<Rightarrow> Inl ''s3compat: consolidate: backend not registered''
     | Some provider \<Rightarrow>
         bind_result (sp_GetPiece provider (mpp_PieceID p) None (gw_World g (mpp_Backend p))) (\<lambda>ciphertext.
         bind_result (decryptWithDEK (cfg_Crypto cfg) ciphertext (up_DEKMaterial upload) (partsEncryptionConfig upload) (uploadAADIdentity upload)) (\<lambda>pt.
         bind_result (assembleManagedMultipartPlaintext cfg upload ps g) (\<lambda>rest. Inr (pt @ rest)))))"

definition convergent_config :: "string \<Rightarrow> WrappedDEK \<Rightarrow> EncryptionConfig" where
  "convergent_config encMode w = zero_EncryptionConfig\<lparr>en_Mode := encMode, en_Algorithm := ContentAlgorithm,
     en_KeyID := wd_KeyID w, en_WrappedDEK := wd_WrappedKey w, en_WrapAlgorithm := wd_WrapAlgorithm w\<rparr>"

definition deriveConvergentEncryptionConfig :: "('m, 'i, 'p, 'b) Config \<Rightarrow> bytes \<Rightarrow> string \<Rightarrow> string \<Rightarrow> bytes list \<Rightarrow> (string, EncryptionConfig) result" where
  "deriveConvergentEncryptionConfig cfg combinedDigest tenantID encMode rand =
    (case cfg_Encryption cfg of
       None \<Rightarrow> Inl ''s3compat: gateway encryption is not configured''
     | Some ge \<Rightarrow>
         bind_result (DeriveConvergentDEK (cfg_Crypto cfg) combinedDigest tenantID) (\<lambda>dek.
         bind_result (ge_WrapDEK ge dek (ge_CMK ge) rand) (\<lambda>(wrapped, rest). Inr (convergent_config encMode wrapped))))"

text \<open>The manifest with its pieces replaced by a single one.\<close>

definition single_piece_manifest :: "string \<Rightarrow> string \<Rightarrow> string \<Rightarrow> string \<Rightarrow> int \<Rightarrow> string \<Rightarrow> EncryptionConfig \<Rightarrow> ObjectManifest \<Rightarrow> ObjectManifest" where
  "single_piece_manifest pieceID backend hash etag bytes' contentHash enc m =
    set_primary backend (m\<lparr>m_Pieces := [new_piece pieceID backend [] hash etag bytes'], m_ContentHash := contentHash,
      m_ChunkSize := bytes', m_Encryption := enc\<rparr>)"

definition canonical_manifest :: "ContentIndexEntry \<Rightarrow> EncryptionConfig \<Rightarrow> ObjectManifest \<Rightarrow> ObjectManifest" where
  "canonical_manifest e = single_piece_manifest (ce_PieceID e) (ce_Backend e) [] (ce_ETag e) (ce_SizeBytes e) (ce_ContentHash e)"

definition dedupManagedMultipartHit :: "('m, 'i, 'p, 'b) Config \<Rightarrow> 'i ContentIndex \<Rightarrow> Request \<Rightarrow> string \<Rightarrow> string \<Rightarrow> Upload \<Rightarrow> MPart list
    \<Rightarrow> bytes \<Rightarrow> ContentIndexEntry \<Rightarrow> ObjectManifest \<Rightarrow> ('m, 'i, 'p, 'b) Gateway \<Rightarrow> (Response, ObjectManifest) result \<times> ('m, 'i, 'p, 'b) Gateway" where
  "dedupManagedMultipartHit cfg ci rq tenantID bucket upload parts combinedDigest existing m g =
    (case ci_IncrementRef ci tenantID (ce_ContentHash existing) (gw_Index g) of
       Inl _ \<Rightarrow> (Inl (writeError 500 ''ContentIndexIncrementFailed''), deleteUploadedParts cfg parts g)
     | Inr idx \<Rightarrow>
     let g1 = g\<lparr>gw_Index := idx\<rparr> in
     (case deriveConvergentEncryptionConfig cfg combinedDigest tenantID (up_EncMode upload) (rq_rand rq) of
       Inl _ \<Rightarrow> (Inl (writeError 500 ''DedupConvergentDEKFailed''),
                deleteUploadedParts cfg parts (gw_decrement ci tenantID (ce_ContentHash existing) g1))
     | Inr enc \<Rightarrow> (Inr (canonical_manifest existing enc m), emit_hit cfg tenantID bucket existing (deleteUploadedParts cfg parts g1))))"

text \<open>The consolidated ciphertext with the key it is sealed under.\<close>

definition consolidate :: "('m, 'i, 'p, 'b) Config \<Rightarrow> Request \<Rightarrow> string \<Rightarrow> Upload \<Rightarrow> MPart list \<Rightarrow> bytes \<Rightarrow> ('m, 'i, 'p, 'b) Gateway
    \<Rightarrow> (Response, bytes \<times> bytes) result" where
  "consolidate cfg rq tenantID upload parts combinedDigest g =
    (case assembleManagedMultipartPlaintext cfg upload parts g of
       Inl _ \<Rightarrow> Inl (writeError 500 ''DedupConsolidateFailed'')
     | Inr plaintext \<Rightarrow>
     (case DeriveConvergentDEK (cfg_Crypto cfg) combinedDigest tenantID of
       Inl _ \<Rightarrow> Inl (writeError 500 ''DedupConvergentDEKFailed'')
     | Inr dek \<Rightarrow>
     (case EncryptObject plaintext None dek (zero_Options\<lparr>op_ConvergentNonce := True\<rparr>) (rq_rand rq) of
       Inl _ \<Rightarrow> Inl (writeError 500 ''DedupEncryptFailed'')
     | Inr er \<Rightarrow>
     (case drain (cfg_Crypto cfg) er of
       Inl _ \<Rightarrow> Inl (writeError 500 ''DedupReadCiphertextFailed'')
     | Inr ciphertext \<Rightarrow> Inr (dek, ciphertext)))))"

text \<open>The consolidated piece is registered; the parts go, and where another writer was first the piece goes too.\<close>

definition register_consolidated :: "('m, 'i, 'p, 'b) Config \<Rightarrow> 'i ContentIndex \<Rightarrow> Request \<Rightarrow> string \<Rightarrow> string \<Rightarrow> Upload \<Rightarrow> MPart list
    \<Rightarrow> string \<Rightarrow> string \<Rightarrow> PutResult \<Rightarrow> EncryptionConfig \<Rightarrow> ObjectManifest \<Rightarrow> ('m, 'i, 'p, 'b) Gateway
    \<Rightarrow> (Response, ObjectManifest) result \<times> ('m, 'i, 'p, 'b) Gateway" where
  "register_consolidated cfg ci rq tenantID bucket upload parts contentHash plaintextHash putRes enc m g =
    (let backend = up_Backend upload in
     case registerDedupedPiece ci (rq_now rq 4)
            \<lparr>ce_TenantID = tenantID, ce_ContentHash = contentHash, ce_PieceID = pr_PieceID putRes, ce_Backend = backend,
             ce_RefCount = 0, ce_SizeBytes = pr_SizeBytes putRes, ce_ETag = pr_ETag putRes, ce_PieceIDs = [],
             ce_PlaintextHash = plaintextHash, ce_CreatedAt = zero_time\<rparr> (gw_Index g) of
       Inl _ \<Rightarrow> (Inl (writeError 500 ''ContentIndexRegisterFailed''),
                deleteUploadedParts cfg parts (gw_delete cfg backend (pr_PieceID putRes) g))
     | Inr (False, idx) \<Rightarrow>
         (Inr (single_piece_manifest (pr_PieceID putRes) backend contentHash (pr_ETag putRes) (pr_SizeBytes putRes) contentHash enc m),
          deleteUploadedParts cfg parts (g\<lparr>gw_Index := idx\<rparr>))
     | Inr (True, idx) \<Rightarrow>
         let g1 = gw_delete cfg backend (pr_PieceID putRes) (deleteUploadedParts cfg parts (g\<lparr>gw_Index := idx\<rparr>)) in
         (case ci_Lookup ci tenantID contentHash (gw_Index g1) of
            Inl _ \<Rightarrow> (Inl (writeError 500 ''ContentIndexLookupFailed''), gw_decrement ci tenantID contentHash g1)
          | Inr canonical \<Rightarrow> (Inr (canonical_manifest canonical enc m), emit_hit cfg tenantID bucket canonical g1)))"

definition dedupManagedMultipartMiss :: "('m, 'i, 'p, 'b) Config \<Rightarrow> 'i ContentIndex \<Rightarrow> Request \<Rightarrow> string \<Rightarrow> string \<Rightarrow> Upload \<Rightarrow> MPart list
    \<Rightarrow> bytes \<Rightarrow> string \<Rightarrow> ObjectManifest \<Rightarrow> ('m, 'i, 'p, 'b) Gateway \<Rightarrow> (Response, ObjectManifest) result \<times> ('m, 'i, 'p, 'b) Gateway" where
  "dedupManagedMultipartMiss cfg ci rq tenantID bucket upload parts combinedDigest plaintextHash m g =
    (case consolidate cfg rq tenantID upload parts combinedDigest g of
       Inl resp \<Rightarrow> (Inl resp, deleteUploadedParts cfg parts g)
     | Inr (dek, ciphertext) \<Rightarrow>
     (case cfg_Providers cfg (up_Backend upload) of
       None \<Rightarrow> (Inl (writeError 500 ''BackendNotRegistered''), deleteUploadedParts cfg parts g)
     | Some provider \<Rightarrow>
     (case gw_put provider (up_Backend upload) (newPieceID tenantID (up_Bucket upload) (up_ObjectKey upload) (rq_now rq 5)) (Inr ciphertext)
             \<lparr>po_ContentLength = int (length ciphertext), po_ContentType = [], po_StorageClass = [], po_IfNoneMatch = False\<rparr> g of
       (Inl _, g1) \<Rightarrow> (Inl (writeError 502 ''BackendPutFailed''), deleteUploadedParts cfg parts g1)
     | (Inr putRes, g1) \<Rightarrow>
     (case (case cfg_Encryption cfg of None \<Rightarrow> Inl ''wrap'' | Some ge \<Rightarrow> ge_WrapDEK ge dek (ge_CMK ge) (rq_rand rq)) of
       Inl _ \<Rightarrow> (Inl (writeError 500 ''DedupWrapDEKFailed''),
                deleteUploadedParts cfg parts (gw_delete cfg (up_Backend upload) (pr_PieceID putRes) g1))
     | Inr (wrapped, rest) \<Rightarrow>
         register_consolidated cfg ci rq tenantID bucket upload parts (content_hash (cfg_blake3 cfg) ciphertext) plaintextHash putRes
           (convergent_config (up_EncMode upload) wrapped) m g1))))"

definition dedupManagedMultipart :: "('m, 'i, 'p, 'b) Config \<Rightarrow> 'i ContentIndex \<Rightarrow> Request \<Rightarrow> string \<Rightarrow> string \<Rightarrow> Upload \<Rightarrow> MPart list
    \<Rightarrow> ObjectManifest \<Rightarrow> ('m, 'i, 'p, 'b) Gateway \<Rightarrow> (Response, ObjectManifest) result \<times> ('m, 'i, 'p, 'b) Gateway" where
  "dedupManagedMultipart cfg ci rq tenantID bucket upload parts m g =
    (case those (map (\<lambda>p. PlaintextPartHash upload (mpp_PartNumber p)) parts) of
       None \<Rightarrow> (Inr m, g)
     | Some digests \<Rightarrow>
     let combinedDigest = cfg_blake3 cfg (concat digests);
         plaintextHash = formatContentHash (EncodeToString combinedDigest)
     in (case ci_LookupByPlaintextHash ci tenantID plaintextHash (gw_Index g) of
       Inr existing \<Rightarrow> dedupManagedMultipartHit cfg ci rq tenantID bucket upload parts combinedDigest existing m g
     | Inl CINotFound \<Rightarrow> dedupManagedMultipartMiss cfg ci rq tenantID bucket upload parts combinedDigest plaintextHash m g
     | Inl _ \<Rightarrow> (Inl (writeError 500 ''ContentIndexLookupFailed''), deleteUploadedParts cfg parts g)))"

subsection \<open>The handler\<close>

definition multipart_dedup :: "('m, 'i, 'p, 'b) Config \<Rightarrow> Request \<Rightarrow> string \<Rightarrow> string \<Rightarrow> Upload \<Rightarrow> MPart list
    \<Rightarrow> ObjectManifest \<Rightarrow> ('m, 'i, 'p, 'b) Gateway \<Rightarrow> (Response, ObjectManifest) result \<times> ('m, 'i, 'p, 'b) Gateway" where
  "multipart_dedup cfg rq tenantID bucket upload parts m g =
    (case cfg_ContentIndex cfg of
       None \<Rightarrow> (Inr m, g)
     | Some ci \<Rightarrow>
         if multipartDedupEligible cfg upload then dedup_convergent_parts cfg ci rq tenantID bucket upload parts m g
         else if dedupEnabled cfg (up_Policy upload) \<and> IsGatewayEncrypted (up_EncMode upload)
              \<and> PlaintextPartHashCount upload = length parts
         then dedupManagedMultipart cfg ci rq tenantID bucket upload parts m g
         else (Inr m, g))"

text \<open>Giving back the reference a deduplicated manifest holds.\<close>

definition release_reference :: "('m, 'i, 'p, 'b) Config \<Rightarrow> string \<Rightarrow> ObjectManifest \<Rightarrow> ('m, 'i, 'p, 'b) Gateway \<Rightarrow> ('m, 'i, 'p, 'b) Gateway" where
  "release_reference cfg tenantID m g =
    (if m_ContentHash m = [] then g
     else case cfg_ContentIndex cfg of None \<Rightarrow> g | Some ci \<Rightarrow> gw_decrement ci tenantID (m_ContentHash m) g)"

definition unkept_parts :: "ObjectManifest \<Rightarrow> MPart list \<Rightarrow> MPart list" where
  "unkept_parts m parts =
    (if m_ContentHash m = [] then parts else filter (\<lambda>p. mpp_PieceID p \<notin> set (map p_PieceID (m_Pieces m))) parts)"

definition publish_manifest :: "('m, 'i, 'p, 'b) Config \<Rightarrow> 'm ManifestStore \<Rightarrow> Request \<Rightarrow> string \<Rightarrow> string \<Rightarrow> string \<Rightarrow> Upload \<Rightarrow> MPart list
    \<Rightarrow> ObjectManifest \<Rightarrow> ('m, 'i, 'p, 'b) Gateway \<Rightarrow> Response \<times> string \<times> ('m, 'i, 'p, 'b) Gateway" where
  "publish_manifest cfg ms rq tenantID bucket key upload parts m0 g =
    (case applyDefaultObjectLockRetention cfg rq tenantID bucket m0 g of
       Inl _ \<Rightarrow> (writeError 500 ''ObjectLockGetFailed'', [], release_reference cfg tenantID m0 g)
     | Inr m \<Rightarrow>
     (case op_Put ms (object_key tenantID bucket key (m_VersionID m)) m (gw_Manifests g) of
       Inl _ \<Rightarrow> (writeError 500 ''ManifestPutFailed'', [], deleteUploadedParts cfg (unkept_parts m parts) (release_reference cfg tenantID m g))
     | Inr s \<Rightarrow>
         let etag = computeMultipartETag parts;
             (auditPieceID, auditBackend) = (case m_Pieces m of [] \<Rightarrow> ([], up_Backend upload) | p # _ \<Rightarrow> (p_PieceID p, p_Backend p))
         in (respond 200 [(''Content-Type'', ''application/xml''), (''x-amz-version-id'', m_VersionID m)], quote etag,
             notify cfg ''s3:ObjectCreated:CompleteMultipartUpload'' tenantID bucket key etag (m_VersionID m) (m_ObjectSize m)
               (audit cfg ''PUT'' tenantID bucket key auditPieceID auditBackend (country_of cfg auditBackend) (g\<lparr>gw_Manifests := s\<rparr>)))))"

definition complete_error :: "mp_error \<Rightarrow> Response" where
  "complete_error e =
    (case e of
       MPNotFound \<Rightarrow> writeError 404 ''NoSuchUpload''
     | MPTenantMismatch \<Rightarrow> writeError 403 ''AccessDenied''
     | MPUploadMismatch \<Rightarrow> writeError 403 ''AccessDenied''
     | MPPartNotFound \<Rightarrow> writeError 400 ''InvalidPart''
     | MPPartETagMismatch \<Rightarrow> writeError 400 ''InvalidPart''
     | MPInvalid _ \<Rightarrow> writeError 500 ''MultipartCompleteFailed'')"

text \<open>The guards before the session is consumed.\<close>

definition complete_admission :: "('m, 'i, 'p, 'b) Config \<Rightarrow> Request \<Rightarrow> PartReference list option \<Rightarrow> ('m, 'i, 'p, 'b) Gateway
    \<Rightarrow> (Response, 'm ManifestStore \<times> string \<times> string \<times> string \<times> PartReference list) result" where
  "complete_admission cfg rq doc g =
    (case authenticate cfg rq of
       Inl e \<Rightarrow> Inl (writeAuthError e)
     | Inr tenantID \<Rightarrow>
     (case parseBucketKey (rq_Path rq) of (bucket, key) \<Rightarrow>
     if bucket = [] \<or> key = [] then Inl (writeError 400 ''InvalidArgument'')
     else (case cfg_Manifests cfg of
       None \<Rightarrow> Inl (writeError 503 ''ServiceUnavailable'')
     | Some ms \<Rightarrow>
     (case allowObjectLockOverwrite cfg ms rq tenantID bucket key g of
       Some resp \<Rightarrow> Inl resp
     | None \<Rightarrow>
     (case read_limited rq (2 ^ 20) of
       Inl e \<Rightarrow> Inl (writeBodyReadError e)
     | Inr _ \<Rightarrow>
     (case doc of
       None \<Rightarrow> Inl (writeError 400 ''MalformedXML'')
     | Some refs \<Rightarrow>
         if refs = [] then Inl (writeError 400 ''InvalidArgument'') else Inr (ms, tenantID, bucket, key, refs)))))))"

definition CompleteMultipartUpload :: "('m, 'i, 'p, 'b, 'u) Multi \<Rightarrow> Request \<Rightarrow> PartReference list option \<Rightarrow> ('m, 'i, 'p, 'b, 'u) MPState
    \<Rightarrow> Response \<times> string \<times> ('m, 'i, 'p, 'b, 'u) MPState" where
  "CompleteMultipartUpload mh rq doc st =
    (case mh_Multipart mh of
       None \<Rightarrow> (writeError 501 ''NotImplemented'', [], st)
     | Some us \<Rightarrow>
     (case complete_admission (mh_cfg mh) rq doc (fst st) of
       Inl resp \<Rightarrow> (resp, [], st)
     | Inr (ms, tenantID, bucket, key, refs) \<Rightarrow>
     (case us_Complete us (QueryGet (rq_RawQuery rq) ''uploadId'') tenantID bucket key refs (snd st) of
       (Inl e, u) \<Rightarrow> (complete_error e, [], (fst st, u))
     | (Inr (parts, upload), u) \<Rightarrow>
     (case multipart_dedup (mh_cfg mh) rq tenantID bucket upload parts (complete_manifest rq tenantID bucket key upload parts) (fst st) of
       (Inl resp, g) \<Rightarrow> (resp, [], (g, u))
     | (Inr m, g) \<Rightarrow>
         (case publish_manifest (mh_cfg mh) ms rq tenantID bucket key upload parts m g of (resp, etag, g') \<Rightarrow> (resp, etag, (g', u)))))))"

section \<open>Abort and list\<close>

definition AbortMultipartUpload :: "('m, 'i, 'p, 'b, 'u) Multi \<Rightarrow> Request \<Rightarrow> ('m, 'i, 'p, 'b, 'u) MPState \<Rightarrow> Response \<times> ('m, 'i, 'p, 'b, 'u) MPState" where
  "AbortMultipartUpload mh rq st =
    (case mh_Multipart mh of
       None \<Rightarrow> (writeError 501 ''NotImplemented'', st)
     | Some us \<Rightarrow>
     (case authenticate (mh_cfg mh) rq of
       Inl e \<Rightarrow> (writeAuthError e, st)
     | Inr tenantID \<Rightarrow>
     (case us_Abort us (QueryGet (rq_RawQuery rq) ''uploadId'') tenantID (snd st) of
       (Inl MPNotFound, u) \<Rightarrow> (respond 204 [], (fst st, u))
     | (Inl MPTenantMismatch, u) \<Rightarrow> (writeError 403 ''AccessDenied'', (fst st, u))
     | (Inl _, u) \<Rightarrow> (writeError 500 ''MultipartAbortFailed'', (fst st, u))
     | (Inr (upload, parts), u) \<Rightarrow> (respond 204 [], (deleteUploadedParts (mh_cfg mh) parts (fst st), u)))))"

text \<open>The entries of the listing: key, upload identifier and the time the upload was initiated.\<close>

definition ListMultipartUploads :: "('m, 'i, 'p, 'b, 'u) Multi \<Rightarrow> Request \<Rightarrow> string \<Rightarrow> ('m, 'i, 'p, 'b, 'u) MPState
    \<Rightarrow> Response \<times> (string \<times> string \<times> gotime) list" where
  "ListMultipartUploads mh rq bucket st =
    (case mh_Multipart mh of
       None \<Rightarrow> (writeError 501 ''NotImplemented'', [])
     | Some us \<Rightarrow>
     (case authenticate (mh_cfg mh) rq of
       Inl e \<Rightarrow> (writeAuthError e, [])
     | Inr tenantID \<Rightarrow>
         (respond 200 [(''Content-Type'', ''application/xml'')],
          map (\<lambda>u. (up_ObjectKey u, up_ID u, up_CreatedAt u)) (us_List us tenantID bucket (snd st)))))"

end
