(* ===== verification/Hot_Cache.thy ===== *)
theory Hot_Cache
  imports Storage_Provider Complex_Main
begin

text \<open>
  The hot object cache (\<open>cache/hot_object_cache\<close>): its interface, the eviction and
  promotion policies with their checks (\<open>cache.go\<close>), the in-memory cache with its hot
  and main regions (\<open>memory_cache.go\<close>), and the worker that promotes pieces read
  often (\<open>promotion_worker.go\<close>).

  A region is the list of its entries, the most recently used first; the index of
  the source finds an entry by its piece, here a search of the two regions.  The
  one floating-point product of the source, the size of the hot region, is the
  parameter \<open>fmul\<close> of the constructor.
\<close>

section \<open>Policies (cache.go)\<close>

abbreviation EvictionLRU :: string where "EvictionLRU \<equiv> ''lru''"
abbreviation EvictionLRUHotPin :: string where "EvictionLRUHotPin \<equiv> ''lru_hot_pin''"

record EvictionPolicy =
  ep_Kind :: string
  ep_MaxBytes :: int
  ep_HotRegionFraction :: rat
  ep_HotDemotionHitCount :: nat
  ep_TTL :: duration

definition EvictionPolicy_Validate :: "EvictionPolicy \<Rightarrow> (string, unit) result" where
  "EvictionPolicy_Validate e =
    (if ep_Kind e = [] then Inl ''eviction policy kind is required''
     else if ep_Kind e \<noteq> EvictionLRU \<and> ep_Kind e \<noteq> EvictionLRUHotPin then Inl ''unknown eviction kind''
     else if ep_MaxBytes e < 0 then Inl ''eviction max_bytes must be non-negative''
     else if ep_HotRegionFraction e < 0 \<or> ep_HotRegionFraction e \<ge> 1 then Inl ''eviction hot_region_fraction must be in [0, 1)''
     else if ep_TTL e < 0 then Inl ''eviction ttl must be non-negative''
     else if ep_Kind e = EvictionLRU \<and> (ep_HotRegionFraction e \<noteq> 0 \<or> ep_HotDemotionHitCount e \<noteq> 0)
       then Inl ''hot-pin fields only apply to eviction kind lru_hot_pin''
     else Inr ())"

definition DefaultEvictionPolicy :: "int \<Rightarrow> EvictionPolicy" where
  "DefaultEvictionPolicy maxBytes = \<lparr>ep_Kind = EvictionLRUHotPin, ep_MaxBytes = maxBytes,
     ep_HotRegionFraction = 1 / 10, ep_HotDemotionHitCount = 1, ep_TTL = 0\<rparr>"

abbreviation TierL0 :: string where "TierL0 \<equiv> ''l0''"
abbreviation TierL1 :: string where "TierL1 \<equiv> ''l1''"
abbreviation TierL2 :: string where "TierL2 \<equiv> ''l2''"

record PromotionPolicy =
  pq_Tier :: string
  pq_MonthlyEgressRatioThreshold :: rat
  pq_DailyReadCountThreshold :: nat
  pq_P95LatencyMissMs :: int
  pq_MinPieceSizeBytes :: int
  pq_MaxPieceSizeBytes :: int
  pq_PinHotByDefault :: bool

definition DefaultPromotionPolicies :: "PromotionPolicy list" where
  "DefaultPromotionPolicies =
    [\<lparr>pq_Tier = TierL0, pq_MonthlyEgressRatioThreshold = 7 / 10, pq_DailyReadCountThreshold = 3, pq_P95LatencyMissMs = 250,
      pq_MinPieceSizeBytes = 64 * 1024, pq_MaxPieceSizeBytes = 64 * 1024 * 1024, pq_PinHotByDefault = True\<rparr>,
     \<lparr>pq_Tier = TierL1, pq_MonthlyEgressRatioThreshold = 1 / 2, pq_DailyReadCountThreshold = 2, pq_P95LatencyMissMs = 500,
      pq_MinPieceSizeBytes = 1024, pq_MaxPieceSizeBytes = 1024 * 1024 * 1024, pq_PinHotByDefault = False\<rparr>]"

definition PromotionPolicy_Validate :: "PromotionPolicy \<Rightarrow> (string, unit) result" where
  "PromotionPolicy_Validate p =
    (if pq_Tier p = [] then Inl ''promotion policy tier is required''
     else if pq_Tier p \<notin> {TierL0, TierL1, TierL2} then Inl ''unknown tier''
     else if pq_MonthlyEgressRatioThreshold p < 0 then Inl ''monthly_egress_ratio_threshold must be non-negative''
     else if pq_P95LatencyMissMs p < 0 then Inl ''p95_latency_miss_ms must be non-negative''
     else if pq_MinPieceSizeBytes p < 0 then Inl ''min_piece_size_bytes must be non-negative''
     else if pq_MaxPieceSizeBytes p \<noteq> 0 \<and> pq_MinPieceSizeBytes p > pq_MaxPieceSizeBytes p
       then Inl ''min_piece_size_bytes must be <= max_piece_size_bytes''
     else Inr ())"

section \<open>The interface\<close>

record CachePutOptions =
  cp_SizeBytes :: int
  cp_Hash :: string
  cp_TTL :: duration
  cp_PinHot :: bool

record CachedPieceMetadata =
  cm_PieceID :: string
  cm_SizeBytes :: int
  cm_Hash :: string
  cm_StoredAt :: gotime
  cm_LastAccess :: gotime
  cm_HitCount :: nat
  cm_Pinned :: bool

record CacheStats =
  st_Entries :: int
  st_BytesUsed :: int
  st_BytesLimit :: int
  st_Hits :: nat
  st_Misses :: nat
  st_Evictions :: nat

text \<open>The time is the reading of the cache's clock; None is a miss.\<close>

record 'c HotObjectCache =
  hc_Get :: "gotime \<Rightarrow> string \<Rightarrow> 'c \<Rightarrow> (bytes \<times> CachedPieceMetadata) option \<times> 'c"
  hc_Put :: "gotime \<Rightarrow> string \<Rightarrow> bytes \<Rightarrow> CachePutOptions \<Rightarrow> 'c \<Rightarrow> (string, unit) result \<times> 'c"
  hc_Evict :: "string \<Rightarrow> 'c \<Rightarrow> 'c"

section \<open>The in-memory cache (memory\_cache.go)\<close>

record cacheEntry =
  ca_pieceID :: string
  ca_body :: bytes
  ca_hash :: string
  ca_storedAt :: gotime
  ca_lastAccess :: gotime
  ca_hits :: nat
  ca_pinned :: bool
  ca_expiresAt :: gotime

record MemoryCache =
  mc_policy :: EvictionPolicy
  mc_hot :: "cacheEntry list"
  mc_main :: "cacheEntry list"
  mc_bytesUsed :: int
  mc_hotLimit :: int
  mc_hotBytes :: int
  mc_stats :: CacheStats

definition NewMemoryCache :: "(int \<Rightarrow> rat \<Rightarrow> int) \<Rightarrow> EvictionPolicy \<Rightarrow> (string, MemoryCache) result" where
  "NewMemoryCache fmul policy0 =
    (let policy = (if ep_Kind policy0 = [] then policy0\<lparr>ep_Kind := EvictionLRU\<rparr> else policy0) in
     bind_result (EvictionPolicy_Validate policy) (\<lambda>_.
       Inr \<lparr>mc_policy = policy, mc_hot = [], mc_main = [], mc_bytesUsed = 0,
            mc_hotLimit = (if ep_Kind policy = EvictionLRUHotPin \<and> ep_HotRegionFraction policy > 0 \<and> ep_MaxBytes policy > 0
                           then fmul (ep_MaxBytes policy) (ep_HotRegionFraction policy) else 0),
            mc_hotBytes = 0,
            mc_stats = \<lparr>st_Entries = 0, st_BytesUsed = 0, st_BytesLimit = ep_MaxBytes policy, st_Hits = 0, st_Misses = 0, st_Evictions = 0\<rparr>\<rparr>))"

definition cache_size :: "cacheEntry \<Rightarrow> int" where "cache_size e = int (length (ca_body e))"

definition cache_index :: "MemoryCache \<Rightarrow> string \<Rightarrow> cacheEntry option" where
  "cache_index c pieceID = find (\<lambda>e. ca_pieceID e = pieceID) (mc_hot c @ mc_main c)"

definition cache_counts :: "MemoryCache \<Rightarrow> MemoryCache" where
  "cache_counts c = c\<lparr>mc_stats := (mc_stats c)\<lparr>st_Entries := int (length (mc_hot c @ mc_main c)), st_BytesUsed := mc_bytesUsed c\<rparr>\<rparr>"

definition removeLocked :: "cacheEntry \<Rightarrow> MemoryCache \<Rightarrow> MemoryCache" where
  "removeLocked e c =
    (let c1 = (if ca_pinned e then c\<lparr>mc_hot := remove1 e (mc_hot c), mc_hotBytes := mc_hotBytes c - cache_size e\<rparr>
               else c\<lparr>mc_main := remove1 e (mc_main c)\<rparr>);
         c2 = cache_counts (c1\<lparr>mc_bytesUsed := mc_bytesUsed c - cache_size e\<rparr>)
     in c2\<lparr>mc_stats := (mc_stats c2)\<lparr>st_Evictions := st_Evictions (mc_stats c2) + 1\<rparr>\<rparr>)"

definition cache_miss :: "MemoryCache \<Rightarrow> MemoryCache" where
  "cache_miss c = c\<lparr>mc_stats := (mc_stats c)\<lparr>st_Misses := st_Misses (mc_stats c) + 1\<rparr>\<rparr>"

definition Cache_Get :: "gotime \<Rightarrow> string \<Rightarrow> MemoryCache \<Rightarrow> (bytes \<times> CachedPieceMetadata) option \<times> MemoryCache" where
  "Cache_Get now pieceID c =
    (case cache_index c pieceID of
       None \<Rightarrow> (None, cache_miss c)
     | Some e \<Rightarrow>
         if ca_expiresAt e \<noteq> zero_time \<and> now > ca_expiresAt e then (None, cache_miss (removeLocked e c))
         else
           let e' = e\<lparr>ca_hits := ca_hits e + 1, ca_lastAccess := now\<rparr>;
               c1 = c\<lparr>mc_stats := (mc_stats c)\<lparr>st_Hits := st_Hits (mc_stats c) + 1\<rparr>\<rparr>;
               c2 = (if ca_pinned e then c1\<lparr>mc_hot := e' # remove1 e (mc_hot c)\<rparr> else c1\<lparr>mc_main := e' # remove1 e (mc_main c)\<rparr>)
           in (Some (ca_body e, \<lparr>cm_PieceID = ca_pieceID e, cm_SizeBytes = cache_size e, cm_Hash = ca_hash e, cm_StoredAt = ca_storedAt e,
                 cm_LastAccess = now, cm_HitCount = ca_hits e + 1, cm_Pinned = ca_pinned e\<rparr>), c2))"

text \<open>
  The eviction loops.  Each round removes an entry, so the number of entries bounds the
  rounds; the lemmas below show that the bound is never what ends a loop.
\<close>

definition main_victim :: "MemoryCache \<Rightarrow> cacheEntry option" where
  "main_victim c = (if mc_main c \<noteq> [] then Some (last (mc_main c)) else if mc_hot c \<noteq> [] then Some (last (mc_hot c)) else None)"

primrec evict_main :: "nat \<Rightarrow> int \<Rightarrow> MemoryCache \<Rightarrow> MemoryCache" where
  "evict_main 0 incoming c = c"
| "evict_main (Suc n) incoming c =
    (if mc_bytesUsed c + incoming > ep_MaxBytes (mc_policy c) then
       (case main_victim c of None \<Rightarrow> c | Some e \<Rightarrow> evict_main n incoming (removeLocked e c))
     else c)"

definition evictMainLocked :: "int \<Rightarrow> MemoryCache \<Rightarrow> MemoryCache" where
  "evictMainLocked incoming c =
    (if ep_MaxBytes (mc_policy c) \<le> 0 then c else evict_main (length (mc_hot c @ mc_main c)) incoming c)"

primrec evict_hot :: "nat \<Rightarrow> int \<Rightarrow> MemoryCache \<Rightarrow> MemoryCache" where
  "evict_hot 0 incoming c = c"
| "evict_hot (Suc n) incoming c =
    (if mc_hotBytes c + incoming > mc_hotLimit c \<and> mc_hot c \<noteq> [] then evict_hot n incoming (removeLocked (last (mc_hot c)) c) else c)"

definition evictHotLocked :: "int \<Rightarrow> MemoryCache \<Rightarrow> MemoryCache" where
  "evictHotLocked incoming c = (if mc_hotLimit c \<le> 0 then c else evict_hot (length (mc_hot c)) incoming c)"

definition new_entry :: "gotime \<Rightarrow> string \<Rightarrow> bytes \<Rightarrow> CachePutOptions \<Rightarrow> EvictionPolicy \<Rightarrow> cacheEntry" where
  "new_entry now pieceID data opts policy =
    \<lparr>ca_pieceID = pieceID, ca_body = data, ca_hash = cp_Hash opts, ca_storedAt = now, ca_lastAccess = now,
     ca_hits = 0, ca_pinned = (cp_PinHot opts \<and> ep_Kind policy = EvictionLRUHotPin),
     ca_expiresAt = (if cp_TTL opts > 0 then now + cp_TTL opts else if ep_TTL policy > 0 then now + ep_TTL policy else zero_time)\<rparr>"

definition push_entry :: "cacheEntry \<Rightarrow> MemoryCache \<Rightarrow> MemoryCache" where
  "push_entry e c =
    cache_counts ((if ca_pinned e then c\<lparr>mc_hot := e # mc_hot c, mc_hotBytes := mc_hotBytes c + cache_size e\<rparr>
                   else c\<lparr>mc_main := e # mc_main c\<rparr>)\<lparr>mc_bytesUsed := mc_bytesUsed c + cache_size e\<rparr>)"

definition Cache_Put :: "gotime \<Rightarrow> string \<Rightarrow> bytes \<Rightarrow> CachePutOptions \<Rightarrow> MemoryCache \<Rightarrow> (string, unit) result \<times> MemoryCache" where
  "Cache_Put now pieceID data opts c =
    (if pieceID = [] then (Inl ''piece_id is required'', c)
     else if ep_MaxBytes (mc_policy c) > 0 \<and> int (length data) > ep_MaxBytes (mc_policy c) then (Inl ''piece exceeds cache capacity'', c)
     else
       let c1 = (case cache_index c pieceID of None \<Rightarrow> c | Some existing \<Rightarrow> removeLocked existing c);
           entry = new_entry now pieceID data opts (mc_policy c);
           c2 = evictMainLocked (int (length data)) (if ca_pinned entry then evictHotLocked (int (length data)) c1 else c1)
       in (Inr (), push_entry entry c2))"

definition Cache_Evict :: "string \<Rightarrow> MemoryCache \<Rightarrow> MemoryCache" where
  "Cache_Evict pieceID c = (case cache_index c pieceID of None \<Rightarrow> c | Some e \<Rightarrow> removeLocked e c)"

definition memory_cache :: "MemoryCache HotObjectCache" where
  "memory_cache = \<lparr>hc_Get = Cache_Get, hc_Put = Cache_Put, hc_Evict = Cache_Evict\<rparr>"

section \<open>Promotion (promotion\_worker.go)\<close>

record PromotionSignal =
  sg_PieceID :: string
  sg_PieceSizeBytes :: int
  sg_TenantID :: string
  sg_ReadBytes :: int
  sg_ReadCount :: nat
  sg_ObservedAt :: gotime
  sg_OriginBackend :: string

abbreviation DefaultPromotionWindow :: duration where "DefaultPromotionWindow \<equiv> 24 * hour"
abbreviation promotionPruneThreshold :: nat where "promotionPruneThreshold \<equiv> 1024"

record readCounterEntry =
  rc_count :: nat
  rc_windowStart :: gotime

type_synonym readCounter = "(string, readCounterEntry) gomap"

definition observe :: "duration \<Rightarrow> string \<Rightarrow> nat \<Rightarrow> gotime \<Rightarrow> readCounter \<Rightarrow> nat \<times> readCounter" where
  "observe window pieceID delta now entries =
    (let e0 = (case gm_get entries pieceID of
                 None \<Rightarrow> \<lparr>rc_count = 0, rc_windowStart = now\<rparr>
               | Some e \<Rightarrow> if now - rc_windowStart e \<ge> window then \<lparr>rc_count = 0, rc_windowStart = now\<rparr> else e);
         e = e0\<lparr>rc_count := rc_count e0 + delta\<rparr>;
         entries1 = gm_set pieceID e entries
     in (rc_count e,
         if length entries1 > promotionPruneThreshold
         then filter (\<lambda>(k, v). \<not> now - rc_windowStart v \<ge> window) entries1 else entries1))"

fun match_policy :: "PromotionPolicy list \<Rightarrow> PromotionSignal \<Rightarrow> nat \<Rightarrow> PromotionPolicy option" where
  "match_policy [] sig windowCount = None"
| "match_policy (p # ps) sig windowCount =
    (if pq_MinPieceSizeBytes p > 0 \<and> sg_PieceSizeBytes sig < pq_MinPieceSizeBytes p then match_policy ps sig windowCount
     else if pq_MaxPieceSizeBytes p > 0 \<and> sg_PieceSizeBytes sig > pq_MaxPieceSizeBytes p then match_policy ps sig windowCount
     else if pq_DailyReadCountThreshold p > 0 \<and> windowCount < pq_DailyReadCountThreshold p then match_policy ps sig windowCount
     else Some p)"

text \<open>
  One signal: the count, the policy, the origin the fetcher names, its bytes, and the cache.
  The reading \<open>now\<close> of the clock stands for a missing time of observation and is the cache's.
\<close>

definition promote :: "duration \<Rightarrow> PromotionPolicy list \<Rightarrow> 'c HotObjectCache \<Rightarrow> (PromotionSignal \<Rightarrow> (string, string \<times> 'p StorageProvider) result)
    \<Rightarrow> gotime \<Rightarrow> PromotionSignal \<Rightarrow> (string \<Rightarrow> 'p) \<Rightarrow> readCounter \<times> 'c \<Rightarrow> readCounter \<times> 'c" where
  "promote window policies hc fetch now sig w = (\<lambda>(counter, c).
    let observedAt = (if sg_ObservedAt sig = zero_time then now else sg_ObservedAt sig);
        delta = (if sg_ReadCount sig = 0 then 1 else sg_ReadCount sig);
        (windowCount, counter') = observe (if window \<le> 0 then DefaultPromotionWindow else window) (sg_PieceID sig) delta observedAt counter
    in (case match_policy policies sig windowCount of
          None \<Rightarrow> (counter', c)
        | Some pol \<Rightarrow>
            (case fetch sig of
               Inl _ \<Rightarrow> (counter', c)
             | Inr (backend, provider) \<Rightarrow>
                 (case sp_GetPiece provider (sg_PieceID sig) None (w backend) of
                    Inl _ \<Rightarrow> (counter', c)
                  | Inr body \<Rightarrow>
                      (counter', snd (hc_Put hc now (sg_PieceID sig) body
                        \<lparr>cp_SizeBytes = sg_PieceSizeBytes sig, cp_Hash = [], cp_TTL = 0, cp_PinHot = pq_PinHotByDefault pol\<rparr> c))))))"

text \<open>The bounded bus between the read path and the worker: a full or closed bus drops the signal.\<close>

record SignalBus =
  sb_queue :: "PromotionSignal list"
  sb_capacity :: nat
  sb_closed :: bool

definition NewSignalBus :: "int \<Rightarrow> SignalBus" where
  "NewSignalBus bufferSize = \<lparr>sb_queue = [], sb_capacity = (if bufferSize \<le> 0 then 1024 else nat bufferSize), sb_closed = False\<rparr>"

definition Publish :: "PromotionSignal \<Rightarrow> SignalBus \<Rightarrow> bool \<times> SignalBus" where
  "Publish sig b =
    (if sb_closed b then (False, b)
     else if length (sb_queue b) < sb_capacity b then (True, b\<lparr>sb_queue := sb_queue b @ [sig]\<rparr>)
     else (False, b))"

definition Bus_Close :: "SignalBus \<Rightarrow> SignalBus" where
  "Bus_Close b = b\<lparr>sb_closed := True\<rparr>"

section \<open>The contract of a cache\<close>

lemma map_leI: "(\<And>i d. m i = Some d \<Longrightarrow> n i = Some d) \<Longrightarrow> m \<subseteq>\<^sub>m n"
  by (auto simp: map_le_def dom_def)

lemma map_leD: "m \<subseteq>\<^sub>m n \<Longrightarrow> m i = Some d \<Longrightarrow> n i = Some d"
  by (auto simp: map_le_def dom_def)

text \<open>
  What a client may rely on: a hit returns bytes that were put under that piece and not
  replaced or evicted since.  The view of a cache may lose pieces at any time.
\<close>

locale hot_cache =
  fixes hc :: "'c HotObjectCache" and cinv :: "'c \<Rightarrow> bool" and view :: "'c \<Rightarrow> string \<Rightarrow> bytes option"
  assumes get_law: "cinv c \<Longrightarrow> hc_Get hc now i c = (r, c') \<Longrightarrow>
      cinv c' \<and> view c' \<subseteq>\<^sub>m view c \<and> (\<forall>d md. r = Some (d, md) \<longrightarrow> view c i = Some d)"
    and put_law: "cinv c \<Longrightarrow> hc_Put hc now i d opts c = (res, c') \<Longrightarrow>
      cinv c' \<and> view c' \<subseteq>\<^sub>m (if is_ok res then (view c)(i \<mapsto> d) else view c)"
    and evict_law: "cinv c \<Longrightarrow> cinv (hc_Evict hc i c) \<and> view (hc_Evict hc i c) \<subseteq>\<^sub>m (view c)(i := None)"
begin

text \<open>A property of every cached piece is kept by every operation whose new piece has it.\<close>

definition all_cached :: "(string \<Rightarrow> bytes \<Rightarrow> bool) \<Rightarrow> 'c \<Rightarrow> bool" where
  "all_cached P c \<longleftrightarrow> (\<forall>i d. view c i = Some d \<longrightarrow> P i d)"

lemma all_cached_mono: "all_cached P c \<Longrightarrow> view c' \<subseteq>\<^sub>m view c \<Longrightarrow> all_cached P c'"
  by (auto simp: all_cached_def map_le_def dom_def)

lemma all_cached_get:
  "cinv c \<Longrightarrow> all_cached P c \<Longrightarrow> hc_Get hc now i c = (r, c') \<Longrightarrow> cinv c' \<and> all_cached P c' \<and> (\<forall>d md. r = Some (d, md) \<longrightarrow> P i d)"
  using get_law [of c now i r c'] all_cached_mono [of P c c'] by (auto simp: all_cached_def)

lemma all_cached_put:
  assumes "cinv c" "all_cached P c" "hc_Put hc now i d opts c = (res, c')" "P i d"
  shows "cinv c' \<and> all_cached P c'"
proof -
  note law = put_law [OF assms(1,3)]
  have "P j x" if "view c' j = Some x" for j x
    using map_leD [of "view c'", OF conjunct2 [OF law] that] assms(2,4) by (auto simp: all_cached_def split: if_splits)
  then show ?thesis
    using law by (simp add: all_cached_def)
qed

end

section \<open>The in-memory cache keeps the contract\<close>

definition cache_sum :: "cacheEntry list \<Rightarrow> int" where
  "cache_sum es = sum_list (map cache_size es)"

text \<open>
  The books balance: no piece is cached twice, the pinned entries are the hot region, and the
  counters are the sums of the sizes.  The invariant adds that the statistics agree and that a
  bounded cache never holds more than its bound.
\<close>

definition cache_all :: "MemoryCache \<Rightarrow> cacheEntry list" where
  "cache_all c = mc_hot c @ mc_main c"

definition cache_books :: "MemoryCache \<Rightarrow> bool" where
  "cache_books c \<longleftrightarrow> distinct (map ca_pieceID (cache_all c))
    \<and> (\<forall>e \<in> set (mc_hot c). ca_pinned e) \<and> (\<forall>e \<in> set (mc_main c). \<not> ca_pinned e)
    \<and> mc_hotBytes c = cache_sum (mc_hot c) \<and> mc_bytesUsed c = cache_sum (cache_all c)"

definition cache_synced :: "MemoryCache \<Rightarrow> bool" where
  "cache_synced c \<longleftrightarrow> st_BytesUsed (mc_stats c) = mc_bytesUsed c \<and> st_Entries (mc_stats c) = int (length (cache_all c))"

definition cache_inv :: "MemoryCache \<Rightarrow> bool" where
  "cache_inv c \<longleftrightarrow> cache_books c \<and> cache_synced c
    \<and> (ep_MaxBytes (mc_policy c) > 0 \<longrightarrow> mc_bytesUsed c \<le> ep_MaxBytes (mc_policy c))"

definition cache_view :: "MemoryCache \<Rightarrow> string \<Rightarrow> bytes option" where
  "cache_view c i = map_option ca_body (cache_index c i)"

lemma cache_size_nonneg [simp]: "0 \<le> cache_size e"
  by (simp add: cache_size_def)

lemma cache_sum_simps [simp]:
  "cache_sum [] = 0" "cache_sum (e # es) = cache_size e + cache_sum es" "cache_sum (es @ fs) = cache_sum es + cache_sum fs"
  by (simp_all add: cache_sum_def)

lemma cache_sum_nonneg [simp]: "0 \<le> cache_sum es"
  by (induction es) simp_all

lemma cache_sum_remove1: "e \<in> set es \<Longrightarrow> cache_sum (remove1 e es) = cache_sum es - cache_size e"
  by (induction es) auto

lemma find_iff_distinct:
  "distinct (map f es) \<Longrightarrow> find (\<lambda>e. f e = i) es = Some e \<longleftrightarrow> e \<in> set es \<and> f e = i"
  by (induction es) (auto simp: image_iff)

lemma cache_index_iff:
  "cache_books c \<Longrightarrow> cache_index c i = Some e \<longleftrightarrow> e \<in> set (cache_all c) \<and> ca_pieceID e = i"
  unfolding cache_index_def cache_books_def cache_all_def by (simp add: find_iff_distinct)

lemma cache_view_iff:
  "cache_books c \<Longrightarrow> cache_view c i = Some d \<longleftrightarrow> (\<exists>e \<in> set (cache_all c). ca_pieceID e = i \<and> ca_body e = d)"
  using cache_index_iff [of c i] by (auto simp: cache_view_def)

lemma distinct_remove1_map: "distinct (map f xs) \<Longrightarrow> distinct (map f (remove1 x xs))"
  by (auto simp: distinct_map intro: inj_on_subset)

lemma set_remove1_map: "distinct (map f xs) \<Longrightarrow> set (remove1 x xs) = set xs - {x}"
  by (simp add: distinct_map)

lemma remove1_distinct:
  assumes "distinct (map f (xs @ ys))"
  shows "distinct (map f (remove1 e xs @ ys))" "distinct (map f (xs @ remove1 e ys))"
  using assms distinct_remove1_map [of f xs e] distinct_remove1_map [of f ys e] set_remove1_subset [of e xs] set_remove1_subset [of e ys]
  by (simp_all del: set_remove1_eq) blast+

lemma cache_counts_simps [simp]:
  "mc_hot (cache_counts c) = mc_hot c" "mc_main (cache_counts c) = mc_main c" "mc_policy (cache_counts c) = mc_policy c"
  "mc_bytesUsed (cache_counts c) = mc_bytesUsed c" "mc_hotBytes (cache_counts c) = mc_hotBytes c" "mc_hotLimit (cache_counts c) = mc_hotLimit c"
  "st_BytesUsed (mc_stats (cache_counts c)) = mc_bytesUsed c" "st_Entries (mc_stats (cache_counts c)) = int (length (cache_all c))"
  by (simp_all add: cache_counts_def cache_all_def)

lemma removeLocked_simps [simp]:
  "mc_policy (removeLocked e c) = mc_policy c" "mc_hotLimit (removeLocked e c) = mc_hotLimit c"
  "mc_hot (removeLocked e c) = (if ca_pinned e then remove1 e (mc_hot c) else mc_hot c)"
  "mc_main (removeLocked e c) = (if ca_pinned e then mc_main c else remove1 e (mc_main c))"
  "mc_bytesUsed (removeLocked e c) = mc_bytesUsed c - cache_size e"
  "mc_hotBytes (removeLocked e c) = (if ca_pinned e then mc_hotBytes c - cache_size e else mc_hotBytes c)"
  by (simp_all add: removeLocked_def Let_def)

lemma removeLocked_books:
  assumes "cache_books c" "e \<in> set (cache_all c)"
  shows "cache_books (removeLocked e c)" "set (cache_all (removeLocked e c)) = set (cache_all c) - {e}"
    "length (cache_all c) = Suc (length (cache_all (removeLocked e c)))" "cache_synced (removeLocked e c)"
proof -
  have d: "distinct (map ca_pieceID (mc_hot c))" "distinct (map ca_pieceID (mc_main c))"
    using assms(1) by (simp_all add: cache_books_def cache_all_def)
  have mem: "if ca_pinned e then e \<in> set (mc_hot c) \<and> e \<notin> set (mc_main c) else e \<in> set (mc_main c) \<and> e \<notin> set (mc_hot c)"
    using assms by (auto simp: cache_books_def cache_all_def)
  show "set (cache_all (removeLocked e c)) = set (cache_all c) - {e}"
    using mem d by (auto simp: cache_all_def set_remove1_map)
  show len: "length (cache_all c) = Suc (length (cache_all (removeLocked e c)))"
    using mem length_pos_if_in_set [of e "mc_hot c"] length_pos_if_in_set [of e "mc_main c"]
    by (auto simp: cache_all_def length_remove1)
  show "cache_synced (removeLocked e c)"
    by (simp add: cache_synced_def removeLocked_def Let_def cache_all_def)
  have "distinct (map ca_pieceID (cache_all (removeLocked e c)))"
    using assms(1) remove1_distinct [of ca_pieceID "mc_hot c" "mc_main c" e] by (simp add: cache_books_def cache_all_def)
  then show "cache_books (removeLocked e c)"
    using assms(1) mem cache_sum_remove1 [of e "mc_hot c"] cache_sum_remove1 [of e "mc_main c"]
      set_remove1_map [OF d(1), of e] set_remove1_map [OF d(2), of e]
    by (cases "ca_pinned e") (simp_all add: cache_books_def cache_all_def)
qed

lemma removeLocked_other:
  assumes "cache_books c" "e \<in> set (cache_all c)" "e' \<in> set (cache_all (removeLocked e c))"
  shows "ca_pieceID e' \<noteq> ca_pieceID e"
  using assms(3) removeLocked_books(2) [OF assms(1,2)] assms(1,2) by (auto simp: cache_books_def distinct_map inj_on_def)

text \<open>The loops end because the room is there or nothing is left, never for want of rounds.\<close>

lemma main_victim_in: "main_victim c = Some e \<Longrightarrow> e \<in> set (cache_all c)" "main_victim c = None \<longleftrightarrow> cache_all c = []"
  by (auto simp: main_victim_def cache_all_def split: if_splits)

lemma evict_main_spec:
  assumes "cache_books c" "length (cache_all c) \<le> n"
  shows "cache_books (evict_main n incoming c) \<and> set (cache_all (evict_main n incoming c)) \<subseteq> set (cache_all c)
    \<and> mc_policy (evict_main n incoming c) = mc_policy c
    \<and> (mc_bytesUsed (evict_main n incoming c) + incoming \<le> ep_MaxBytes (mc_policy c) \<or> cache_all (evict_main n incoming c) = [])"
  using assms
proof (induction n arbitrary: c)
  case (Suc n)
  show ?case
  proof (cases "mc_bytesUsed c + incoming > ep_MaxBytes (mc_policy c)")
    case True
    show ?thesis
    proof (cases "main_victim c")
      case None
      then show ?thesis
        using Suc.prems(1) main_victim_in(2) [of c] by simp
    next
      case (Some e)
      note r = removeLocked_books [OF Suc.prems(1) main_victim_in(1) [OF Some]]
      show ?thesis
        using Suc.IH [OF r(1)] r Suc.prems(2) Some True by auto
    qed
  qed (use Suc.prems in simp)
qed simp

lemma evict_hot_spec:
  assumes "cache_books c" "length (mc_hot c) \<le> n"
  shows "cache_books (evict_hot n incoming c) \<and> set (cache_all (evict_hot n incoming c)) \<subseteq> set (cache_all c)
    \<and> mc_policy (evict_hot n incoming c) = mc_policy c
    \<and> (mc_hotBytes (evict_hot n incoming c) + incoming \<le> mc_hotLimit c \<or> mc_hot (evict_hot n incoming c) = [])"
  using assms
proof (induction n arbitrary: c)
  case (Suc n)
  show ?case
  proof (cases "mc_hotBytes c + incoming > mc_hotLimit c \<and> mc_hot c \<noteq> []")
    case True
    let ?e = "last (mc_hot c)"
    have e: "?e \<in> set (mc_hot c)" "ca_pinned ?e" "?e \<in> set (cache_all c)"
      using True Suc.prems(1) by (auto simp: cache_books_def cache_all_def)
    note r = removeLocked_books [OF Suc.prems(1) e(3)]
    have "length (mc_hot (removeLocked ?e c)) \<le> n"
      using e Suc.prems(2) by (simp add: length_remove1)
    then show ?thesis
      using Suc.IH [OF r(1)] r True by auto
  qed (use Suc.prems in auto)
qed simp

lemma evict_spec:
  assumes "cache_books c"
  shows "cache_books (evictMainLocked n (if pin then evictHotLocked n c else c))"
    and "set (cache_all (evictMainLocked n (if pin then evictHotLocked n c else c))) \<subseteq> set (cache_all c)"
    and "mc_policy (evictMainLocked n (if pin then evictHotLocked n c else c)) = mc_policy c"
    and "0 < ep_MaxBytes (mc_policy c) \<Longrightarrow> n \<le> ep_MaxBytes (mc_policy c) \<Longrightarrow>
      mc_bytesUsed (evictMainLocked n (if pin then evictHotLocked n c else c)) + n \<le> ep_MaxBytes (mc_policy c)"
proof -
  let ?h = "if pin then evictHotLocked n c else c"
  have h: "cache_books ?h" "set (cache_all ?h) \<subseteq> set (cache_all c)" "mc_policy ?h = mc_policy c"
    using assms evict_hot_spec [OF assms order.refl, of n] by (auto simp: evictHotLocked_def)
  have m: "cache_books (evictMainLocked n ?h)" "set (cache_all (evictMainLocked n ?h)) \<subseteq> set (cache_all ?h)"
      "mc_policy (evictMainLocked n ?h) = mc_policy ?h"
      "0 < ep_MaxBytes (mc_policy c) \<Longrightarrow>
        mc_bytesUsed (evictMainLocked n ?h) + n \<le> ep_MaxBytes (mc_policy c) \<or> cache_all (evictMainLocked n ?h) = []"
    using h evict_main_spec [OF h(1), of _ n] by (auto simp: evictMainLocked_def cache_all_def)
  show "cache_books (evictMainLocked n ?h)" "set (cache_all (evictMainLocked n ?h)) \<subseteq> set (cache_all c)"
      "mc_policy (evictMainLocked n ?h) = mc_policy c"
    using m h by auto
  show "mc_bytesUsed (evictMainLocked n ?h) + n \<le> ep_MaxBytes (mc_policy c)"
    if "0 < ep_MaxBytes (mc_policy c)" "n \<le> ep_MaxBytes (mc_policy c)"
    using m(1,4) that by (auto simp: cache_books_def)
qed

text \<open>Views through the entries.\<close>

lemma cache_view_mono:
  assumes "cache_books c" "cache_books c'" "\<And>e'. e' \<in> set (cache_all c') \<Longrightarrow> \<exists>e \<in> set (cache_all c). ca_pieceID e = ca_pieceID e' \<and> ca_body e = ca_body e'"
  shows "cache_view c' \<subseteq>\<^sub>m cache_view c"
proof -
  have "cache_view c i = Some d" if "cache_view c' i = Some d" for i d
    using that assms(3) cache_view_iff [OF assms(1), of i d] cache_view_iff [OF assms(2), of i d] by auto
  then show ?thesis
    by (rule map_leI)
qed

lemma cache_miss_simps [simp]:
  "cache_inv (cache_miss c) = cache_inv c" "cache_view (cache_miss c) = cache_view c"
  by (auto simp: cache_miss_def cache_inv_def cache_books_def cache_synced_def cache_all_def cache_view_def cache_index_def)

lemma removeLocked_inv:
  assumes "cache_inv c" "e \<in> set (cache_all c)"
  shows "cache_inv (removeLocked e c)" "cache_view (removeLocked e c) \<subseteq>\<^sub>m (cache_view c)(ca_pieceID e := None)"
proof -
  have books: "cache_books c"
    using assms(1) by (simp add: cache_inv_def)
  note r = removeLocked_books [OF books assms(2)]
  show "cache_inv (removeLocked e c)"
    using r(1,4) assms(1) order.trans [of "mc_bytesUsed c - cache_size e" "mc_bytesUsed c"] by (auto simp: cache_inv_def)
  have "((cache_view c)(ca_pieceID e := None)) i = Some d" if "cache_view (removeLocked e c) i = Some d" for i d
    using that removeLocked_other [OF books assms(2)] r(2) cache_view_iff [OF r(1), of i d] cache_view_iff [OF books, of i d] by auto
  then show "cache_view (removeLocked e c) \<subseteq>\<^sub>m (cache_view c)(ca_pieceID e := None)"
    by (rule map_leI)
qed

lemma map_le_drop: "m \<subseteq>\<^sub>m n(i := None) \<Longrightarrow> m \<subseteq>\<^sub>m n"
  by (rule map_leI) (drule (1) map_leD, simp split: if_splits)

lemma touch_distinct:
  assumes "distinct (map f (xs @ ys))" "e \<in> set xs" "f e' = f e"
  shows "distinct (map f ((e' # remove1 e xs) @ ys))"
proof -
  have "distinct (map f xs)"
    using assms(1) by simp
  then have "f e \<notin> f ` (set xs - {e})" "set (remove1 e xs) = set xs - {e}"
    using assms(2) set_remove1_map [of f xs e] by (auto simp: distinct_map inj_on_def)
  moreover have "f e \<notin> f ` set ys"
    using assms(1,2) by auto
  ultimately show ?thesis
    using remove1_distinct(1) [OF assms(1), of e] assms(3) by simp
qed

lemma Cache_Get_inv:
  assumes inv: "cache_inv c" and get: "Cache_Get now i c = (r, c')"
  shows "cache_inv c' \<and> cache_view c' \<subseteq>\<^sub>m cache_view c \<and> (\<forall>d md. r = Some (d, md) \<longrightarrow> cache_view c i = Some d)"
proof (cases "cache_index c i")
  case None
  then show ?thesis
    using get inv by (auto simp: Cache_Get_def)
next
  case (Some e)
  have books: "cache_books c"
    using inv by (simp add: cache_inv_def)
  have e: "e \<in> set (cache_all c)" "ca_pieceID e = i"
    using Some cache_index_iff [OF books] by auto
  show ?thesis
  proof (cases "ca_expiresAt e \<noteq> zero_time \<and> now > ca_expiresAt e")
    case True
    then show ?thesis
      using get Some removeLocked_inv [OF inv e(1)] map_le_drop by (auto simp: Cache_Get_def)
  next
    case False
    let ?e = "e\<lparr>ca_hits := ca_hits e + 1, ca_lastAccess := now\<rparr>"
    have size: "cache_size ?e = cache_size e"
      by (simp add: cache_size_def)
    have c': "mc_policy c' = mc_policy c" "mc_bytesUsed c' = mc_bytesUsed c" "mc_hotBytes c' = mc_hotBytes c"
        "st_BytesUsed (mc_stats c') = st_BytesUsed (mc_stats c)" "st_Entries (mc_stats c') = st_Entries (mc_stats c)"
        "mc_hot c' = (if ca_pinned e then ?e # remove1 e (mc_hot c) else mc_hot c)"
        "mc_main c' = (if ca_pinned e then mc_main c else ?e # remove1 e (mc_main c))"
        "r = None \<or> (\<exists>md. r = Some (ca_body e, md))"
      using get Some False by (auto simp: Cache_Get_def Let_def)
    have mem: "if ca_pinned e then e \<in> set (mc_hot c) else e \<in> set (mc_main c)"
      using books e(1) by (auto simp: cache_books_def cache_all_def)
    have dist: "distinct (map ca_pieceID (cache_all c'))"
    proof (cases "ca_pinned e")
      case True
      then show ?thesis
        using books mem touch_distinct [of ca_pieceID "mc_hot c" "mc_main c" e ?e] c'(6,7) by (simp add: cache_books_def cache_all_def)
    next
      case False
      then show ?thesis
        using books mem touch_distinct [of ca_pieceID "mc_main c" "mc_hot c" e ?e] c'(6,7)
        by (auto simp: cache_books_def cache_all_def)
    qed
    have "cache_books c'"
      using books mem dist c'(2,3,6,7) size cache_sum_remove1 [of e "mc_hot c"] cache_sum_remove1 [of e "mc_main c"]
        set_remove1_subset [of e "mc_hot c"] set_remove1_subset [of e "mc_main c"]
      by (cases "ca_pinned e") (simp_all add: cache_books_def cache_all_def subset_iff)
    moreover have "length (cache_all c') = length (cache_all c)"
      using mem c'(6,7) length_pos_if_in_set [of e "mc_hot c"] length_pos_if_in_set [of e "mc_main c"]
      by (auto simp: cache_all_def length_remove1)
    ultimately have "cache_inv c'"
      using inv c'(1-5) by (simp add: cache_inv_def cache_synced_def)
    moreover have "cache_view c' \<subseteq>\<^sub>m cache_view c"
      by (rule cache_view_mono [OF books \<open>cache_books c'\<close>])
        (use c'(6,7) e(1) set_remove1_subset [of e "mc_hot c"] set_remove1_subset [of e "mc_main c"] in
          \<open>auto simp: cache_all_def split: if_splits\<close>)
    ultimately show ?thesis
      using c'(8) Some by (auto simp: cache_view_def)
  qed
qed

lemma push_entry_inv:
  assumes "cache_books c" "\<forall>e' \<in> set (cache_all c). ca_pieceID e' \<noteq> ca_pieceID e"
    and "ep_MaxBytes (mc_policy c) > 0 \<longrightarrow> mc_bytesUsed c + cache_size e \<le> ep_MaxBytes (mc_policy c)"
  shows "cache_inv (push_entry e c)" "set (cache_all (push_entry e c)) = insert e (set (cache_all c))"
proof -
  have "cache_books (push_entry e c)" "cache_synced (push_entry e c)"
    using assms(1,2) by (cases "ca_pinned e"; auto simp: push_entry_def cache_books_def cache_synced_def cache_all_def)+
  then show "cache_inv (push_entry e c)"
    using assms(3) by (simp add: cache_inv_def push_entry_def)
  show "set (cache_all (push_entry e c)) = insert e (set (cache_all c))"
    by (auto simp: push_entry_def cache_all_def)
qed

lemma drop_existing:
  fixes i
  assumes "cache_books c"
  defines "c1 \<equiv> case cache_index c i of None \<Rightarrow> c | Some existing \<Rightarrow> removeLocked existing c"
  shows "cache_books c1" "set (cache_all c1) \<subseteq> set (cache_all c)" "mc_policy c1 = mc_policy c" "\<forall>e \<in> set (cache_all c1). ca_pieceID e \<noteq> i"
proof -
  have "cache_books c1 \<and> set (cache_all c1) \<subseteq> set (cache_all c) \<and> mc_policy c1 = mc_policy c \<and> (\<forall>e \<in> set (cache_all c1). ca_pieceID e \<noteq> i)"
  proof (cases "cache_index c i")
    case None
    then show ?thesis
      using assms cache_index_iff [OF assms(1), of i] by auto
  next
    case (Some e)
    then have e: "e \<in> set (cache_all c)" "ca_pieceID e = i"
      using cache_index_iff [OF assms(1)] by auto
    show ?thesis
      using removeLocked_books(1,2) [OF assms(1) e(1)] removeLocked_other [OF assms(1) e(1)] Some e(2) by (auto simp: c1_def)
  qed
  then show "cache_books c1" "set (cache_all c1) \<subseteq> set (cache_all c)" "mc_policy c1 = mc_policy c" "\<forall>e \<in> set (cache_all c1). ca_pieceID e \<noteq> i"
    by blast+
qed

lemma Cache_Put_inv:
  assumes inv: "cache_inv c" and put: "Cache_Put now i d opts c = (res, c')"
  shows "cache_inv c' \<and> cache_view c' \<subseteq>\<^sub>m (if is_ok res then (cache_view c)(i \<mapsto> d) else cache_view c)"
proof (cases "i = [] \<or> ep_MaxBytes (mc_policy c) > 0 \<and> int (length d) > ep_MaxBytes (mc_policy c)")
  case True
  then have "c' = c \<and> \<not> is_ok res"
    using put by (auto simp: Cache_Put_def Let_def split: if_splits)
  then show ?thesis
    using inv by simp
next
  case False
  let ?e = "new_entry now i d opts (mc_policy c)"
  define c1 where "c1 = (case cache_index c i of None \<Rightarrow> c | Some existing \<Rightarrow> removeLocked existing c)"
  define c2 where "c2 = evictMainLocked (int (length d)) (if ca_pinned ?e then evictHotLocked (int (length d)) c1 else c1)"
  have books: "cache_books c"
    using inv by (simp add: cache_inv_def)
  note c1 = drop_existing [OF books, of i, folded c1_def]
  note ev = evict_spec [OF c1(1), of "int (length d)" "ca_pinned ?e", folded c2_def]
  have e: "ca_pieceID ?e = i" "ca_body ?e = d" "cache_size ?e = int (length d)"
    by (simp_all add: new_entry_def cache_size_def)
  have c': "res = Inr ()" "c' = push_entry ?e c2"
    using put False by (auto simp: Cache_Put_def Let_def c1_def c2_def)
  have new: "\<forall>e' \<in> set (cache_all c2). ca_pieceID e' \<noteq> i"
    using ev(2) c1(4) by blast
  have room: "ep_MaxBytes (mc_policy c2) > 0 \<longrightarrow> mc_bytesUsed c2 + cache_size ?e \<le> ep_MaxBytes (mc_policy c2)"
    using ev(3,4) c1(3) False e(3) by auto
  note push = push_entry_inv [of c2 ?e, OF ev(1) _ room, unfolded e(1), OF new, folded c'(2)]
  have "cache_view c' \<subseteq>\<^sub>m (cache_view c)(i \<mapsto> d)"
  proof (rule map_leI)
    fix j x
    assume "cache_view c' j = Some x"
    then obtain e' where e': "e' \<in> insert ?e (set (cache_all c2))" "ca_pieceID e' = j" "ca_body e' = x"
      using cache_view_iff [of c' j x] push by (auto simp: cache_inv_def)
    show "((cache_view c)(i \<mapsto> d)) j = Some x"
      using e' e(1,2) new ev(2) c1(2) cache_view_iff [OF books, of j x] by auto
  qed
  then show ?thesis
    using push(1) c'(1) by simp
qed

interpretation mem_cache: hot_cache memory_cache cache_inv cache_view
proof
  show "cache_inv c' \<and> cache_view c' \<subseteq>\<^sub>m cache_view c \<and> (\<forall>d md. r = Some (d, md) \<longrightarrow> cache_view c i = Some d)"
    if "cache_inv c" "hc_Get memory_cache now i c = (r, c')" for c now i r c'
    using Cache_Get_inv [OF that(1)] that(2) by (simp add: memory_cache_def)
  show "cache_inv c' \<and> cache_view c' \<subseteq>\<^sub>m (if is_ok res then (cache_view c)(i \<mapsto> d) else cache_view c)"
    if "cache_inv c" "hc_Put memory_cache now i d opts c = (res, c')" for c now i d opts res c'
    using Cache_Put_inv [OF that(1)] that(2) by (simp add: memory_cache_def)
  show "cache_inv (hc_Evict memory_cache i c) \<and> cache_view (hc_Evict memory_cache i c) \<subseteq>\<^sub>m (cache_view c)(i := None)"
    if "cache_inv c" for c i
  proof (cases "cache_index c i")
    case None
    then show ?thesis
      using that by (auto simp: memory_cache_def Cache_Evict_def cache_view_def intro!: map_leI)
  next
    case (Some e)
    then have "e \<in> set (cache_all c)" "ca_pieceID e = i"
      using cache_index_iff [of c i e] that by (auto simp: cache_inv_def)
    then show ?thesis
      using removeLocked_inv [OF that, of e] Some by (simp add: memory_cache_def Cache_Evict_def)
  qed
qed

section \<open>The cache stays within its budget\<close>

datatype cache_op = OpGet gotime string | OpCachePut gotime string bytes CachePutOptions | OpEvict string

fun cache_step :: "cache_op \<Rightarrow> MemoryCache \<Rightarrow> MemoryCache" where
  "cache_step (OpGet now i) c = snd (Cache_Get now i c)"
| "cache_step (OpCachePut now i d opts) c = snd (Cache_Put now i d opts c)"
| "cache_step (OpEvict i) c = Cache_Evict i c"

lemma cache_step_inv: "cache_inv c \<Longrightarrow> cache_inv (cache_step a c)"
proof (cases a)
  case (OpGet now i)
  then show "cache_inv c \<Longrightarrow> cache_inv (cache_step a c)"
    using Cache_Get_inv [of c now i] by (metis cache_step.simps(1) prod.collapse)
next
  case (OpCachePut now i d opts)
  then show "cache_inv c \<Longrightarrow> cache_inv (cache_step a c)"
    using Cache_Put_inv [of c now i d opts] by (metis cache_step.simps(2) prod.collapse)
next
  case (OpEvict i)
  then show "cache_inv c \<Longrightarrow> cache_inv (cache_step a c)"
    using mem_cache.evict_law [of c i] by (simp add: memory_cache_def)
qed

lemma Cache_Get_policy: "mc_policy (snd (Cache_Get now i c)) = mc_policy c"
  by (auto simp: Cache_Get_def cache_miss_def Let_def split: option.splits)

lemma evict_policy: "mc_policy (evict_main n k c) = mc_policy c" "mc_policy (evict_hot n k c) = mc_policy c"
  by (induction n arbitrary: c) (auto split: option.splits)

lemma cache_step_policy: "mc_policy (cache_step a c) = mc_policy c"
  by (cases a) (auto simp: Cache_Get_policy Cache_Put_def Cache_Evict_def push_entry_def evictMainLocked_def evictHotLocked_def
      evict_policy Let_def split: option.splits)

lemma NewMemoryCache_inv: "NewMemoryCache fmul policy = Inr c \<Longrightarrow> cache_inv c \<and> ep_MaxBytes (mc_policy c) = ep_MaxBytes policy"
  by (auto simp: NewMemoryCache_def cache_inv_def cache_books_def cache_synced_def cache_all_def Let_def EvictionPolicy_Validate_def
      split: if_splits)

text \<open>
  C13: the in-memory cache never exceeds its capacity.  After any sequence of reads, writes and
  evictions on a fresh cache with a bound, the bodies of the cached pieces together are at most
  \<open>MaxBytes\<close> long, no piece is cached twice, and the statistics report exactly that size and number.
\<close>

theorem cache_within_budget:
  assumes "NewMemoryCache fmul policy = Inr c0" "0 < ep_MaxBytes policy"
  shows "let c = fold cache_step ops c0; es = mc_hot c @ mc_main c in
    sum_list (map (\<lambda>e. int (length (ca_body e))) es) \<le> ep_MaxBytes policy \<and> distinct (map ca_pieceID es)
    \<and> st_BytesUsed (mc_stats c) = sum_list (map (\<lambda>e. int (length (ca_body e))) es) \<and> st_Entries (mc_stats c) = int (length es)"
proof -
  have "cache_inv (fold cache_step ops c) \<and> mc_policy (fold cache_step ops c) = mc_policy c" if "cache_inv c" for c
    using that by (induction ops arbitrary: c) (simp_all add: cache_step_inv cache_step_policy)
  then have "cache_inv (fold cache_step ops c0)" "ep_MaxBytes (mc_policy (fold cache_step ops c0)) = ep_MaxBytes policy"
    using NewMemoryCache_inv [OF assms(1)] by simp_all
  then show ?thesis
    using assms(2)
    by (simp add: cache_inv_def cache_books_def cache_synced_def cache_all_def cache_sum_def cache_size_def [abs_def] Let_def)
qed

definition demo_policy :: EvictionPolicy where
  "demo_policy = \<lparr>ep_Kind = EvictionLRUHotPin, ep_MaxBytes = 10, ep_HotRegionFraction = 1 / 2, ep_HotDemotionHitCount = 0, ep_TTL = 0\<rparr>"

definition demo_cache_opts :: "bool \<Rightarrow> CachePutOptions" where
  "demo_cache_opts pin = \<lparr>cp_SizeBytes = 0, cp_Hash = [], cp_TTL = 0, cp_PinHot = pin\<rparr>"

definition demo_cache :: MemoryCache where
  "demo_cache = projr (NewMemoryCache (\<lambda>n f. n div 2) demo_policy)"

lemma demo_cache_new: "NewMemoryCache (\<lambda>n f. n div 2) demo_policy = Inr demo_cache"
  by (simp add: demo_cache_def NewMemoryCache_def demo_policy_def EvictionPolicy_Validate_def)

theorem cache_within_budget_witness:
  "length (mc_main (fold cache_step [OpCachePut 1 ''a'' [1, 2, 3, 4, 5, 6] (demo_cache_opts False),
       OpCachePut 2 ''b'' [1, 2, 3, 4, 5, 6] (demo_cache_opts False)] demo_cache)) = 1
    \<and> sum_list (map (\<lambda>e. int (length (ca_body e))) (mc_main (fold cache_step [OpCachePut 1 ''a'' [1, 2, 3, 4, 5, 6] (demo_cache_opts False),
       OpCachePut 2 ''b'' [1, 2, 3, 4, 5, 6] (demo_cache_opts False)] demo_cache))) \<le> 10"
proof -
  let ?c = "fold cache_step [OpCachePut 1 ''a'' [1, 2, 3, 4, 5, 6] (demo_cache_opts False),
       OpCachePut 2 ''b'' [1, 2, 3, 4, 5, 6] (demo_cache_opts False)] demo_cache"
  have "mc_hot ?c = []" "length (mc_main ?c) = 1"
    by code_simp+
  then show ?thesis
    using cache_within_budget [OF demo_cache_new, of "[OpCachePut 1 ''a'' [1, 2, 3, 4, 5, 6] (demo_cache_opts False),
       OpCachePut 2 ''b'' [1, 2, 3, 4, 5, 6] (demo_cache_opts False)]"]
    by (simp add: demo_policy_def Let_def)
qed

section \<open>The hot region outgrows its share\<close>

lemma evict_hotLimit: "mc_hotLimit (evict_main n k c) = mc_hotLimit c" "mc_hotLimit (evict_hot n k c) = mc_hotLimit c"
  by (induction n arbitrary: c) (auto split: option.splits)

text \<open>
  A pinned piece larger than the hot region's limit, but not larger than the cache, is stored in the
  hot region all the same: afterwards the region holds more bytes than its limit.
\<close>

lemma hot_region_overrun:
  assumes inv: "cache_inv c" and kind: "ep_Kind (mc_policy c) = EvictionLRUHotPin" "cp_PinHot opts" "i \<noteq> []"
    and big: "mc_hotLimit c < int (length d)" "int (length d) \<le> ep_MaxBytes (mc_policy c)"
  shows "\<exists>c'. Cache_Put now i d opts c = (Inr (), c') \<and> mc_hotLimit c' = mc_hotLimit c \<and> mc_hotLimit c' < mc_hotBytes c'"
proof -
  let ?e = "new_entry now i d opts (mc_policy c)"
  define c1 where "c1 = (case cache_index c i of None \<Rightarrow> c | Some existing \<Rightarrow> removeLocked existing c)"
  define c2 where "c2 = evictMainLocked (int (length d)) (if ca_pinned ?e then evictHotLocked (int (length d)) c1 else c1)"
  have e: "ca_pinned ?e" "cache_size ?e = int (length d)"
    using kind by (simp_all add: new_entry_def cache_size_def)
  have "cache_books c"
    using inv by (simp add: cache_inv_def)
  then have "cache_books c1"
    using drop_existing(1) [of c i] by (simp add: c1_def)
  then have "cache_books c2"
    unfolding c2_def by (rule evict_spec(1))
  then have "0 \<le> mc_hotBytes c2"
    by (simp add: cache_books_def)
  moreover have "mc_hotLimit c2 = mc_hotLimit c"
    by (auto simp: c2_def c1_def evictMainLocked_def evictHotLocked_def evict_hotLimit split: option.splits)
  moreover have "Cache_Put now i d opts c = (Inr (), push_entry ?e c2)"
    using kind(3) big by (simp add: Cache_Put_def c1_def c2_def Let_def)
  ultimately show ?thesis
    using e big(1) by (simp add: push_entry_def)
qed

end
