(* ===== verification/HTTP_Time.thy ===== *)
theory HTTP_Time
  imports Go_Time Go_Strings
begin

text \<open>
  HTTP dates: the format of the \<open>Last-Modified\<close> header (\<open>http.TimeFormat\<close>) and
  \<open>http.ParseTime\<close>, which tries the three layouts of RFC 7231 in turn with
  \<open>time.Parse\<close>.  A layout is the list of its elements; what the parser of the standard
  library tolerates (runs of blanks, letters of either case, an hour of one digit, a
  fraction after the seconds, any zone abbreviation) is tolerated here.
\<close>

definition shortDayNames :: "string list" where
  "shortDayNames = [''Mon'', ''Tue'', ''Wed'', ''Thu'', ''Fri'', ''Sat'', ''Sun'']"

definition longDayNames :: "string list" where
  "longDayNames = [''Monday'', ''Tuesday'', ''Wednesday'', ''Thursday'', ''Friday'', ''Saturday'', ''Sunday'']"

definition shortMonthNames :: "string list" where
  "shortMonthNames = [''Jan'', ''Feb'', ''Mar'', ''Apr'', ''May'', ''Jun'', ''Jul'', ''Aug'', ''Sep'', ''Oct'', ''Nov'', ''Dec'']"

definition clock_of :: "gotime \<Rightarrow> int \<times> int \<times> int" where
  "clock_of t = (let s = t mod day div second in (s div 3600, s div 60 mod 60, s mod 60))"

text \<open>The zero Time, day 0, was a Monday.\<close>

definition FormatHTTP :: "gotime \<Rightarrow> string" where
  "FormatHTTP t = (case clock_of t of (h, m, s) \<Rightarrow>
    shortDayNames ! nat (day_number t mod 7) @ '', '' @ pad_decimal 2 (Day t) @ '' '' @ shortMonthNames ! (Month t - 1) @ '' ''
      @ pad_decimal 4 (Year t) @ '' '' @ pad_decimal 2 h @ '':'' @ pad_decimal 2 m @ '':'' @ pad_decimal 2 s @ '' GMT'')"

section \<open>time.Parse\<close>

datatype layout_elem =
    LLit string
  | LWeekDay
  | LLongWeekDay
  | LZeroDay
  | LUnderDay
  | LMonth
  | LLongYear
  | LYear
  | LHour
  | LZeroMinute
  | LZeroSecond
  | LTZ

record parsed_time =
  pt_year :: int
  pt_month :: nat
  pt_day :: int
  pt_hour :: int
  pt_min :: int
  pt_sec :: int
  pt_nsec :: int

definition cutspace :: "string \<Rightarrow> string" where
  "cutspace = dropWhile (\<lambda>c. c = CHR '' '')"

text \<open>A blank of the layout stands for any run of blanks, also an empty one at the end.\<close>

function skip :: "string \<Rightarrow> string \<Rightarrow> string option" where
  "skip value [] = Some value"
| "skip value (c # prefix) =
    (if c = CHR '' '' then
       (if value \<noteq> [] \<and> hd value \<noteq> CHR '' '' then None else skip (cutspace value) (cutspace prefix))
     else case value of [] \<Rightarrow> None | v # rest \<Rightarrow> if v \<noteq> c then None else skip rest prefix)"
  by pat_completeness auto
termination
  by (relation "measure (\<lambda>(v, p). length p)") (auto simp: cutspace_def intro: le_less_trans [OF length_dropWhile_le])

definition getnum :: "string \<Rightarrow> bool \<Rightarrow> (int \<times> string) option" where
  "getnum s fixed =
    (case s of
       [] \<Rightarrow> None
     | a # rest \<Rightarrow>
         if \<not> is_digit a then None
         else (case rest of
            b # rest' \<Rightarrow> if is_digit b then Some (int (decimal_value [a, b]), rest')
                        else if fixed then None else Some (int (decimal_value [a]), rest)
          | [] \<Rightarrow> if fixed then None else Some (int (decimal_value [a]), rest)))"

definition lookup_name :: "string list \<Rightarrow> string \<Rightarrow> (nat \<times> string) option" where
  "lookup_name tab value =
    (case find (\<lambda>i. length value \<ge> length (tab ! i) \<and> ToLower (take (length (tab ! i)) value) = ToLower (tab ! i)) [0..<length tab] of
       None \<Rightarrow> None
     | Some i \<Rightarrow> Some (i, drop (length (tab ! i)) value))"

definition atoi :: "string \<Rightarrow> int option" where
  "atoi s =
    (let (neg, ds) = (case s of c # cs \<Rightarrow> if c = CHR ''-'' then (True, cs) else if c = CHR ''+'' then (False, cs) else (False, s)
                      | [] \<Rightarrow> (False, s))
     in if list_all is_digit ds then Some (if neg then - int (decimal_value ds) else int (decimal_value ds)) else None)"

text \<open>The length of a zone abbreviation at the front of a string, None where there is none.\<close>

definition parseSignedOffset :: "string \<Rightarrow> nat" where
  "parseSignedOffset value =
    (let ds = takeWhile is_digit (tl value) in
     if value = [] \<or> hd value \<notin> {CHR ''-'', CHR ''+''} \<or> ds = [] \<or> decimal_value ds > 23 then 0 else 1 + length ds)"

definition parseTimeZone :: "string \<Rightarrow> nat option" where
  "parseTimeZone value =
    (if length value < 3 then None
     else if take 4 value = ''ChST'' \<or> take 4 value = ''MeST'' then Some 4
     else if take 3 value = ''GMT'' then Some (3 + parseSignedOffset (drop 3 value))
     else if hd value \<in> {CHR ''-'', CHR ''+''} then
       (if parseSignedOffset value > 0 then Some (parseSignedOffset value) else None)
     else
       let nUpper = length (takeWhile (\<lambda>c. let n = (of_char c :: nat) in 65 \<le> n \<and> n \<le> 90) (take 6 value)) in
       if nUpper = 3 then Some 3
       else if nUpper = 4 \<and> (value ! 3 = CHR ''T'' \<or> take 4 value = ''WITA'') then Some 4
       else if nUpper = 5 \<and> value ! 4 = CHR ''T'' then Some 5
       else None)"

definition fraction :: "string \<Rightarrow> int \<times> string" where
  "fraction value =
    (if length value \<ge> 2 \<and> hd value \<in> {CHR ''.'', CHR '',''} \<and> is_digit (value ! 1) then
       let ds = takeWhile is_digit (tl value); ks = take 9 ds in
       (int (decimal_value ks) * 10 ^ (9 - length ks), drop (1 + length ds) value)
     else (0, value))"

definition in_range :: "int \<Rightarrow> int \<Rightarrow> (int \<times> string) option \<Rightarrow> (int \<times> string) option" where
  "in_range lo hi r = (case r of None \<Rightarrow> None | Some (n, rest) \<Rightarrow> if lo \<le> n \<and> n < hi then Some (n, rest) else None)"

definition parse_elem :: "layout_elem \<Rightarrow> string \<Rightarrow> parsed_time \<Rightarrow> (parsed_time \<times> string) option" where
  "parse_elem e value p =
    (case e of
       LLit prefix \<Rightarrow> map_option (\<lambda>rest. (p, rest)) (skip value prefix)
     | LWeekDay \<Rightarrow> map_option (\<lambda>(_, rest). (p, rest)) (lookup_name shortDayNames value)
     | LLongWeekDay \<Rightarrow> map_option (\<lambda>(_, rest). (p, rest)) (lookup_name longDayNames value)
     | LMonth \<Rightarrow> map_option (\<lambda>(i, rest). (p\<lparr>pt_month := i + 1\<rparr>, rest)) (lookup_name shortMonthNames value)
     | LZeroDay \<Rightarrow> map_option (\<lambda>(n, rest). (p\<lparr>pt_day := n\<rparr>, rest)) (getnum value True)
     | LUnderDay \<Rightarrow> map_option (\<lambda>(n, rest). (p\<lparr>pt_day := n\<rparr>, rest)) (getnum (if has_prefix value '' '' then tl value else value) False)
     | LLongYear \<Rightarrow>
         if length value < 4 \<or> \<not> is_digit (hd value) then None
         else map_option (\<lambda>y. (p\<lparr>pt_year := y\<rparr>, drop 4 value)) (atoi (take 4 value))
     | LYear \<Rightarrow>
         if length value < 2 then None
         else map_option (\<lambda>y. (p\<lparr>pt_year := (if y \<ge> 69 then y + 1900 else y + 2000)\<rparr>, drop 2 value)) (atoi (take 2 value))
     | LHour \<Rightarrow> map_option (\<lambda>(n, rest). (p\<lparr>pt_hour := n\<rparr>, rest)) (in_range 0 24 (getnum value False))
     | LZeroMinute \<Rightarrow> map_option (\<lambda>(n, rest). (p\<lparr>pt_min := n\<rparr>, rest)) (in_range 0 60 (getnum value True))
     | LZeroSecond \<Rightarrow>
         map_option (\<lambda>(n, rest). case fraction rest of (ns, rest') \<Rightarrow> (p\<lparr>pt_sec := n, pt_nsec := ns\<rparr>, rest')) (in_range 0 60 (getnum value True))
     | LTZ \<Rightarrow>
         if take 3 value = ''UTC'' then Some (p, drop 3 value)
         else map_option (\<lambda>n. (p, drop n value)) (parseTimeZone value))"

fun parse_layout :: "layout_elem list \<Rightarrow> string \<Rightarrow> parsed_time \<Rightarrow> parsed_time option" where
  "parse_layout [] value p = (if value = [] then Some p else None)"
| "parse_layout (e # es) value p = (case parse_elem e value p of None \<Rightarrow> None | Some (p', rest) \<Rightarrow> parse_layout es rest p')"

definition daysIn :: "nat \<Rightarrow> int \<Rightarrow> int" where
  "daysIn month year = days_before_month year (month + 1) - days_before_month year month"

definition Parse :: "layout_elem list \<Rightarrow> string \<Rightarrow> gotime option" where
  "Parse layout value =
    (case parse_layout layout value \<lparr>pt_year = 0, pt_month = 1, pt_day = 1, pt_hour = 0, pt_min = 0, pt_sec = 0, pt_nsec = 0\<rparr> of
       None \<Rightarrow> None
     | Some p \<Rightarrow>
         if pt_day p < 1 \<or> pt_day p > daysIn (pt_month p) (pt_year p) then None
         else Some (Date (pt_year p) (pt_month p) (pt_day p) ((pt_hour p * 3600 + pt_min p * 60 + pt_sec p) * second + pt_nsec p)))"

definition TimeFormat :: "layout_elem list" where
  "TimeFormat = [LWeekDay, LLit '', '', LZeroDay, LLit '' '', LMonth, LLit '' '', LLongYear, LLit '' '', LHour, LLit '':'', LZeroMinute,
     LLit '':'', LZeroSecond, LLit '' GMT'']"

definition RFC850 :: "layout_elem list" where
  "RFC850 = [LLongWeekDay, LLit '', '', LZeroDay, LLit ''-'', LMonth, LLit ''-'', LYear, LLit '' '', LHour, LLit '':'', LZeroMinute,
     LLit '':'', LZeroSecond, LLit '' '', LTZ]"

definition ANSIC :: "layout_elem list" where
  "ANSIC = [LWeekDay, LLit '' '', LMonth, LLit '' '', LUnderDay, LLit '' '', LHour, LLit '':'', LZeroMinute, LLit '':'', LZeroSecond,
     LLit '' '', LLongYear]"

definition ParseTime :: "string \<Rightarrow> gotime option" where
  "ParseTime text =
    (case Parse TimeFormat text of
       Some t \<Rightarrow> Some t
     | None \<Rightarrow> (case Parse RFC850 text of Some t \<Rightarrow> Some t | None \<Rightarrow> Parse ANSIC text))"

end
