(* ===== verification/S3_Read.thy ===== *)
theory S3_Read
  imports S3_Gateway Hot_Cache HTTP_Time
begin

text \<open>
  The read side of the S3 API: GET and HEAD of an object (\<open>api/s3compat/handler.go\<close>),
  ranges and multipart/byteranges bodies (\<open>range_multipart.go\<close>), erasure-coded and
  multipart objects (\<open>erasure_coding.go\<close>), the stored metadata on the response
  (\<open>object_metadata.go\<close>), and the repair of a piece during a read
  (\<open>migration/lazy_read_repair/repair.go\<close>).

  A body read from a backend or the cache is a byte string: a backend that fails
  halfway is one whose \<open>GetPiece\<close> fails.  The readings of the clock of a request are
  6 for the cache, 7 for a promotion signal.  The bytes other requests hold of the
  budget for warming the cache are part of the state, which a request leaves as it is.
\<close>

section \<open>Configuration and state\<close>

record ('m, 'i, 'p, 'b, 'c) Reader =
  rd_cfg :: "('m, 'i, 'p, 'b) Config"
  rd_Cache :: "'c HotObjectCache option"
  rd_CachePublisher :: bool
  rd_ReadRepair :: bool
  rd_CacheWarmBudget :: "int option"
  rd_IntegrityFailures :: bool

record ('m, 'i, 'p, 'b, 'c) ReadState =
  rg_gw :: "('m, 'i, 'p, 'b) Gateway"
  rg_cache :: 'c
  rg_bus :: SignalBus
  rg_warmInUse :: int
  rg_failures :: "(string \<times> integrity_error) list"

definition on_gw :: "(('m, 'i, 'p, 'b) Gateway \<Rightarrow> ('m, 'i, 'p, 'b) Gateway) \<Rightarrow> ('m, 'i, 'p, 'b, 'c) ReadState
    \<Rightarrow> ('m, 'i, 'p, 'b, 'c) ReadState" where
  "on_gw f st = st\<lparr>rg_gw := f (rg_gw st)\<rparr>"

definition recordIntegrity :: "('m, 'i, 'p, 'b, 'c) Reader \<Rightarrow> string \<Rightarrow> integrity_error \<Rightarrow> ('m, 'i, 'p, 'b, 'c) ReadState
    \<Rightarrow> ('m, 'i, 'p, 'b, 'c) ReadState" where
  "recordIntegrity rd backend e st = (if rd_IntegrityFailures rd then st\<lparr>rg_failures := rg_failures st @ [(backend, e)]\<rparr> else st)"

definition signalPromotion :: "('m, 'i, 'p, 'b, 'c) Reader \<Rightarrow> Request \<Rightarrow> Piece \<Rightarrow> string \<Rightarrow> int \<Rightarrow> int \<Rightarrow> ('m, 'i, 'p, 'b, 'c) ReadState
    \<Rightarrow> ('m, 'i, 'p, 'b, 'c) ReadState" where
  "signalPromotion rd rq piece tenantID readBytes pieceSize st =
    (if rd_CachePublisher rd
     then st\<lparr>rg_bus := snd (Publish \<lparr>sg_PieceID = p_PieceID piece, sg_PieceSizeBytes = pieceSize, sg_TenantID = tenantID,
            sg_ReadBytes = readBytes, sg_ReadCount = 1, sg_ObservedAt = rq_now rq 7, sg_OriginBackend = p_Backend piece\<rparr> (rg_bus st))\<rparr>
     else st)"

section \<open>Response headers (object\_metadata.go)\<close>

definition hset :: "string \<Rightarrow> string \<Rightarrow> (string, string) gomap \<Rightarrow> (string, string) gomap" where
  "hset k v h = gm_set (CanonicalHeaderKey k) v h"

definition hget :: "(string, string) gomap \<Rightarrow> string \<Rightarrow> string" where
  "hget h k = (case gm_get h (CanonicalHeaderKey k) of None \<Rightarrow> [] | Some v \<Rightarrow> v)"

definition systemMetadataHeaders :: "ObjectManifest \<Rightarrow> (string \<times> string) list" where
  "systemMetadataHeaders m =
    [(''Content-Type'', m_ContentType m), (''Content-Encoding'', m_ContentEncoding m), (''Content-Disposition'', m_ContentDisposition m),
     (''Content-Language'', m_ContentLanguage m), (''Cache-Control'', m_CacheControl m), (''Expires'', m_Expires m)]"

abbreviation defaultContentType :: string where "defaultContentType \<equiv> ''binary/octet-stream''"

definition setObjectMetadataHeaders :: "ObjectManifest \<Rightarrow> (string, string) gomap \<Rightarrow> (string, string) gomap" where
  "setObjectMetadataHeaders m h =
    (let h1 = hset ''Content-Type'' (if m_ContentType m = [] then defaultContentType else m_ContentType m) h;
         h2 = fold (\<lambda>(name, v) h. if name = ''Content-Type'' \<or> v = [] then h else hset name v h) (systemMetadataHeaders m) h1
     in fold (\<lambda>(k, v). hset (userMetadataHeaderPrefix @ k) v) (m_UserMetadata m) h2)"

definition applyResponseOverrideHeaders :: "string \<Rightarrow> (string, string) gomap \<Rightarrow> (string, string) gomap" where
  "applyResponseOverrideHeaders rawQuery h =
    fold (\<lambda>(name, _) h. case gm_get (fst (ParseQuery rawQuery)) (''response-'' @ ToLower name) of
              Some (v # _) \<Rightarrow> hset name v h
            | _ \<Rightarrow> h) (systemMetadataHeaders zero_ObjectManifest) h"

definition clearObjectMetadataHeaders :: "(string, string) gomap \<Rightarrow> (string, string) gomap" where
  "clearObjectMetadataHeaders h =
    (let named = fold (\<lambda>(name, _) h. if name = ''Content-Type'' then h else gm_del (CanonicalHeaderKey name) h)
                   (systemMetadataHeaders zero_ObjectManifest) h
     in filter (\<lambda>(name, _). \<not> has_prefix (ToLower name) userMetadataHeaderPrefix) named)"

text \<open>\<open>writeError\<close> on a response that already carries headers.\<close>

definition failWith :: "(string, string) gomap \<Rightarrow> nat \<Rightarrow> string \<Rightarrow> Response" where
  "failWith h status code = (writeError status code)\<lparr>rs_Header := hset ''Content-Type'' ''application/xml'' (clearObjectMetadataHeaders h)\<rparr>"

section \<open>Conditional reads (handler.go)\<close>

definition TruncateSecond :: "gotime \<Rightarrow> gotime" where "TruncateSecond t = t div second * second"

definition honorIfRange :: "string \<Rightarrow> string \<Rightarrow> gotime \<Rightarrow> bool" where
  "honorIfRange ifRange etag lastModified =
    (let ir = TrimSpace ifRange in
     if ir = [] then False
     else if has_prefix ir ''W/'' then False
     else if has_prefix ir [DQUOTE] then etag \<noteq> [] \<and> ir = etag
     else case ParseTime ir of None \<Rightarrow> False | Some t \<Rightarrow> \<not> TruncateSecond lastModified > t)"

definition applyIfRange :: "Header \<Rightarrow> string \<Rightarrow> gotime \<Rightarrow> Header" where
  "applyIfRange h etag lastModified =
    (if HeaderGet h ''Range'' = [] \<or> HeaderGet h ''If-Range'' = [] then h
     else if \<not> honorIfRange (HeaderGet h ''If-Range'') etag lastModified then gm_del ''Range'' h
     else h)"

text \<open>The status that diverts the response, None to proceed.\<close>

definition evaluateConditionalRead :: "Header \<Rightarrow> string \<Rightarrow> gotime \<Rightarrow> nat option" where
  "evaluateConditionalRead h etag lastModified =
    (let modifiedAfter = (\<lambda>raw. map_option (\<lambda>t. TruncateSecond lastModified > t) (ParseTime raw));
         im = HeaderGet h ''If-Match''; ius = HeaderGet h ''If-Unmodified-Since'';
         inm = HeaderGet h ''If-None-Match''; ims = HeaderGet h ''If-Modified-Since'';
         failed = (if im \<noteq> [] then TrimSpace im \<noteq> ''*'' \<and> \<not> etagListMatch im etag True
                   else ius \<noteq> [] \<and> modifiedAfter ius = Some True);
         unmodified = (if inm \<noteq> [] then TrimSpace inm = ''*'' \<or> etagListMatch inm etag False
                       else ims \<noteq> [] \<and> modifiedAfter ims = Some False)
     in if failed then Some 412 else if unmodified then Some 304 else None)"

definition isErasureCodedManifest :: "ObjectManifest \<Rightarrow> bool" where
  "isErasureCodedManifest m = list_ex (\<lambda>p. p_ShardKind p \<noteq> []) (m_Pieces m)"

definition isMultipartManifest :: "ObjectManifest \<Rightarrow> bool" where
  "isMultipartManifest m \<longleftrightarrow> length (m_Pieces m) \<ge> 2 \<and> list_all (\<lambda>p. p_PartNumber p \<noteq> 0) (m_Pieces m)"

definition condETagForRead :: "ObjectManifest \<Rightarrow> Piece \<Rightarrow> string" where
  "condETagForRead m piece =
    (if isErasureCodedManifest m \<or> isMultipartManifest m then []
     else if pieceETag piece \<noteq> [] then quote (pieceETag piece) else [])"

text \<open>Either the finished response, or the request headers and the response headers to go on with.\<close>

definition applyReadConditionals :: "Request \<Rightarrow> ObjectManifest \<Rightarrow> Piece \<Rightarrow> (Response, Header \<times> (string, string) gomap) result" where
  "applyReadConditionals rq m piece =
    (let condETag = condETagForRead m piece;
         h = hset ''Last-Modified'' (FormatHTTP (m_CreatedAt m)) []
     in case evaluateConditionalRead (rq_Header rq) condETag (m_CreatedAt m) of
          None \<Rightarrow> Inr (applyIfRange (rq_Header rq) condETag (m_CreatedAt m), h)
        | Some status \<Rightarrow>
            if status = 304
            then Inl (respond 304 (hset ''x-amz-version-id'' (m_VersionID m) (if condETag \<noteq> [] then hset ''ETag'' condETag h else h)))
            else Inl (failWith h 412 ''PreconditionFailed''))"

section \<open>Several ranges (range\_multipart.go)\<close>

abbreviation maxObjectRanges :: nat where "maxObjectRanges \<equiv> 100"

definition resolveRangeEnd :: "int \<Rightarrow> ByteRange \<Rightarrow> ByteRange" where
  "resolveRangeEnd size' r = (if br_End r < 0 \<or> br_End r \<ge> size' then r\<lparr>br_End := size' - 1\<rparr> else r)"

definition sumRangeSizes :: "ByteRange list \<Rightarrow> int" where
  "sumRangeSizes rs = sum_list (map (\<lambda>r. br_End r - br_Start r + 1) rs)"

fun parse_segments :: "int \<Rightarrow> string list \<Rightarrow> (string, ByteRange list) result" where
  "parse_segments size' [] = Inr []"
| "parse_segments size' (seg # segs) =
    (if TrimSpace seg = [] then parse_segments size' segs
     else bind_result (parseHTTPRange (''bytes='' @ TrimSpace seg) size') (\<lambda>r.
       bind_result (parse_segments size' segs) (\<lambda>rs. Inr (resolveRangeEnd size' r # rs))))"

definition parseHTTPRangeList :: "string \<Rightarrow> int \<Rightarrow> (string, ByteRange list) result" where
  "parseHTTPRangeList h size' =
    (if \<not> has_prefix h ''bytes='' then Inl ''invalid range header''
     else bind_result (parse_segments size' (SplitByte (CHR '','') (TrimPrefix h ''bytes=''))) (\<lambda>rs.
       if rs = [] then Inl ''no satisfiable ranges'' else Inr rs))"

datatype ranges = WholeObject | SingleRange ByteRange | MultiRange "ByteRange list"

definition parseObjectRanges :: "Header \<Rightarrow> int \<Rightarrow> (string, ranges) result" where
  "parseObjectRanges h size' =
    (let hdr = HeaderGet h ''Range'' in
     if hdr = [] then Inr WholeObject
     else if CHR '','' \<notin> set hdr then bind_result (parseHTTPRange hdr size') (\<lambda>r. Inr (SingleRange r))
     else bind_result (parseHTTPRangeList hdr size') (\<lambda>rs.
       if length rs = 1 then Inr (SingleRange (hd rs))
       else if length rs > maxObjectRanges \<or> sumRangeSizes rs \<ge> size' then Inr WholeObject
       else Inr (MultiRange rs)))"

abbreviation CRLF :: string where "CRLF \<equiv> [CHR 0x0D, CHR 0x0A]"

text \<open>The boundary is drawn from the request's random source.\<close>

definition newRangeBoundary :: "Request \<Rightarrow> string" where
  "newRangeBoundary rq = EncodeToString (take 16 (concat (rq_rand rq) @ replicate 16 0))"

definition rangePartHeader :: "string \<Rightarrow> string \<Rightarrow> ByteRange \<Rightarrow> int \<Rightarrow> string" where
  "rangePartHeader boundary contentType r total' =
    ''--'' @ boundary @ CRLF @ ''Content-Type: '' @ contentType @ CRLF
      @ ''Content-Range: bytes '' @ FormatInt (br_Start r) @ ''-'' @ FormatInt (br_End r) @ ''/'' @ FormatInt total' @ CRLF @ CRLF"

definition multipartByteRangesLength :: "ByteRange list \<Rightarrow> int \<Rightarrow> string \<Rightarrow> string \<Rightarrow> int" where
  "multipartByteRangesLength rs total' boundary contentType =
    sum_list (map (\<lambda>r. int (length (rangePartHeader boundary contentType r total')) + (br_End r - br_Start r + 1) + 2) rs)
      + int (length (''--'' @ boundary @ ''--'' @ CRLF))"

definition setMultipartByteRangesHeaders :: "Request \<Rightarrow> ByteRange list \<Rightarrow> int \<Rightarrow> string \<Rightarrow> (string, string) gomap \<Rightarrow> (string, string) gomap" where
  "setMultipartByteRangesHeaders rq rs total' contentType h =
    (let boundary = newRangeBoundary rq in
     hset ''Content-Length'' (FormatInt (multipartByteRangesLength rs total' boundary contentType))
       (hset ''Content-Type'' (''multipart/byteranges; boundary='' @ boundary) h))"

text \<open>
  The framed body, one part per range, each fetched in turn: the first before anything is sent, so
  its failure is an error response; a later failure cuts the body.
\<close>

fun range_parts :: "(ByteRange \<Rightarrow> 's \<Rightarrow> ('e, bytes) result \<times> 's) \<Rightarrow> string \<Rightarrow> string \<Rightarrow> int \<Rightarrow> ByteRange list \<Rightarrow> 's \<Rightarrow> bytes \<times> int \<times> 's" where
  "range_parts part boundary contentType total' [] s = (bytes_of_string (''--'' @ boundary @ ''--'' @ CRLF), 0, s)"
| "range_parts part boundary contentType total' (r # rs) s =
    (case part r s of
       (Inl e, s1) \<Rightarrow> ([], 0, s1)
     | (Inr d, s1) \<Rightarrow>
         (case range_parts part boundary contentType total' rs s1 of (body, n, s2) \<Rightarrow>
            (bytes_of_string (rangePartHeader boundary contentType r total') @ d @ bytes_of_string CRLF @ body, int (length d) + n, s2)))"

definition writeMultipartByteRanges :: "Request \<Rightarrow> ByteRange list \<Rightarrow> int \<Rightarrow> string \<Rightarrow> (string, string) gomap \<Rightarrow> (ByteRange \<Rightarrow> 's \<Rightarrow> ('e, bytes) result \<times> 's)
    \<Rightarrow> 's \<Rightarrow> ('e, Response \<times> int) result \<times> 's" where
  "writeMultipartByteRanges rq rs total' contentType h part s =
    (case part (hd rs) s of
       (Inl e, s1) \<Rightarrow> (Inl e, s1)
     | (Inr d, s1) \<Rightarrow>
         let boundary = newRangeBoundary rq in
         (case range_parts part boundary contentType total' (tl rs) s1 of (body, n, s2) \<Rightarrow>
            (Inr ((respond 206 (setMultipartByteRangesHeaders rq rs total' contentType h))
                    \<lparr>rs_Body := bytes_of_string (rangePartHeader boundary contentType (hd rs) total') @ d @ bytes_of_string CRLF @ body\<rparr>,
                  int (length d) + n), s2)))"

text \<open>The part of a buffer a range names, as the handlers cut it.\<close>

definition slice_buf :: "ByteRange \<Rightarrow> bytes \<Rightarrow> bytes option" where
  "slice_buf r buf =
    (let stop = (if br_End r < 0 \<or> br_End r \<ge> int (length buf) then int (length buf) - 1 else br_End r) in
     if br_Start r < 0 \<or> br_Start r > stop + 1 then None
     else Some (take (nat (stop + 1 - br_Start r)) (drop (nat (br_Start r)) buf)))"

definition writeMultipartByteRangesFromBuffer :: "Request \<Rightarrow> ByteRange list \<Rightarrow> int \<Rightarrow> string \<Rightarrow> (string, string) gomap \<Rightarrow> bytes \<Rightarrow> (string, Response \<times> int) result" where
  "writeMultipartByteRangesFromBuffer rq rs total' contentType h buf =
    (if list_ex (\<lambda>r. br_Start r < 0 \<or> br_End r < br_Start r \<or> br_End r \<ge> int (length buf)) rs then Inl ''range out of bounds''
     else fst (writeMultipartByteRanges rq rs total' contentType h
       (\<lambda>r (s :: unit). (Inr (take (nat (br_End r + 1 - br_Start r)) (drop (nat (br_Start r)) buf)), s)) ()))"

section \<open>Repair during a read (lazy\_read\_repair/repair.go)\<close>

record RepairResult =
  rr_Body :: bytes
  rr_RepairedBackend :: string
  rr_SourceBackend :: string

text \<open>The manifest the caller holds is updated in place, so it is returned with the state.\<close>

definition Repair :: "('m, 'i, 'p, 'b, 'c) Reader \<Rightarrow> ManifestKey \<Rightarrow> ObjectManifest \<Rightarrow> nat \<Rightarrow> ('m, 'i, 'p, 'b, 'c) ReadState
    \<Rightarrow> (string, RepairResult) result \<times> ObjectManifest \<times> ('m, 'i, 'p, 'b, 'c) ReadState" where
  "Repair rd key m idx st =
    (case cfg_Manifests (rd_cfg rd) of
       None \<Rightarrow> (Inl ''provider map and manifest store are required'', m, st)
     | Some ms \<Rightarrow>
     if idx \<ge> length (m_Pieces m) then (Inl ''piece index out of range'', m, st)
     else
       let piece = m_Pieces m ! idx;
           primary = mg_PrimaryBackend (m_MigrationState m);
           targetBackend = (if primary = [] then p_Backend piece else primary);
           g = rg_gw st
       in if p_Backend piece = targetBackend then (Inl ''repair unavailable'', m, st)
       else (case (cfg_Providers (rd_cfg rd) (p_Backend piece), cfg_Providers (rd_cfg rd) targetBackend) of
         (None, _) \<Rightarrow> (Inl ''piece backend not registered'', m, st)
       | (_, None) \<Rightarrow> (Inl ''target backend not registered'', m, st)
       | (Some source, Some target) \<Rightarrow>
       (case sp_GetPiece source (p_PieceID piece) None (gw_World g (p_Backend piece)) of
         Inl e \<Rightarrow> (Inl e, m, st)
       | Inr body \<Rightarrow>
         let verr = Verify (cfg_blake3 (rd_cfg rd)) body piece;
             st1 = (case verr of Inr _ \<Rightarrow> st | Inl e \<Rightarrow> recordIntegrity rd (p_Backend piece) e st)
         in if verr = Inl ErrIntegrityCheckFailed then (Inl ''integrity check failed'', m, st1)
         else (case sp_PutPiece target (p_PieceID piece) body
                 \<lparr>po_ContentLength = int (length body), po_ContentType = [], po_StorageClass = [], po_IfNoneMatch = False\<rparr>
                 (gw_World g targetBackend) of
             (putRes, p) \<Rightarrow>
             let st2 = on_gw (\<lambda>g. g\<lparr>gw_World := (gw_World g)(targetBackend := p)\<rparr>) st1 in
             (case putRes of
                Inl e \<Rightarrow> (Inl e, m, st2)
              | Inr res \<Rightarrow>
                  let moved = piece\<lparr>p_Backend := targetBackend,
                        p_Locator := (if pr_Locator res \<noteq> [] then pr_Locator res else p_Locator piece)\<rparr>;
                      m' = m\<lparr>m_Pieces := (m_Pieces m)[idx := moved]\<rparr>
                  in (case op_Put ms key m' (gw_Manifests g) of
                        Inl _ \<Rightarrow> (Inl ''manifest update'', m, st2)
                      | Inr s \<Rightarrow> (Inr \<lparr>rr_Body = body, rr_RepairedBackend = targetBackend, rr_SourceBackend = p_Backend piece\<rparr>,
                                  m', on_gw (\<lambda>g. g\<lparr>gw_Manifests := s\<rparr>) st2)))))))"

text \<open>The repaired bytes, None where there is no repair or it failed.\<close>

definition tryReadRepair :: "('m, 'i, 'p, 'b, 'c) Reader \<Rightarrow> ManifestKey \<Rightarrow> ObjectManifest \<Rightarrow> ByteRange option \<Rightarrow> ('m, 'i, 'p, 'b, 'c) ReadState
    \<Rightarrow> bytes option \<times> ObjectManifest \<times> ('m, 'i, 'p, 'b, 'c) ReadState" where
  "tryReadRepair rd key m byteRange st =
    (if \<not> rd_ReadRepair rd \<or> mg_Generation (m_MigrationState m) \<le> 1 \<or> m_Pieces m = [] then (None, m, st)
     else case Repair rd key m 0 st of
       (Inl _, m', st') \<Rightarrow> (None, m', st')
     | (Inr res, m', st') \<Rightarrow>
         (case byteRange of
            None \<Rightarrow> Some (rr_Body res)
          | Some r \<Rightarrow> slice_buf r (rr_Body res), m', st'))"

section \<open>Fetching a piece (handler.go)\<close>

datatype fetch_error = FetchIntegrity | FetchBackend

definition reader_emit :: "('m, 'i, 'p, 'b, 'c) Reader \<Rightarrow> string \<Rightarrow> string \<Rightarrow> string \<Rightarrow> int \<Rightarrow> ('m, 'i, 'p, 'b, 'c) ReadState \<Rightarrow> ('m, 'i, 'p, 'b, 'c) ReadState" where
  "reader_emit rd tenantID bucket dimension n = on_gw (emit (rd_cfg rd) tenantID bucket dimension n)"

text \<open>The cache lookup that opens both \<open>fetchPiece\<close> and \<open>openCiphertextStream\<close>, with its usage event.\<close>

definition cache_lookup :: "('m, 'i, 'p, 'b, 'c) Reader \<Rightarrow> Request \<Rightarrow> string \<Rightarrow> string \<Rightarrow> string \<Rightarrow> ('m, 'i, 'p, 'b, 'c) ReadState
    \<Rightarrow> bytes option \<times> ('m, 'i, 'p, 'b, 'c) ReadState" where
  "cache_lookup rd rq tenantID bucket pieceID st =
    (case rd_Cache rd of
       None \<Rightarrow> (None, st)
     | Some hc \<Rightarrow>
         (case hc_Get hc (rq_now rq 6) pieceID (rg_cache st) of
            (Some (d, _), c) \<Rightarrow> (Some d, reader_emit rd tenantID bucket ''cache_hits'' 1 (st\<lparr>rg_cache := c\<rparr>))
          | (None, c) \<Rightarrow> (None, reader_emit rd tenantID bucket ''cache_misses'' 1 (st\<lparr>rg_cache := c\<rparr>))))"

definition piece_size :: "ObjectManifest \<Rightarrow> Piece \<Rightarrow> int" where
  "piece_size m piece = (if p_SizeBytes piece \<le> 0 then m_ObjectSize m else p_SizeBytes piece)"

definition slice_opt :: "ByteRange option \<Rightarrow> bytes \<Rightarrow> (fetch_error, bytes) result" where
  "slice_opt byteRange buf =
    (case byteRange of
       None \<Rightarrow> Inr buf
     | Some r \<Rightarrow> (case slice_buf r buf of None \<Rightarrow> Inl FetchBackend | Some d \<Rightarrow> Inr d))"

text \<open>
  \<open>TryAcquire\<close> on the weighted semaphore: it succeeds when the weight still fits.
  \<open>fetchPiece\<close> releases what it acquired on return.
\<close>

definition warm_admits :: "('m, 'i, 'p, 'b, 'c) Reader \<Rightarrow> int \<Rightarrow> ('m, 'i, 'p, 'b, 'c) ReadState \<Rightarrow> bool" where
  "warm_admits rd pieceSize st =
    (case rd_CacheWarmBudget rd of None \<Rightarrow> True | Some budget \<Rightarrow> pieceSize \<le> budget \<and> rg_warmInUse st + pieceSize \<le> budget)"

text \<open>The whole piece is in hand: verify it, warm the cache, cut the range.\<close>

definition verify_and_warm :: "('m, 'i, 'p, 'b, 'c) Reader \<Rightarrow> Request \<Rightarrow> Piece \<Rightarrow> ByteRange option \<Rightarrow> bool \<Rightarrow> bytes \<Rightarrow> ('m, 'i, 'p, 'b, 'c) ReadState
    \<Rightarrow> (fetch_error, bytes) result \<times> ('m, 'i, 'p, 'b, 'c) ReadState" where
  "verify_and_warm rd rq piece byteRange preVerified buf st =
    (let verr = (if preVerified then Inr () else Verify (cfg_blake3 (rd_cfg rd)) buf piece);
         st1 = (case verr of Inr _ \<Rightarrow> st | Inl e \<Rightarrow> recordIntegrity rd (p_Backend piece) e st)
     in if verr = Inl ErrIntegrityCheckFailed then (Inl FetchIntegrity, st1)
     else
       let st2 = (case rd_Cache rd of
                    None \<Rightarrow> st1
                  | Some hc \<Rightarrow> st1\<lparr>rg_cache := snd (hc_Put hc (rq_now rq 6) (p_PieceID piece) buf
                      \<lparr>cp_SizeBytes = int (length buf), cp_Hash = p_Hash piece, cp_TTL = 0, cp_PinHot = False\<rparr> (rg_cache st1))\<rparr>)
       in (slice_opt byteRange buf, st2))"

text \<open>The piece from its backend, or repaired: the bytes, and whether they are verified.\<close>

definition origin_piece :: "('m, 'i, 'p, 'b, 'c) Reader \<Rightarrow> ManifestKey \<Rightarrow> ObjectManifest \<Rightarrow> Piece \<Rightarrow> 'p StorageProvider \<Rightarrow> ByteRange option
    \<Rightarrow> ('m, 'i, 'p, 'b, 'c) ReadState \<Rightarrow> (bytes \<times> bool) option \<times> ObjectManifest \<times> ('m, 'i, 'p, 'b, 'c) ReadState" where
  "origin_piece rd key m piece provider fetchRange st =
    (case sp_GetPiece provider (p_PieceID piece) fetchRange (gw_World (rg_gw st) (p_Backend piece)) of
       Inr d \<Rightarrow> (Some (d, False), m, st)
     | Inl _ \<Rightarrow> (case tryReadRepair rd key m fetchRange st of
         (None, m', st') \<Rightarrow> (None, m', st')
       | (Some d, m', st') \<Rightarrow> (Some (d, True), m', st')))"

definition fetch_origin :: "('m, 'i, 'p, 'b, 'c) Reader \<Rightarrow> Request \<Rightarrow> ManifestKey \<Rightarrow> Piece \<Rightarrow> 'p StorageProvider \<Rightarrow> ByteRange option \<Rightarrow> string
    \<Rightarrow> ObjectManifest \<Rightarrow> ('m, 'i, 'p, 'b, 'c) ReadState \<Rightarrow> (fetch_error, bytes) result \<times> ObjectManifest \<times> ('m, 'i, 'p, 'b, 'c) ReadState" where
  "fetch_origin rd rq key piece provider byteRange tenantID m st =
    (let pieceSize = piece_size m piece;
         wantFullPiece = (byteRange = None \<or> (p_Hash piece \<noteq> [] \<and> pieceSize \<le> int MaxInMemoryObjectBytes))
     in case origin_piece rd key m piece provider (if wantFullPiece then None else byteRange) st of
       (None, m', st1) \<Rightarrow> (Inl FetchBackend, m', st1)
     | (Some (body, preVerified), m', st1) \<Rightarrow>
         if \<not> wantFullPiece then
           (Inr body, m', case byteRange of
              None \<Rightarrow> st1
            | Some r \<Rightarrow> signalPromotion rd rq piece tenantID (range_content_length r (m_ObjectSize m)) (m_ObjectSize m) st1)
         else if pieceSize > int MaxInMemoryObjectBytes then
           (Inr body, m', if rd_Cache rd \<noteq> None \<and> byteRange = None then signalPromotion rd rq piece tenantID pieceSize pieceSize st1 else st1)
         else if \<not> warm_admits rd pieceSize st1 then
           (if byteRange = None then Inr body
            else if preVerified then slice_opt byteRange body
            else (case sp_GetPiece provider (p_PieceID piece) byteRange (gw_World (rg_gw st1) (p_Backend piece)) of
                    Inl _ \<Rightarrow> Inl FetchBackend | Inr d \<Rightarrow> Inr d),
            m', signalPromotion rd rq piece tenantID pieceSize pieceSize st1)
         else (case verify_and_warm rd rq piece byteRange preVerified body st1 of (res, st2) \<Rightarrow> (res, m', st2)))"

text \<open>The bytes and whether the cache served them.\<close>

definition fetchPiece :: "('m, 'i, 'p, 'b, 'c) Reader \<Rightarrow> Request \<Rightarrow> ManifestKey \<Rightarrow> Piece \<Rightarrow> 'p StorageProvider \<Rightarrow> ByteRange option \<Rightarrow> string \<Rightarrow> string
    \<Rightarrow> ObjectManifest \<times> ('m, 'i, 'p, 'b, 'c) ReadState \<Rightarrow> (fetch_error, bytes \<times> bool) result \<times> ObjectManifest \<times> ('m, 'i, 'p, 'b, 'c) ReadState" where
  "fetchPiece rd rq key piece provider byteRange tenantID bucket ms =
    (case ms of (m, st) \<Rightarrow>
     case cache_lookup rd rq tenantID bucket (p_PieceID piece) st of
       (Some buf, st1) \<Rightarrow> (bind_result (slice_opt byteRange buf) (\<lambda>d. Inr (d, True)), m, st1)
     | (None, st1) \<Rightarrow>
         (case fetch_origin rd rq key piece provider byteRange tenantID m st1 of
            (res, m', st2) \<Rightarrow> (bind_result res (\<lambda>d. Inr (d, False)), m', st2)))"

section \<open>Resolving the object (handler.go)\<close>

definition resolve :: "('m, 'i, 'p, 'b) Config \<Rightarrow> Request \<Rightarrow> ('m, 'i, 'p, 'b) Gateway
    \<Rightarrow> (Response, ObjectManifest \<times> 'p StorageProvider \<times> Piece \<times> string \<times> string) result" where
  "resolve cfg rq g =
    (case authenticate cfg rq of
       Inl e \<Rightarrow> Inl (writeAuthError e)
     | Inr tenantID \<Rightarrow>
     (case parseBucketKey (rq_Path rq) of (bucket, key) \<Rightarrow>
     if bucket = [] \<or> key = [] then Inl (writeError 400 ''InvalidArgument'')
     else (case cfg_Manifests cfg of
       None \<Rightarrow> Inl (writeError 503 ''ServiceUnavailable'')
     | Some ms \<Rightarrow>
     (case op_Get ms (object_key tenantID bucket key (versionId rq)) (gw_Manifests g) of
       Inl e \<Rightarrow> Inl (writeManifestGetError e)
     | Inr m \<Rightarrow>
         if m_DeleteMarker m then
           let h = hset ''x-amz-delete-marker'' ''true'' [];
               h1 = (if m_VersionID m \<noteq> [] then hset ''x-amz-version-id'' (m_VersionID m) h else h)
           in Inl (if versionId rq \<noteq> [] then failWith h1 405 ''MethodNotAllowed'' else failWith h1 404 ''NoSuchKey'')
         else if m_Pieces m = [] then Inl (writeError 500 ''EmptyManifest'')
         else (case cfg_Providers cfg (p_Backend (hd (m_Pieces m))) of
             None \<Rightarrow> Inl (writeError 500 ''BackendNotRegistered'')
           | Some provider \<Rightarrow> Inr (m, provider, hd (m_Pieces m), tenantID, bucket))))))"

section \<open>GET (handler.go, erasure\_coding.go)\<close>

definition audit_read :: "('m, 'i, 'p, 'b, 'c) Reader \<Rightarrow> string \<Rightarrow> string \<Rightarrow> string \<Rightarrow> ObjectManifest \<Rightarrow> string \<times> string \<times> string
    \<Rightarrow> ('m, 'i, 'p, 'b, 'c) ReadState \<Rightarrow> ('m, 'i, 'p, 'b, 'c) ReadState" where
  "audit_read rd op tenantID bucket m attribution =
    (case attribution of (backend, pieceID, country) \<Rightarrow>
       on_gw (audit (rd_cfg rd) op tenantID bucket (m_ObjectKey m) pieceID backend country))"

text \<open>The events of a GET that sent n bytes of the object.\<close>

definition bill_get :: "('m, 'i, 'p, 'b, 'c) Reader \<Rightarrow> string \<Rightarrow> string \<Rightarrow> int \<Rightarrow> bool \<Rightarrow> ('m, 'i, 'p, 'b, 'c) ReadState \<Rightarrow> ('m, 'i, 'p, 'b, 'c) ReadState" where
  "bill_get rd tenantID bucket n fromOrigin st =
    (let st1 = reader_emit rd tenantID bucket ''get_requests'' 1 st in
     if n > 0 then
       let st2 = reader_emit rd tenantID bucket ''egress_bytes'' n st1 in
       if fromOrigin then reader_emit rd tenantID bucket ''origin_egress_bytes'' n st2 else st2
     else st1)"

definition single_attribution :: "Piece \<Rightarrow> 'p StorageProvider \<Rightarrow> string \<times> string \<times> string" where
  "single_attribution piece provider = (p_Backend piece, p_PieceID piece, pl_Country (sp_PlacementLabels provider))"

definition ecAuditAttribution :: "('m, 'i, 'p, 'b) Config \<Rightarrow> ObjectManifest \<Rightarrow> string \<times> string \<times> string" where
  "ecAuditAttribution cfg m =
    (let backend = mg_PrimaryBackend (m_MigrationState m) in
     (backend, (case m_Pieces m of [] \<Rightarrow> [] | p # _ \<Rightarrow> p_PieceID p), country_of cfg backend))"

definition multipartAuditAttribution :: "('m, 'i, 'p, 'b) Config \<Rightarrow> ObjectManifest \<Rightarrow> string \<times> string \<times> string" where
  "multipartAuditAttribution cfg m =
    (case m_Pieces m of [] \<Rightarrow> ([], [], []) | p # _ \<Rightarrow> (p_Backend p, p_PieceID p, country_of cfg (p_Backend p)))"

definition fetch_failed :: "(string, string) gomap \<Rightarrow> fetch_error \<Rightarrow> Response" where
  "fetch_failed h e = (case e of FetchIntegrity \<Rightarrow> failWith h 502 ''IntegrityCheckFailed'' | FetchBackend \<Rightarrow> failWith h 502 ''BackendGetFailed'')"

definition etag_headers :: "ObjectManifest \<Rightarrow> Piece \<Rightarrow> (string, string) gomap \<Rightarrow> (string, string) gomap" where
  "etag_headers m piece h =
    hset ''x-amz-version-id'' (m_VersionID m) (if pieceETag piece \<noteq> [] then hset ''ETag'' (quote (pieceETag piece)) h else h)"

definition range_headers :: "ByteRange \<Rightarrow> int \<Rightarrow> int \<Rightarrow> (string, string) gomap \<Rightarrow> (string, string) gomap" where
  "range_headers r total' n h = hset ''Content-Length'' (FormatInt n) (hset ''Content-Range'' (formatContentRange r total') h)"

text \<open>A buffered object, whole or cut as the request asks: the response and the bytes sent.\<close>

definition serve_buffer :: "Request \<Rightarrow> ranges \<Rightarrow> int \<Rightarrow> (string, string) gomap \<Rightarrow> bytes \<Rightarrow> (Response, Response \<times> int) result" where
  "serve_buffer rq rs objectSize h buf =
    (case rs of
       MultiRange multi \<Rightarrow>
         (case writeMultipartByteRangesFromBuffer rq multi objectSize (hget h ''Content-Type'') h buf of
            Inl _ \<Rightarrow> Inl (failWith h 502 ''BackendGetFailed'')
          | Inr res \<Rightarrow> Inr res)
     | SingleRange r \<Rightarrow>
         (case slice_buf r buf of
            None \<Rightarrow> Inl (failWith h 416 ''InvalidRange'')
          | Some d \<Rightarrow> Inr ((respond 206 (range_headers r objectSize (int (length d)) h))\<lparr>rs_Body := d\<rparr>, int (length d)))
     | WholeObject \<Rightarrow>
         Inr ((respond 200 (hset ''Content-Length'' (FormatInt (int (length buf))) h))\<lparr>rs_Body := buf\<rparr>, int (length buf)))"

definition bufferedGatewayDecryptedGet :: "('m, 'i, 'p, 'b, 'c) Reader \<Rightarrow> Request \<Rightarrow> ManifestKey \<Rightarrow> ObjectManifest \<Rightarrow> Piece \<Rightarrow> 'p StorageProvider
    \<Rightarrow> ranges \<Rightarrow> string \<Rightarrow> string \<Rightarrow> (string, string) gomap \<Rightarrow> ('m, 'i, 'p, 'b, 'c) ReadState \<Rightarrow> Response \<times> ('m, 'i, 'p, 'b, 'c) ReadState" where
  "bufferedGatewayDecryptedGet rd rq key m piece provider rs tenantID bucket h st =
    (if m_ObjectSize m > int MaxInMemoryObjectBytes then (failWith h 507 ''RangeRequestTooLargeForBufferedDecrypt'', st)
     else case fetchPiece rd rq key piece provider None tenantID bucket (m, st) of
       (Inl e, _, st1) \<Rightarrow> (fetch_failed h e, st1)
     | (Inr (ciphertext, served), _, st1) \<Rightarrow>
     (case decryptFromStorage (cfg_Crypto (rd_cfg rd)) (cfg_Encryption (rd_cfg rd)) ciphertext (m_Encryption m) (aadIdentityOf m) of
       Inl _ \<Rightarrow> (failWith h 500 ''DEKUnwrapFailed'', st1)
     | Inr plaintext \<Rightarrow>
     (case serve_buffer rq rs (m_ObjectSize m) (etag_headers m piece h) plaintext of
       Inl resp \<Rightarrow> (resp, st1)
     | Inr (resp, n) \<Rightarrow>
         (resp, audit_read rd ''GET'' tenantID bucket m (single_attribution piece provider) (bill_get rd tenantID bucket n (\<not> served) st1)))))"

text \<open>The parts a multi-range read fetches one by one, noting whether any came from the origin.\<close>

definition fetch_part :: "('m, 'i, 'p, 'b, 'c) Reader \<Rightarrow> Request \<Rightarrow> ManifestKey \<Rightarrow> Piece \<Rightarrow> 'p StorageProvider \<Rightarrow> string \<Rightarrow> string \<Rightarrow> ByteRange
    \<Rightarrow> bool \<times> ObjectManifest \<times> ('m, 'i, 'p, 'b, 'c) ReadState \<Rightarrow> (fetch_error, bytes) result \<times> bool \<times> ObjectManifest \<times> ('m, 'i, 'p, 'b, 'c) ReadState" where
  "fetch_part rd rq key piece provider tenantID bucket r s =
    (case s of (anyOrigin, ms) \<Rightarrow>
     case fetchPiece rd rq key piece provider (Some r) tenantID bucket ms of
       (Inl e, ms') \<Rightarrow> (Inl e, anyOrigin, ms')
     | (Inr (d, served), ms') \<Rightarrow> (Inr d, anyOrigin \<or> \<not> served, ms'))"

definition serveMultipartSinglePiece :: "('m, 'i, 'p, 'b, 'c) Reader \<Rightarrow> Request \<Rightarrow> ManifestKey \<Rightarrow> ObjectManifest \<Rightarrow> Piece \<Rightarrow> 'p StorageProvider
    \<Rightarrow> ByteRange list \<Rightarrow> string \<Rightarrow> string \<Rightarrow> (string, string) gomap \<Rightarrow> ('m, 'i, 'p, 'b, 'c) ReadState \<Rightarrow> Response \<times> ('m, 'i, 'p, 'b, 'c) ReadState" where
  "serveMultipartSinglePiece rd rq key m piece provider multi tenantID bucket h st =
    (let h1 = etag_headers m piece h in
     case writeMultipartByteRanges rq multi (m_ObjectSize m) (hget h1 ''Content-Type'') h1
            (fetch_part rd rq key piece provider tenantID bucket) (False, m, st) of
       (Inl e, _, _, st1) \<Rightarrow> (fetch_failed h1 e, st1)
     | (Inr (resp, n), anyOrigin, _, st1) \<Rightarrow>
         (resp, audit_read rd ''GET'' tenantID bucket m (single_attribution piece provider) (bill_get rd tenantID bucket n anyOrigin st1)))"

text \<open>
  The plaintext an \<open>io.Copy\<close> from the decrypting reader delivers, the ciphertext it
  left unread, and whether it ended with an error: every frame before the failing one
  has been sent, and a frame shorter than a chunk ends the object.
\<close>

function dec_Copy :: "Crypto \<Rightarrow> decryptReader \<Rightarrow> bytes \<times> bytes \<times> bool" where
  "dec_Copy cr r =
    (if dr_eof r then ([], dr_src r, False)
     else case dec_nextFrame cr r of
       Inl _ \<Rightarrow> ([], dr_src r, True)
     | Inr (pt, r') \<Rightarrow>
         (case (if dr_eof r' then ([], dr_src r', False) else dec_Copy cr r') of (rest, unread, failed) \<Rightarrow> (pt @ rest, unread, failed)))"
  by pat_completeness auto
termination
  by (relation "measure (\<lambda>(cr, r). length (dr_src r))") (auto dest: dec_nextFrame_consumes)

declare dec_Copy.simps [simp del]

text \<open>The ciphertext, whether the cache served it, and whether its hash is still to be checked.\<close>

definition openCiphertextStream :: "('m, 'i, 'p, 'b, 'c) Reader \<Rightarrow> Request \<Rightarrow> ManifestKey \<Rightarrow> ObjectManifest \<Rightarrow> Piece \<Rightarrow> 'p StorageProvider
    \<Rightarrow> string \<Rightarrow> string \<Rightarrow> ('m, 'i, 'p, 'b, 'c) ReadState \<Rightarrow> (bytes \<times> bool \<times> bool) option \<times> ('m, 'i, 'p, 'b, 'c) ReadState" where
  "openCiphertextStream rd rq key m piece provider tenantID bucket st =
    (case cache_lookup rd rq tenantID bucket (p_PieceID piece) st of
       (Some d, st1) \<Rightarrow> (Some (d, True, False), st1)
     | (None, st1) \<Rightarrow>
         (case origin_piece rd key m piece provider None st1 of
            (None, _, st2) \<Rightarrow> (None, st2)
          | (Some (d, True), _, st2) \<Rightarrow> (Some (d, False, False), st2)
          | (Some (d, False), _, st2) \<Rightarrow>
              (Some (d, False, True),
               if rd_Cache rd \<noteq> None then signalPromotion rd rq piece tenantID (piece_size m piece) (piece_size m piece) st2 else st2)))"

text \<open>The client reads the whole response: the write-side failures of \<open>io.Copy\<close> are the network's.\<close>

definition streamGatewayDecryptedGet :: "('m, 'i, 'p, 'b, 'c) Reader \<Rightarrow> Request \<Rightarrow> ManifestKey \<Rightarrow> ObjectManifest \<Rightarrow> Piece \<Rightarrow> 'p StorageProvider
    \<Rightarrow> string \<Rightarrow> string \<Rightarrow> (string, string) gomap \<Rightarrow> ('m, 'i, 'p, 'b, 'c) ReadState \<Rightarrow> Response \<times> ('m, 'i, 'p, 'b, 'c) ReadState" where
  "streamGatewayDecryptedGet rd rq key m piece provider tenantID bucket h st =
    (case openCiphertextStream rd rq key m piece provider tenantID bucket st of
       (None, st1) \<Rightarrow> (failWith h 502 ''BackendGetFailed'', st1)
     | (Some (ciphertext, served, check), st1) \<Rightarrow>
     (case streamDecryptFromStorage (cfg_Encryption (rd_cfg rd)) ciphertext (m_Encryption m) (aadIdentityOf m) of
       Inl _ \<Rightarrow> (failWith h 500 ''DEKUnwrapFailed'', st1)
     | Inr reader \<Rightarrow>
     (case dec_Copy (cfg_Crypto (rd_cfg rd)) reader of (plaintext, unread, failed) \<Rightarrow>
       let hashed = take (length ciphertext - length unread) ciphertext;
           h1 = hset ''Content-Length'' (FormatInt (m_ObjectSize m)) (etag_headers m piece h);
           st2 = (if failed then recordIntegrity rd (p_Backend piece) ErrIntegrityCheckFailed st1
                  else if check then (case Verify (cfg_blake3 (rd_cfg rd)) hashed piece of
                      Inl e \<Rightarrow> recordIntegrity rd (p_Backend piece) e st1 | Inr _ \<Rightarrow> st1)
                  else st1)
       in ((respond 200 h1)\<lparr>rs_Body := plaintext\<rparr>,
           audit_read rd ''GET'' tenantID bucket m (single_attribution piece provider)
             (bill_get rd tenantID bucket (int (length plaintext)) (\<not> served) st2)))))"

definition shardKindFromManifest :: "string \<Rightarrow> ShardKind" where
  "shardKindFromManifest s = (if s = shard_kind_parity then ShardKindParity else ShardKindData)"

text \<open>
  \<open>sort.Slice\<close> is not stable; the shards of an object differ in stripe or index, and its parts in
  number, so that the order is the same.
\<close>

definition sort_shards :: "Piece list \<Rightarrow> Piece list" where
  "sort_shards = sort_key (\<lambda>p. p_StripeIndex p) \<circ> sort_key (\<lambda>p. p_ShardIndex p)"

definition shard_of :: "Piece \<Rightarrow> bytes \<Rightarrow> Shard" where
  "shard_of p d = \<lparr>sh_StripeIndex = p_StripeIndex p, sh_ShardIndex = p_ShardIndex p, sh_Kind = shardKindFromManifest (p_ShardKind p), sh_Bytes = d\<rparr>"

text \<open>
  One shard: its bytes, or the code of the error if its loss is one too many.  A negative
  stripe index panics where the losses of its stripe are counted.
\<close>

definition fetch_shard :: "('m, 'i, 'p, 'b, 'c) Reader \<Rightarrow> Piece \<Rightarrow> ('m, 'i, 'p, 'b, 'c) ReadState
    \<Rightarrow> (string, bytes) result \<times> ('m, 'i, 'p, 'b, 'c) ReadState" where
  "fetch_shard rd p st =
    (case cfg_Providers (rd_cfg rd) (p_Backend p) of
       None \<Rightarrow> (Inl ''DataLoss'', st)
     | Some prov \<Rightarrow>
     (case sp_GetPiece prov (p_PieceID p) None (gw_World (rg_gw st) (p_Backend p)) of
       Inl _ \<Rightarrow> (Inl ''DataLoss'', st)
     | Inr buf \<Rightarrow>
     (case Verify (cfg_blake3 (rd_cfg rd)) buf p of
       Inr _ \<Rightarrow> (Inr buf, st)
     | Inl e \<Rightarrow> (if e = ErrIntegrityClaimUnrecognized then Inr buf else Inl ''IntegrityCheckFailed'', recordIntegrity rd (p_Backend p) e st))))"

fun fetch_shards :: "('m, 'i, 'p, 'b, 'c) Reader \<Rightarrow> int \<Rightarrow> Piece list \<Rightarrow> (int \<Rightarrow> int) \<Rightarrow> ('m, 'i, 'p, 'b, 'c) ReadState
    \<Rightarrow> (nat \<times> string, Shard list) result \<times> ('m, 'i, 'p, 'b, 'c) ReadState" where
  "fetch_shards rd tolerance [] losses st = (Inr [], st)"
| "fetch_shards rd tolerance (p # ps) losses st =
    (case fetch_shard rd p st of
       (Inr d, st1) \<Rightarrow>
         (case fetch_shards rd tolerance ps losses st1 of (res, st2) \<Rightarrow> (bind_result res (\<lambda>ss. Inr (shard_of p d # ss)), st2))
     | (Inl code, st1) \<Rightarrow>
         let n = losses (p_StripeIndex p) + 1 in
         if p_StripeIndex p < 0 then (Inl (0, ''panic''), st1)
         else if n > tolerance then (Inl (502, code), st1)
         else (case fetch_shards rd tolerance ps (losses(p_StripeIndex p := n)) st1 of
                 (res, st2) \<Rightarrow> (bind_result res (\<lambda>ss. Inr (shard_of p [] # ss)), st2)))"

text \<open>The object is unreadable because its code is not there, before any shard is fetched.\<close>

definition ec_encoder :: "('m, 'i, 'p, 'b) Config \<Rightarrow> ObjectManifest \<Rightarrow> (nat \<times> string, Encoder) result" where
  "ec_encoder cfg m =
    (case cfg_ErasureCoding cfg of
       None \<Rightarrow> Inl (500, ''ErasureCodingNotConfigured'')
     | Some reg \<Rightarrow>
         if pp_ErasureProfile (m_PlacementPolicy m) = [] then Inl (500, ''ErasureProfileMissing'')
         else (case RegistryLookup reg (pp_ErasureProfile (m_PlacementPolicy m)) of
                 Inl _ \<Rightarrow> Inl (500, ''ErasureProfileNotRegistered'')
               | Inr e \<Rightarrow> Inr e))"

definition numStripes :: "ObjectManifest \<Rightarrow> int" where
  "numStripes m = fold (\<lambda>p n. if p_StripeIndex p + 1 > n then p_StripeIndex p + 1 else n) (m_Pieces m) 0"

definition reconstructErasureCoded :: "('m, 'i, 'p, 'b, 'c) Reader \<Rightarrow> ObjectManifest \<Rightarrow> ('m, 'i, 'p, 'b, 'c) ReadState
    \<Rightarrow> (nat \<times> string, bytes) result \<times> ('m, 'i, 'p, 'b, 'c) ReadState" where
  "reconstructErasureCoded rd m st =
    (case ec_encoder (rd_cfg rd) m of
       Inl e \<Rightarrow> (Inl e, st)
     | Inr encoder \<Rightarrow>
     if numStripes m = 0 then (Inl (500, ''EmptyManifest''), st)
     else (case fetch_shards rd (ParityShards (enc_profile encoder)) (sort_shards (m_Pieces m)) (\<lambda>_. 0) st of
       (Inl e, st1) \<Rightarrow> (Inl e, st1)
     | (Inr shards, st1) \<Rightarrow>
     (case Decode encoder shards of
       Inl _ \<Rightarrow> (Inl (502, ''ErasureDecodeFailed''), st1)
     | Inr decoded \<Rightarrow>
         if IsGatewayEncrypted (en_Mode (m_Encryption m)) then
           (case decryptFromStorage (cfg_Crypto (rd_cfg rd)) (cfg_Encryption (rd_cfg rd)) decoded (m_Encryption m) (aadIdentityOf m) of
              Inl _ \<Rightarrow> (Inl (500, ''DEKUnwrapFailed''), st1)
            | Inr plaintext \<Rightarrow> (Inr plaintext, st1))
         else (Inr decoded, st1))))"

definition getErasureCoded :: "('m, 'i, 'p, 'b, 'c) Reader \<Rightarrow> Request \<Rightarrow> Header \<Rightarrow> ObjectManifest \<Rightarrow> string \<Rightarrow> string \<Rightarrow> (string, string) gomap
    \<Rightarrow> ('m, 'i, 'p, 'b, 'c) ReadState \<Rightarrow> Response \<times> ('m, 'i, 'p, 'b, 'c) ReadState" where
  "getErasureCoded rd rq reqHeader m tenantID bucket h st =
    (case parseObjectRanges reqHeader (m_ObjectSize m) of
       Inl _ \<Rightarrow> (failWith h 416 ''InvalidRange'', st)
     | Inr rs \<Rightarrow>
     (case reconstructErasureCoded rd m st of
       (Inl (status, code), st1) \<Rightarrow> (failWith h status code, st1)
     | (Inr plaintext, st1) \<Rightarrow>
     (case serve_buffer rq rs (m_ObjectSize m) (hset ''x-amz-version-id'' (m_VersionID m) h) plaintext of
       Inl resp \<Rightarrow> (resp, st1)
     | Inr (resp, n) \<Rightarrow>
         (resp, audit_read rd ''GET'' tenantID bucket m (ecAuditAttribution (rd_cfg rd) m) (bill_get rd tenantID bucket n True st1)))))"

definition maxMultipartInMemoryBytes :: int where "maxMultipartInMemoryBytes = 256 * 1024 * 1024"

fun fetch_parts :: "('m, 'i, 'p, 'b, 'c) Reader \<Rightarrow> Piece list \<Rightarrow> ('m, 'i, 'p, 'b, 'c) ReadState
    \<Rightarrow> (nat \<times> string, bytes list) result \<times> ('m, 'i, 'p, 'b, 'c) ReadState" where
  "fetch_parts rd [] st = (Inr [], st)"
| "fetch_parts rd (p # ps) st =
    (case cfg_Providers (rd_cfg rd) (p_Backend p) of
       None \<Rightarrow> (Inl (502, ''BackendNotRegistered''), st)
     | Some prov \<Rightarrow>
     (case sp_GetPiece prov (p_PieceID p) None (gw_World (rg_gw st) (p_Backend p)) of
       Inl _ \<Rightarrow> (Inl (502, ''BackendGetFailed''), st)
     | Inr buf \<Rightarrow>
         let verr = Verify (cfg_blake3 (rd_cfg rd)) buf p;
             st1 = (case verr of Inr _ \<Rightarrow> st | Inl e \<Rightarrow> recordIntegrity rd (p_Backend p) e st)
         in if verr = Inl ErrIntegrityCheckFailed then (Inl (502, ''IntegrityCheckFailed''), st1)
         else (case fetch_parts rd ps st1 of (res, st2) \<Rightarrow> (bind_result res (\<lambda>bs. Inr (buf # bs)), st2))))"

fun decrypt_parts :: "Crypto \<Rightarrow> bytes \<Rightarrow> ObjectManifest \<Rightarrow> bytes list \<Rightarrow> (nat \<times> string, bytes list) result" where
  "decrypt_parts cr dek m [] = Inr []"
| "decrypt_parts cr dek m (b # bs) =
    (case decryptWithDEK cr b dek (m_Encryption m) (aadIdentityOf m) of
       Inl _ \<Rightarrow> Inl (500, ''DecryptionFailed'')
     | Inr pt \<Rightarrow> bind_result (decrypt_parts cr dek m bs) (\<lambda>pts. Inr (pt # pts)))"

definition open_parts :: "('m, 'i, 'p, 'b) Config \<Rightarrow> ObjectManifest \<Rightarrow> bytes list \<Rightarrow> (nat \<times> string, bytes list) result" where
  "open_parts cfg m bodies =
    (if \<not> IsGatewayEncrypted (en_Mode (m_Encryption m)) then Inr bodies
     else case cfg_Encryption cfg of
       None \<Rightarrow> Inl (500, ''EncryptionNotConfigured'')
     | Some ge \<Rightarrow> (case ge_UnwrapDEK ge (wrapped_of (m_Encryption m)) (ge_CMK ge) of
         Inl _ \<Rightarrow> Inl (500, ''DEKUnwrapFailed'')
       | Inr dek \<Rightarrow> decrypt_parts (cfg_Crypto cfg) dek m bodies))"

definition reconstructMultipart :: "('m, 'i, 'p, 'b, 'c) Reader \<Rightarrow> ObjectManifest \<Rightarrow> ('m, 'i, 'p, 'b, 'c) ReadState
    \<Rightarrow> (nat \<times> string, bytes list) result \<times> ('m, 'i, 'p, 'b, 'c) ReadState" where
  "reconstructMultipart rd m st =
    (if m_ObjectSize m > maxMultipartInMemoryBytes then (Inl (507, ''MultipartTooLarge''), st)
     else
       let pieces = sort_key (\<lambda>p. p_PartNumber p) (m_Pieces m) in
       if list_ex (\<lambda>p. cfg_Providers (rd_cfg rd) (p_Backend p) = None) pieces then (Inl (502, ''BackendNotRegistered''), st)
       else (case fetch_parts rd pieces st of
         (Inl e, st1) \<Rightarrow> (Inl e, st1)
       | (Inr bodies, st1) \<Rightarrow>
           (bind_result (open_parts (rd_cfg rd) m bodies) (\<lambda>parts.
              if m_ObjectSize m \<noteq> 0 \<and> int (length (concat parts)) \<noteq> m_ObjectSize m then Inl (502, ''ManifestIntegrityMismatch'')
              else Inr parts), st1)))"

definition getMultipart :: "('m, 'i, 'p, 'b, 'c) Reader \<Rightarrow> Request \<Rightarrow> Header \<Rightarrow> ObjectManifest \<Rightarrow> string \<Rightarrow> string \<Rightarrow> (string, string) gomap
    \<Rightarrow> ('m, 'i, 'p, 'b, 'c) ReadState \<Rightarrow> Response \<times> ('m, 'i, 'p, 'b, 'c) ReadState" where
  "getMultipart rd rq reqHeader m tenantID bucket h st =
    (case parseObjectRanges reqHeader (m_ObjectSize m) of
       Inl _ \<Rightarrow> (failWith h 416 ''InvalidRange'', st)
     | Inr rs \<Rightarrow>
     (case reconstructMultipart rd m st of
       (Inl (status, code), st1) \<Rightarrow> (failWith h status code, st1)
     | (Inr parts, st1) \<Rightarrow>
     (case serve_buffer rq rs (m_ObjectSize m) (hset ''x-amz-version-id'' (m_VersionID m) h) (concat parts) of
       Inl resp \<Rightarrow> (resp, st1)
     | Inr (resp, n) \<Rightarrow>
         (resp, audit_read rd ''GET'' tenantID bucket m (multipartAuditAttribution (rd_cfg rd) m) (bill_get rd tenantID bucket n True st1)))))"

definition getSinglePiece :: "('m, 'i, 'p, 'b, 'c) Reader \<Rightarrow> Request \<Rightarrow> ManifestKey \<Rightarrow> ObjectManifest \<Rightarrow> Piece \<Rightarrow> 'p StorageProvider
    \<Rightarrow> ByteRange option \<Rightarrow> string \<Rightarrow> string \<Rightarrow> (string, string) gomap \<Rightarrow> ('m, 'i, 'p, 'b, 'c) ReadState \<Rightarrow> Response \<times> ('m, 'i, 'p, 'b, 'c) ReadState" where
  "getSinglePiece rd rq key m piece provider byteRange tenantID bucket h st =
    (case fetchPiece rd rq key piece provider byteRange tenantID bucket (m, st) of
       (Inl e, _, st1) \<Rightarrow> (fetch_failed h e, st1)
     | (Inr (body, served), _, st1) \<Rightarrow>
         let h1 = etag_headers m piece h;
             resp = (case byteRange of
                 Some r \<Rightarrow> respond 206 (range_headers r (m_ObjectSize m) (range_content_length r (m_ObjectSize m)) h1)
               | None \<Rightarrow> respond 200 (hset ''Content-Length'' (FormatInt (m_ObjectSize m)) h1))
         in (resp\<lparr>rs_Body := body\<rparr>,
             audit_read rd ''GET'' tenantID bucket m (single_attribution piece provider)
               (bill_get rd tenantID bucket (int (length body)) (\<not> served) st1)))"

text \<open>The headers of the object on its response, the same for GET and HEAD.\<close>

definition object_headers :: "Request \<Rightarrow> ObjectManifest \<Rightarrow> (string, string) gomap \<Rightarrow> (string, string) gomap" where
  "object_headers rq m h = applyResponseOverrideHeaders (rq_RawQuery rq) (setObjectMetadataHeaders m h)"

definition version_key :: "string \<Rightarrow> string \<Rightarrow> ObjectManifest \<Rightarrow> ManifestKey" where
  "version_key tenantID bucket m = \<lparr>k_TenantID = tenantID, k_Bucket = bucket, k_ObjectKeyHash = m_ObjectKeyHash m, k_VersionID = m_VersionID m\<rparr>"

definition Get :: "('m, 'i, 'p, 'b, 'c) Reader \<Rightarrow> Request \<Rightarrow> ('m, 'i, 'p, 'b, 'c) ReadState \<Rightarrow> Response \<times> ('m, 'i, 'p, 'b, 'c) ReadState" where
  "Get rd rq st =
    (case resolve (rd_cfg rd) rq (rg_gw st) of
       Inl resp \<Rightarrow> (resp, st)
     | Inr (m, provider, piece, tenantID, bucket) \<Rightarrow>
     (case applyReadConditionals rq m piece of
       Inl resp \<Rightarrow> (resp, st)
     | Inr (reqHeader, h0) \<Rightarrow>
         let h = object_headers rq m h0; key = version_key tenantID bucket m in
         if isErasureCodedManifest m then getErasureCoded rd rq reqHeader m tenantID bucket h st
         else if isMultipartManifest m then getMultipart rd rq reqHeader m tenantID bucket h st
         else (case parseObjectRanges reqHeader (m_ObjectSize m) of
             Inl _ \<Rightarrow> (failWith h 416 ''InvalidRange'', st)
           | Inr rs \<Rightarrow>
               if IsGatewayEncrypted (en_Mode (m_Encryption m)) then
                 (if rs = WholeObject then streamGatewayDecryptedGet rd rq key m piece provider tenantID bucket h st
                  else bufferedGatewayDecryptedGet rd rq key m piece provider rs tenantID bucket h st)
               else (case rs of
                   MultiRange multi \<Rightarrow> serveMultipartSinglePiece rd rq key m piece provider multi tenantID bucket h st
                 | SingleRange r \<Rightarrow> getSinglePiece rd rq key m piece provider (Some r) tenantID bucket h st
                 | WholeObject \<Rightarrow> getSinglePiece rd rq key m piece provider None tenantID bucket h st))))"

section \<open>HEAD (handler.go)\<close>

text \<open>The status and length headers that close the three HEAD handlers.\<close>

definition head_headers :: "Request \<Rightarrow> ranges \<Rightarrow> int \<Rightarrow> (string, string) gomap \<Rightarrow> Response" where
  "head_headers rq rs objectSize h =
    (case rs of
       MultiRange multi \<Rightarrow> respond 206 (setMultipartByteRangesHeaders rq multi objectSize (hget h ''Content-Type'') h)
     | SingleRange r \<Rightarrow> respond 206 (range_headers r objectSize (range_content_length r objectSize) h)
     | WholeObject \<Rightarrow> respond 200 (hset ''Content-Length'' (FormatInt objectSize) h))"

definition head_done :: "('m, 'i, 'p, 'b, 'c) Reader \<Rightarrow> string \<Rightarrow> string \<Rightarrow> ObjectManifest \<Rightarrow> string \<times> string \<times> string
    \<Rightarrow> ('m, 'i, 'p, 'b, 'c) ReadState \<Rightarrow> ('m, 'i, 'p, 'b, 'c) ReadState" where
  "head_done rd tenantID bucket m attribution st =
    audit_read rd ''HEAD'' tenantID bucket m attribution (reader_emit rd tenantID bucket ''get_requests'' 1 st)"

definition headErasureCoded :: "('m, 'i, 'p, 'b, 'c) Reader \<Rightarrow> Request \<Rightarrow> Header \<Rightarrow> ObjectManifest \<Rightarrow> string \<Rightarrow> string \<Rightarrow> (string, string) gomap
    \<Rightarrow> ('m, 'i, 'p, 'b, 'c) ReadState \<Rightarrow> Response \<times> ('m, 'i, 'p, 'b, 'c) ReadState" where
  "headErasureCoded rd rq reqHeader m tenantID bucket h st =
    (case ec_encoder (rd_cfg rd) m of
       Inl (status, code) \<Rightarrow> (failWith h status code, st)
     | Inr _ \<Rightarrow>
     (case parseObjectRanges reqHeader (m_ObjectSize m) of
       Inl _ \<Rightarrow> (failWith h 416 ''InvalidRange'', st)
     | Inr rs \<Rightarrow> (head_headers rq rs (m_ObjectSize m) (hset ''x-amz-version-id'' (m_VersionID m) h),
                 head_done rd tenantID bucket m (ecAuditAttribution (rd_cfg rd) m) st)))"

definition headMultipart :: "('m, 'i, 'p, 'b, 'c) Reader \<Rightarrow> Request \<Rightarrow> Header \<Rightarrow> ObjectManifest \<Rightarrow> string \<Rightarrow> string \<Rightarrow> (string, string) gomap
    \<Rightarrow> ('m, 'i, 'p, 'b, 'c) ReadState \<Rightarrow> Response \<times> ('m, 'i, 'p, 'b, 'c) ReadState" where
  "headMultipart rd rq reqHeader m tenantID bucket h st =
    (case parseObjectRanges reqHeader (m_ObjectSize m) of
       Inl _ \<Rightarrow> (failWith h 416 ''InvalidRange'', st)
     | Inr rs \<Rightarrow>
         if m_ObjectSize m > maxMultipartInMemoryBytes then (failWith h 507 ''MultipartTooLarge'', st)
         else if list_ex (\<lambda>p. cfg_Providers (rd_cfg rd) (p_Backend p) = None) (m_Pieces m) then (failWith h 502 ''BackendNotRegistered'', st)
         else (head_headers rq rs (m_ObjectSize m) (hset ''x-amz-version-id'' (m_VersionID m) h),
               head_done rd tenantID bucket m (multipartAuditAttribution (rd_cfg rd) m) st))"

definition Head :: "('m, 'i, 'p, 'b, 'c) Reader \<Rightarrow> Request \<Rightarrow> ('m, 'i, 'p, 'b, 'c) ReadState \<Rightarrow> Response \<times> ('m, 'i, 'p, 'b, 'c) ReadState" where
  "Head rd rq st =
    (case resolve (rd_cfg rd) rq (rg_gw st) of
       Inl resp \<Rightarrow> (resp, st)
     | Inr (m, provider, piece, tenantID, bucket) \<Rightarrow>
     (case applyReadConditionals rq m piece of
       Inl resp \<Rightarrow> (resp, st)
     | Inr (reqHeader, h0) \<Rightarrow>
         let h = object_headers rq m h0 in
         if isErasureCodedManifest m then headErasureCoded rd rq reqHeader m tenantID bucket h st
         else if isMultipartManifest m then headMultipart rd rq reqHeader m tenantID bucket h st
         else (case parseObjectRanges reqHeader (m_ObjectSize m) of
             Inl _ \<Rightarrow> (failWith h 416 ''InvalidRange'', st)
           | Inr rs \<Rightarrow>
               if IsGatewayEncrypted (en_Mode (m_Encryption m)) \<and> rs \<noteq> WholeObject \<and> m_ObjectSize m > int MaxInMemoryObjectBytes
               then (failWith h 507 ''RangeRequestTooLargeForBufferedDecrypt'', st)
               else (head_headers rq rs (m_ObjectSize m) (etag_headers m piece h),
                     head_done rd tenantID bucket m (single_attribution piece provider) st))))"

end
