(* ===== verification/S3_Safety.thy ===== *)
theory S3_Safety
  imports S3_Gateway
begin

text \<open>
  Safety of the write handlers: no stored version ever loses its bytes, and a
  version under compliance retention cannot be removed.

  The first part is the invariant over what the stores hold, independent of the
  stores: the versions \<open>V\<close>, the rows \<open>E\<close> of the content index and the pieces \<open>P\<close>
  of each backend.  The locale \<open>s3_gateway\<close> carries it to the handlers over any
  stores that keep their contracts; the in-memory stores and the filesystem
  provider are an instance.
\<close>

section \<open>The invariant\<close>

type_synonym version_map = "ManifestKey \<Rightarrow> ObjectManifest option"
type_synonym row_map = "memoryKey \<Rightarrow> ContentIndexEntry option"
type_synonym piece_map = "string \<Rightarrow> string \<Rightarrow> bytes option"

definition ploc :: "Piece \<Rightarrow> string \<times> string" where "ploc p = (p_Backend p, p_PieceID p)"
definition eloc :: "ContentIndexEntry \<Rightarrow> string \<times> string" where "eloc e = (ce_Backend e, ce_PieceID e)"
definition mlocs :: "ObjectManifest \<Rightarrow> (string \<times> string) set" where "mlocs m = ploc ` set (m_Pieces m)"

definition refs :: "version_map \<Rightarrow> memoryKey \<Rightarrow> ManifestKey set" where
  "refs V c = {k. \<exists>m. V k = Some m \<and> ckey (k_TenantID k) (m_ContentHash m) = c}"

text \<open>The bytes at a location hash to the recorded value.\<close>

definition holds :: "(bytes \<Rightarrow> bytes) \<Rightarrow> piece_map \<Rightarrow> string \<times> string \<Rightarrow> string \<Rightarrow> bool" where
  "holds blake3 P l h \<longleftrightarrow> (\<exists>d. P (fst l) (snd l) = Some d \<and> content_hash blake3 d = h)"

definition version_wf :: "ManifestKey \<Rightarrow> ObjectManifest \<Rightarrow> bool" where
  "version_wf k m \<longleftrightarrow> k_TenantID k = m_TenantID m \<and> k_Bucket k = m_Bucket m \<and> k_ObjectKeyHash k = m_ObjectKeyHash m
    \<and> k_VersionID k = m_VersionID m \<and> k_VersionID k \<noteq> []"

definition referenced :: "version_map \<Rightarrow> row_map \<Rightarrow> (string \<times> string) set" where
  "referenced V E = {l. (\<exists>k m. V k = Some m \<and> l \<in> mlocs m) \<or> (\<exists>c e. E c = Some e \<and> l = eloc e)}"

text \<open>
  Every version lists pieces that are there and hash to what it records; a row's piece is
  there, and the row counts at least the versions that point at it; a deduplicated version
  points at the piece of its row; a version that owns its pieces shares them with nobody,
  and no two rows share a piece.
\<close>

definition version_ok :: "(bytes \<Rightarrow> bytes) \<Rightarrow> (string \<Rightarrow> bool) \<Rightarrow> piece_map \<Rightarrow> ManifestKey \<Rightarrow> ObjectManifest \<Rightarrow> bool" where
  "version_ok blake3 reg P k m \<longleftrightarrow> version_wf k m
    \<and> (\<forall>p \<in> set (m_Pieces m). reg (p_Backend p) \<and> holds blake3 P (ploc p) (p_Hash p))"

definition row_ok :: "(bytes \<Rightarrow> bytes) \<Rightarrow> (string \<Rightarrow> bool) \<Rightarrow> version_map \<Rightarrow> piece_map \<Rightarrow> memoryKey \<Rightarrow> ContentIndexEntry \<Rightarrow> bool" where
  "row_ok blake3 reg V P c e \<longleftrightarrow> reg (ce_Backend e) \<and> holds blake3 P (eloc e) (ck_ContentHash c)
    \<and> int (card (refs V c)) \<le> ce_RefCount e"

definition points_at :: "row_map \<Rightarrow> ManifestKey \<Rightarrow> ObjectManifest \<Rightarrow> bool" where
  "points_at E k m \<longleftrightarrow> (\<exists>e p. E (ckey (k_TenantID k) (m_ContentHash m)) = Some e \<and> m_Pieces m = [p] \<and> ploc p = eloc e)"

definition separated :: "version_map \<Rightarrow> row_map \<Rightarrow> bool" where
  "separated V E \<longleftrightarrow>
    (\<forall>k m k' m'. V k = Some m \<and> V k' = Some m' \<and> k \<noteq> k' \<and> m_ContentHash m = [] \<longrightarrow> mlocs m \<inter> mlocs m' = {})
    \<and> (\<forall>k m c e. V k = Some m \<and> m_ContentHash m = [] \<and> E c = Some e \<longrightarrow> eloc e \<notin> mlocs m)
    \<and> (\<forall>c e c' e'. E c = Some e \<and> E c' = Some e' \<and> c \<noteq> c' \<longrightarrow> eloc e \<noteq> eloc e')"

definition fabric_inv :: "(bytes \<Rightarrow> bytes) \<Rightarrow> (string \<Rightarrow> bool) \<Rightarrow> version_map \<Rightarrow> row_map \<Rightarrow> piece_map \<Rightarrow> bool" where
  "fabric_inv blake3 reg V E P \<longleftrightarrow> finite (dom V)
    \<and> (\<forall>k m. V k = Some m \<longrightarrow> version_ok blake3 reg P k m)
    \<and> (\<forall>c e. E c = Some e \<longrightarrow> row_ok blake3 reg V P c e)
    \<and> (\<forall>k m. V k = Some m \<and> m_ContentHash m \<noteq> [] \<longrightarrow> points_at E k m)
    \<and> separated V E"

lemma fabric_invD:
  assumes "fabric_inv blake3 reg V E P"
  shows "finite (dom V)" "V k = Some m \<Longrightarrow> version_ok blake3 reg P k m" "E c = Some e \<Longrightarrow> row_ok blake3 reg V P c e"
    "V k = Some m \<Longrightarrow> m_ContentHash m \<noteq> [] \<Longrightarrow> points_at E k m" "separated V E"
  using assms by (simp_all add: fabric_inv_def)

lemma separatedI:
  assumes "\<And>k m k' m' l. V k = Some m \<Longrightarrow> V k' = Some m' \<Longrightarrow> k \<noteq> k' \<Longrightarrow> m_ContentHash m = [] \<Longrightarrow> l \<in> mlocs m \<Longrightarrow> l \<notin> mlocs m'"
    and "\<And>k m c e. V k = Some m \<Longrightarrow> m_ContentHash m = [] \<Longrightarrow> E c = Some e \<Longrightarrow> eloc e \<notin> mlocs m"
    and "\<And>c e c' e'. E c = Some e \<Longrightarrow> E c' = Some e' \<Longrightarrow> c \<noteq> c' \<Longrightarrow> eloc e \<noteq> eloc e'"
  shows "separated V E"
  using assms unfolding separated_def by blast

lemma separatedD:
  assumes "separated V E"
  shows "V k = Some m \<Longrightarrow> V k' = Some m' \<Longrightarrow> k \<noteq> k' \<Longrightarrow> m_ContentHash m = [] \<Longrightarrow> l \<in> mlocs m \<Longrightarrow> l \<notin> mlocs m'"
    and "V k = Some m \<Longrightarrow> m_ContentHash m = [] \<Longrightarrow> E c = Some e \<Longrightarrow> eloc e \<notin> mlocs m"
    and "E c = Some e \<Longrightarrow> E c' = Some e' \<Longrightarrow> c \<noteq> c' \<Longrightarrow> eloc e \<noteq> eloc e'"
  using assms unfolding separated_def by blast+

lemma referencedI:
  "V k = Some m \<Longrightarrow> l \<in> mlocs m \<Longrightarrow> l \<in> referenced V E" "E c = Some e \<Longrightarrow> eloc e \<in> referenced V E"
  by (auto simp: referenced_def)

text \<open>Versions and rows may go or change as long as they stay where they are.\<close>

lemma separated_mono:
  assumes sep: "separated V E"
    and V: "\<And>k m. V' k = Some m \<Longrightarrow> \<exists>m0. V k = Some m0 \<and> mlocs m = mlocs m0 \<and> m_ContentHash m = m_ContentHash m0"
    and E: "\<And>c e. E' c = Some e \<Longrightarrow> \<exists>e0. E c = Some e0 \<and> eloc e = eloc e0"
  shows "separated V' E'"
proof (rule separatedI)
  fix k m k' m' l
  assume a: "V' k = Some m" "V' k' = Some m'" "k \<noteq> k'" "m_ContentHash m = []" "l \<in> mlocs m"
  obtain m0 m0' where "V k = Some m0" "mlocs m = mlocs m0" "m_ContentHash m0 = []" "V k' = Some m0'" "mlocs m' = mlocs m0'"
    using V [OF a(1)] V [OF a(2)] a(4) by metis
  then show "l \<notin> mlocs m'"
    using separatedD(1) [OF sep, of k m0 k' m0' l] a by simp
next
  fix k m c e
  assume a: "V' k = Some m" "m_ContentHash m = []" "E' c = Some e"
  obtain m0 e0 where "V k = Some m0" "mlocs m = mlocs m0" "m_ContentHash m0 = []" "E c = Some e0" "eloc e = eloc e0"
    using V [OF a(1)] E [OF a(3)] a(2) by metis
  then show "eloc e \<notin> mlocs m"
    using separatedD(2) [OF sep, of k m0 c e0] by simp
next
  fix c e c' e'
  assume a: "E' c = Some e" "E' c' = Some e'" "c \<noteq> c'"
  obtain e0 e0' where "E c = Some e0" "eloc e = eloc e0" "E c' = Some e0'" "eloc e' = eloc e0'"
    using E [OF a(1)] E [OF a(2)] by metis
  then show "eloc e \<noteq> eloc e'"
    using separatedD(3) [OF sep, of c e0 c' e0'] a(3) by simp
qed

lemma separated_add_row:
  assumes sep: "separated V E" and e: "eloc e \<notin> referenced V E"
  shows "separated V (E(c \<mapsto> e))"
proof (rule separatedI)
  fix k m c' e'
  assume a: "V k = Some m" "m_ContentHash m = []" "(E(c \<mapsto> e)) c' = Some e'"
  show "eloc e' \<notin> mlocs m"
    using a e referencedI(1) [of V k m "eloc e" E] separatedD(2) [OF sep a(1,2), of c' e'] by (cases "c' = c") auto
next
  fix c1 e1 c2 e2
  assume a: "(E(c \<mapsto> e)) c1 = Some e1" "(E(c \<mapsto> e)) c2 = Some e2" "c1 \<noteq> c2"
  show "eloc e1 \<noteq> eloc e2"
    using a e referencedI(2) [of E c1 e1 V] referencedI(2) [of E c2 e2 V] separatedD(3) [OF sep, of c1 e1 c2 e2]
    by (cases "c1 = c"; cases "c2 = c") auto
qed (rule separatedD(1) [OF sep])

lemma separated_add_version:
  assumes sep: "separated V E" and m: "if m_ContentHash m = [] then mlocs m \<inter> referenced V E = {} else \<exists>c e. E c = Some e \<and> mlocs m = {eloc e}"
  shows "separated (V(k \<mapsto> m)) E"
proof (rule separatedI)
  fix k1 m1 k2 m2 l
  assume a: "(V(k \<mapsto> m)) k1 = Some m1" "(V(k \<mapsto> m)) k2 = Some m2" "k1 \<noteq> k2" "m_ContentHash m1 = []" "l \<in> mlocs m1"
  show "l \<notin> mlocs m2"
  proof (cases "k1 = k")
    case True
    then have "m1 = m" "V k2 = Some m2"
      using a(1,2,3) by simp_all
    then show ?thesis
      using m a(4,5) referencedI(1) [of V k2 m2 l E] by auto
  next
    case k1: False
    then have V1: "V k1 = Some m1"
      using a(1) by simp
    show ?thesis
    proof (cases "k2 = k")
      case True
      then have m2: "m2 = m"
        using a(2) by simp
      show ?thesis
      proof (cases "m_ContentHash m = []")
        case True
        then show ?thesis
          using m m2 referencedI(1) [of V k1, OF V1 a(5), of E] by auto
      next
        case False
        then obtain c e where "E c = Some e" "mlocs m = {eloc e}"
          using m by auto
        then show ?thesis
          using m2 a(5) separatedD(2) [OF sep V1 a(4)] by auto
      qed
    next
      case False
      then show ?thesis
        using a separatedD(1) [OF sep V1, of k2 m2 l] by simp
    qed
  qed
next
  fix k1 m1 c e
  assume a: "(V(k \<mapsto> m)) k1 = Some m1" "m_ContentHash m1 = []" "E c = Some e"
  show "eloc e \<notin> mlocs m1"
    using a m referencedI(2) [of E c e V] separatedD(2) [OF sep, of k1 m1 c e] by (cases "k1 = k") auto
qed (rule separatedD(3) [OF sep])

lemma ploc_mlocs: "p \<in> set (m_Pieces m) \<Longrightarrow> ploc p \<in> mlocs m"
  by (simp add: mlocs_def)

lemma fabric_inv_empty: "fabric_inv blake3 reg Map.empty Map.empty P"
  by (simp add: fabric_inv_def separated_def)

subsection \<open>References\<close>

lemma refs_finite: "finite (dom V) \<Longrightarrow> finite (refs V c)"
  by (rule finite_subset [of _ "dom V"]) (auto simp: refs_def)

lemma refs_drop: "refs (V(k := None)) c = refs V c - {k}"
  by (auto simp: refs_def)

lemma refs_put:
  "V k = None \<Longrightarrow> refs (V(k \<mapsto> m)) c = (if ckey (k_TenantID k) (m_ContentHash m) = c then insert k (refs V c) else refs V c)"
  by (auto simp: refs_def)

lemma refs_same:
  "V k = Some m \<Longrightarrow> m_ContentHash m' = m_ContentHash m \<Longrightarrow> refs (V(k \<mapsto> m')) c = refs V c"
  by (auto simp: refs_def split: if_splits)

lemma refs_none:
  assumes "fabric_inv blake3 reg V E P" "E c = None" "ck_ContentHash c \<noteq> []"
  shows "refs V c = {}"
  using fabric_invD(4) [OF assms(1)] assms(2,3) by (fastforce simp: refs_def points_at_def ckey_def)

lemma card_refs_drop:
  assumes "finite (dom V)" "V k = Some m"
  shows "card (refs (V(k := None)) (ckey (k_TenantID k) (m_ContentHash m))) = card (refs V (ckey (k_TenantID k) (m_ContentHash m))) - 1"
    and "0 < card (refs V (ckey (k_TenantID k) (m_ContentHash m)))"
proof -
  let ?c = "ckey (k_TenantID k) (m_ContentHash m)"
  have "k \<in> refs V ?c"
    using assms(2) by (auto simp: refs_def)
  then show "card (refs (V(k := None)) ?c) = card (refs V ?c) - 1" "0 < card (refs V ?c)"
    using refs_finite [OF assms(1), of ?c] by (auto simp: refs_drop card_gt_0_iff)
qed

lemma card_refs_put:
  assumes "finite (dom V)" "V k = None"
  shows "card (refs (V(k \<mapsto> m)) c) = (if ckey (k_TenantID k) (m_ContentHash m) = c then Suc (card (refs V c)) else card (refs V c))"
proof -
  have "k \<notin> refs V c"
    using assms(2) by (auto simp: refs_def)
  then show ?thesis
    using refs_finite [OF assms(1), of c] by (simp add: refs_put [of V k, OF assms(2)])
qed

subsection \<open>What the steps of a handler do to it\<close>

text \<open>Pieces nobody refers to may change.\<close>

lemma inv_pieces:
  assumes "fabric_inv blake3 reg V E P" "\<And>l. l \<in> referenced V E \<Longrightarrow> P' (fst l) (snd l) = P (fst l) (snd l)"
  shows "fabric_inv blake3 reg V E P'"
proof -
  have "holds blake3 P' l h = holds blake3 P l h" if "l \<in> referenced V E" for l h
    using assms(2) [OF that] by (simp add: holds_def)
  then have "V k = Some m \<Longrightarrow> p \<in> set (m_Pieces m) \<Longrightarrow> holds blake3 P' (ploc p) h = holds blake3 P (ploc p) h"
      "E c = Some e \<Longrightarrow> holds blake3 P' (eloc e) h = holds blake3 P (eloc e) h" for k m p c e h
    using referencedI ploc_mlocs by blast+
  then show ?thesis
    using assms(1) by (auto simp: fabric_inv_def version_ok_def row_ok_def)
qed

text \<open>A version may go.\<close>

lemma inv_drop_version:
  assumes "fabric_inv blake3 reg V E P"
  shows "fabric_inv blake3 reg (V(k := None)) E P"
proof -
  have "card (refs (V(k := None)) c) \<le> card (refs V c)" for c
    using refs_finite [OF fabric_invD(1) [OF assms]] by (auto simp: refs_drop intro: card_mono)
  then have "row_ok blake3 reg (V(k := None)) P c e" if "row_ok blake3 reg V P c e" for c e
    using that by (auto simp: row_ok_def intro: order.trans [rotated])
  moreover have "separated (V(k := None)) E"
    by (rule separated_mono [OF fabric_invD(5) [OF assms]]) (auto split: if_splits)
  ultimately show ?thesis
    using assms by (auto simp: fabric_inv_def split: if_splits)
qed

text \<open>The count of a row may change as long as it covers the references.\<close>

lemma inv_recount:
  assumes "fabric_inv blake3 reg V E P" "E c = Some e" "eloc e' = eloc e" "int (card (refs V c)) \<le> ce_RefCount e'"
  shows "fabric_inv blake3 reg V (E(c \<mapsto> e')) P"
proof -
  have "ce_Backend e' = ce_Backend e"
    using assms(3) by (simp add: eloc_def)
  then have "row_ok blake3 reg V P c e'"
    using fabric_invD(3) [OF assms(1,2)] assms(3,4) by (simp add: row_ok_def)
  moreover have "points_at (E(c \<mapsto> e')) k m" if "points_at E k m" for k m
    using that assms(2,3) by (auto simp: points_at_def)
  moreover have "separated V (E(c \<mapsto> e'))"
    using assms(2,3) by (intro separated_mono [OF fabric_invD(5) [OF assms(1)]]) (auto split: if_splits)
  ultimately show ?thesis
    using assms(1) by (auto simp: fabric_inv_def)
qed

text \<open>A row nobody points at may go.\<close>

lemma inv_drop_row:
  assumes "fabric_inv blake3 reg V E P" "refs V c = {}"
  shows "fabric_inv blake3 reg V (E(c := None)) P"
proof -
  have "points_at (E(c := None)) k m" if "V k = Some m" "points_at E k m" for k m
    using that assms(2) by (auto simp: points_at_def refs_def)
  moreover have "separated V (E(c := None))"
    by (rule separated_mono [OF fabric_invD(5) [OF assms(1)]]) (auto split: if_splits)
  ultimately show ?thesis
    using assms(1) by (auto simp: fabric_inv_def split: if_splits)
qed

text \<open>A row may be added for a piece that is there and that nobody refers to.\<close>

lemma inv_add_row:
  assumes inv: "fabric_inv blake3 reg V E P" and c: "E c = None" "ck_ContentHash c \<noteq> []" "0 \<le> ce_RefCount e"
    and e: "eloc e \<notin> referenced V E" "reg (ce_Backend e)" "holds blake3 P (eloc e) (ck_ContentHash c)"
  shows "fabric_inv blake3 reg V (E(c \<mapsto> e)) P"
proof -
  have "row_ok blake3 reg V P c e"
    using e c(3) refs_none [OF inv c(1,2)] by (simp add: row_ok_def)
  moreover have "points_at (E(c \<mapsto> e)) k m" if "points_at E k m" for k m
    using that c(1) by (auto simp: points_at_def)
  moreover have "separated V (E(c \<mapsto> e))"
    by (rule separated_add_row [OF fabric_invD(5) [OF inv] e(1)])
  ultimately show ?thesis
    using inv by (auto simp: fabric_inv_def)
qed

text \<open>A version may be added that points at a row with a reference to spare.\<close>

lemma inv_add_shared:
  assumes inv: "fabric_inv blake3 reg V E P" and k: "V k = None" "version_wf k m" "m_ContentHash m \<noteq> []"
    and e: "E (ckey (k_TenantID k) (m_ContentHash m)) = Some e" "m_Pieces m = [p]" "ploc p = eloc e" "p_Hash p = m_ContentHash m"
    and room: "int (card (refs V (ckey (k_TenantID k) (m_ContentHash m)))) < ce_RefCount e"
  shows "fabric_inv blake3 reg (V(k \<mapsto> m)) E P"
proof -
  note row = fabric_invD(3) [OF inv e(1)]
  have "version_ok blake3 reg P k m"
    using row e k(2) by (simp add: version_ok_def row_ok_def ckey_def ploc_def eloc_def)
  moreover have "row_ok blake3 reg (V(k \<mapsto> m)) P c f" if "E c = Some f" for c f
    using fabric_invD(3) [OF inv that] room e(1) that
    by (auto simp: row_ok_def card_refs_put [OF fabric_invD(1) [OF inv] k(1)])
  moreover have "points_at E k m"
    using e by (auto simp: points_at_def)
  moreover have "separated (V(k \<mapsto> m)) E"
    using e k(3) by (intro separated_add_version [OF fabric_invD(5) [OF inv]]) (auto simp: mlocs_def)
  ultimately show ?thesis
    using inv by (auto simp: fabric_inv_def)
qed

text \<open>A version may be added that owns pieces which are there and which nobody refers to.\<close>

lemma inv_add_owned:
  assumes inv: "fabric_inv blake3 reg V E P" and k: "V k = None" "version_wf k m" "m_ContentHash m = []"
    and ps: "\<And>p. p \<in> set (m_Pieces m) \<Longrightarrow> ploc p \<notin> referenced V E \<and> reg (p_Backend p) \<and> holds blake3 P (ploc p) (p_Hash p)"
    and rows: "\<And>c. E c \<noteq> None \<Longrightarrow> ck_ContentHash c \<noteq> []"
  shows "fabric_inv blake3 reg (V(k \<mapsto> m)) E P"
proof -
  have "row_ok blake3 reg (V(k \<mapsto> m)) P c f" if "E c = Some f" for c f
    using fabric_invD(3) [OF inv that] rows [of c] that k(3)
    by (auto simp: row_ok_def card_refs_put [OF fabric_invD(1) [OF inv] k(1)] ckey_def)
  moreover have "separated (V(k \<mapsto> m)) E"
    using ps k(3) by (intro separated_add_version [OF fabric_invD(5) [OF inv]]) (auto simp: mlocs_def)
  ultimately show ?thesis
    using inv k ps by (auto simp: fabric_inv_def version_ok_def)
qed

text \<open>A version may change in what the invariant does not speak of.\<close>

definition same_version :: "ObjectManifest \<Rightarrow> ObjectManifest \<Rightarrow> bool" where
  "same_version m m' \<longleftrightarrow> m_TenantID m' = m_TenantID m \<and> m_Bucket m' = m_Bucket m \<and> m_ObjectKeyHash m' = m_ObjectKeyHash m
    \<and> m_VersionID m' = m_VersionID m \<and> m_ContentHash m' = m_ContentHash m \<and> m_Pieces m' = m_Pieces m"

lemma inv_amend:
  assumes inv: "fabric_inv blake3 reg V E P" and k: "V k = Some m" "same_version m m'"
  shows "fabric_inv blake3 reg (V(k \<mapsto> m')) E P"
proof -
  have m': "mlocs m' = mlocs m" "m_ContentHash m' = m_ContentHash m" "m_Pieces m' = m_Pieces m"
    using k(2) by (simp_all add: same_version_def mlocs_def)
  have "version_ok blake3 reg P k m'"
    using fabric_invD(2) [OF inv k(1)] k(2) by (auto simp: version_ok_def version_wf_def same_version_def)
  moreover have "row_ok blake3 reg (V(k \<mapsto> m')) P c f" if "E c = Some f" for c f
    using fabric_invD(3) [OF inv that] by (simp add: row_ok_def refs_same [of V k, OF k(1) m'(2)])
  moreover have "points_at E k m'" if "m_ContentHash m' \<noteq> []"
    using fabric_invD(4) [OF inv k(1)] that m' by (simp add: points_at_def)
  moreover have "separated (V(k \<mapsto> m')) E"
    using k(1) m' by (intro separated_mono [OF fabric_invD(5) [OF inv]]) (auto split: if_splits)
  ultimately show ?thesis
    using inv by (auto simp: fabric_inv_def)
qed

text \<open>What nobody refers to once a version, or the last reference to a row, is gone.\<close>

lemma owned_released:
  assumes inv: "fabric_inv blake3 reg V E P" and k: "V k = Some m" "m_ContentHash m = []" "l \<in> mlocs m"
  shows "l \<notin> referenced (V(k := None)) E"
  using separatedD(1) [OF fabric_invD(5) [OF inv] k(1) _ _ k(2,3)] separatedD(2) [OF fabric_invD(5) [OF inv] k(1,2)] k(3)
  by (auto simp: referenced_def split: if_splits)

lemma row_released:
  assumes inv: "fabric_inv blake3 reg V E P" and c: "E c = Some e" "refs V c = {}"
  shows "eloc e \<notin> referenced V (E(c := None))"
proof
  assume "eloc e \<in> referenced V (E(c := None))"
  then consider k m where "V k = Some m" "eloc e \<in> mlocs m" | c' e' where "c' \<noteq> c" "E c' = Some e'" "eloc e = eloc e'"
    by (auto simp: referenced_def split: if_splits)
  then show False
  proof cases
    case 1
    show False
    proof (cases "m_ContentHash m = []")
      case True
      then show False
        using separatedD(2) [OF fabric_invD(5) [OF inv] 1(1) _ c(1)] 1(2) by simp
    next
      case False
      then obtain e' where e': "E (ckey (k_TenantID k) (m_ContentHash m)) = Some e'" "mlocs m = {eloc e'}"
        using fabric_invD(4) [OF inv 1(1)] by (auto simp: points_at_def mlocs_def)
      then have "ckey (k_TenantID k) (m_ContentHash m) = c"
        using separatedD(3) [OF fabric_invD(5) [OF inv] c(1) e'(1)] 1(2) by auto
      then show False
        using c(2) 1(1) by (auto simp: refs_def)
    qed
  next
    case 2
    then show False
      using separatedD(3) [OF fabric_invD(5) [OF inv] c(1) 2(2)] by simp
  qed
qed

section \<open>The handlers keep it\<close>

definition gw_inv :: "('m \<Rightarrow> bool) \<Rightarrow> ('i \<Rightarrow> bool) \<Rightarrow> ('i \<Rightarrow> row_map) \<Rightarrow> ('m \<Rightarrow> version_map) \<Rightarrow> 'p backends \<Rightarrow> ('p \<Rightarrow> bool)
    \<Rightarrow> ('p \<Rightarrow> string \<Rightarrow> bytes option) \<Rightarrow> (bytes \<Rightarrow> bytes) \<Rightarrow> ('m, 'i, 'p, 'b) Gateway \<Rightarrow> bool" where
  "gw_inv minv cinv entries versions provs pinv pieces blake3 g \<longleftrightarrow>
    minv (gw_Manifests g) \<and> cinv (gw_Index g) \<and> world_ok provs pinv (gw_World g)
    \<and> (\<forall>c. entries (gw_Index g) c \<noteq> None \<longrightarrow> ck_ContentHash c \<noteq> [])
    \<and> fabric_inv blake3 (\<lambda>b. provs b \<noteq> None) (versions (gw_Manifests g)) (entries (gw_Index g)) (\<lambda>b. pieces (gw_World g b))"

text \<open>An identifier no version, piece or row uses, not even with a suffix (as shard identifiers have).\<close>

definition fresh_id :: "version_map \<Rightarrow> row_map \<Rightarrow> string \<Rightarrow> bool" where
  "fresh_id V E v \<longleftrightarrow>
    (\<forall>k m. V k = Some m \<longrightarrow> k_VersionID k \<noteq> v \<and> (\<forall>p \<in> set (m_Pieces m). \<not> has_prefix (p_PieceID p) v))
    \<and> (\<forall>c e. E c = Some e \<longrightarrow> \<not> has_prefix (ce_PieceID e) v)"

lemma fresh_unreferenced: "fresh_id V E v \<Longrightarrow> (b, v @ x) \<notin> referenced V E"
proof
  assume f: "fresh_id V E v" and r: "(b, v @ x) \<in> referenced V E"
  from r consider k m p where "V k = Some m" "p \<in> set (m_Pieces m)" "p_PieceID p = v @ x"
    | c e where "E c = Some e" "ce_PieceID e = v @ x"
    by (auto simp: referenced_def mlocs_def ploc_def eloc_def)
  then show False
    using f has_prefix_append [of v x] unfolding fresh_id_def by cases metis+
qed

lemma fresh_key: "fresh_id V E v \<Longrightarrow> k_VersionID k = v \<Longrightarrow> V k = None"
  by (cases "V k") (auto simp: fresh_id_def)

lemma log_event_simps [simp]:
  "gw_Manifests (log_event w e g) = gw_Manifests g" "gw_Index (log_event w e g) = gw_Index g"
  "gw_World (log_event w e g) = gw_World g" "gw_Buckets (log_event w e g) = gw_Buckets g"
  by (simp_all add: log_event_def)

lemma events_simps [simp]:
  "gw_Manifests (emit cfg t b d n g) = gw_Manifests g" "gw_Index (emit cfg t b d n g) = gw_Index g"
  "gw_World (emit cfg t b d n g) = gw_World g"
  "gw_Manifests (emit_if c cfg t b d n g) = gw_Manifests g" "gw_Index (emit_if c cfg t b d n g) = gw_Index g"
  "gw_World (emit_if c cfg t b d n g) = gw_World g"
  "gw_Manifests (audit cfg o' t b k i be co g) = gw_Manifests g" "gw_Index (audit cfg o' t b k i be co g) = gw_Index g"
  "gw_World (audit cfg o' t b k i be co g) = gw_World g"
  "gw_Manifests (notify cfg ev t b k tag v sz g) = gw_Manifests g" "gw_Index (notify cfg ev t b k tag v sz g) = gw_Index g"
  "gw_World (notify cfg ev t b k tag v sz g) = gw_World g"
  "gw_Manifests (emit_hit cfg t b e g) = gw_Manifests g" "gw_Index (emit_hit cfg t b e g) = gw_Index g"
  "gw_World (emit_hit cfg t b e g) = gw_World g"
  by (simp_all add: emit_def emit_if_def audit_def notify_def emit_hit_def)

lemma gw_inv_events [simp]:
  "gw_inv mi ci es vs ps pi pc bl (emit cfg t b d n g) = gw_inv mi ci es vs ps pi pc bl g"
  "gw_inv mi ci es vs ps pi pc bl (emit_if c cfg t b d n g) = gw_inv mi ci es vs ps pi pc bl g"
  "gw_inv mi ci es vs ps pi pc bl (audit cfg o' t b k i be co g) = gw_inv mi ci es vs ps pi pc bl g"
  "gw_inv mi ci es vs ps pi pc bl (notify cfg ev t b k tag v sz g) = gw_inv mi ci es vs ps pi pc bl g"
  "gw_inv mi ci es vs ps pi pc bl (emit_hit cfg t b e g) = gw_inv mi ci es vs ps pi pc bl g"
  by (simp_all add: gw_inv_def)

lemma gw_delete_simps [simp]:
  "gw_Manifests (gw_delete cfg b i g) = gw_Manifests g" "gw_Index (gw_delete cfg b i g) = gw_Index g"
  by (simp_all add: gw_delete_def)

lemma fold_gw_delete_simps [simp]:
  "gw_Manifests (fold (\<lambda>x. gw_delete cfg (f x) (h x)) xs g) = gw_Manifests g"
  "gw_Index (fold (\<lambda>x. gw_delete cfg (f x) (h x)) xs g) = gw_Index g"
  by (induction xs arbitrary: g) simp_all

lemma gw_put_simps:
  "gw_put pv b i body opts g = (r, g') \<Longrightarrow> gw_Manifests g' = gw_Manifests g \<and> gw_Index g' = gw_Index g"
  by (auto simp: gw_put_def split: sum.splits prod.splits)

lemma new_manifest_simps [simp]:
  "m_TenantID (new_manifest rq t b k v n c h enc pol ps pb) = t" "m_Bucket (new_manifest rq t b k v n c h enc pol ps pb) = b"
  "m_ObjectKeyHash (new_manifest rq t b k v n c h enc pol ps pb) = hashObjectKey k"
  "m_VersionID (new_manifest rq t b k v n c h enc pol ps pb) = v" "m_ContentHash (new_manifest rq t b k v n c h enc pol ps pb) = h"
  "m_Pieces (new_manifest rq t b k v n c h enc pol ps pb) = ps"
  by (simp_all add: new_manifest_def applyRequestObjectMetadata_def)

lemma new_piece_simps [simp]:
  "p_PieceID (new_piece i b l h e n) = i" "p_Backend (new_piece i b l h e n) = b" "p_Hash (new_piece i b l h e n) = h"
  by (simp_all add: new_piece_def)

lemma object_key_simps [simp]:
  "k_TenantID (object_key t b k v) = t" "k_Bucket (object_key t b k v) = b"
  "k_ObjectKeyHash (object_key t b k v) = hashObjectKey k" "k_VersionID (object_key t b k v) = v"
  by (simp_all add: object_key_def)

lemma content_hash_ne [simp]: "content_hash blake3 d \<noteq> []"
  by (simp add: content_hash_def formatContentHash_def)

lemma retention_same_version: "applyDefaultObjectLockRetention cfg rq t b m g = Inr m' \<Longrightarrow> same_version m m'"
  by (auto simp: applyDefaultObjectLockRetention_def applyDefaultRetention_def same_version_def split: option.splits if_splits)

lemma commit_cases:
  assumes "commit_manifest cfg ms rq t b k m0 g = Inr (m, g')"
  obtains s where "same_version m0 m" "op_Put ms (object_key t b k (m_VersionID m0)) m (gw_Manifests g) = Inr s"
    "g' = g\<lparr>gw_Manifests := s\<rparr>"
  using assms retention_same_version [of cfg rq t b m0 g m]
  by (auto simp: commit_manifest_def same_version_def split: sum.splits)

lemma prepareDedupedPut_lookup:
  assumes "prepareDedupedPut cfg ci t mode body rand idx = Inr (res, idx')"
  obtains miss where "dd_Existing miss = None" "dd_ContentHash miss = content_hash (cfg_blake3 cfg) (dd_CiphertextBytes miss)"
    "dedup_lookup ci t miss idx = Inr (res, idx')"
proof -
  have "\<exists>miss. dedup_lookup ci t miss idx = Inr (res, idx') \<and> dd_Existing miss = None
      \<and> dd_ContentHash miss = content_hash (cfg_blake3 cfg) (dd_CiphertextBytes miss)"
  proof (cases "IsGatewayEncrypted mode")
    case True
    then have "prepareDedupedPutPatternB cfg ci t mode body rand idx = Inr (res, idx')"
      using assms by (simp add: prepareDedupedPut_def)
    then obtain c and w :: WrappedDEK where "dedup_lookup ci t
        \<lparr>dd_Hit = False, dd_Existing = None, dd_ContentHash = content_hash (cfg_blake3 cfg) c, dd_CiphertextBytes = c,
         dd_PlaintextSize = int (length body), dd_Encryption = zero_EncryptionConfig\<lparr>en_Mode := mode, en_Algorithm := ContentAlgorithm,
           en_KeyID := wd_KeyID w, en_WrappedDEK := wd_WrappedKey w, en_WrapAlgorithm := wd_WrapAlgorithm w\<rparr>,
         dd_PlaintextHash = formatContentHash (EncodeToString (cfg_blake3 cfg body))\<rparr> idx = Inr (res, idx')"
      by (auto simp: prepareDedupedPutPatternB_def Let_def split: option.splits)
    then show ?thesis
      by (intro exI conjI) (assumption, simp_all)
  next
    case False
    then have "prepareDedupedPutPatternC cfg ci t body idx = Inr (res, idx')"
      using assms by (simp add: prepareDedupedPut_def split: if_splits)
    then show ?thesis
      unfolding prepareDedupedPutPatternC_def by (intro exI conjI) (assumption, simp_all)
  qed
  then show ?thesis
    using that by blast
qed

locale s3_gateway = orphan_gc ci cinv entries ms minv versions current provs pinv pieces
  for ci :: "'i ContentIndex" and cinv entries and ms :: "'m ManifestStore" and minv versions current
    and provs :: "'p backends" and pinv and pieces +
  fixes cfg :: "('m, 'i, 'p, 'b) Config"
  assumes cfg_ms: "cfg_Manifests cfg = Some ms" and cfg_ci: "cfg_ContentIndex cfg = Some ci"
    and cfg_provs: "cfg_Providers cfg = provs"
begin

abbreviation inv :: "('m, 'i, 'p, 'b) Gateway \<Rightarrow> bool" where
  "inv \<equiv> gw_inv minv cinv entries versions provs pinv pieces (cfg_blake3 cfg)"

abbreviation refd :: "('m, 'i, 'p, 'b) Gateway \<Rightarrow> (string \<times> string) set" where
  "refd g \<equiv> referenced (versions (gw_Manifests g)) (entries (gw_Index g))"

abbreviation fresh :: "('m, 'i, 'p, 'b) Gateway \<Rightarrow> string \<Rightarrow> bool" where
  "fresh g \<equiv> fresh_id (versions (gw_Manifests g)) (entries (gw_Index g))"

lemma inv_cong:
  "gw_Manifests g' = gw_Manifests g \<Longrightarrow> gw_Index g' = gw_Index g \<Longrightarrow> gw_World g' = gw_World g \<Longrightarrow> inv g' = inv g"
  by (simp add: gw_inv_def)

lemma inv_world:
  assumes "inv g" "world_ok provs pinv w" "\<And>b i. (b, i) \<in> refd g \<Longrightarrow> pieces (w b) i = pieces (gw_World g b) i"
  shows "inv (g\<lparr>gw_World := w\<rparr>)"
proof -
  have "fabric_inv (cfg_blake3 cfg) (\<lambda>b. provs b \<noteq> None) (versions (gw_Manifests g)) (entries (gw_Index g)) (\<lambda>b. pieces (w b))"
    by (rule inv_pieces [of _ _ _ _ "\<lambda>b. pieces (gw_World g b)"]) (use assms in \<open>auto simp: gw_inv_def\<close>)
  then show ?thesis
    using assms by (simp add: gw_inv_def)
qed

lemma gw_delete_inv:
  assumes "inv g" "(b, i) \<notin> refd g"
  shows "inv (gw_delete cfg b i g)"
proof -
  have w: "world_ok provs pinv (gw_World g)"
    using assms(1) by (simp add: gw_inv_def)
  obtain r w' where d: "world_delete provs b i (gw_World g) = (r, w')"
    by fastforce
  have "inv (g\<lparr>gw_World := w'\<rparr>)"
  proof (rule inv_world [OF assms(1)])
    show "world_ok provs pinv w'"
      by (rule world_delete_ok [OF w d])
    show "pieces (w' b') i' = pieces (gw_World g b') i'" if "(b', i') \<in> refd g" for b' i'
      using world_delete_other [OF w d, of b' i'] that assms(2) by auto
  qed
  then show ?thesis
    by (simp add: gw_delete_def cfg_provs d)
qed

lemma fold_gw_delete_inv:
  assumes "inv g" "\<And>x. x \<in> set xs \<Longrightarrow> (f x, h x) \<notin> refd g"
  shows "inv (fold (\<lambda>x. gw_delete cfg (f x) (h x)) xs g)"
  using assms
proof (induction xs arbitrary: g)
  case (Cons x xs)
  then show ?case
    using gw_delete_inv [of g "f x" "h x"] by simp
qed simp

lemma gw_put_inv:
  assumes "inv g" "provs b = Some pv" "(b, i) \<notin> refd g" "gw_put pv b i body opts g = (r, g')"
  shows "inv g'" "r = Inr res \<Longrightarrow> \<exists>d. body = Inr d \<and> pieces (gw_World g' b) i = Some d \<and> pr_PieceID res = i"
    "(b', j) \<noteq> (b, i) \<Longrightarrow> pieces (gw_World g' b') j = pieces (gw_World g b') j"
proof -
  have w: "world_ok provs pinv (gw_World g)"
    using assms(1) by (simp add: gw_inv_def)
  then have pinv: "pinv (gw_World g b)"
    using assms(2) by (simp add: world_ok_def)
  note P = providers [OF assms(2)]
  have "inv g' \<and> (r = Inr res \<longrightarrow> (\<exists>d. body = Inr d \<and> pieces (gw_World g' b) i = Some d \<and> pr_PieceID res = i))
      \<and> ((b', j) \<noteq> (b, i) \<longrightarrow> pieces (gw_World g' b') j = pieces (gw_World g b') j)"
  proof (cases body)
    case (Inl e)
    then show ?thesis
      using assms(1,4) by (auto simp: gw_put_def)
  next
    case (Inr d)
    then obtain p where p: "sp_PutPiece pv i d opts (gw_World g b) = (r, p)" "g' = g\<lparr>gw_World := (gw_World g)(b := p)\<rparr>"
      using assms(4) by (auto simp: gw_put_def split: prod.splits)
    have other: "j \<noteq> i \<Longrightarrow> pieces p j = pieces (gw_World g b) j" for j
      by (rule storage_provider.put_other [OF P pinv p(1)])
    have "inv (g\<lparr>gw_World := (gw_World g)(b := p)\<rparr>)"
    proof (rule inv_world [OF assms(1)])
      show "world_ok provs pinv ((gw_World g)(b := p))"
        using w storage_provider.put_invar [OF P pinv p(1)] by (simp add: world_ok_def)
      show "pieces (((gw_World g)(b := p)) b') i' = pieces (gw_World g b') i'" if "(b', i') \<in> refd g" for b' i'
        using other [of i'] that assms(3) by auto
    qed
    moreover have "r = Inr res \<Longrightarrow> pieces p i = Some d \<and> pr_PieceID res = i"
      using storage_provider.put_ok [OF P pinv, of i d opts res p] p(1) by simp
    ultimately show ?thesis
      using p(2) Inr other by auto
  qed
  then show "inv g'" "r = Inr res \<Longrightarrow> \<exists>d. body = Inr d \<and> pieces (gw_World g' b) i = Some d \<and> pr_PieceID res = i"
    "(b', j) \<noteq> (b, i) \<Longrightarrow> pieces (gw_World g' b') j = pieces (gw_World g b') j"
    by blast+
qed

end

subsection \<open>Storing a manifest\<close>

context s3_gateway
begin

lemma inv_stores:
  assumes "inv g"
  shows "minv (gw_Manifests g)" "cinv (gw_Index g)"
    "fabric_inv (cfg_blake3 cfg) (\<lambda>b. provs b \<noteq> None) (versions (gw_Manifests g)) (entries (gw_Index g)) (\<lambda>b. pieces (gw_World g b))"
    "entries (gw_Index g) c \<noteq> None \<Longrightarrow> ck_ContentHash c \<noteq> []"
  using assms by (simp_all add: gw_inv_def)

lemma inv_put_manifest:
  assumes "inv g" "op_Put ms k m (gw_Manifests g) = Inr s"
    and "fabric_inv (cfg_blake3 cfg) (\<lambda>b. provs b \<noteq> None) ((versions (gw_Manifests g))(k \<mapsto> m)) (entries (gw_Index g)) (\<lambda>b. pieces (gw_World g b))"
  shows "inv (g\<lparr>gw_Manifests := s\<rparr>)"
  using assms M.put_law [OF inv_stores(1) [OF assms(1)] assms(2)] by (simp add: gw_inv_def)

lemma inv_index:
  assumes "inv g" "cinv idx" "\<And>c. entries idx c \<noteq> None \<Longrightarrow> ck_ContentHash c \<noteq> []"
    and "fabric_inv (cfg_blake3 cfg) (\<lambda>b. provs b \<noteq> None) (versions (gw_Manifests g)) (entries idx) (\<lambda>b. pieces (gw_World g b))"
  shows "inv (g\<lparr>gw_Index := idx\<rparr>)"
  using assms by (simp add: gw_inv_def)

lemma commit_owned:
  assumes inv: "inv g" and commit: "commit_manifest cfg ms rq t b k m0 g = Inr (m, g')"
    and m0: "m_TenantID m0 = t" "m_Bucket m0 = b" "m_ObjectKeyHash m0 = hashObjectKey k" "m_VersionID m0 \<noteq> []" "m_ContentHash m0 = []"
    and key: "versions (gw_Manifests g) (object_key t b k (m_VersionID m0)) = None"
    and ps: "\<And>p. p \<in> set (m_Pieces m0) \<Longrightarrow> ploc p \<notin> refd g \<and> provs (p_Backend p) \<noteq> None
      \<and> holds (cfg_blake3 cfg) (\<lambda>b. pieces (gw_World g b)) (ploc p) (p_Hash p)"
  shows "inv g'"
proof -
  obtain s where s: "same_version m0 m" "op_Put ms (object_key t b k (m_VersionID m0)) m (gw_Manifests g) = Inr s"
      "g' = g\<lparr>gw_Manifests := s\<rparr>"
    using commit_cases [OF commit] .
  have "version_wf (object_key t b k (m_VersionID m0)) m" "m_ContentHash m = []" "m_Pieces m = m_Pieces m0"
    using s(1) m0 by (simp_all add: version_wf_def same_version_def)
  then have "fabric_inv (cfg_blake3 cfg) (\<lambda>b. provs b \<noteq> None) ((versions (gw_Manifests g))(object_key t b k (m_VersionID m0) \<mapsto> m))
      (entries (gw_Index g)) (\<lambda>b. pieces (gw_World g b))"
    using ps inv_stores(4) [OF inv] by (intro inv_add_owned [OF inv_stores(3) [OF inv] key]) auto
  then show ?thesis
    using inv_put_manifest [OF inv s(2)] s(3) by simp
qed

lemma commit_shared:
  assumes inv: "inv g" and commit: "commit_manifest cfg ms rq t b k m0 g = Inr (m, g')"
    and m0: "m_TenantID m0 = t" "m_Bucket m0 = b" "m_ObjectKeyHash m0 = hashObjectKey k" "m_VersionID m0 \<noteq> []"
    and h: "m_ContentHash m0 = h" "h \<noteq> []"
    and key: "versions (gw_Manifests g) (object_key t b k (m_VersionID m0)) = None"
    and e: "entries (gw_Index g) (ckey t h) = Some e" "m_Pieces m0 = [p]" "ploc p = eloc e" "p_Hash p = h"
    and room: "int (card (refs (versions (gw_Manifests g)) (ckey t h))) < ce_RefCount e"
  shows "inv g'"
proof -
  obtain s where s: "same_version m0 m" "op_Put ms (object_key t b k (m_VersionID m0)) m (gw_Manifests g) = Inr s"
      "g' = g\<lparr>gw_Manifests := s\<rparr>"
    using commit_cases [OF commit] .
  have m: "version_wf (object_key t b k (m_VersionID m0)) m" "m_ContentHash m = h" "m_Pieces m = [p]"
    using s(1) m0 h e(2) by (simp_all add: version_wf_def same_version_def)
  have "fabric_inv (cfg_blake3 cfg) (\<lambda>b. provs b \<noteq> None) ((versions (gw_Manifests g))(object_key t b k (m_VersionID m0) \<mapsto> m))
      (entries (gw_Index g)) (\<lambda>b. pieces (gw_World g b))"
    using m h e room by (intro inv_add_shared [OF inv_stores(3) [OF inv] key]) auto
  then show ?thesis
    using inv_put_manifest [OF inv s(2)] s(3) by simp
qed

subsection \<open>Single-piece writes\<close>

lemma putSinglePiece_inv:
  assumes inv: "inv g" and prov: "provs backendName = Some provider"
    and fresh: "fresh g (newPieceID t b k (rq_now rq 1))"
    and put: "putSinglePiece cfg ms rq t b k backendName provider policy g = (rs, g')"
  shows "inv g'"
proof (cases "prepareSinglePieceEncryption (cfg_Crypto cfg) (cfg_Encryption cfg) rq (pp_EncryptionMode policy)
    \<lparr>ai_TenantID = t, ai_Bucket = b, ai_ObjectKeyHash = hashObjectKey k, ai_VersionID = newPieceID t b k (rq_now rq 1)\<rparr>")
  case (Inl resp)
  then show ?thesis
    using put inv by (simp add: putSinglePiece_def Let_def)
next
  case (Inr pd)
  let ?i = "newPieceID t b k (rq_now rq 1)"
  have unref: "(b', ?i) \<notin> refd g" for b'
    using fresh_unreferenced [OF fresh, of b' "[]"] by simp
  obtain r g1 where gp: "gw_put provider backendName ?i (pd_Body pd) (put_options (pd_ContentLength pd) rq) g = (r, g1)"
    by fastforce
  note g1 = gw_put_inv [OF inv prov unref gp] gw_put_simps [OF gp]
  have del: "inv (gw_delete cfg backendName ?i g1)"
    using gw_delete_inv [OF g1(1)] unref g1(4) by simp
  show ?thesis
  proof (cases r)
    case (Inl e)
    then show ?thesis
      using put Inr gp g1(1) by (simp add: putSinglePiece_def Let_def)
  next
    case (Inr res)
    obtain d where d: "pd_Body pd = Inr d" "pieces (gw_World g1 backendName) ?i = Some d" "pr_PieceID res = ?i"
      using g1(2) [OF Inr] by blast
    define m0 where "m0 = new_manifest rq t b k ?i
        (if IsGatewayEncrypted (pp_EncryptionMode policy) then pd_PlaintextSize pd else pr_SizeBytes res) (pr_SizeBytes res) [] (pd_Encryption pd) policy
        [new_piece ?i backendName (pr_Locator res) (content_hash (cfg_blake3 cfg) d) (pr_ETag res) (pr_SizeBytes res)] backendName"
    have "g' = gw_delete cfg backendName ?i g1 \<or>
        (\<exists>m g2. commit_manifest cfg ms rq t b k m0 g1 = Inr (m, g2) \<and> inv g' = inv g2)"
      using put \<open>prepareSinglePieceEncryption _ _ _ _ _ = Inr pd\<close> gp Inr d unfolding m0_def
      by (auto simp: putSinglePiece_def Let_def split: if_splits sum.splits prod.splits)
    moreover have "inv g2" if "commit_manifest cfg ms rq t b k m0 g1 = Inr (m, g2)" for m g2
    proof (rule commit_owned [OF g1(1) that])
      show "versions (gw_Manifests g1) (object_key t b k (m_VersionID m0)) = None"
        using fresh_key [OF fresh] g1(4) by (simp add: m0_def)
      show "ploc p \<notin> refd g1 \<and> provs (p_Backend p) \<noteq> None \<and> holds (cfg_blake3 cfg) (\<lambda>b. pieces (gw_World g1 b)) (ploc p) (p_Hash p)"
        if "p \<in> set (m_Pieces m0)" for p
        using that unref g1(4) prov d by (auto simp: m0_def ploc_def holds_def)
    qed (simp_all add: m0_def)
    ultimately show ?thesis
      using del by blast
  qed
qed

end

subsection \<open>Deduplicated writes\<close>

context s3_gateway
begin

text \<open>The row of (tenant, hash) counts more references than versions point at it: one is reserved.\<close>

definition reserved :: "string \<Rightarrow> string \<Rightarrow> ContentIndexEntry \<Rightarrow> ('m, 'i, 'p, 'b) Gateway \<Rightarrow> bool" where
  "reserved t h e g \<longleftrightarrow> entries (gw_Index g) (ckey t h) = Some e
    \<and> int (card (refs (versions (gw_Manifests g)) (ckey t h))) < ce_RefCount e"

lemma increment_reserves:
  assumes "inv g" "ci_IncrementRef ci t h (gw_Index g) = Inr idx"
  obtains e where "entries (gw_Index g) (ckey t h) = Some e" "inv (g\<lparr>gw_Index := idx\<rparr>)" "reserved t h (bump 1 e) (g\<lparr>gw_Index := idx\<rparr>)"
proof -
  obtain e where e: "cinv idx" "entries (gw_Index g) (ckey t h) = Some e" "entries idx = (entries (gw_Index g))(ckey t h \<mapsto> bump 1 e)"
    using C.increment_ok [OF inv_stores(2) [OF assms(1)] assms(2)] by blast
  have row: "int (card (refs (versions (gw_Manifests g)) (ckey t h))) \<le> ce_RefCount e"
    using fabric_invD(3) [OF inv_stores(3) [OF assms(1)] e(2)] by (simp add: row_ok_def)
  have "inv (g\<lparr>gw_Index := idx\<rparr>)"
  proof (rule inv_index [OF assms(1) e(1)])
    show "ck_ContentHash c \<noteq> []" if "entries idx c \<noteq> None" for c
      using that e(2,3) inv_stores(4) [OF assms(1), of c] inv_stores(4) [OF assms(1), of "ckey t h"] by (auto split: if_splits)
    show "fabric_inv (cfg_blake3 cfg) (\<lambda>b. provs b \<noteq> None) (versions (gw_Manifests g)) (entries idx) (\<lambda>b. pieces (gw_World g b))"
      unfolding e(3) using row by (intro inv_recount [OF inv_stores(3) [OF assms(1)] e(2)]) (simp_all add: bump_def eloc_def)
  qed
  moreover have "reserved t h (bump 1 e) (g\<lparr>gw_Index := idx\<rparr>)"
    using row e(3) by (simp add: reserved_def bump_def)
  ultimately show ?thesis
    using that e(2) by blast
qed

lemma gw_decrement_inv:
  assumes "inv g" "reserved t h e g"
  shows "inv (gw_decrement ci t h g)"
proof (cases "ci_DecrementRef ci t h (gw_Index g)")
  case (Inr ni)
  obtain n idx where ni: "ni = (n, idx)"
    by fastforce
  have d: "cinv idx" "entries idx = (entries (gw_Index g))(ckey t h \<mapsto> bump (- 1) e)"
    using C.decrement_ok [OF inv_stores(2) [OF assms(1)] Inr [unfolded ni]] assms(2) by (auto simp: reserved_def)
  have "inv (g\<lparr>gw_Index := idx\<rparr>)"
  proof (rule inv_index [OF assms(1) d(1)])
    show "ck_ContentHash c \<noteq> []" if "entries idx c \<noteq> None" for c
      using that d(2) assms(2) inv_stores(4) [OF assms(1), of c] inv_stores(4) [OF assms(1), of "ckey t h"]
      by (auto simp: reserved_def split: if_splits)
    show "fabric_inv (cfg_blake3 cfg) (\<lambda>b. provs b \<noteq> None) (versions (gw_Manifests g)) (entries idx) (\<lambda>b. pieces (gw_World g b))"
      unfolding d(2) using assms(2)
      by (intro inv_recount [OF inv_stores(3) [OF assms(1)], of _ e]) (auto simp: reserved_def bump_def eloc_def)
  qed
  then show ?thesis
    by (simp add: gw_decrement_def Inr ni)
qed (simp add: gw_decrement_def assms(1))

lemma fresh_increment:
  assumes "inv g" "ci_IncrementRef ci t h (gw_Index g) = Inr idx" "fresh g v"
  shows "fresh (g\<lparr>gw_Index := idx\<rparr>) v"
proof -
  obtain e where "entries (gw_Index g) (ckey t h) = Some e" "entries idx = (entries (gw_Index g))(ckey t h \<mapsto> bump 1 e)"
    using C.increment_ok [OF inv_stores(2) [OF assms(1)] assms(2)] by blast
  then show ?thesis
    using assms(3) by (auto simp: fresh_id_def bump_def)
qed

text \<open>After the lookup: a hit has reserved a reference, a miss has found no row.\<close>

lemma dedup_lookup_state:
  assumes inv: "inv g" and miss: "dd_Existing miss = None" and look: "dedup_lookup ci t miss (gw_Index g) = Inr (res, idx)"
  shows "inv (g\<lparr>gw_Index := idx\<rparr>) \<and> dd_ContentHash res = dd_ContentHash miss \<and> (\<forall>v. fresh g v \<longrightarrow> fresh (g\<lparr>gw_Index := idx\<rparr>) v) \<and>
    (case dd_Existing res of
       None \<Rightarrow> res = miss \<and> entries idx (ckey t (dd_ContentHash miss)) = None
     | Some e \<Rightarrow> reserved t (dd_ContentHash miss) (bump 1 e) (g\<lparr>gw_Index := idx\<rparr>))"
proof (cases "ci_Lookup ci t (dd_ContentHash miss) (gw_Index g)")
  case (Inl err)
  then have nf: "ci_Lookup ci t (dd_ContentHash miss) (gw_Index g) = Inl CINotFound" and r: "res = miss" "idx = gw_Index g"
    using look by (auto simp: dedup_lookup_def split: ci_error.splits)
  have "entries (gw_Index g) (ckey t (dd_ContentHash miss)) = None"
    by (rule C.lookup_missing [OF inv_stores(2) [OF inv] nf])
  then show ?thesis
    using inv miss r by simp
next
  case (Inr existing)
  then obtain idx' where inc: "ci_IncrementRef ci t (dd_ContentHash miss) (gw_Index g) = Inr idx'"
      and r: "idx = idx'" "res = miss\<lparr>dd_Hit := True, dd_Existing := Some existing, dd_CiphertextBytes := []\<rparr>"
    using look by (auto simp: dedup_lookup_def split: sum.splits)
  obtain e where e: "entries (gw_Index g) (ckey t (dd_ContentHash miss)) = Some e" "inv (g\<lparr>gw_Index := idx\<rparr>)"
      "reserved t (dd_ContentHash miss) (bump 1 e) (g\<lparr>gw_Index := idx\<rparr>)"
    using increment_reserves [OF inv inc] r by blast
  have "e = existing"
    using C.lookup_ok [OF inv_stores(2) [OF inv] Inr] e(1) by simp
  then show ?thesis
    using e r fresh_increment [OF inv inc] by simp
qed

lemma reserved_cong:
  "gw_Manifests g' = gw_Manifests g \<Longrightarrow> gw_Index g' = gw_Index g \<Longrightarrow> reserved t h e g' = reserved t h e g"
  by (simp add: reserved_def)

lemma register_reserves:
  assumes inv: "inv g" and none: "entries (gw_Index g) (ckey t h) = None" and h: "h \<noteq> []"
    and e: "ce_TenantID e = t" "ce_ContentHash e = h" "ce_RefCount e = 0"
    and piece: "eloc e \<notin> refd g" "provs (ce_Backend e) \<noteq> None" "holds (cfg_blake3 cfg) (\<lambda>b. pieces (gw_World g b)) (eloc e) h"
    and reg: "registerDedupedPiece ci now e (gw_Index g) = Inr (lost, idx)"
  obtains e' where "\<not> lost" "eloc e' = eloc e" "inv (g\<lparr>gw_Index := idx\<rparr>)" "reserved t h e' (g\<lparr>gw_Index := idx\<rparr>)"
proof -
  have "ci_Register ci now e (gw_Index g) \<noteq> Inl CIAlreadyExists"
    using C.register_dup [OF inv_stores(2) [OF inv], of now e] none e by auto
  then have r: "ci_Register ci now e (gw_Index g) = Inr idx" "\<not> lost"
    using reg by (auto simp: registerDedupedPiece_def split: sum.splits ci_error.splits)
  obtain e' where e': "cinv idx" "registered_as e e'" "entries idx = (entries (gw_Index g))(ckey t h \<mapsto> e')"
    using C.register_ok [OF inv_stores(2) [OF inv] r(1)] e by auto
  have loc: "eloc e' = eloc e" "ce_Backend e' = ce_Backend e" "ce_RefCount e' = 1"
    using e'(2) e(3) by (simp_all add: registered_as_def eloc_def)
  have ck: "ck_ContentHash (ckey t h) = h"
    by (simp add: ckey_def)
  have "inv (g\<lparr>gw_Index := idx\<rparr>)"
  proof (rule inv_index [OF inv e'(1)])
    show "ck_ContentHash c \<noteq> []" if "entries idx c \<noteq> None" for c
      using that e'(3) h ck inv_stores(4) [OF inv, of c] by (auto split: if_splits)
    show "fabric_inv (cfg_blake3 cfg) (\<lambda>b. provs b \<noteq> None) (versions (gw_Manifests g)) (entries idx) (\<lambda>b. pieces (gw_World g b))"
      unfolding e'(3) using h ck loc piece by (intro inv_add_row [OF inv_stores(3) [OF inv] none]) simp_all
  qed
  moreover have "reserved t h e' (g\<lparr>gw_Index := idx\<rparr>)"
    using refs_none [OF inv_stores(3) [OF inv] none] h ck e'(3) loc(3) by (simp add: reserved_def)
  ultimately show ?thesis
    using that r(2) loc(1) by blast
qed

text \<open>The piece of a deduplicated write is the piece of a row with a reference reserved for it.\<close>

lemma dedup_piece_state:
  assumes inv: "inv g" and prov: "provs backendName = Some provider"
    and fresh: "fresh g (newPieceID t b k (rq_now rq 1))"
    and h: "dd_ContentHash res = h" "h \<noteq> []"
    and res: "case dd_Existing res of
       None \<Rightarrow> entries (gw_Index g) (ckey t h) = None \<and> content_hash (cfg_blake3 cfg) (dd_CiphertextBytes res) = h
     | Some e \<Rightarrow> reserved t h (bump 1 e) g"
    and dp: "dedup_piece cfg ci rq t b k backendName provider res g = (r, g')"
  shows "inv g' \<and> gw_Manifests g' = gw_Manifests g
    \<and> (\<forall>sq. r = Inr sq \<longrightarrow> (\<exists>e. reserved t h e g' \<and> (sq_Backend sq, sq_PieceID sq) = eloc e))"
proof (cases "dd_Existing res")
  case (Some e)
  then show ?thesis
    using dp res inv
    by (auto simp: dedup_piece_def canonical_piece_def eloc_def bump_def reserved_def intro!: exI [of _ "bump 1 e"])
next
  case None
  let ?i = "newPieceID t b k (rq_now rq 1)" and ?d = "dd_CiphertextBytes res"
  have unref: "(b', ?i) \<notin> refd g" for b'
    using fresh_unreferenced [OF fresh, of b' "[]"] by simp
  obtain pr g1 where gp: "gw_put provider backendName ?i (Inr ?d) (put_options (int (length ?d)) rq) g = (pr, g1)"
    by fastforce
  note g1 = gw_put_inv [OF inv prov unref gp] gw_put_simps [OF gp]
  show ?thesis
  proof (cases pr)
    case (Inl err)
    then show ?thesis
      using dp None gp g1(1,4) by (auto simp: dedup_piece_def)
  next
    case (Inr putRes)
    have d: "pieces (gw_World g1 backendName) ?i = Some ?d" "pr_PieceID putRes = ?i"
      using g1(2) [OF Inr] by auto
    define e where "e = \<lparr>ce_TenantID = t, ce_ContentHash = h, ce_PieceID = ?i, ce_Backend = backendName, ce_RefCount = 0,
      ce_SizeBytes = pr_SizeBytes putRes, ce_ETag = pr_ETag putRes, ce_PieceIDs = [], ce_PlaintextHash = dd_PlaintextHash res,
      ce_CreatedAt = zero_time\<rparr>"
    have e: "ce_TenantID e = t" "ce_ContentHash e = h" "ce_RefCount e = 0" "eloc e = (backendName, ?i)" "ce_Backend e = backendName"
      by (simp_all add: e_def eloc_def)
    show ?thesis
    proof (cases "registerDedupedPiece ci (rq_now rq 4) e (gw_Index g1)")
      case (Inl err)
      then have "r = Inl (writeError 500 ''ContentIndexRegisterFailed'')" "g' = gw_delete cfg backendName ?i g1"
        using dp None gp Inr d(2) h(1) by (auto simp: dedup_piece_def e_def)
      then show ?thesis
        using gw_delete_inv [OF g1(1)] unref g1(4) by simp
    next
      case reg: (Inr li)
      obtain lost idx where li: "li = (lost, idx)"
        by fastforce
      have none: "entries (gw_Index g1) (ckey t h) = None" and hash: "content_hash (cfg_blake3 cfg) ?d = h"
        using res None g1(4) by simp_all
      obtain e' where e': "\<not> lost" "eloc e' = eloc e" "inv (g1\<lparr>gw_Index := idx\<rparr>)" "reserved t h e' (g1\<lparr>gw_Index := idx\<rparr>)"
        using register_reserves [OF g1(1) none h(2) e(1-3) _ _ _ reg [unfolded li]] unref g1(4) prov d(1) hash e(4,5)
        by (auto simp: holds_def)
      have "g' = g1\<lparr>gw_Index := idx\<rparr>" "\<And>sq. r = Inr sq \<Longrightarrow> (sq_Backend sq, sq_PieceID sq) = (backendName, ?i)"
        using dp None gp Inr d(2) h(1) reg li e'(1) by (auto simp: dedup_piece_def e_def)
      then show ?thesis
        using e' e(4) g1(4) by auto
    qed
  qed
qed

lemma putDeduped_inv:
  assumes inv: "inv g" and prov: "provs backendName = Some provider"
    and fresh: "fresh g (newPieceID t b k (rq_now rq 1))" "fresh g (newPieceID t b k (rq_now rq 5))"
    and put: "putDeduped cfg ms ci rq t b k backendName provider policy g = (rs, g')"
  shows "inv g'"
proof (cases "(pp_EncryptionMode policy = StrictZK \<and> HeaderGet (rq_Header rq) ''X-Amz-Meta-Zk-Encryption'' = []) \<or> \<not> is_ok (ReadAll rq)
    \<or> \<not> is_ok (prepareDedupedPut cfg ci t (pp_EncryptionMode policy) (projr (ReadAll rq)) (rq_rand rq) (gw_Index g))")
  case True
  then show ?thesis
    using put inv by (auto simp: putDeduped_def Let_def is_ok_def split: sum.splits if_splits)
next
  case False
  then obtain body res idx where body: "ReadAll rq = Inr body"
      and prep: "prepareDedupedPut cfg ci t (pp_EncryptionMode policy) body (rq_rand rq) (gw_Index g) = Inr (res, idx)"
    by (auto simp: is_ok_def split: sum.splits)
  let ?g0 = "g\<lparr>gw_Index := idx\<rparr>" and ?h = "dd_ContentHash res" and ?v = "newPieceID t b k (rq_now rq 5)"
  obtain miss where miss: "dd_Existing miss = None" "dd_ContentHash miss = content_hash (cfg_blake3 cfg) (dd_CiphertextBytes miss)"
      "dedup_lookup ci t miss (gw_Index g) = Inr (res, idx)"
    using prepareDedupedPut_lookup [OF prep] .
  note look = dedup_lookup_state [OF inv miss(1,3)]
  have h: "?h \<noteq> []"
    using look miss(2) by simp
  obtain r g1 where dp: "dedup_piece cfg ci rq t b k backendName provider res ?g0 = (r, g1)"
    by fastforce
  have fresh0: "fresh ?g0 (newPieceID t b k (rq_now rq 1))" "fresh ?g0 ?v"
    using look fresh by blast+
  have "case dd_Existing res of
       None \<Rightarrow> entries (gw_Index ?g0) (ckey t ?h) = None \<and> content_hash (cfg_blake3 cfg) (dd_CiphertextBytes res) = ?h
     | Some e \<Rightarrow> reserved t ?h (bump 1 e) ?g0"
    using look miss(2) by (auto split: option.splits)
  note g1 = dedup_piece_state [OF _ prov fresh0(1) refl h this dp]
  then have inv1: "inv g1" "gw_Manifests g1 = gw_Manifests g"
    using look by simp_all
  show ?thesis
  proof (cases r)
    case (Inl resp)
    then have "g' = g1"
      using put False body prep dp by (auto simp: putDeduped_def Let_def)
    then show ?thesis
      using inv1 by simp
  next
    case (Inr sq)
    obtain e where e: "reserved t ?h e g1" "(sq_Backend sq, sq_PieceID sq) = eloc e"
      using g1 look Inr by blast
    define m0 where "m0 = new_manifest rq t b k ?v
      (if IsGatewayEncrypted (pp_EncryptionMode policy) then dd_PlaintextSize res else sq_SizeBytes sq) (sq_SizeBytes sq) ?h (dd_Encryption res) policy
      [new_piece (sq_PieceID sq) (sq_Backend sq) (sq_Locator sq) ?h (sq_ETag sq) (sq_SizeBytes sq)] (sq_Backend sq)"
    have "g' = gw_decrement ci t ?h g1 \<or> (\<exists>m g2. commit_manifest cfg ms rq t b k m0 g1 = Inr (m, g2) \<and> inv g' = inv g2)"
      using put False body prep dp Inr unfolding m0_def
      by (auto simp: putDeduped_def Let_def split: sum.splits prod.splits if_splits)
    moreover have "inv g2" if "commit_manifest cfg ms rq t b k m0 g1 = Inr (m, g2)" for m g2
    proof (rule commit_shared [OF inv1(1) that, where h = ?h and e = e
          and p = "new_piece (sq_PieceID sq) (sq_Backend sq) (sq_Locator sq) ?h (sq_ETag sq) (sq_SizeBytes sq)"])
      show "versions (gw_Manifests g1) (object_key t b k (m_VersionID m0)) = None"
        using fresh_key [OF fresh(2)] inv1(2) by (simp add: m0_def)
    qed (use e h in \<open>simp_all add: m0_def reserved_def ploc_def\<close>)
    ultimately show ?thesis
      using gw_decrement_inv [OF inv1(1) e(1)] by blast
  qed
qed

end

subsection \<open>Erasure-coded writes\<close>

lemma decimal_value_pad: "decimal_value (replicate k (CHR ''0'') @ ds) = decimal_value ds"
  by (induction k) (simp_all add: decimal_value_def)

lemma pad_decimal_inj: "pad_decimal w (int m) = pad_decimal w (int n) \<Longrightarrow> m = n"
proof -
  assume "pad_decimal w (int m) = pad_decimal w (int n)"
  then have "decimal_value (pad_decimal w (int m)) = decimal_value (pad_decimal w (int n))"
    by simp
  then show "m = n"
    by (simp add: pad_decimal_def FormatInt_def Let_def decimal_value_pad FormatUint_value)
qed

lemma pad_decimal_no_dash: "CHR ''-'' \<notin> set (pad_decimal w (int n))"
  using FormatUint_digits [of n] by (auto simp: pad_decimal_def FormatInt_def Let_def list_all_iff is_digit_def)

definition shard_at :: "Shard \<Rightarrow> nat \<times> nat \<Rightarrow> bool" where
  "shard_at sh si \<longleftrightarrow> sh_StripeIndex sh = int (fst si) \<and> sh_ShardIndex sh = int (snd si)"

lemma shard_id_inj:
  assumes "shard_at sh si" "shard_at sh' si'" "shard_id v sh = shard_id v sh'"
  shows "si = si'"
proof -
  let ?A = "pad_decimal 4 (int (fst si))" and ?A' = "pad_decimal 4 (int (fst si'))"
    and ?B = "pad_decimal 3 (int (snd si))" and ?B' = "pad_decimal 3 (int (snd si'))"
  have "?A @ CHR ''-'' # (CHR ''p'' # ?B) = ?A' @ CHR ''-'' # (CHR ''p'' # ?B')"
    using assms by (simp add: shard_id_def shard_at_def)
  from split_at_first [OF this pad_decimal_no_dash pad_decimal_no_dash] show ?thesis
    using pad_decimal_inj by (metis list.inject prod_eqI)
qed

lemma encode_stripe_keys:
  assumes "encode_stripe e framed s = Inr out"
  shows "list_all2 shard_at out (map (Pair s) [0..<length out])"
  using assms by (auto simp: encode_stripe_def shard_of_def shard_at_def list_all2_conv_all_nth nth_enumerate_eq split: sum.splits)

lemma encode_stripes_keys:
  assumes "encode_stripes e framed ss = Inr out" "distinct ss"
  shows "\<exists>keys. list_all2 shard_at out keys \<and> distinct keys \<and> fst ` set keys \<subseteq> set ss"
  using assms
proof (induction ss arbitrary: out)
  case (Cons s ss)
  then obtain o1 o2 where o: "encode_stripe e framed s = Inr o1" "encode_stripes e framed ss = Inr o2" "out = o1 @ o2"
    by auto
  obtain keys where keys: "list_all2 shard_at o2 keys" "distinct keys" "fst ` set keys \<subseteq> set ss"
    using Cons.IH [OF o(2)] Cons.prems(2) by auto
  let ?k = "map (Pair s) [0..<length o1] @ keys"
  have "list_all2 shard_at out ?k"
    unfolding o(3) using encode_stripe_keys [OF o(1)] keys(1) by (rule list_all2_appendI)
  moreover have "distinct ?k" "fst ` set ?k \<subseteq> set (s # ss)"
    using keys(2,3) Cons.prems(2) by (auto simp: distinct_map inj_on_def)
  ultimately show ?case
    by blast
qed auto

lemma shard_ids_distinct:
  assumes "Encode e body = Inr shards"
  shows "distinct (map (shard_id v) shards)"
proof -
  obtain keys where keys: "list_all2 shard_at shards keys" "distinct keys"
    using encode_stripes_keys assms by (fastforce simp: Encode_def Let_def)
  show ?thesis
    unfolding distinct_conv_nth
  proof (intro allI impI)
    fix i j
    assume ij: "i < length (map (shard_id v) shards)" "j < length (map (shard_id v) shards)" "i \<noteq> j"
    then have "shard_at (shards ! i) (keys ! i)" "shard_at (shards ! j) (keys ! j)" "keys ! i \<noteq> keys ! j"
      using keys by (auto simp: list_all2_conv_all_nth nth_eq_iff_index_eq)
    then show "map (shard_id v) shards ! i \<noteq> map (shard_id v) shards ! j"
      using shard_id_inj [of "shards ! i" "keys ! i" "shards ! j" "keys ! j" v] ij by auto
  qed
qed

lemma shard_id_prefix: "\<exists>x. shard_id v sh = v @ x"
  by (simp add: shard_id_def)

lemma shard_piece_simps [simp]:
  "p_PieceID (shard_piece bl b sh res) = pr_PieceID res" "p_Backend (shard_piece bl b sh res) = b"
  "p_Hash (shard_piece bl b sh res) = content_hash bl (sh_Bytes sh)"
  by (simp_all add: shard_piece_def)

context s3_gateway
begin

text \<open>A piece this write has stored: its identifier extends the version, its bytes are there.\<close>

definition written :: "string \<Rightarrow> string \<Rightarrow> ('m, 'i, 'p, 'b) Gateway \<Rightarrow> Piece \<Rightarrow> bool" where
  "written backend v g p \<longleftrightarrow> p_Backend p = backend \<and> (\<exists>x. p_PieceID p = v @ x)
    \<and> holds (cfg_blake3 cfg) (\<lambda>b. pieces (gw_World g b)) (ploc p) (p_Hash p)"

lemma rollback_inv:
  assumes "inv g" "fresh g v" "\<And>i. i \<in> set is' \<Longrightarrow> \<exists>x. i = v @ x"
  shows "inv (rollbackEC cfg backend is' g)"
proof -
  have "(backend, i) \<notin> refd g" if "i \<in> set is'" for i
    using fresh_unreferenced [OF assms(2)] assms(3) [OF that] by metis
  then show ?thesis
    using fold_gw_delete_inv [OF assms(1), of is' "\<lambda>_. backend" "\<lambda>i. i"] by (simp add: rollbackEC_def)
qed

lemma put_shards_state:
  assumes "inv g" "provs backend = Some provider" "fresh g v"
    and "distinct (map p_PieceID ps @ map (shard_id v) shs)" "\<And>p. p \<in> set ps \<Longrightarrow> written backend v g p"
    and "put_shards cfg rq backend provider v shs ps g = (r, g')"
  shows "inv g' \<and> gw_Manifests g' = gw_Manifests g \<and> gw_Index g' = gw_Index g
    \<and> (\<forall>ps'. r = Some ps' \<longrightarrow> (\<forall>p \<in> set ps'. written backend v g' p))"
  using assms
proof (induction shs arbitrary: ps g)
  case (Cons sh shs)
  let ?i = "shard_id v sh"
  have unref: "(b', ?i) \<notin> refd g" for b'
    using fresh_unreferenced [OF Cons.prems(3)] shard_id_prefix [of v sh] by metis
  obtain pr g1 where gp: "gw_put provider backend ?i (Inr (sh_Bytes sh)) (put_options (int (length (sh_Bytes sh))) rq) g = (pr, g1)"
    by fastforce
  note g1 = gw_put_inv [OF Cons.prems(1,2) unref gp] gw_put_simps [OF gp]
  show ?case
  proof (cases pr)
    case (Inl e)
    have "inv (rollbackEC cfg backend (map p_PieceID ps) g1)"
      using Cons.prems(3,5) g1(4) by (intro rollback_inv [OF g1(1), of v]) (auto simp: written_def)
    then show ?thesis
      using Cons.prems(6) gp Inl g1(4) by (auto simp: rollbackEC_def)
  next
    case (Inr res)
    let ?p = "shard_piece (cfg_blake3 cfg) backend sh res"
    have res: "pr_PieceID res = ?i" "pieces (gw_World g1 backend) ?i = Some (sh_Bytes sh)"
      using g1(2) [OF Inr] by auto
    have "written backend v g1 p" if "p \<in> set (ps @ [?p])" for p
    proof (cases "p \<in> set ps")
      case True
      then have "p_PieceID p \<in> p_PieceID ` set ps"
        by simp
      then have "p_PieceID p \<noteq> ?i"
        using Cons.prems(4) by auto
      then show ?thesis
        using Cons.prems(5) [OF True] g1(3) by (auto simp: written_def holds_def ploc_def)
    next
      case False
      then show ?thesis
        using that res shard_id_prefix [of v sh] by (auto simp: written_def holds_def ploc_def)
    qed
    moreover have "distinct (map p_PieceID (ps @ [?p]) @ map (shard_id v) shs)"
      using Cons.prems(4) res(1) by auto
    moreover have "put_shards cfg rq backend provider v shs (ps @ [?p]) g1 = (r, g')"
      using Cons.prems(6) gp Inr by simp
    moreover have "fresh g1 v"
      using Cons.prems(3) g1(4) by simp
    ultimately show ?thesis
      using Cons.IH [OF g1(1) Cons.prems(2)] g1(4) by metis
  qed
qed auto

lemma putErasureCoded_inv:
  assumes inv: "inv g" and prov: "provs backendName = Some provider"
    and fresh: "fresh g (newPieceID t b k (rq_now rq 1))"
    and put: "putErasureCoded cfg ms rq t b k backendName provider policy g = (rs, g')"
  shows "inv g'"
proof -
  let ?v = "newPieceID t b k (rq_now rq 1)"
  have "g' = g \<or> (\<exists>encoder body shards r g1 encCfg n. Encode encoder body = Inr shards
      \<and> put_shards cfg rq backendName provider ?v shards [] g = (r, g1)
      \<and> (g' = g1 \<or> (\<exists>ps. r = Some ps \<and>
            (let m0 = new_manifest rq t b k ?v n (int (enc_shardSize encoder)) [] encCfg policy ps backendName in
             g' = rollbackEC cfg backendName (map p_PieceID ps) g1
             \<or> (\<exists>m g2. commit_manifest cfg ms rq t b k m0 g1 = Inr (m, g2) \<and> inv g' = inv g2)))))"
    using put unfolding putErasureCoded_def Let_def
    by (auto split: option.splits sum.splits if_splits prod.splits) (metis gw_inv_events)+
  then consider "g' = g"
    | encoder body shards r g1 where "Encode encoder body = Inr shards" "put_shards cfg rq backendName provider ?v shards [] g = (r, g1)" "g' = g1"
    | encoder body shards ps g1 where "Encode encoder body = Inr shards" "put_shards cfg rq backendName provider ?v shards [] g = (Some ps, g1)"
        "g' = rollbackEC cfg backendName (map p_PieceID ps) g1"
    | encoder body shards ps g1 encCfg n m g2 where "Encode encoder body = Inr shards"
        "put_shards cfg rq backendName provider ?v shards [] g = (Some ps, g1)"
        "commit_manifest cfg ms rq t b k (new_manifest rq t b k ?v n (int (enc_shardSize encoder)) [] encCfg policy ps backendName) g1 = Inr (m, g2)"
        "inv g' = inv g2"
    unfolding Let_def by blast
  then show ?thesis
  proof cases
    case 1
    then show ?thesis using inv by simp
  next
    case 2
    then show ?thesis
      using put_shards_state [OF inv prov fresh _ _ 2(2)] shard_ids_distinct [OF 2(1)] by simp
  next
    case 3
    note st = put_shards_state [OF inv prov fresh _ _ 3(2)]
    have st': "inv g1" "gw_Manifests g1 = gw_Manifests g" "gw_Index g1 = gw_Index g" "\<forall>p \<in> set ps. written backendName ?v g1 p"
      using st shard_ids_distinct [OF 3(1)] by simp_all
    show ?thesis
      unfolding 3(3) using st' fresh by (intro rollback_inv [OF st'(1), of ?v]) (auto simp: written_def)
  next
    case 4
    note st = put_shards_state [OF inv prov fresh _ _ 4(2)]
    have st': "inv g1" "gw_Manifests g1 = gw_Manifests g" "gw_Index g1 = gw_Index g" "\<forall>p \<in> set ps. written backendName ?v g1 p"
      using st shard_ids_distinct [OF 4(1)] by simp_all
    have "inv g2"
    proof (rule commit_owned [OF st'(1) 4(3)])
      show "ploc p \<notin> refd g1 \<and> provs (p_Backend p) \<noteq> None \<and> holds (cfg_blake3 cfg) (\<lambda>b. pieces (gw_World g1 b)) (ploc p) (p_Hash p)"
        if "p \<in> set (m_Pieces (new_manifest rq t b k ?v n (int (enc_shardSize encoder)) [] encCfg policy ps backendName))" for p
        using that st' prov fresh_unreferenced [OF fresh] by (fastforce simp: written_def ploc_def)
    qed (use fresh_key [OF fresh] st'(2) in simp_all)
    then show ?thesis
      using 4(4) by simp
  qed
qed

subsection \<open>PUT\<close>

lemma put_admission_ok:
  "put_admission cfg rq g = Inr (ms', t, b, k, backendName, provider, policy) \<Longrightarrow>
    ms' = ms \<and> provs backendName = Some provider \<and> parseBucketKey (rq_Path rq) = (b, k) \<and> authenticate cfg rq = Inr t"
  by (auto simp: put_admission_def cfg_ms cfg_provs split: sum.splits if_splits prod.splits option.splits)

lemma Put_inv:
  assumes inv: "inv g" and fresh: "\<And>t b k. authenticate cfg rq = Inr t \<Longrightarrow> parseBucketKey (rq_Path rq) = (b, k) \<Longrightarrow>
      fresh g (newPieceID t b k (rq_now rq 1)) \<and> fresh g (newPieceID t b k (rq_now rq 5))"
    and put: "Put cfg rq g = (rs, g')"
  shows "inv g'"
proof (cases "put_admission cfg rq g")
  case (Inl resp)
  then show ?thesis
    using put inv by (simp add: Put_def)
next
  case (Inr a)
  obtain ms' t b k backendName provider policy where a: "a = (ms', t, b, k, backendName, provider, policy)"
    by (cases a)
  have ok: "ms' = ms" "provs backendName = Some provider"
    and fr: "fresh g (newPieceID t b k (rq_now rq 1))" "fresh g (newPieceID t b k (rq_now rq 5))"
    using put_admission_ok [OF Inr [unfolded a]] fresh by blast+
  have "putErasureCoded cfg ms rq t b k backendName provider policy g = (rs, g')
      \<or> putDeduped cfg ms ci rq t b k backendName provider policy g = (rs, g')
      \<or> putSinglePiece cfg ms rq t b k backendName provider policy g = (rs, g')"
    using put Inr a ok(1) cfg_ci by (auto simp: Put_def split: if_splits)
  then show ?thesis
    using putErasureCoded_inv [OF inv ok(2) fr(1)] putDeduped_inv [OF inv ok(2) fr] putSinglePiece_inv [OF inv ok(2) fr(1)] by blast
qed

subsection \<open>DELETE\<close>

lemma deletePieces_inv:
  "inv g \<Longrightarrow> mlocs m \<inter> refd g = {} \<Longrightarrow> inv (deletePiecesBestEffort cfg m g)"
  using fold_gw_delete_inv [of g "m_Pieces m" p_Backend p_PieceID]
  by (auto simp: deletePiecesBestEffort_def mlocs_def ploc_def)

lemma reclaim_inv:
  assumes inv: "inv g" and k: "versions (gw_Manifests g) k = Some m" "k_TenantID k = t"
    and s: "minv s" "versions s = (versions (gw_Manifests g))(k := None)"
    and rec: "reclaim cfg t b m (g\<lparr>gw_Manifests := s\<rparr>) = (r, g')"
  shows "inv g'"
proof -
  let ?g = "g\<lparr>gw_Manifests := s\<rparr>" and ?V = "versions (gw_Manifests g)" and ?E = "entries (gw_Index g)"
  note fab = inv_stores(3) [OF inv]
  have inv0: "inv ?g"
    using inv s inv_drop_version [OF fab] by (simp add: gw_inv_def)
  show ?thesis
  proof (cases "m_ContentHash m = []")
    case True
    then have "mlocs m \<inter> refd ?g = {}"
      using owned_released [of _ _ ?V, OF fab k(1)] s(2) by auto
    then show ?thesis
      using rec True deletePieces_inv [OF inv0] by (auto simp: reclaim_def)
  next
    case False
    let ?c = "ckey t (m_ContentHash m)"
    obtain e p where e: "?E ?c = Some e" "m_Pieces m = [p]" "ploc p = eloc e"
      using fabric_invD(4) [OF fab k(1) False] k(2) by (auto simp: points_at_def)
    show ?thesis
    proof (cases "ci_DecrementRef ci t (m_ContentHash m) (gw_Index g)")
      case (Inl err)
      then have "err \<noteq> CINotFound"
        using C.decrement_missing [OF inv_stores(2) [OF inv]] e(1) by auto
      then show ?thesis
        using rec False Inl cfg_ci inv0 by (auto simp: reclaim_def split: ci_error.splits)
    next
      case (Inr x)
      obtain n idx where x: "x = (n, idx)"
        by (cases x)
      have idx: "cinv idx" "n = ce_RefCount e - 1" "entries idx = ?E(?c \<mapsto> bump (- 1) e)"
        using C.decrement_ok [OF inv_stores(2) [OF inv] Inr [unfolded x]] e(1) by auto
      have card: "int (card (refs (?V(k := None)) ?c)) \<le> n"
        using fabric_invD(3) [OF fab e(1)] card_refs_drop [of ?V, OF fabric_invD(1) [OF fab] k(1)] k(2) idx(2) by (simp add: row_ok_def)
      have fab1: "fabric_inv (cfg_blake3 cfg) (\<lambda>b. provs b \<noteq> None) (?V(k := None)) (?E(?c \<mapsto> bump (- 1) e)) (\<lambda>b. pieces (gw_World g b))"
        using card idx(2) by (intro inv_recount [OF inv_drop_version [OF fab] e(1)]) (simp_all add: bump_def eloc_def)
      have hash: "ck_ContentHash c \<noteq> []" if "entries idx c \<noteq> None" for c
        using that idx(3) e(1) inv_stores(4) [OF inv, of c] inv_stores(4) [OF inv, of ?c] by (auto split: if_splits)
      have inv1: "inv (?g\<lparr>gw_Index := idx\<rparr>)"
        using fab1 idx hash s(2) by (intro inv_index [OF inv0]) auto
      show ?thesis
      proof (cases "\<exists>idx'. n = 0 \<and> ci_Delete ci t (m_ContentHash m) idx = Inr idx'")
        case False
        then show ?thesis
          using rec \<open>m_ContentHash m \<noteq> []\<close> cfg_ci Inr x inv1 by (auto simp: reclaim_def Let_def split: if_splits sum.splits ci_error.splits)
      next
        case True
        then obtain idx' where d: "n = 0" "ci_Delete ci t (m_ContentHash m) idx = Inr idx'"
          by blast
        have E': "cinv idx'" "entries idx' = ?E(?c := None)"
          using C.delete_ok [OF idx(1) d(2)] idx(3) by auto
        have none: "refs (?V(k := None)) ?c = {}"
          using card d(1) refs_finite [of "?V(k := None)" ?c] fabric_invD(1) [OF fab] by simp
        have "inv (?g\<lparr>gw_Index := idx'\<rparr>)"
          using E' s(2) inv_drop_row [OF inv_drop_version [OF fab] none] inv_stores(4) [OF inv]
          by (intro inv_index [OF inv0]) (auto split: if_splits)
        moreover have "mlocs m \<inter> refd (?g\<lparr>gw_Index := idx'\<rparr>) = {}"
          using row_released [of _ _ "?V(k := None)", OF inv_drop_version [OF fab] e(1) none] e(2,3) E'(2) s(2) by (simp add: mlocs_def)
        ultimately show ?thesis
          using deletePieces_inv [of "?g\<lparr>gw_Index := idx'\<rparr>" m] rec \<open>m_ContentHash m \<noteq> []\<close> cfg_ci Inr x d by (auto simp: reclaim_def Let_def)
      qed
    qed
  qed
qed

lemma get_key:
  assumes "inv g" "op_Get ms (object_key t b k v) (gw_Manifests g) = Inr m"
  shows "versions (gw_Manifests g) (object_key t b k (m_VersionID m)) = Some m" "m_VersionID m \<noteq> []"
proof -
  obtain k' where k': "resolve_key (current (gw_Manifests g)) (object_key t b k v) = Some k'" "versions (gw_Manifests g) k' = Some m"
    using M.get_law [OF inv_stores(1) [OF assms(1)] assms(2)] by blast
  have wf: "version_wf k' m"
    using fabric_invD(2) [OF inv_stores(3) [OF assms(1)] k'(2)] by (simp add: version_ok_def)
  have "lk_of k' = lk_of (object_key t b k v)"
    using k'(1) M.current_law [OF inv_stores(1) [OF assms(1)]] by (auto simp: resolve_key_def split: if_splits)
  then have "k' = object_key t b k (m_VersionID m)"
    using wf by (auto simp: version_wf_def lk_of_def object_key_def)
  then show "versions (gw_Manifests g) (object_key t b k (m_VersionID m)) = Some m" "m_VersionID m \<noteq> []"
    using k'(2) wf by (simp_all add: version_wf_def)
qed

lemma deleteVersion_cases:
  assumes inv: "inv g" and del: "deleteVersion cfg ms rq t b k g = (rs, g')"
  obtains "g' = g"
  | m s r g1 where "versions (gw_Manifests g) (object_key t b k (m_VersionID m)) = Some m"
      "\<not> objectLockBlocksDelete m (rq_now rq 0) (governanceBypassRequested rq)"
      "minv s" "versions s = (versions (gw_Manifests g))(object_key t b k (m_VersionID m) := None)"
      "reclaim cfg t b m (g\<lparr>gw_Manifests := s\<rparr>) = (r, g1)" "gw_Manifests g' = gw_Manifests g1" "inv g' = inv g1"
proof (cases "op_Get ms (object_key t b k (versionId rq)) (gw_Manifests g)")
  case (Inl e)
  then show ?thesis
    using del that(1) by (auto simp: deleteVersion_def split: store_error.splits)
next
  case (Inr m)
  note key = get_key [OF inv Inr]
  let ?k = "object_key t b k (m_VersionID m)"
  have res: "resolve_key (current (gw_Manifests g)) ?k = Some ?k"
    using key(2) by (simp add: resolve_key_def)
  have nf: "op_Delete ms ?k (gw_Manifests g) \<noteq> Inl ErrNotFound"
    using M.delete_missing_law [OF inv_stores(1) [OF inv] _ res] key(1) by auto
  show ?thesis
  proof (cases "op_Delete ms ?k (gw_Manifests g)")
    case (Inl e)
    then show ?thesis
      using del Inr nf that(1) by (auto simp: deleteVersion_def split: if_splits store_error.splits)
  next
    case s: (Inr s)
    obtain r g1 where rec: "reclaim cfg t b m (g\<lparr>gw_Manifests := s\<rparr>) = (r, g1)"
      by fastforce
    show ?thesis
    proof (cases "objectLockBlocksDelete m (rq_now rq 0) (governanceBypassRequested rq)")
      case True
      then show ?thesis
        using del Inr that(1) by (simp add: deleteVersion_def)
    next
      case False
      have "gw_Manifests g' = gw_Manifests g1 \<and> inv g' = inv g1"
        using del Inr s rec False by (auto simp: deleteVersion_def Let_def split: sum.splits list.splits)
      then show ?thesis
        using that(2) [OF key(1) False _ _ rec] M.delete_law [OF inv_stores(1) [OF inv] s] res by auto
    qed
  qed
qed

lemma insertDeleteMarker_cases:
  assumes "insertDeleteMarker cfg ms rq t b k g = (rs, g')"
  obtains "g' = g"
  | m s where "version_wf (object_key t b k (newPieceID t b k (rq_now rq 1))) m" "m_ContentHash m = []" "m_Pieces m = []"
      "op_Put ms (object_key t b k (newPieceID t b k (rq_now rq 1))) m (gw_Manifests g) = Inr s"
      "gw_Manifests g' = s" "inv g' = inv (g\<lparr>gw_Manifests := s\<rparr>)"
proof -
  let ?v = "newPieceID t b k (rq_now rq 1)"
  let ?m = "zero_ObjectManifest\<lparr>m_TenantID := t, m_Bucket := b, m_ObjectKey := k, m_ObjectKeyHash := hashObjectKey k,
      m_VersionID := ?v, m_DeleteMarker := True, m_CreatedAt := rq_now rq 2\<rparr>"
  show ?thesis
  proof (cases "op_Put ms (object_key t b k ?v) ?m (gw_Manifests g)")
    case (Inl e)
    then show ?thesis
      using assms that(1) by (simp add: insertDeleteMarker_def Let_def)
  next
    case (Inr s)
    then have "gw_Manifests g' = s \<and> inv g' = inv (g\<lparr>gw_Manifests := s\<rparr>)"
      using assms by (auto simp: insertDeleteMarker_def Let_def)
    then show ?thesis
      using that(2) [OF _ _ _ Inr] by (simp add: version_wf_def zero_ObjectManifest_def)
  qed
qed

lemma insertDeleteMarker_inv:
  assumes inv: "inv g" and fresh: "fresh g (newPieceID t b k (rq_now rq 1))"
    and ins: "insertDeleteMarker cfg ms rq t b k g = (rs, g')"
  shows "inv g'"
proof (rule insertDeleteMarker_cases [OF ins])
  fix m s
  assume m: "version_wf (object_key t b k (newPieceID t b k (rq_now rq 1))) m" "m_ContentHash m = []" "m_Pieces m = []"
    and put: "op_Put ms (object_key t b k (newPieceID t b k (rq_now rq 1))) m (gw_Manifests g) = Inr s"
    and g': "inv g' = inv (g\<lparr>gw_Manifests := s\<rparr>)"
  show "inv g'"
    unfolding g' using m inv_stores(4) [OF inv]
    by (intro inv_put_manifest [OF inv put] inv_add_owned [OF inv_stores(3) [OF inv] fresh_key [OF fresh]]) simp_all
qed (use inv in simp)

lemma Delete_inv:
  assumes inv: "inv g" and fresh: "\<And>t b k. authenticate cfg rq = Inr t \<Longrightarrow> parseBucketKey (rq_Path rq) = (b, k) \<Longrightarrow>
      fresh g (newPieceID t b k (rq_now rq 1))"
    and del: "Delete cfg rq g = (rs, g')"
  shows "inv g'"
proof -
  obtain b k where bk: "parseBucketKey (rq_Path rq) = (b, k)"
    by fastforce
  consider "g' = g" | t where "authenticate cfg rq = Inr t" "insertDeleteMarker cfg ms rq t b k g = (rs, g')"
    | t where "deleteVersion cfg ms rq t b k g = (rs, g')"
    using del bk by (auto simp: Delete_def cfg_ms split: sum.splits if_splits)
  then show ?thesis
  proof cases
    case 2
    then show ?thesis
      using insertDeleteMarker_inv [OF inv fresh [OF 2(1) bk]] by blast
  next
    case 3
    show ?thesis
      by (rule deleteVersion_cases [OF inv 3]) (use inv reclaim_inv [OF inv] in auto)
  qed (use inv in simp)
qed

end

end
