(* ===== verification/S3_History.thy ===== *)
theory S3_History
  imports S3_Safety
begin

text \<open>
  Histories of the S3 handlers: any sequence of PUT, DELETE, retention and
  legal-hold requests, each handled to its end.  Along every history the stored
  versions keep their bytes, and a version under compliance retention stays until
  its date.  The in-memory stores over the filesystem provider are an instance.
\<close>

section \<open>Requests and histories\<close>

datatype s3_op =
    OpPut Request
  | OpDelete Request
  | OpRetention "(string \<times> gotime option) option" Request
  | OpLegalHold "string option" Request

fun s3_request :: "s3_op \<Rightarrow> Request" where
  "s3_request (OpPut rq) = rq"
| "s3_request (OpDelete rq) = rq"
| "s3_request (OpRetention doc rq) = rq"
| "s3_request (OpLegalHold doc rq) = rq"

fun s3_handle :: "('m, 'i, 'p, 'b) Config \<Rightarrow> s3_op \<Rightarrow> ('m, 'i, 'p, 'b) Gateway \<Rightarrow> Response \<times> ('m, 'i, 'p, 'b) Gateway" where
  "s3_handle cfg (OpPut rq) g = Put cfg rq g"
| "s3_handle cfg (OpDelete rq) g = Delete cfg rq g"
| "s3_handle cfg (OpRetention doc rq) g = PutObjectRetention cfg doc rq g"
| "s3_handle cfg (OpLegalHold doc rq) g = PutObjectLegalHold cfg doc rq g"

text \<open>
  The identifiers a request draws, a digest of the object's name and the clock, are not in use.
\<close>

definition fresh_request :: "('m \<Rightarrow> version_map) \<Rightarrow> ('i \<Rightarrow> row_map) \<Rightarrow> ('m, 'i, 'p, 'b) Config \<Rightarrow> Request
    \<Rightarrow> ('m, 'i, 'p, 'b) Gateway \<Rightarrow> bool" where
  "fresh_request versions entries cfg rq g \<longleftrightarrow>
    (\<forall>t b k n. authenticate cfg rq = Inr t \<and> parseBucketKey (rq_Path rq) = (b, k) \<and> n \<in> {1, 5} \<longrightarrow>
      fresh_id (versions (gw_Manifests g)) (entries (gw_Index g)) (newPieceID t b k (rq_now rq n)))"

text \<open>A history from a state: the states it ends in, with no request later than \<open>T\<close>.\<close>

inductive s3_history :: "('m \<Rightarrow> version_map) \<Rightarrow> ('i \<Rightarrow> row_map) \<Rightarrow> ('m, 'i, 'p, 'b) Config \<Rightarrow> gotime
    \<Rightarrow> ('m, 'i, 'p, 'b) Gateway \<Rightarrow> ('m, 'i, 'p, 'b) Gateway \<Rightarrow> bool"
  for versions entries cfg T g0 where
  start: "s3_history versions entries cfg T g0 g0"
| request: "s3_history versions entries cfg T g0 g'"
    if "s3_history versions entries cfg T g0 g" "fresh_request versions entries cfg (s3_request op) g"
       "rq_now (s3_request op) 0 < T" "s3_handle cfg op g = (rs, g')"

section \<open>What the handlers do to the stored versions\<close>

context s3_gateway
begin

text \<open>A handler adds a version under a fresh key, removes an unlocked one, changes its lock, or leaves all as they are.\<close>

definition adds :: "string \<Rightarrow> string \<Rightarrow> string \<Rightarrow> string \<Rightarrow> ('m, 'i, 'p, 'b) Gateway \<Rightarrow> ('m, 'i, 'p, 'b) Gateway \<Rightarrow> bool" where
  "adds t b k v g g' \<longleftrightarrow> gw_Manifests g' = gw_Manifests g
    \<or> (\<exists>m. op_Put ms (object_key t b k v) m (gw_Manifests g) = Inr (gw_Manifests g'))"

lemma adds_same: "gw_Manifests g' = gw_Manifests g \<Longrightarrow> adds t b k v g g'"
  by (simp add: adds_def)

lemma commit_adds:
  "commit_manifest cfg ms rq t b k m0 g1 = Inr (m, g2) \<Longrightarrow> gw_Manifests g1 = gw_Manifests g \<Longrightarrow> gw_Manifests g' = gw_Manifests g2
    \<Longrightarrow> m_VersionID m0 = v \<Longrightarrow> adds t b k v g g'"
  by (erule commit_cases) (auto simp: adds_def)

lemmas adds_intros = adds_same commit_adds

lemma putSinglePiece_adds:
  assumes "putSinglePiece cfg ms rq t b k backendName provider policy g = (rs, g')"
  shows "adds t b k (newPieceID t b k (rq_now rq 1)) g g'"
  using assms by (auto simp: putSinglePiece_def Let_def dest!: gw_put_simps split: sum.splits if_splits prod.splits intro: adds_intros)

lemma dedup_piece_manifests:
  assumes "dedup_piece cfg ci rq t b k backendName provider res g = (r, g')"
  shows "gw_Manifests g' = gw_Manifests g"
  using assms
  by (auto simp: dedup_piece_def Let_def gw_decrement_def dest!: gw_put_simps split: option.splits sum.splits prod.splits bool.splits)

lemma putDeduped_adds:
  assumes "putDeduped cfg ms ci rq t b k backendName provider policy g = (rs, g')"
  shows "adds t b k (newPieceID t b k (rq_now rq 5)) g g'"
  using assms
  by (auto simp: putDeduped_def Let_def gw_decrement_def dest!: dedup_piece_manifests split: sum.splits if_splits prod.splits intro: adds_intros)

lemma put_shards_manifests:
  "put_shards cfg rq backend provider v shs ps g = (r, g') \<Longrightarrow> gw_Manifests g' = gw_Manifests g"
  by (induction shs arbitrary: ps g) (auto simp: rollbackEC_def dest!: gw_put_simps split: sum.splits prod.splits)

lemma putErasureCoded_adds:
  assumes "putErasureCoded cfg ms rq t b k backendName provider policy g = (rs, g')"
  shows "adds t b k (newPieceID t b k (rq_now rq 1)) g g'"
  using assms
  by (auto simp: putErasureCoded_def Let_def rollbackEC_def dest!: put_shards_manifests
      split: option.splits sum.splits if_splits prod.splits intro: adds_intros)

lemma Put_adds:
  assumes "Put cfg rq g = (rs, g')"
  shows "gw_Manifests g' = gw_Manifests g \<or> (\<exists>t b k n. authenticate cfg rq = Inr t \<and> parseBucketKey (rq_Path rq) = (b, k)
    \<and> n \<in> {1, 5} \<and> adds t b k (newPieceID t b k (rq_now rq n)) g g')"
proof (cases "put_admission cfg rq g")
  case (Inl resp)
  then show ?thesis
    using assms by (simp add: Put_def)
next
  case (Inr a)
  obtain ms' t b k backendName provider policy where a: "a = (ms', t, b, k, backendName, provider, policy)"
    by (cases a)
  have ok: "ms' = ms" "authenticate cfg rq = Inr t" "parseBucketKey (rq_Path rq) = (b, k)"
    using put_admission_ok [OF Inr [unfolded a]] by simp_all
  have "putErasureCoded cfg ms rq t b k backendName provider policy g = (rs, g')
      \<or> putDeduped cfg ms ci rq t b k backendName provider policy g = (rs, g')
      \<or> putSinglePiece cfg ms rq t b k backendName provider policy g = (rs, g')"
    using assms Inr a ok(1) cfg_ci by (auto simp: Put_def split: if_splits)
  then have "\<exists>n \<in> {1, 5}. adds t b k (newPieceID t b k (rq_now rq n)) g g'"
    using putErasureCoded_adds putDeduped_adds putSinglePiece_adds by (elim disjE) auto
  then show ?thesis
    using ok(2,3) by (intro disjI2) blast
qed

text \<open>What the two lock handlers do: a version stays what it is but for its lock.\<close>

lemma loadObjectVersion_key:
  assumes "inv g" "loadObjectVersion ms rq t b k (gw_Manifests g) = Inr (m, mk)"
  shows "versions (gw_Manifests g) mk = Some m"
  using assms(2) get_key(1) [OF assms(1)] by (auto simp: loadObjectVersion_def split: sum.splits if_splits)

lemma update_version_cases:
  assumes inv: "inv g" and mk: "versions (gw_Manifests g) mk = Some m" and same: "same_version m m'"
    and up: "update_version ms mk m' g = (rs, g')"
  shows "inv g' \<and> (versions (gw_Manifests g') = versions (gw_Manifests g)
    \<or> versions (gw_Manifests g') = (versions (gw_Manifests g))(mk \<mapsto> m'))"
proof (cases "op_UpdateManifest ms mk m' (gw_Manifests g)")
  case (Inl e)
  then show ?thesis
    using up inv by (auto simp: update_version_def)
next
  case (Inr s)
  note law = M.update_law [OF inv_stores(1) [OF inv] Inr]
  have "g' = g\<lparr>gw_Manifests := s\<rparr>"
    using up Inr by (simp add: update_version_def)
  then show ?thesis
    using law inv inv_amend [of _ _ "versions (gw_Manifests g)", OF inv_stores(3) [OF inv] mk same] by (simp add: gw_inv_def)
qed

lemma authObjectLock_ms: "authObjectLock cfg rq g = Inr (ms', t, b, k) \<Longrightarrow> ms' = ms"
  by (auto simp: authObjectLock_def cfg_ms split: sum.splits prod.splits if_splits)

lemma PutObjectRetention_cases:
  assumes inv: "inv g" and put: "PutObjectRetention cfg doc rq g = (rs, g')"
  obtains "g' = g"
  | mk m r where "inv g'" "versions (gw_Manifests g) mk = Some m"
      "retentionChangeAllowed (manifestRetention m) r (rq_now rq 0) (governanceBypassRequested rq)"
      "versions (gw_Manifests g') = versions (gw_Manifests g)
       \<or> versions (gw_Manifests g') = (versions (gw_Manifests g))(mk \<mapsto> m\<lparr>m_RetentionMode := rt_Mode r, m_RetainUntil := rt_RetainUntil r\<rparr>)"
proof (cases "g' = g")
  case False
  obtain ms' t b k mode until m mk where c: "authObjectLock cfg rq g = Inr (ms', t, b, k)" "doc = Some (mode, Some until)"
      "loadObjectVersion ms' rq t b k (gw_Manifests g) = Inr (m, mk)"
      "retentionChangeAllowed (manifestRetention m) \<lparr>rt_Mode = mode, rt_RetainUntil = until\<rparr> (rq_now rq 0) (governanceBypassRequested rq)"
      "update_version ms' mk (m\<lparr>m_RetentionMode := mode, m_RetainUntil := until\<rparr>) g = (rs, g')"
    using put False by (auto simp: PutObjectRetention_def Let_def split: sum.splits option.splits prod.splits if_splits)
  have ms': "ms' = ms"
    by (rule authObjectLock_ms [OF c(1)])
  note mk = loadObjectVersion_key [OF inv c(3) [unfolded ms']]
  have "same_version m (m\<lparr>m_RetentionMode := mode, m_RetainUntil := until\<rparr>)"
    by (simp add: same_version_def)
  from update_version_cases [OF inv mk this c(5) [unfolded ms']] that(2) [OF _ mk c(4)] show ?thesis
    by simp
qed (use that(1) in simp)

lemma PutObjectLegalHold_cases:
  assumes inv: "inv g" and put: "PutObjectLegalHold cfg doc rq g = (rs, g')"
  obtains "g' = g"
  | mk m h where "inv g'" "versions (gw_Manifests g) mk = Some m"
      "versions (gw_Manifests g') = versions (gw_Manifests g)
       \<or> versions (gw_Manifests g') = (versions (gw_Manifests g))(mk \<mapsto> m\<lparr>m_LegalHold := h\<rparr>)"
proof (cases "g' = g")
  case False
  obtain ms' t b k status m mk where c: "authObjectLock cfg rq g = Inr (ms', t, b, k)"
      "loadObjectVersion ms' rq t b k (gw_Manifests g) = Inr (m, mk)"
      "update_version ms' mk (m\<lparr>m_LegalHold := (status = LegalHoldOn)\<rparr>) g = (rs, g')"
    using put False by (auto simp: PutObjectLegalHold_def split: sum.splits option.splits prod.splits if_splits)
  have ms': "ms' = ms"
    by (rule authObjectLock_ms [OF c(1)])
  note mk = loadObjectVersion_key [OF inv c(2) [unfolded ms']]
  have "same_version m (m\<lparr>m_LegalHold := (status = LegalHoldOn)\<rparr>)"
    by (simp add: same_version_def)
  from update_version_cases [OF inv mk this c(3) [unfolded ms']] that(2) [OF _ mk] show ?thesis
    by blast
qed (use that(1) in simp)

text \<open>One request keeps the invariant, and a version retained in compliance mode with its pieces.\<close>

lemma s3_handle_inv:
  assumes inv: "inv g" and fresh: "fresh_request versions entries cfg (s3_request op) g" and h: "s3_handle cfg op g = (rs, g')"
  shows "inv g'"
proof (cases op)
  case (OpPut rq)
  then show ?thesis
    using Put_inv [OF inv _, of rq rs g'] fresh h by (auto simp: fresh_request_def)
next
  case (OpDelete rq)
  then show ?thesis
    using Delete_inv [OF inv _, of rq rs g'] fresh h by (auto simp: fresh_request_def)
next
  case (OpRetention doc rq)
  then show ?thesis
    using PutObjectRetention_cases [OF inv, of doc rq rs g'] h inv by (metis s3_handle.simps(3))
next
  case (OpLegalHold doc rq)
  then show ?thesis
    using PutObjectLegalHold_cases [OF inv, of doc rq rs g'] h inv by (metis s3_handle.simps(4))
qed

lemma reclaim_manifests: "reclaim cfg t b m g = (r, g') \<Longrightarrow> gw_Manifests g' = gw_Manifests g"
  by (auto simp: reclaim_def deletePiecesBestEffort_def Let_def split: option.splits sum.splits if_splits ci_error.splits)

lemma Delete_keeps:
  assumes inv: "inv g" and fresh: "fresh_request versions entries cfg rq g" and del: "Delete cfg rq g = (rs, g')"
    and j: "versions (gw_Manifests g) j = Some m" "objectLockBlocksDelete m (rq_now rq 0) (governanceBypassRequested rq)"
  shows "versions (gw_Manifests g') j = Some m"
proof -
  obtain b k where bk: "parseBucketKey (rq_Path rq) = (b, k)"
    by fastforce
  consider "g' = g" | t where "authenticate cfg rq = Inr t" "insertDeleteMarker cfg ms rq t b k g = (rs, g')"
    | t where "deleteVersion cfg ms rq t b k g = (rs, g')"
    using del bk by (auto simp: Delete_def cfg_ms split: sum.splits if_splits)
  then show ?thesis
  proof cases
    case 2
    then have fr: "fresh g (newPieceID t b k (rq_now rq 1))"
      using fresh bk by (simp add: fresh_request_def)
    show ?thesis
      by (rule insertDeleteMarker_cases [OF 2(2)])
        (use j(1) M.put_law [OF inv_stores(1) [OF inv]] fresh_key [OF fr, of "object_key t b k (newPieceID t b k (rq_now rq 1))"] in \<open>auto\<close>)
  next
    case 3
    show ?thesis
    proof (rule deleteVersion_cases [OF inv 3])
      fix m' s r g1
      assume d: "versions (gw_Manifests g) (object_key t b k (m_VersionID m')) = Some m'"
        "\<not> objectLockBlocksDelete m' (rq_now rq 0) (governanceBypassRequested rq)"
        "versions s = (versions (gw_Manifests g))(object_key t b k (m_VersionID m') := None)"
        "reclaim cfg t b m' (g\<lparr>gw_Manifests := s\<rparr>) = (r, g1)" "gw_Manifests g' = gw_Manifests g1"
      then show ?thesis
        using j reclaim_manifests [OF d(4)] by auto
    qed (use j in simp)
  qed (use j in simp)
qed

lemma Put_keeps:
  assumes inv: "inv g" and fresh: "fresh_request versions entries cfg rq g" and put: "Put cfg rq g = (rs, g')"
    and j: "versions (gw_Manifests g) j = Some m"
  shows "versions (gw_Manifests g') j = Some m"
proof (cases "gw_Manifests g' = gw_Manifests g")
  case False
  then obtain t b k n m' where n: "authenticate cfg rq = Inr t" "parseBucketKey (rq_Path rq) = (b, k)" "n \<in> {1, 5}"
      "op_Put ms (object_key t b k (newPieceID t b k (rq_now rq n))) m' (gw_Manifests g) = Inr (gw_Manifests g')"
    using Put_adds [OF put] unfolding adds_def by blast
  have "fresh g (newPieceID t b k (rq_now rq n))"
    using fresh n(1,2,3) unfolding fresh_request_def by blast
  then have "versions (gw_Manifests g) (object_key t b k (newPieceID t b k (rq_now rq n))) = None"
    by (rule fresh_key) simp
  then show ?thesis
    using M.put_law [OF inv_stores(1) [OF inv] n(4)] j by auto
qed (use j in simp)

definition kept :: "gotime \<Rightarrow> ManifestKey \<Rightarrow> Piece list \<Rightarrow> ('m, 'i, 'p, 'b) Gateway \<Rightarrow> bool" where
  "kept T j ps g \<longleftrightarrow> (\<exists>m. versions (gw_Manifests g) j = Some m \<and> m_Pieces m = ps \<and> compliance_until T m)"

lemma s3_handle_kept:
  assumes inv: "inv g" and fresh: "fresh_request versions entries cfg (s3_request op) g" and h: "s3_handle cfg op g = (rs, g')"
    and now: "rq_now (s3_request op) 0 < T" and k: "kept T j ps g"
  shows "kept T j ps g'"
proof -
  obtain m where m: "versions (gw_Manifests g) j = Some m" "m_Pieces m = ps" "compliance_until T m"
    using k by (auto simp: kept_def)
  show ?thesis
  proof (cases op)
    case (OpPut rq)
    then show ?thesis
      using Put_keeps [OF inv _ _ m(1), of rq rs g'] fresh h m by (auto simp: kept_def)
  next
    case (OpDelete rq)
    then show ?thesis
      using Delete_keeps [OF inv _ _ m(1), of rq rs g'] compliance_blocks_delete [OF m(3)] now fresh h m by (auto simp: kept_def)
  next
    case (OpRetention doc rq)
    then have "PutObjectRetention cfg doc rq g = (rs, g')"
      using h by simp
    then show ?thesis
      by (rule PutObjectRetention_cases [OF inv])
        (use k m now OpRetention compliance_change_keeps [OF m(3)] in \<open>auto simp: kept_def\<close>)
  next
    case (OpLegalHold doc rq)
    then have "PutObjectLegalHold cfg doc rq g = (rs, g')"
      using h by simp
    then show ?thesis
      by (rule PutObjectLegalHold_cases [OF inv]) (use k m in \<open>auto simp: kept_def compliance_until_def\<close>)
  qed
qed

lemma history_inv: "s3_history versions entries cfg T g0 g \<Longrightarrow> inv g0 \<Longrightarrow> inv g"
  by (induction rule: s3_history.induct) (auto intro: s3_handle_inv)

lemma history_kept: "s3_history versions entries cfg T g0 g \<Longrightarrow> inv g0 \<Longrightarrow> kept T j ps g0 \<Longrightarrow> kept T j ps g"
  by (induction rule: s3_history.induct) (auto intro: s3_handle_kept history_inv)

end

section \<open>The in-memory stores over the filesystem provider\<close>

definition mem_config :: "string list \<Rightarrow> (MemStore, CIStore, LocalFS, 'b) Config \<Rightarrow> (MemStore, CIStore, LocalFS, 'b) Config" where
  "mem_config names base = base\<lparr>cfg_Manifests := Some mem_ops, cfg_ContentIndex := Some ci_ops, cfg_Providers := local_backends names\<rparr>"

interpretation mem_s3: s3_gateway ci_ops ci_inv gm_get mem_ops mem_inv mem_versions mem_current
    "local_backends names" local_inv local_pieces "mem_config names base" for names base
  by (rule s3_gateway.intro [OF mem_gc.orphan_gc_axioms], rule s3_gateway_axioms.intro) (simp_all add: mem_config_def)

definition empty_gateway :: "'b \<Rightarrow> (MemStore, CIStore, LocalFS, 'b) Gateway" where
  "empty_gateway b = \<lparr>gw_Manifests = NewMemStore, gw_Index = [], gw_World = (\<lambda>_. empty_fs), gw_Buckets = b, gw_Events = []\<rparr>"

lemma empty_gateway_inv: "gw_inv mem_inv ci_inv gm_get mem_versions provs local_inv local_pieces blake3 (empty_gateway b)"
proof -
  have "mem_versions NewMemStore = Map.empty"
    by (rule ext) (simp add: mem_versions_def NewMemStore_def store_simps)
  moreover have "(gm_get [] :: row_map) = Map.empty"
    by (rule ext) (simp add: gm_get_def)
  moreover have "local_inv empty_fs"
    by (simp add: local_inv_def empty_fs_def store_simps)
  moreover have "ci_inv []"
    by (simp add: ci_inv_def gm_wf_def gm_get_def)
  ultimately show ?thesis
    by (simp add: gw_inv_def empty_gateway_def mem_inv_New world_ok_def fabric_inv_empty)
qed

section \<open>The properties\<close>

lemma Verify_content_hash: "p_Hash p = content_hash blake3 d \<Longrightarrow> Verify blake3 d p = Inr ()"
  by (simp add: Verify_def content_hash_def formatContentHash_def has_prefix_def)

lemma Verify_holds:
  "holds blake3 P (ploc p) (p_Hash p) \<Longrightarrow> \<exists>d. P (p_Backend p) (p_PieceID p) = Some d \<and> Verify blake3 d p = Inr ()"
  using Verify_content_hash [of p blake3] by (fastforce simp: holds_def ploc_def)

text \<open>
  C1: no history of requests loses a byte.  Whatever PUT, DELETE, retention and
  legal-hold requests a gateway handles, each piece of each version it then has is on
  a registered backend, and its bytes pass the integrity check of a read.  The
  stores and providers are any that keep their contracts, and each request draws
  identifiers that are not in use.
\<close>

theorem history_keeps_bytes:
  assumes "s3_gateway ci cinv entries ms minv versions current provs pinv pieces cfg"
    and "gw_inv minv cinv entries versions provs pinv pieces (cfg_blake3 cfg) g0"
    and "s3_history versions entries cfg T g0 g"
    and "versions (gw_Manifests g) k = Some m" "p \<in> set (m_Pieces m)"
  shows "provs (p_Backend p) \<noteq> None
    \<and> (\<exists>d. pieces (gw_World g (p_Backend p)) (p_PieceID p) = Some d \<and> Verify (cfg_blake3 cfg) d p = Inr ())"
proof -
  have "gw_inv minv cinv entries versions provs pinv pieces (cfg_blake3 cfg) g"
    using s3_gateway.history_inv [OF assms(1,3,2)] .
  then have "version_ok (cfg_blake3 cfg) (\<lambda>b. provs b \<noteq> None) (\<lambda>b. pieces (gw_World g b)) k m"
    using assms(4) by (auto simp: gw_inv_def dest: fabric_invD(2))
  then show ?thesis
    using assms(5) Verify_holds [of "cfg_blake3 cfg" "\<lambda>b. pieces (gw_World g b)" p] by (simp add: version_ok_def)
qed

definition demo_base :: "(MemStore, CIStore, LocalFS, BCStore) Config" where
  "demo_base = \<lparr>cfg_Manifests = None, cfg_Providers = (\<lambda>_. None),
     cfg_Placement = Some (\<lambda>t b k. Inr (''local'', zero_PlacementPolicy)), cfg_Auth = None, cfg_VerifiedCheck = None,
     cfg_Billing = True, cfg_Notifications = True, cfg_BucketConfig = None, cfg_ErasureCoding = None, cfg_Encryption = None,
     cfg_RequireAuth = False, cfg_ContentIndex = None, cfg_Residency = None, cfg_Audit = True, cfg_LegalHolds = None,
     cfg_Crypto = demo_crypto, cfg_blake3 = (\<lambda>d. d)\<rparr>"

abbreviation demo_config :: "(MemStore, CIStore, LocalFS, BCStore) Config" where
  "demo_config \<equiv> mem_config [''local''] demo_base"

lemma newPieceID_valid: "validatePieceID (newPieceID t b k now) = Inr ()"
proof -
  have d: "c \<in> set (newPieceID t b k now) \<Longrightarrow> is_hex_digit c" for c
    using newPieceID_digits [of t b k now] by (simp add: list_all_iff)
  have "CHR ''/'' \<notin> set (newPieceID t b k now)" "CHR 0x5C \<notin> set (newPieceID t b k now)" "CHR 0x00 \<notin> set (newPieceID t b k now)"
      "CHR ''.'' \<notin> set (newPieceID t b k now)"
    using d [of "CHR ''/''"] d [of "CHR 0x5C"] d [of "CHR 0x00"] d [of "CHR ''.''"] by (auto simp: is_hex_digit_def Let_def)
  then show ?thesis
    by (cases "newPieceID t b k now") (auto simp: validatePieceID_def has_prefix_def)
qed

lemma demo_config_simps [simp]:
  "cfg_Manifests demo_config = Some mem_ops" "cfg_Providers demo_config = local_backends [''local'']"
  "cfg_Placement demo_config = Some (\<lambda>t b k. Inr (''local'', zero_PlacementPolicy))" "cfg_Auth demo_config = None"
  "cfg_VerifiedCheck demo_config = None" "cfg_BucketConfig demo_config = None" "cfg_RequireAuth demo_config = False"
  "cfg_Residency demo_config = None" "cfg_LegalHolds demo_config = None" "cfg_Encryption demo_config = None"
  by (simp_all add: mem_config_def demo_base_def)

lemma demo_policy [simp]: "pp_EncryptionMode zero_PlacementPolicy = []" "pp_ErasureProfile zero_PlacementPolicy = []"
    "pp_DedupPolicy zero_PlacementPolicy = None" "zero_PlacementPolicy\<lparr>pp_EncryptionMode := []\<rparr> = zero_PlacementPolicy"
  by (simp_all add: zero_PlacementPolicy_def)

lemma demo_mem_put: "op_Put mem_ops k m NewMemStore = Inr s \<Longrightarrow> mem_versions s k = Some m"
  using mem.put_law [OF mem_inv_New] by simp

lemma demo_path: "parseBucketKey ''/b/k'' = (''b'', ''k'')"
  by code_simp

lemma demo_admission:
  "put_admission demo_config (demo_request ''/b/k'' d) (empty_gateway b) =
      Inr (mem_ops, AnonymousTenant, ''b'', ''k'', ''local'', local_provider, zero_PlacementPolicy)"
proof -
  have "parseObjectTaggingHeader [] = Inr []" "validateRequestObjectMetadata [] = Inr ()"
    by code_simp+
  then show ?thesis
    using demo_path
    by (simp add: put_admission_def authenticate_def HeaderGet_def gm_get_def allowObjectLockOverwrite_def local_backends_def
        effectiveEncryptionMode_def demo_request_def)
qed

lemma demo_put:
  fixes b :: BCStore
  defines "rq \<equiv> demo_request ''/b/k'' [1, 2, 3]" and "i \<equiv> newPieceID AnonymousTenant ''b'' ''k'' 0"
  obtains rs g m p where "Put demo_config rq (empty_gateway b) = (rs, g)" "rs_Status rs = 200"
    "mem_versions (gw_Manifests g) (object_key AnonymousTenant ''b'' ''k'' i) = Some m" "m_Pieces m = [p]" "p_PieceID p = i" "p_Backend p = ''local''"
proof -
  have rq: "rq_Header rq = []" "rq_Path rq = ''/b/k''" "rq_now rq = (\<lambda>_. 0)" "rq_Body rq = [1, 2, 3]" "rq_BodyErr rq = None" "rq_ContentLength rq = - 1"
    by (simp_all add: rq_def demo_request_def)
  note adm = demo_admission [of "[1, 2, 3]" b, folded rq_def]
  obtain res fs where put: "Local_PutPiece i [1, 2, 3] (put_options (- 1) rq) empty_fs = (Inr res, fs)" "pr_PieceID res = i"
    using newPieceID_valid [of AnonymousTenant "''b''" "''k''" 0] by (simp add: Local_PutPiece_def i_def put_options_def)
  define m where "m = new_manifest rq AnonymousTenant ''b'' ''k'' i (pr_SizeBytes res) (pr_SizeBytes res) [] zero_EncryptionConfig zero_PlacementPolicy
      [new_piece (pr_PieceID res) ''local'' (pr_Locator res) (content_hash (cfg_blake3 demo_config) [1, 2, 3]) (pr_ETag res) (pr_SizeBytes res)] ''local''"
  obtain s where s: "op_Put mem_ops (object_key AnonymousTenant ''b'' ''k'' i) m NewMemStore = Inr s"
    by (simp add: mem_ops_def Mem_Put_def)
  obtain rs g where pg: "Put demo_config rq (empty_gateway b) = (rs, g)"
    by fastforce
  have "rs_Status rs = 200 \<and> gw_Manifests g = s"
    using pg adm put(1) s rq unfolding m_def
    by (auto simp: Put_def dedupEnabled_def putSinglePiece_def prepareSinglePieceEncryption_def IsGatewayEncrypted_def raw_body_def src_error_def
        gw_put_def local_provider_def empty_gateway_def commit_manifest_def applyDefaultObjectLockRetention_def i_def respond_def Let_def)
  then show ?thesis
    using that [OF pg _ _ _ _ ] demo_mem_put [OF s] put(2) by (auto simp: m_def)
qed

lemma empty_fresh: "fresh_request mem_versions gm_get cfg rq (empty_gateway b)"
  by (simp add: fresh_request_def fresh_id_def empty_gateway_def mem_versions_def NewMemStore_def gm_get_def)

theorem history_keeps_bytes_witness:
  "\<exists>rs g m p d. Put demo_config (demo_request ''/b/k'' [1, 2, 3]) (empty_gateway NewBCStore) = (rs, g) \<and> rs_Status rs = 200
    \<and> mem_versions (gw_Manifests g) (object_key AnonymousTenant ''b'' ''k'' (newPieceID AnonymousTenant ''b'' ''k'' 0)) = Some m
    \<and> m_Pieces m = [p] \<and> local_pieces (gw_World g ''local'') (p_PieceID p) = Some d \<and> Verify (\<lambda>d. d) d p = Inr ()"
proof -
  obtain rs g m p where put: "Put demo_config (demo_request ''/b/k'' [1, 2, 3]) (empty_gateway NewBCStore) = (rs, g)" "rs_Status rs = 200"
      and m: "mem_versions (gw_Manifests g) (object_key AnonymousTenant ''b'' ''k'' (newPieceID AnonymousTenant ''b'' ''k'' 0)) = Some m"
        "m_Pieces m = [p]" "p_Backend p = ''local''"
    using demo_put by metis
  have "s3_history mem_versions gm_get demo_config 1 (empty_gateway NewBCStore) g"
    using s3_history.request [OF s3_history.start, of mem_versions gm_get demo_config "OpPut (demo_request ''/b/k'' [1, 2, 3])"
        "empty_gateway NewBCStore" 1 rs g] empty_fresh [of demo_config "demo_request ''/b/k'' [1, 2, 3]" NewBCStore] put
    by (simp add: demo_request_def)
  from history_keeps_bytes [OF mem_s3.s3_gateway_axioms empty_gateway_inv this m(1), of p] m put show ?thesis
    by (auto simp: mem_config_def demo_base_def)
qed

text \<open>
  C2: a version under compliance retention is immutable until its date.  Whatever
  requests a gateway handles before \<open>T\<close>, a version retained in compliance mode until
  \<open>T\<close> or later is still stored under its key, lists the same pieces, is still retained at
  least until \<open>T\<close>, and its pieces still pass the integrity check: neither a DELETE, an
  overwrite, a change of the retention nor the bypass header removes it.
\<close>

theorem history_keeps_compliance:
  assumes "s3_gateway ci cinv entries ms minv versions current provs pinv pieces cfg"
    and "gw_inv minv cinv entries versions provs pinv pieces (cfg_blake3 cfg) g0"
    and "versions (gw_Manifests g0) k = Some m" "compliance_until T m"
    and "s3_history versions entries cfg T g0 g"
  shows "\<exists>m'. versions (gw_Manifests g) k = Some m' \<and> m_Pieces m' = m_Pieces m \<and> compliance_until T m'
    \<and> (\<forall>p \<in> set (m_Pieces m). \<exists>d. pieces (gw_World g (p_Backend p)) (p_PieceID p) = Some d \<and> Verify (cfg_blake3 cfg) d p = Inr ())"
proof -
  have "s3_gateway.kept versions T k (m_Pieces m) g0"
    using assms(3,4) by (auto simp: s3_gateway.kept_def [OF assms(1)])
  then have "s3_gateway.kept versions T k (m_Pieces m) g"
    using s3_gateway.history_kept [OF assms(1,5,2)] by blast
  then obtain m' where m': "versions (gw_Manifests g) k = Some m'" "m_Pieces m' = m_Pieces m" "compliance_until T m'"
    by (auto simp: s3_gateway.kept_def [OF assms(1)])
  have "gw_inv minv cinv entries versions provs pinv pieces (cfg_blake3 cfg) g"
    using s3_gateway.history_inv [OF assms(1,5,2)] .
  then have "version_ok (cfg_blake3 cfg) (\<lambda>b. provs b \<noteq> None) (\<lambda>b. pieces (gw_World g b)) k m'"
    using m'(1) by (auto simp: gw_inv_def dest: fabric_invD(2))
  then have "\<forall>p \<in> set (m_Pieces m). \<exists>d. pieces (gw_World g (p_Backend p)) (p_PieceID p) = Some d \<and> Verify (cfg_blake3 cfg) d p = Inr ()"
    using m'(2) Verify_holds [of "cfg_blake3 cfg" "\<lambda>b. pieces (gw_World g b)"] by (simp add: version_ok_def)
  then show ?thesis
    using m' by blast
qed

definition locked_manifest :: ObjectManifest where
  "locked_manifest = zero_ObjectManifest\<lparr>m_TenantID := AnonymousTenant, m_Bucket := ''b'', m_ObjectKeyHash := hashObjectKey ''k'',
     m_VersionID := ''v1'', m_RetentionMode := ModeCompliance, m_RetainUntil := 100\<rparr>"

definition locked_gateway :: "(MemStore, CIStore, LocalFS, BCStore) Gateway" where
  "locked_gateway = (empty_gateway NewBCStore)\<lparr>gw_Manifests := projr (Mem_Put (object_key AnonymousTenant ''b'' ''k'' ''v1'') locked_manifest NewMemStore)\<rparr>"

lemma locked_version:
  "mem_inv (gw_Manifests locked_gateway)"
  "mem_versions (gw_Manifests locked_gateway) = [object_key AnonymousTenant ''b'' ''k'' ''v1'' \<mapsto> locked_manifest]"
proof -
  obtain s where s: "Mem_Put (object_key AnonymousTenant ''b'' ''k'' ''v1'') locked_manifest NewMemStore = Inr s"
    by (simp add: Mem_Put_def Let_def)
  have e: "mem_versions NewMemStore = Map.empty"
    by (rule ext) (simp add: mem_versions_def NewMemStore_def store_simps)
  show "mem_inv (gw_Manifests locked_gateway)"
    "mem_versions (gw_Manifests locked_gateway) = [object_key AnonymousTenant ''b'' ''k'' ''v1'' \<mapsto> locked_manifest]"
    using mem.put_law [OF mem_inv_New, of "object_key AnonymousTenant ''b'' ''k'' ''v1''" locked_manifest s] s e
    by (simp_all add: locked_gateway_def mem_ops_def)
qed

lemma locked_inv: "gw_inv mem_inv ci_inv gm_get mem_versions provs local_inv local_pieces blake3 locked_gateway"
proof -
  note e = empty_gateway_inv [of provs blake3 NewBCStore, unfolded gw_inv_def]
  have "mem_versions (gw_Manifests (empty_gateway NewBCStore)) = Map.empty"
    by (rule ext) (simp add: mem_versions_def NewMemStore_def store_simps empty_gateway_def)
  with e have "fabric_inv blake3 (\<lambda>b. provs b \<noteq> None) ((Map.empty :: version_map)(object_key AnonymousTenant ''b'' ''k'' ''v1'' \<mapsto> locked_manifest))
      (gm_get []) (\<lambda>_. local_pieces empty_fs)"
    by (intro inv_add_owned) (auto simp: empty_gateway_def version_wf_def locked_manifest_def zero_ObjectManifest_def gm_get_def)
  with e show ?thesis
    by (simp add: gw_inv_def locked_version) (simp add: locked_gateway_def empty_gateway_def)
qed

definition locked_request :: Request where
  "locked_request = (demo_request ''/b/k'' [])\<lparr>rq_RawQuery := ''versionId=v1'',
     rq_Header := [(''X-Amz-Bypass-Governance-Retention'', [''true''])], rq_now := (\<lambda>_. 50)\<rparr>"

theorem history_keeps_compliance_witness:
  "\<exists>rs g m. Delete demo_config locked_request locked_gateway = (rs, g) \<and> rs_Status rs = 403
    \<and> mem_versions (gw_Manifests g) (object_key AnonymousTenant ''b'' ''k'' ''v1'') = Some m \<and> compliance_until 100 m"
proof -
  let ?k = "object_key AnonymousTenant ''b'' ''k'' ''v1''"
  have v: "mem_versions (gw_Manifests locked_gateway) ?k = Some locked_manifest" and c: "compliance_until 100 locked_manifest"
    by (simp_all add: locked_version compliance_until_def locked_manifest_def)
  have get: "op_Get mem_ops ?k (gw_Manifests locked_gateway) = Inr locked_manifest"
    using v by (simp add: mem_ops_def Mem_Get_def Mem_resolve_def mem_versions_def)
  have rq: "versionId locked_request = ''v1''" "rq_Path locked_request = ''/b/k''" "rq_now locked_request 0 = 50"
    by code_simp+
  have blocked: "objectLockBlocksDelete locked_manifest 50 b" for b
    by (rule compliance_blocks_delete [OF c]) simp
  have del: "Delete demo_config locked_request locked_gateway = (writeError 403 ''AccessDenied'', locked_gateway)"
    using rq demo_path get blocked by (simp add: Delete_def authenticate_def bucketVersioning_def deleteVersion_def)
  have "fresh_request mem_versions gm_get demo_config locked_request locked_gateway"
  proof -
    have "newPieceID t b k n \<noteq> ''v1''" "''v1'' \<noteq> newPieceID t b k n" for t b k n
      by (rule notI, drule arg_cong [of _ _ length], simp)+
    then show ?thesis
      by (simp add: fresh_request_def fresh_id_def locked_version)
        (auto simp: locked_manifest_def zero_ObjectManifest_def locked_gateway_def empty_gateway_def gm_get_def split: if_splits)
  qed
  then have "s3_history mem_versions gm_get demo_config 100 locked_gateway locked_gateway"
    using s3_history.request [OF s3_history.start, of mem_versions gm_get demo_config "OpDelete locked_request"
        locked_gateway 100] del rq(3) by simp
  from history_keeps_compliance [OF mem_s3.s3_gateway_axioms locked_inv v c this] del show ?thesis
    by (auto simp: writeError_def)
qed

end
