(* ===== verification/S3_Read_Correct.thy ===== *)
theory S3_Read_Correct
  imports S3_Read S3_History
begin

text \<open>
  What the read side guarantees: a GET of a piece with a recognised hash claim sends only
  bytes that match the claim, whatever the backend returns, and keeps the cache so; a
  HEAD answers with the status and the headers of the GET; a single range is the slice
  of the whole.
\<close>

section \<open>State the events do not touch\<close>

lemma on_gw_simps [simp]:
  "rg_cache (on_gw f st) = rg_cache st" "rg_warmInUse (on_gw f st) = rg_warmInUse st" "rg_gw (on_gw f st) = f (rg_gw st)"
  by (simp_all add: on_gw_def)

lemma recordIntegrity_simps [simp]:
  "rg_cache (recordIntegrity rd b e st) = rg_cache st" "rg_warmInUse (recordIntegrity rd b e st) = rg_warmInUse st"
  "rg_gw (recordIntegrity rd b e st) = rg_gw st"
  by (simp_all add: recordIntegrity_def)

lemma signalPromotion_simps [simp]:
  "rg_cache (signalPromotion rd rq p t n k st) = rg_cache st" "rg_gw (signalPromotion rd rq p t n k st) = rg_gw st"
  by (simp_all add: signalPromotion_def)

lemma reader_emit_simps [simp]:
  "rg_cache (reader_emit rd t b d n st) = rg_cache st" "rg_warmInUse (reader_emit rd t b d n st) = rg_warmInUse st"
  "gw_World (rg_gw (reader_emit rd t b d n st)) = gw_World (rg_gw st)"
  by (simp_all add: reader_emit_def emit_def log_event_def)

lemma bill_get_cache [simp]: "rg_cache (bill_get rd t b n f st) = rg_cache st"
  by (simp add: bill_get_def Let_def)

lemma audit_read_cache [simp]: "rg_cache (audit_read rd op t b m a st) = rg_cache st"
  by (cases a) (simp add: audit_read_def)

section \<open>Verified reads\<close>

lemma Repair_verified:
  assumes "Repair rd key m i st = (r, m', st')"
  shows "rg_cache st' = rg_cache st \<and> rg_warmInUse st' = rg_warmInUse st
    \<and> (\<forall>res. r = Inr res \<longrightarrow> i < length (m_Pieces m) \<and> Verify (cfg_blake3 (rd_cfg rd)) (rr_Body res) (m_Pieces m ! i) \<noteq> Inl ErrIntegrityCheckFailed)"
  using assms unfolding Repair_def Let_def
  by (auto split: option.splits if_splits sum.splits prod.splits)

lemma tryReadRepair_verified:
  assumes "tryReadRepair rd key m None st = (r, m', st')" "m_Pieces m = piece # ps"
  shows "rg_cache st' = rg_cache st \<and> rg_warmInUse st' = rg_warmInUse st
    \<and> (\<forall>d. r = Some d \<longrightarrow> Verify (cfg_blake3 (rd_cfg rd)) d piece \<noteq> Inl ErrIntegrityCheckFailed)"
  using assms Repair_verified [of rd key m 0 st]
  by (auto simp: tryReadRepair_def split: if_splits prod.splits sum.splits)

lemma origin_piece_verified:
  assumes "origin_piece rd key m piece provider None st = (r, m', st')" "m_Pieces m = piece # ps"
  shows "rg_cache st' = rg_cache st \<and> rg_warmInUse st' = rg_warmInUse st
    \<and> (\<forall>d. r = Some (d, True) \<longrightarrow> Verify (cfg_blake3 (rd_cfg rd)) d piece \<noteq> Inl ErrIntegrityCheckFailed)"
  using assms tryReadRepair_verified [of rd key m st _ _ _ piece ps]
  by (auto simp: origin_piece_def split: sum.splits prod.splits option.splits)

context hot_cache
begin

definition verified_cache :: "('m, 'i, 'p, 'b, 'c) Reader \<Rightarrow> Piece \<Rightarrow> 'c \<Rightarrow> bool" where
  "verified_cache rd piece c \<longleftrightarrow> cinv c
    \<and> all_cached (\<lambda>i d. i = p_PieceID piece \<longrightarrow> Verify (cfg_blake3 (rd_cfg rd)) d piece = Inr ()) c"

lemma cache_lookup_verified:
  assumes "cache_lookup rd rq t b (p_PieceID piece) st = (r, st')" "rd_Cache rd \<in> {None, Some hc}" "verified_cache rd piece (rg_cache st)"
  shows "verified_cache rd piece (rg_cache st') \<and> rg_warmInUse st' = rg_warmInUse st
    \<and> (\<forall>d. r = Some d \<longrightarrow> Verify (cfg_blake3 (rd_cfg rd)) d piece = Inr ())"
proof (cases "rd_Cache rd")
  case None
  with assms show ?thesis by (auto simp: cache_lookup_def)
next
  case (Some hc')
  with assms(2) have hc: "rd_Cache rd = Some hc" by simp
  obtain r0 c where g: "hc_Get hc (rq_now rq 6) (p_PieceID piece) (rg_cache st) = (r0, c)" by force
  from assms(3) all_cached_get [OF _ _ g] show ?thesis
    using assms(1) g hc by (auto simp: cache_lookup_def verified_cache_def split: option.splits prod.splits)
qed

lemma verify_and_warm_verified:
  assumes "verify_and_warm rd rq piece byteRange pre buf st = (r, st')" "rd_Cache rd \<in> {None, Some hc}" "verified_cache rd piece (rg_cache st)"
    and "\<forall>d. Verify (cfg_blake3 (rd_cfg rd)) d piece \<noteq> Inl ErrIntegrityClaimUnrecognized"
    and "pre \<Longrightarrow> Verify (cfg_blake3 (rd_cfg rd)) buf piece \<noteq> Inl ErrIntegrityCheckFailed"
  shows "verified_cache rd piece (rg_cache st') \<and> (\<forall>d. r = Inr d \<longrightarrow> Verify (cfg_blake3 (rd_cfg rd)) buf piece = Inr () \<and> slice_opt byteRange buf = Inr d)"
proof (cases "Verify (cfg_blake3 (rd_cfg rd)) buf piece")
  case (Inl e)
  then have "e = ErrIntegrityCheckFailed" "\<not> pre"
    using assms(4,5) by (cases e; auto)+
  with Inl assms(1,3) show ?thesis by (auto simp: verify_and_warm_def)
next
  case (Inr u)
  define opts where "opts = \<lparr>cp_SizeBytes = int (length buf), cp_Hash = p_Hash piece, cp_TTL = 0, cp_PinHot = False\<rparr>"
  obtain res c where p: "hc_Put hc (rq_now rq 6) (p_PieceID piece) buf opts (rg_cache st) = (res, c)" by force
  have "cinv (rg_cache st)"
    and "all_cached (\<lambda>i d. i = p_PieceID piece \<longrightarrow> Verify (cfg_blake3 (rd_cfg rd)) d piece = Inr ()) (rg_cache st)"
    using assms(3) by (auto simp: verified_cache_def)
  from all_cached_put [OF this p] Inr have "verified_cache rd piece c" by (simp add: verified_cache_def)
  with Inr p assms(1-3) show ?thesis
    by (auto simp: verify_and_warm_def opts_def split: option.splits if_splits)
qed

lemma fetch_origin_verified:
  assumes "fetch_origin rd rq key piece provider byteRange t m st = (r, m', st')" "m_Pieces m = piece # ps"
    and "rd_Cache rd \<in> {None, Some hc}" "verified_cache rd piece (rg_cache st)" "has_prefix (p_Hash piece) ''blake3:''"
    and "piece_size m piece \<le> int MaxInMemoryObjectBytes" "warm_admits rd (piece_size m piece) st"
  shows "verified_cache rd piece (rg_cache st')
    \<and> (\<forall>d. r = Inr d \<longrightarrow> (\<exists>whole. Verify (cfg_blake3 (rd_cfg rd)) whole piece = Inr () \<and> slice_opt byteRange whole = Inr d))"
proof -
  obtain r0 m0 st0 where o: "origin_piece rd key m piece provider None st = (r0, m0, st0)" by (metis prod_cases3)
  note v = origin_piece_verified [OF o assms(2)]
  have full: "p_Hash piece \<noteq> []" and rec: "\<forall>d. Verify (cfg_blake3 (rd_cfg rd)) d piece \<noteq> Inl ErrIntegrityClaimUnrecognized"
    using assms(5) by (auto simp: Verify_def has_prefix_iff)
  show ?thesis
  proof (cases r0)
    case None
    with o v full assms(1,4,6) show ?thesis by (auto simp: fetch_origin_def)
  next
    case (Some bp)
    obtain buf pre where bp: "bp = (buf, pre)" by force
    obtain r1 st1 where w: "verify_and_warm rd rq piece byteRange pre buf st0 = (r1, st1)" by force
    have "warm_admits rd (piece_size m piece) st0"
      using assms(7) v by (simp add: warm_admits_def split: option.splits)
    with o w Some bp full assms(1,6) have "r = r1" "st' = st1"
      by (auto simp: fetch_origin_def)
    with verify_and_warm_verified [OF w assms(3) _ rec] v Some bp assms(4) show ?thesis by auto
  qed
qed

lemma fetchPiece_verified:
  assumes "fetchPiece rd rq key piece provider byteRange t b (m, st) = (r, m', st')" "m_Pieces m = piece # ps"
    and "rd_Cache rd \<in> {None, Some hc}" "verified_cache rd piece (rg_cache st)" "has_prefix (p_Hash piece) ''blake3:''"
    and "piece_size m piece \<le> int MaxInMemoryObjectBytes" "warm_admits rd (piece_size m piece) st"
  shows "verified_cache rd piece (rg_cache st')
    \<and> (\<forall>d s. r = Inr (d, s) \<longrightarrow> (\<exists>whole. Verify (cfg_blake3 (rd_cfg rd)) whole piece = Inr () \<and> slice_opt byteRange whole = Inr d))"
proof -
  obtain r0 st0 where c: "cache_lookup rd rq t b (p_PieceID piece) st = (r0, st0)" by force
  note l = cache_lookup_verified [OF c assms(3,4)]
  show ?thesis
  proof (cases r0)
    case (Some buf)
    with c l assms(1) show ?thesis
      by (cases "slice_opt byteRange buf") (auto simp: fetchPiece_def)
  next
    case None
    obtain r1 m1 st1 where f: "fetch_origin rd rq key piece provider byteRange t m st0 = (r1, m1, st1)" by (metis prod_cases3)
    have "warm_admits rd (piece_size m piece) st0"
      using assms(7) l by (simp add: warm_admits_def split: option.splits)
    with fetch_origin_verified [OF f assms(2,3) _ assms(5,6)] l None c f assms(1) show ?thesis
      by (cases r1) (auto simp: fetchPiece_def)
  qed
qed

end

definition range_option :: "ranges \<Rightarrow> ByteRange option" where
  "range_option rs = (case rs of SingleRange r \<Rightarrow> Some r | _ \<Rightarrow> None)"

lemma resolve_first:
  "resolve cfg rq g = Inr (m, provider, piece, t, b) \<Longrightarrow> \<exists>ps. m_Pieces m = piece # ps"
  by (auto simp: resolve_def Let_def neq_Nil_conv split: sum.splits prod.splits if_splits option.splits)

lemma resolve_provider:
  "resolve cfg rq g = Inr (m, provider, piece, t, b) \<Longrightarrow> cfg_Providers cfg (p_Backend piece) = Some provider"
  by (auto simp: resolve_def Let_def split: sum.splits prod.splits if_splits option.splits)

lemma failWith_status [simp]: "rs_Status (failWith h s c) = s"
  by (simp add: failWith_def writeError_def)

lemma fetch_failed_status [simp]: "rs_Status (fetch_failed h e) = 502"
  by (simp add: fetch_failed_def split: fetch_error.splits)

lemma respond_simps [simp]:
  "rs_Status (respond s h) = s" "rs_Header (respond s h) = h" "rs_Body (respond s h) = []" "rs_Code (respond s h) = []"
  by (simp_all add: respond_def)


section \<open>HEAD and GET\<close>

definition range_in :: "int \<Rightarrow> ByteRange \<Rightarrow> bool" where
  "range_in n r \<longleftrightarrow> 0 \<le> br_Start r \<and> br_Start r < n \<and> br_End r < n \<and> (br_End r \<ge> 0 \<longrightarrow> br_Start r \<le> br_End r)"

lemma parseHTTPRange_in: "parseHTTPRange h n = Inr r \<Longrightarrow> 0 \<le> n \<Longrightarrow> range_in n r"
  unfolding parseHTTPRange_def range_in_def
  by (auto simp: Let_def split: if_splits option.splits prod.splits sum.splits)

lemma resolveRangeEnd_in: "range_in n r \<Longrightarrow> range_in n (resolveRangeEnd n r) \<and> br_Start (resolveRangeEnd n r) \<le> br_End (resolveRangeEnd n r)"
  by (auto simp: range_in_def resolveRangeEnd_def)

lemma parse_segments_in:
  "parse_segments n segs = Inr rs \<Longrightarrow> 0 \<le> n \<Longrightarrow> \<forall>r \<in> set rs. range_in n r \<and> br_Start r \<le> br_End r"
proof (induction segs arbitrary: rs)
  case (Cons seg segs)
  show ?case
  proof (cases "TrimSpace seg = []")
    case True
    with Cons show ?thesis by simp
  next
    case False
    with Cons.prems(1) obtain r rs' where r: "parseHTTPRange (''bytes='' @ TrimSpace seg) n = Inr r"
        "parse_segments n segs = Inr rs'" "rs = resolveRangeEnd n r # rs'"
      by (auto simp: bind_result_def split: sum.splits)
    with Cons.IH [OF r(2) Cons.prems(2)] resolveRangeEnd_in [OF parseHTTPRange_in [OF r(1) Cons.prems(2)]] show ?thesis by simp
  qed
qed simp

lemma parseObjectRanges_in:
  assumes "parseObjectRanges h n = Inr rs" "0 \<le> n"
  shows "case rs of WholeObject \<Rightarrow> True | SingleRange r \<Rightarrow> range_in n r | MultiRange rs \<Rightarrow> 2 \<le> length rs \<and> (\<forall>r \<in> set rs. range_in n r \<and> br_Start r \<le> br_End r)"
proof -
  consider "rs = WholeObject" | r where "rs = SingleRange r" "parseHTTPRange (HeaderGet h ''Range'') n = Inr r"
    | l where "parseHTTPRangeList (HeaderGet h ''Range'') n = Inr l" "l \<noteq> []" "rs = (if length l = 1 then SingleRange (hd l) else MultiRange l)"
    using assms(1) by (fastforce simp: parseObjectRanges_def parseHTTPRangeList_def Let_def bind_result_def split: if_splits sum.splits)
  then show ?thesis
  proof cases
    case 3
    from 3(1) obtain segs where "parse_segments n segs = Inr l"
      by (auto simp: parseHTTPRangeList_def bind_result_def split: if_splits sum.splits)
    from parse_segments_in [OF this assms(2)] 3(2,3) show ?thesis
      by (cases l; cases "tl l") auto
  qed (use parseHTTPRange_in [OF _ assms(2)] in auto)
qed

lemma slice_buf_length:
  "range_in (int (length buf)) r \<Longrightarrow> slice_buf r buf = Some d \<Longrightarrow> int (length d) = range_content_length r (int (length buf))"
  by (auto simp: range_in_def slice_buf_def Let_def range_content_length_def range_last_def split: if_splits)

lemma writeMultipart_head:
  "fst (writeMultipartByteRanges rq rs n ct h part s) = Inr (resp, k) \<Longrightarrow> resp\<lparr>rs_Body := []\<rparr> = respond 206 (setMultipartByteRangesHeaders rq rs n ct h)"
  by (auto simp: writeMultipartByteRanges_def Let_def respond_def split: prod.splits sum.splits)

lemma serve_buffer_head:
  assumes "serve_buffer rq rs n h buf = Inr (resp, k)" "parseObjectRanges hdr n = Inr rs" "int (length buf) = n"
  shows "resp\<lparr>rs_Body := []\<rparr> = head_headers rq rs n h"
proof (cases rs)
  case (MultiRange multi)
  with assms(1) have "writeMultipartByteRangesFromBuffer rq multi n (hget h ''Content-Type'') h buf = Inr (resp, k)"
    by (auto simp: serve_buffer_def split: sum.splits)
  then have "resp\<lparr>rs_Body := []\<rparr> = respond 206 (setMultipartByteRangesHeaders rq multi n (hget h ''Content-Type'') h)"
    unfolding writeMultipartByteRangesFromBuffer_def by (intro writeMultipart_head) (auto split: if_splits)
  with MultiRange show ?thesis by (simp add: head_headers_def)
next
  case (SingleRange r)
  have "0 \<le> n" using assms(3) by auto
  with parseObjectRanges_in [OF assms(2)] SingleRange have "range_in (int (length buf)) r" using assms(3) by simp
  with slice_buf_length [OF this] SingleRange assms(1,3) show ?thesis
    by (auto simp: serve_buffer_def head_headers_def respond_def split: option.splits)
qed (use assms in \<open>auto simp: serve_buffer_def head_headers_def respond_def\<close>)


text \<open>The size the manifest records is the size of the bytes a buffered read assembles.\<close>

definition size_recorded :: "('m, 'i, 'p, 'b, 'c) Reader \<Rightarrow> Request \<Rightarrow> ObjectManifest \<Rightarrow> Piece \<Rightarrow> 'p StorageProvider \<Rightarrow> string \<Rightarrow> string
    \<Rightarrow> ('m, 'i, 'p, 'b, 'c) ReadState \<Rightarrow> bool" where
  "size_recorded rd rq m piece provider t b st \<longleftrightarrow>
    (if isErasureCodedManifest m then \<forall>d st'. reconstructErasureCoded rd m st = (Inr d, st') \<longrightarrow> int (length d) = m_ObjectSize m
     else if isMultipartManifest m then \<forall>ds st'. reconstructMultipart rd m st = (Inr ds, st') \<longrightarrow> int (length (concat ds)) = m_ObjectSize m
     else \<forall>c s m' st' d. fetchPiece rd rq (version_key t b m) piece provider None t b (m, st) = (Inr (c, s), m', st')
         \<longrightarrow> decryptFromStorage (cfg_Crypto (rd_cfg rd)) (cfg_Encryption (rd_cfg rd)) c (m_Encryption m) (aadIdentityOf m) = Inr d
         \<longrightarrow> int (length d) = m_ObjectSize m)"

lemma fetch_shards_error: "fetch_shards rd k ps l st = (Inl e, st') \<Longrightarrow> fst e \<in> {0, 502}"
  by (induction ps arbitrary: l st st' e) (auto simp: Let_def bind_result_def split: prod.splits sum.splits if_splits)

lemma fetch_parts_error: "fetch_parts rd ps st = (Inl e, st') \<Longrightarrow> fst e = 502"
  by (induction ps arbitrary: st st' e) (auto simp: Let_def bind_result_def split: option.splits prod.splits sum.splits if_splits)

lemma decrypt_parts_error: "decrypt_parts cr dek m bs = Inl e \<Longrightarrow> fst e = 500"
  by (induction bs arbitrary: e) (auto simp: bind_result_def split: sum.splits)

lemma ec_encoder_error: "ec_encoder cfg m = Inl e \<Longrightarrow> fst e = 500"
  by (auto simp: ec_encoder_def split: option.splits if_splits sum.splits)

lemma open_parts_error: "open_parts cfg m bs = Inl e \<Longrightarrow> fst e = 500"
  by (auto simp: open_parts_def dest: decrypt_parts_error split: option.splits if_splits sum.splits)

lemma reconstructErasureCoded_error:
  assumes "reconstructErasureCoded rd m st = (Inl e, st')"
  shows "fst e \<in> {0, 500, 502}"
proof (cases "ec_encoder (rd_cfg rd) m")
  case (Inl x)
  with assms ec_encoder_error [OF Inl] show ?thesis by (simp add: reconstructErasureCoded_def)
next
  case (Inr enc)
  obtain r st1 where f: "fetch_shards rd (ParityShards (enc_profile enc)) (sort_shards (m_Pieces m)) (\<lambda>_. 0) st = (r, st1)" by force
  show ?thesis
  proof (cases r)
    case (Inl x)
    with f Inr assms fetch_shards_error [OF f [unfolded Inl]] show ?thesis
      by (auto simp: reconstructErasureCoded_def split: if_splits)
  next
    case (Inr ss)
    with f \<open>ec_encoder (rd_cfg rd) m = Inr enc\<close> assms show ?thesis
      by (auto simp: reconstructErasureCoded_def split: if_splits sum.splits)
  qed
qed

lemma reconstructMultipart_error:
  assumes "reconstructMultipart rd m st = (Inl e, st')"
  shows "fst e \<in> {500, 502, 507}"
proof -
  obtain r st1 where f: "fetch_parts rd (sort_key (\<lambda>p. p_PartNumber p) (m_Pieces m)) st = (r, st1)" by force
  show ?thesis
  proof (cases r)
    case (Inl x)
    with f assms fetch_parts_error [OF f [unfolded Inl]] show ?thesis
      by (auto simp: reconstructMultipart_def Let_def split: if_splits)
  next
    case (Inr bs)
    with f assms open_parts_error [of "rd_cfg rd" m bs] show ?thesis
      by (cases "open_parts (rd_cfg rd) m bs") (auto simp: reconstructMultipart_def Let_def split: if_splits)
  qed
qed

lemma serve_buffer_error: "serve_buffer rq rs n h buf = Inl resp \<Longrightarrow> \<not> succeeded resp"
  by (auto simp: serve_buffer_def succeeded_def split: ranges.splits sum.splits option.splits)

lemma getErasureCoded_head:
  assumes "getErasureCoded rd rq hd' m t b h st = (resp, st')" "succeeded resp"
    and "\<And>d st'. reconstructErasureCoded rd m st = (Inr d, st') \<Longrightarrow> int (length d) = m_ObjectSize m"
  shows "fst (headErasureCoded rd rq hd' m t b h st) = resp\<lparr>rs_Body := []\<rparr>"
proof -
  from assms(1,2) obtain rs where rs: "parseObjectRanges hd' (m_ObjectSize m) = Inr rs"
    by (cases "parseObjectRanges hd' (m_ObjectSize m)") (auto simp: getErasureCoded_def succeeded_def)
  obtain res st1 where r: "reconstructErasureCoded rd m st = (res, st1)" by force
  with assms(1,2) rs reconstructErasureCoded_error [of rd m st] obtain d where d: "res = Inr d"
    by (cases res) (auto simp: getErasureCoded_def succeeded_def)
  with assms(1,2) rs r obtain k where "serve_buffer rq rs (m_ObjectSize m) (hset ''x-amz-version-id'' (m_VersionID m) h) d = Inr (resp, k)"
    by (auto simp: getErasureCoded_def dest: serve_buffer_error split: sum.splits)
  from serve_buffer_head [OF this rs assms(3)] r d have "resp\<lparr>rs_Body := []\<rparr> = head_headers rq rs (m_ObjectSize m) (hset ''x-amz-version-id'' (m_VersionID m) h)"
    by blast
  moreover have "is_ok (ec_encoder (rd_cfg rd) m)"
    using r d by (auto simp: reconstructErasureCoded_def is_ok_def split: sum.splits)
  ultimately show ?thesis
    using rs by (auto simp: headErasureCoded_def is_ok_def split: sum.splits)
qed

lemma getMultipart_head:
  assumes "getMultipart rd rq hd' m t b h st = (resp, st')" "succeeded resp"
    and "\<And>d st'. reconstructMultipart rd m st = (Inr d, st') \<Longrightarrow> int (length (concat d)) = m_ObjectSize m"
  shows "fst (headMultipart rd rq hd' m t b h st) = resp\<lparr>rs_Body := []\<rparr>"
proof -
  from assms(1,2) obtain rs where rs: "parseObjectRanges hd' (m_ObjectSize m) = Inr rs"
    by (cases "parseObjectRanges hd' (m_ObjectSize m)") (auto simp: getMultipart_def succeeded_def)
  obtain res st1 where r: "reconstructMultipart rd m st = (res, st1)" by force
  with assms(1,2) rs reconstructMultipart_error [of rd m st] obtain d where d: "res = Inr d"
    by (cases res) (auto simp: getMultipart_def succeeded_def)
  with assms(1,2) rs r obtain k where "serve_buffer rq rs (m_ObjectSize m) (hset ''x-amz-version-id'' (m_VersionID m) h) (concat d) = Inr (resp, k)"
    by (auto simp: getMultipart_def dest: serve_buffer_error split: sum.splits)
  from serve_buffer_head [OF this rs assms(3)] r d have "resp\<lparr>rs_Body := []\<rparr> = head_headers rq rs (m_ObjectSize m) (hset ''x-amz-version-id'' (m_VersionID m) h)"
    by blast
  moreover have "\<not> m_ObjectSize m > maxMultipartInMemoryBytes" "\<not> list_ex (\<lambda>p. cfg_Providers (rd_cfg rd) (p_Backend p) = None) (m_Pieces m)"
    using r d by (auto simp: reconstructMultipart_def Let_def list_ex_iff split: if_splits)
  ultimately show ?thesis
    using rs by (simp add: headMultipart_def)
qed

lemma getSinglePiece_head:
  assumes "getSinglePiece rd rq key m piece provider (range_option rs) t b h st = (resp, st')" "succeeded resp" "rs = WholeObject \<or> rs = SingleRange r"
  shows "head_headers rq rs (m_ObjectSize m) (etag_headers m piece h) = resp\<lparr>rs_Body := []\<rparr>"
  using assms
  by (auto simp: getSinglePiece_def succeeded_def head_headers_def respond_def range_option_def Let_def split: prod.splits sum.splits)

lemma serveMultipartSinglePiece_head:
  assumes "serveMultipartSinglePiece rd rq key m piece provider multi t b h st = (resp, st')" "succeeded resp"
  shows "head_headers rq (MultiRange multi) (m_ObjectSize m) (etag_headers m piece h) = resp\<lparr>rs_Body := []\<rparr>"
proof -
  let ?w = "writeMultipartByteRanges rq multi (m_ObjectSize m) (hget (etag_headers m piece h) ''Content-Type'') (etag_headers m piece h)
            (fetch_part rd rq key piece provider t b) (False, m, st)"
  from assms obtain k where "fst ?w = Inr (resp, k)"
    by (auto simp: serveMultipartSinglePiece_def succeeded_def Let_def split: prod.splits sum.splits)
  from writeMultipart_head [OF this] show ?thesis by (simp add: head_headers_def)
qed

lemma streamGatewayDecryptedGet_head:
  assumes "streamGatewayDecryptedGet rd rq key m piece provider t b h st = (resp, st')" "succeeded resp"
  shows "head_headers rq WholeObject (m_ObjectSize m) (etag_headers m piece h) = resp\<lparr>rs_Body := []\<rparr>"
  using assms
  by (auto simp: streamGatewayDecryptedGet_def succeeded_def head_headers_def respond_def Let_def split: prod.splits sum.splits option.splits)

lemma bufferedGatewayDecryptedGet_head:
  assumes "bufferedGatewayDecryptedGet rd rq key m piece provider rs t b h st = (resp, st')" "succeeded resp"
    and "parseObjectRanges hd' (m_ObjectSize m) = Inr rs"
    and "\<And>c s m' st' d. fetchPiece rd rq key piece provider None t b (m, st) = (Inr (c, s), m', st')
         \<Longrightarrow> decryptFromStorage (cfg_Crypto (rd_cfg rd)) (cfg_Encryption (rd_cfg rd)) c (m_Encryption m) (aadIdentityOf m) = Inr d
         \<Longrightarrow> int (length d) = m_ObjectSize m"
  shows "\<not> m_ObjectSize m > int MaxInMemoryObjectBytes \<and> head_headers rq rs (m_ObjectSize m) (etag_headers m piece h) = resp\<lparr>rs_Body := []\<rparr>"
proof -
  have small: "\<not> m_ObjectSize m > int MaxInMemoryObjectBytes"
    using assms(1,2) by (auto simp: bufferedGatewayDecryptedGet_def succeeded_def)
  obtain res m1 st1 where f: "fetchPiece rd rq key piece provider None t b (m, st) = (res, m1, st1)" by (metis prod_cases3)
  with assms(1,2) small obtain c s where c: "res = Inr (c, s)"
    by (cases res) (auto simp: bufferedGatewayDecryptedGet_def succeeded_def)
  obtain d k where d: "decryptFromStorage (cfg_Crypto (rd_cfg rd)) (cfg_Encryption (rd_cfg rd)) c (m_Encryption m) (aadIdentityOf m) = Inr d"
    and "serve_buffer rq rs (m_ObjectSize m) (etag_headers m piece h) d = Inr (resp, k)"
    using assms(1,2) small f c
    by (auto simp: bufferedGatewayDecryptedGet_def succeeded_def dest: serve_buffer_error [unfolded succeeded_def] split: sum.splits)
  from serve_buffer_head [OF this(2) assms(3)] assms(4) [OF f [unfolded c] d] small show ?thesis by simp
qed

lemma single_piece_head:
  assumes res: "resolve (rd_cfg rd) rq (rg_gw st) = Inr (m, provider, piece, t, b)" "applyReadConditionals rq m piece = Inr (hd', h0)"
    and kind: "\<not> isErasureCodedManifest m" "\<not> isMultipartManifest m" and rs: "parseObjectRanges hd' (m_ObjectSize m) = Inr rs"
    and sized: "size_recorded rd rq m piece provider t b st" and get: "Get rd rq st = (resp, st')" "succeeded resp"
  shows "fst (Head rd rq st) = resp\<lparr>rs_Body := []\<rparr>"
proof -
  let ?h = "object_headers rq m h0"
  let ?k = "version_key t b m"
  let ?hh = "etag_headers m piece ?h"
  have head: "fst (Head rd rq st) = resp\<lparr>rs_Body := []\<rparr>"
    if "\<not> (IsGatewayEncrypted (en_Mode (m_Encryption m)) \<and> rs \<noteq> WholeObject \<and> m_ObjectSize m > int MaxInMemoryObjectBytes)"
      "head_headers rq rs (m_ObjectSize m) ?hh = resp\<lparr>rs_Body := []\<rparr>"
    using that kind rs res by (auto simp: Head_def)
  show ?thesis
  proof (cases "IsGatewayEncrypted (en_Mode (m_Encryption m))")
    case True
    show ?thesis
    proof (cases "rs = WholeObject")
      case whole: True
      have "streamGatewayDecryptedGet rd rq ?k m piece provider t b ?h st = (resp, st')"
        using kind rs res True whole get(1) by (simp add: Get_def)
      from streamGatewayDecryptedGet_head [OF this get(2)] whole show ?thesis by (intro head) simp_all
    next
      case False
      have "bufferedGatewayDecryptedGet rd rq ?k m piece provider rs t b ?h st = (resp, st')"
        using kind rs res True False get(1) by (simp add: Get_def)
      from bufferedGatewayDecryptedGet_head [OF this get(2) rs] sized kind show ?thesis
        by (intro head) (auto simp: size_recorded_def)
    qed
  next
    case False
    show ?thesis
    proof (cases rs)
      case (MultiRange multi)
      have "serveMultipartSinglePiece rd rq ?k m piece provider multi t b ?h st = (resp, st')"
        using kind rs res False MultiRange get(1) by (simp add: Get_def)
      from serveMultipartSinglePiece_head [OF this get(2)] MultiRange False show ?thesis by (intro head) simp_all
    next
      case (SingleRange r)
      have "getSinglePiece rd rq ?k m piece provider (range_option rs) t b ?h st = (resp, st')"
        using kind rs res False SingleRange get(1) by (simp add: Get_def range_option_def)
      from getSinglePiece_head [OF this get(2)] SingleRange False show ?thesis by (intro head) simp_all
    next
      case WholeObject
      have "getSinglePiece rd rq ?k m piece provider (range_option rs) t b ?h st = (resp, st')"
        using kind rs res False WholeObject get(1) by (simp add: Get_def range_option_def)
      from getSinglePiece_head [OF this get(2)] WholeObject False show ?thesis by (intro head) simp_all
    qed
  qed
qed


section \<open>A piece that is there is read\<close>

lemma fetch_origin_available:
  assumes "sp_GetPiece provider (p_PieceID piece) None (gw_World (rg_gw st) (p_Backend piece)) = Inr d"
    and "Verify (cfg_blake3 (rd_cfg rd)) d piece = Inr ()" "p_Hash piece \<noteq> []"
    and "piece_size m piece \<le> int MaxInMemoryObjectBytes" "warm_admits rd (piece_size m piece) st"
  shows "fst (fetch_origin rd rq key piece provider byteRange t m st) = slice_opt byteRange d"
  using assms by (auto simp: fetch_origin_def origin_piece_def verify_and_warm_def Let_def split: prod.splits)

lemma cache_lookup_state:
  "cache_lookup rd rq t b i st = (r, st') \<Longrightarrow> gw_World (rg_gw st') = gw_World (rg_gw st) \<and> rg_warmInUse st' = rg_warmInUse st"
  by (auto simp: cache_lookup_def split: option.splits prod.splits)

lemma fetchPiece_available:
  assumes "sp_GetPiece provider (p_PieceID piece) None (gw_World (rg_gw st) (p_Backend piece)) = Inr d"
    and "Verify (cfg_blake3 (rd_cfg rd)) d piece = Inr ()" "p_Hash piece \<noteq> []"
    and "piece_size m piece \<le> int MaxInMemoryObjectBytes" "warm_admits rd (piece_size m piece) st"
    and "fst (cache_lookup rd rq t b (p_PieceID piece) st) \<in> {None, Some d}" "slice_opt byteRange d = Inr x"
  shows "\<exists>served. fst (fetchPiece rd rq key piece provider byteRange t b (m, st)) = Inr (x, served)"
proof -
  obtain r st1 where l: "cache_lookup rd rq t b (p_PieceID piece) st = (r, st1)" by force
  with cache_lookup_state [OF l] assms(1,5)
  have s: "sp_GetPiece provider (p_PieceID piece) None (gw_World (rg_gw st1) (p_Backend piece)) = Inr d"
      "warm_admits rd (piece_size m piece) st1"
    by (auto simp: warm_admits_def split: option.splits)
  from fetch_origin_available [OF s(1) assms(2-4) s(2), of rq key byteRange t] l assms(6,7) show ?thesis
    by (cases r) (auto simp: fetchPiece_def split: prod.splits)
qed

text \<open>A GET of the whole object or one range of a single-piece object the gateway did not encrypt, whose piece is there.\<close>

lemma Get_available:
  assumes "resolve (rd_cfg rd) rq (rg_gw st) = Inr (m, provider, piece, t, b)"
    and "applyReadConditionals rq m piece = Inr (reqHeader, h)"
    and "parseObjectRanges reqHeader (m_ObjectSize m) = Inr rs" "rs = WholeObject \<or> rs = SingleRange r"
    and "\<not> isErasureCodedManifest m" "\<not> isMultipartManifest m" "\<not> IsGatewayEncrypted (en_Mode (m_Encryption m))"
    and "sp_GetPiece provider (p_PieceID piece) None (gw_World (rg_gw st) (p_Backend piece)) = Inr d"
    and "Verify (cfg_blake3 (rd_cfg rd)) d piece = Inr ()" "p_Hash piece \<noteq> []"
    and "piece_size m piece \<le> int MaxInMemoryObjectBytes" "warm_admits rd (piece_size m piece) st"
    and "fst (cache_lookup rd rq t b (p_PieceID piece) st) \<in> {None, Some d}" "slice_opt (range_option rs) d = Inr x"
  shows "rs_Status (fst (Get rd rq st)) = (if rs = WholeObject then 200 else 206) \<and> rs_Body (fst (Get rd rq st)) = x"
proof -
  obtain served where f: "fst (fetchPiece rd rq (version_key t b m) piece provider (range_option rs) t b (m, st)) = Inr (x, served)"
    using fetchPiece_available [OF assms(8-14)] by blast
  have "Get rd rq st = getSinglePiece rd rq (version_key t b m) m piece provider (range_option rs) t b (object_headers rq m h) st"
    using assms(1-7) by (auto simp: Get_def range_option_def)
  with f assms(4) show ?thesis
    by (auto simp: getSinglePiece_def range_option_def Let_def split: prod.splits)
qed

section \<open>A stored object to read\<close>

definition demo_read_piece :: Piece where
  "demo_read_piece = \<lparr>p_PieceID = ''p'', p_Hash = content_hash (\<lambda>d. d) [10, 20, 30, 40, 50], p_Backend = ''local'', p_Locator = [], p_State = ''active'',
     p_ProviderETag = [], p_PartNumber = 0, p_SizeBytes = 5, p_StripeIndex = 0, p_ShardIndex = 0, p_ShardKind = []\<rparr>"

definition demo_read_manifest :: ObjectManifest where
  "demo_read_manifest = zero_ObjectManifest\<lparr>m_VersionID := ''v'', m_ObjectSize := 5, m_Pieces := [demo_read_piece]\<rparr>"

definition demo_read_request :: Request where
  "demo_read_request = (demo_request ''/b/k'' [])\<lparr>rq_RawQuery := ''versionId=v'', rq_Header := [(''Range'', [''bytes=1-3''])]\<rparr>"

definition demo_reader :: "(MemStore, CIStore, LocalFS, BCStore, MemoryCache) Reader" where
  "demo_reader = \<lparr>rd_cfg = demo_config, rd_Cache = Some memory_cache, rd_CachePublisher = True, rd_ReadRepair = True,
     rd_CacheWarmBudget = Some 100, rd_IntegrityFailures = True\<rparr>"

definition demo_read_state :: "(MemStore, CIStore, LocalFS, BCStore, MemoryCache) ReadState" where
  "demo_read_state = \<lparr>rg_gw = (empty_gateway NewBCStore)\<lparr>gw_Manifests := NewMemStore\<lparr>byKey := [(object_key AnonymousTenant ''b'' ''k'' ''v'', demo_read_manifest)]\<rparr>,
        gw_World := (\<lambda>_. \<lparr>fs_data = [(''p'', [10, 20, 30, 40, 50])], fs_meta = []\<rparr>)\<rparr>,
     rg_cache = demo_cache, rg_bus = NewSignalBus 4, rg_warmInUse = 0, rg_failures = []\<rparr>"

lemma demo_read_request_simps [simp]:
  "rq_Path demo_read_request = ''/b/k''" "rq_RawQuery demo_read_request = ''versionId=v''" "rq_now demo_read_request = (\<lambda>_. 0)"
  "rq_Header demo_read_request = [(''Range'', [''bytes=1-3''])]"
  by (simp_all add: demo_read_request_def demo_request_def)

lemma demo_query: "QueryGet ''versionId=v'' ''versionId'' = ''v''"
  by code_simp

lemma demo_stored: "op_Get mem_ops (object_key AnonymousTenant ''b'' ''k'' ''v'') (gw_Manifests (rg_gw demo_read_state)) = Inr demo_read_manifest"
  by (simp add: demo_read_state_def mem_ops_def Mem_Get_def Mem_resolve_def object_key_def gm_get_def)

lemma demo_resolve:
  "resolve (rd_cfg demo_reader) demo_read_request (rg_gw demo_read_state) = Inr (demo_read_manifest, local_provider, demo_read_piece, AnonymousTenant, ''b'')"
proof -
  have "m_DeleteMarker demo_read_manifest = False" "m_Pieces demo_read_manifest = [demo_read_piece]" "p_Backend demo_read_piece = ''local''"
    by (simp_all add: demo_read_manifest_def demo_read_piece_def zero_ObjectManifest_def)
  then show ?thesis
    by (simp add: resolve_def versionId_def demo_query demo_path demo_stored demo_reader_def authenticate_def local_backends_def)
qed

lemma unconditional_read:
  assumes "HeaderGet h ''If-Match'' = []" "HeaderGet h ''If-None-Match'' = []"
    "HeaderGet h ''If-Unmodified-Since'' = []" "HeaderGet h ''If-Modified-Since'' = []"
  shows "evaluateConditionalRead h etag t = None"
  unfolding evaluateConditionalRead_def Let_def assms by (simp only: simp_thms if_False)

lemma demo_conditionals:
  "applyReadConditionals demo_read_request demo_read_manifest demo_read_piece
     = Inr ([(''Range'', [''bytes=1-3''])], hset ''Last-Modified'' (FormatHTTP (m_CreatedAt demo_read_manifest)) [])"
proof -
  have e: "evaluateConditionalRead [(''Range'', [''bytes=1-3''])] etag t = None" for etag t
    by (rule unconditional_read; code_simp)
  have r: "HeaderGet [(''Range'', [''bytes=1-3''])] ''If-Range'' = []"
    by code_simp
  show ?thesis
    unfolding applyReadConditionals_def demo_read_request_simps Let_def e applyIfRange_def r by (simp only: simp_thms if_True option.case)
qed

lemma demo_ranges: "parseObjectRanges [(''Range'', [''bytes=1-3''])] 5 = Inr (SingleRange \<lparr>br_Start = 1, br_End = 3\<rparr>)"
proof -
  have "ParseInt ''1'' = Inr 1" "ParseInt ''3'' = Inr 3"
    by (simp_all add: ParseInt_def ParseUint_def decimal_value_def is_digit_def)
  moreover have "CutByte ''1-3'' (CHR ''-'') = Some (''1'', ''3'')" "TrimPrefix ''bytes=1-3'' ''bytes='' = ''1-3''" "has_prefix ''bytes=1-3'' ''bytes=''"
      "HeaderGet [(''Range'', [''bytes=1-3''])] ''Range'' = ''bytes=1-3''"
    by code_simp+
  ultimately show ?thesis by (simp add: parseObjectRanges_def parseHTTPRange_def)
qed

lemma demo_read_kind:
  "\<not> isErasureCodedManifest demo_read_manifest" "\<not> isMultipartManifest demo_read_manifest"
  "\<not> IsGatewayEncrypted (en_Mode (m_Encryption demo_read_manifest))" "m_ObjectSize demo_read_manifest = 5"
  "has_prefix (p_Hash demo_read_piece) ''blake3:''" "piece_size demo_read_manifest demo_read_piece = 5"
  by (simp_all add: isErasureCodedManifest_def isMultipartManifest_def IsGatewayEncrypted_def demo_read_manifest_def demo_read_piece_def
      zero_ObjectManifest_def zero_EncryptionConfig_def content_hash_def formatContentHash_def has_prefix_def piece_size_def)

lemma demo_available:
  "sp_GetPiece local_provider (p_PieceID demo_read_piece) None (gw_World (rg_gw demo_read_state) (p_Backend demo_read_piece)) = Inr [10, 20, 30, 40, 50]"
  "Verify (cfg_blake3 (rd_cfg demo_reader)) [10, 20, 30, 40, 50] demo_read_piece = Inr ()"
  "p_Hash demo_read_piece \<noteq> []" "warm_admits demo_reader (piece_size demo_read_manifest demo_read_piece) demo_read_state"
  "rd_Cache demo_reader \<in> {None, Some memory_cache}" "rg_cache demo_read_state = demo_cache" "p_PieceID demo_read_piece = ''p''"
proof -
  have "Local_GetPiece ''p'' None \<lparr>fs_data = [(''p'', [10, 20, 30, 40, 50])], fs_meta = []\<rparr> = Inr [10, 20, 30, 40, 50]"
    by code_simp
  then show "sp_GetPiece local_provider (p_PieceID demo_read_piece) None (gw_World (rg_gw demo_read_state) (p_Backend demo_read_piece)) = Inr [10, 20, 30, 40, 50]"
    by (simp add: local_provider_def demo_read_piece_def demo_read_state_def)
qed (simp_all add: demo_read_kind Verify_content_hash demo_read_piece_def demo_reader_def demo_read_state_def mem_config_def demo_base_def
       content_hash_def formatContentHash_def warm_admits_def piece_size_def)

lemma demo_miss: "fst (cache_lookup demo_reader demo_read_request t b (p_PieceID demo_read_piece) demo_read_state) = None"
proof -
  have "fst (hc_Get memory_cache 0 ''p'' demo_cache) = None"
    by code_simp
  then show ?thesis
    by (cases "hc_Get memory_cache 0 ''p'' demo_cache") (simp add: cache_lookup_def demo_reader_def demo_read_state_def demo_read_piece_def)
qed

lemma demo_cache_empty: "cache_inv demo_cache" "cache_view demo_cache i = None"
  by (simp_all add: demo_cache_def NewMemoryCache_def demo_policy_def EvictionPolicy_Validate_def cache_inv_def cache_books_def cache_synced_def
      cache_all_def cache_view_def cache_index_def cache_counts_def)

lemma demo_slice: "slice_opt (Some \<lparr>br_Start = 1, br_End = 3\<rparr>) [10, 20, 30, 40, 50] = Inr [20, 30, 40]"
  by code_simp

lemma demo_get:
  "rs_Status (fst (Get demo_reader demo_read_request demo_read_state)) = 206 \<and> rs_Body (fst (Get demo_reader demo_read_request demo_read_state)) = [20, 30, 40]"
  using Get_available [OF demo_resolve demo_conditionals, of "SingleRange \<lparr>br_Start = 1, br_End = 3\<rparr>" _ "[10, 20, 30, 40, 50]" "[20, 30, 40]"]
    demo_ranges demo_read_kind demo_available demo_miss demo_slice
  by (simp add: range_option_def MaxInMemoryObjectBytes_def)



section \<open>Repair during a read\<close>

text \<open>
  The repair reads the piece from the backend its locator names, the one whose read has just failed:
  a whole-piece read that failed is never repaired.
\<close>

lemma tryReadRepair_same_backend:
  assumes "cfg_Providers (rd_cfg rd) (p_Backend piece) = Some provider" "m_Pieces m = piece # ps"
    and "sp_GetPiece provider (p_PieceID piece) None (gw_World (rg_gw st) (p_Backend piece)) = Inl e"
  shows "fst (tryReadRepair rd key m byteRange st) = None"
  using assms by (auto simp: tryReadRepair_def Repair_def Let_def split: option.splits)

text \<open>
  The repair stores the manifest with \<open>Put\<close>, which in the in-memory store also moves the latest pointer: the repaired
  version, old as it may be, is then what an unversioned GET reads.
\<close>

lemma Repair_moves_latest:
  assumes "Repair rd key m i st = (Inr res, m', st')" "cfg_Manifests (rd_cfg rd) = Some mem_ops"
  shows "op_Get mem_ops (key\<lparr>k_VersionID := []\<rparr>) (gw_Manifests (rg_gw st')) = Inr m'"
  using assms
  by (auto simp: Repair_def Let_def mem_ops_def Mem_Put_def Mem_Get_def Mem_resolve_def lk_of_def store_simps
      split: option.splits if_splits sum.splits prod.splits)

end
