(* ===== verification/S3_Round_Trip.thy ===== *)
theory S3_Round_Trip
  imports S3_Read_Correct
begin

text \<open>
  What is written is what is read: the GET that follows a PUT of a single-piece object
  sends the body of the PUT, sealed by the gateway or not.
\<close>

section \<open>What a successful write stores\<close>

lemma retention_keeps:
  "applyDefaultObjectLockRetention cfg rq t b m g = Inr m' \<Longrightarrow> m_Encryption m' = m_Encryption m \<and> m_DeleteMarker m' = m_DeleteMarker m
    \<and> m_Pieces m' = m_Pieces m \<and> aadIdentityOf m' = aadIdentityOf m \<and> m_VersionID m' = m_VersionID m"
  by (auto simp: applyDefaultObjectLockRetention_def applyDefaultRetention_def aadIdentityOf_def split: option.splits if_splits)

lemma gw_put_result:
  assumes "gw_put pv b i body opts g = (Inr res, g')"
  obtains d p' where "body = Inr d" "sp_PutPiece pv i d opts (gw_World g b) = (Inr res, p')" "g' = g\<lparr>gw_World := (gw_World g)(b := p')\<rparr>"
  using assms by (auto simp: gw_put_def split: sum.splits prod.splits)

lemma writeError_status [simp]: "rs_Status (writeError s c) = s"
  by (simp add: writeError_def)

lemma prepareSinglePieceEncryption_error:
  "prepareSinglePieceEncryption cr enc rq mode i = Inl resp \<Longrightarrow> \<not> succeeded resp"
  by (auto simp: prepareSinglePieceEncryption_def succeeded_def writeBodyReadError_def Let_def
      split: if_splits sum.splits size_error.splits body_error.splits)

lemma putSinglePiece_stores:
  assumes "putSinglePiece cfg ms rq t b k backend provider policy g = (rs, g')" "succeeded rs"
  obtains pd d res p' m s where
    "prepareSinglePieceEncryption (cfg_Crypto cfg) (cfg_Encryption cfg) rq (pp_EncryptionMode policy)
       \<lparr>ai_TenantID = t, ai_Bucket = b, ai_ObjectKeyHash = hashObjectKey k, ai_VersionID = newPieceID t b k (rq_now rq 1)\<rparr> = Inr pd"
    "pd_Body pd = Inr d" "sp_PutPiece provider (newPieceID t b k (rq_now rq 1)) d (put_options (pd_ContentLength pd) rq) (gw_World g backend) = (Inr res, p')"
    "op_Put ms (object_key t b k (newPieceID t b k (rq_now rq 1))) m (gw_Manifests g) = Inr s"
    "gw_Manifests g' = s" "gw_World g' = (gw_World g)(backend := p')"
    "m_Encryption m = pd_Encryption pd" "\<not> m_DeleteMarker m"
    "m_Pieces m = [new_piece (pr_PieceID res) backend (pr_Locator res) (content_hash (cfg_blake3 cfg) d) (pr_ETag res) (pr_SizeBytes res)]"
    "aadIdentityOf m = \<lparr>ai_TenantID = t, ai_Bucket = b, ai_ObjectKeyHash = hashObjectKey k, ai_VersionID = newPieceID t b k (rq_now rq 1)\<rparr>"
proof -
  let ?i = "newPieceID t b k (rq_now rq 1)"
  let ?id = "\<lparr>ai_TenantID = t, ai_Bucket = b, ai_ObjectKeyHash = hashObjectKey k, ai_VersionID = ?i\<rparr>"
  obtain pd where pd: "prepareSinglePieceEncryption (cfg_Crypto cfg) (cfg_Encryption cfg) rq (pp_EncryptionMode policy) ?id = Inr pd"
    using assms prepareSinglePieceEncryption_error [of "cfg_Crypto cfg" "cfg_Encryption cfg" rq "pp_EncryptionMode policy" ?id]
    by (cases "prepareSinglePieceEncryption (cfg_Crypto cfg) (cfg_Encryption cfg) rq (pp_EncryptionMode policy) ?id")
      (auto simp: putSinglePiece_def Let_def)
  obtain r g1 where gp: "gw_put provider backend ?i (pd_Body pd) (put_options (pd_ContentLength pd) rq) g = (r, g1)" by force
  obtain res where r: "r = Inr res"
    using assms pd gp by (cases r) (auto simp: putSinglePiece_def Let_def succeeded_def writePutPieceError_def split: option.splits body_error.splits)
  from gw_put_result [OF gp [unfolded r]] obtain d p' where d: "pd_Body pd = Inr d"
      "sp_PutPiece provider ?i d (put_options (pd_ContentLength pd) rq) (gw_World g backend) = (Inr res, p')" "g1 = g\<lparr>gw_World := (gw_World g)(backend := p')\<rparr>" .
  define m0 where "m0 = new_manifest rq t b k ?i
      (if IsGatewayEncrypted (pp_EncryptionMode policy) then pd_PlaintextSize pd else pr_SizeBytes res) (pr_SizeBytes res) [] (pd_Encryption pd) policy
      [new_piece (pr_PieceID res) backend (pr_Locator res) (content_hash (cfg_blake3 cfg) d) (pr_ETag res) (pr_SizeBytes res)] backend"
  have "\<exists>m g2. commit_manifest cfg ms rq t b k m0 g1 = Inr (m, g2) \<and> gw_Manifests g' = gw_Manifests g2 \<and> gw_World g' = gw_World g2"
    using assms pd gp r d(1) unfolding m0_def
    by (auto simp: putSinglePiece_def Let_def succeeded_def commit_manifest_def split: if_splits sum.splits prod.splits)
  then obtain m s where c: "applyDefaultObjectLockRetention cfg rq t b m0 g1 = Inr m" "op_Put ms (object_key t b k (m_VersionID m)) m (gw_Manifests g1) = Inr s"
      "gw_Manifests g' = s" "gw_World g' = gw_World g1"
    by (auto simp: commit_manifest_def split: sum.splits)
  have m0: "m_Encryption m0 = pd_Encryption pd" "\<not> m_DeleteMarker m0" "aadIdentityOf m0 = ?id"
    by (simp_all add: m0_def new_manifest_def applyRequestObjectMetadata_def zero_ObjectManifest_def aadIdentityOf_def)
  show ?thesis
    using that [OF pd d(1,2)] c d(3) retention_keeps [OF c(1)] m0 by (simp add: m0_def)
qed

section \<open>What the read after it sends\<close>

lemma dec_Copy_ReadAll:
  "dec_ReadAll cr r = Inr p \<Longrightarrow> \<exists>unread. dec_Copy cr r = (p, unread, False)"
proof (induction cr r arbitrary: p rule: dec_ReadAll.induct)
  case (1 cr r)
  show ?case
  proof (cases "dr_eof r")
    case True
    with 1(2) show ?thesis by (simp add: dec_ReadAll.simps [of cr r] dec_Copy.simps [of cr r])
  next
    case False
    with 1(2) obtain pt r' where f: "dec_nextFrame cr r = Inr (pt, r')"
      by (auto simp: dec_ReadAll.simps [of cr r] split: sum.splits prod.splits)
    show ?thesis
    proof (cases "dr_eof r'")
      case True
      with False f 1(2) show ?thesis by (simp add: dec_ReadAll.simps [of cr r] dec_Copy.simps [of cr r])
    next
      case cont: False
      with False f 1(2) obtain rest where rest: "dec_ReadAll cr r' = Inr rest" "p = pt @ rest"
        by (auto simp: dec_ReadAll.simps [of cr r] bind_result_def split: sum.splits)
      from 1(1) [OF False f refl cont rest(1)] f False cont rest(2) show ?thesis
        by (auto simp: dec_Copy.simps [of cr r])
    qed
  qed
qed

lemma decryptFromStorage_stream:
  assumes "decryptFromStorage cr enc c ec i = Inr p"
  obtains r unread where "streamDecryptFromStorage enc c ec i = Inr r" "dec_Copy cr r = (p, unread, False)"
proof -
  from assms obtain r where r: "streamDecryptFromStorage enc c ec i = Inr r" "dec_ReadAll cr r = Inr p"
    by (auto simp: decryptFromStorage_def streamDecryptFromStorage_def decryptWithDEK_def bind_result_def split: option.splits sum.splits)
  with dec_Copy_ReadAll [OF r(2)] that show ?thesis by blast
qed

lemma fetchPiece_whole:
  assumes "sp_GetPiece provider (p_PieceID piece) None (gw_World (rg_gw st) (p_Backend piece)) = Inr d"
    and "Verify (cfg_blake3 (rd_cfg rd)) d piece = Inr ()" "fst (cache_lookup rd rq t b (p_PieceID piece) st) = None"
  shows "fst (fetchPiece rd rq key piece provider None t b (m, st)) = Inr (d, False)"
proof -
  obtain st1 where l: "cache_lookup rd rq t b (p_PieceID piece) st = (None, st1)"
    using assms(3) by (cases "cache_lookup rd rq t b (p_PieceID piece) st") simp
  have "fst (fetch_origin rd rq key piece provider None t m st1) = Inr d"
    using assms(1,2) cache_lookup_state [OF l]
    by (auto simp: fetch_origin_def origin_piece_def verify_and_warm_def slice_opt_def Let_def split: prod.splits)
  with l show ?thesis by (auto simp: fetchPiece_def split: prod.splits)
qed

lemma unconditional_get:
  assumes "rq_Header rq = []"
  obtains h where "applyReadConditionals rq m piece = Inr ([], h)" "parseObjectRanges [] n = Inr WholeObject"
proof -
  have "HeaderGet [] x = []" for x by (simp add: HeaderGet_def gm_get_def)
  then show ?thesis
    using that assms unconditional_read [of "[]" "condETagForRead m piece" "m_CreatedAt m"]
    by (simp add: applyReadConditionals_def applyIfRange_def parseObjectRanges_def Let_def)
qed

text \<open>A plain GET of a single-piece object whose piece the backend returns, and which the cache does not have.\<close>

lemma Get_whole:
  assumes "resolve (rd_cfg rd) rq (rg_gw st) = Inr (m, provider, piece, t, b)" "rq_Header rq = []"
    and "\<not> isErasureCodedManifest m" "\<not> isMultipartManifest m"
    and "sp_GetPiece provider (p_PieceID piece) None (gw_World (rg_gw st) (p_Backend piece)) = Inr d"
    and "Verify (cfg_blake3 (rd_cfg rd)) d piece = Inr ()" "fst (cache_lookup rd rq t b (p_PieceID piece) st) = None"
    and "(if IsGatewayEncrypted (en_Mode (m_Encryption m))
          then decryptFromStorage (cfg_Crypto (rd_cfg rd)) (cfg_Encryption (rd_cfg rd)) d (m_Encryption m) (aadIdentityOf m) else Inr d) = Inr p"
  shows "rs_Status (fst (Get rd rq st)) = 200 \<and> rs_Body (fst (Get rd rq st)) = p"
proof -
  from unconditional_get [OF assms(2)] obtain h where h: "applyReadConditionals rq m piece = Inr ([], h)" "parseObjectRanges [] (m_ObjectSize m) = Inr WholeObject" .
  show ?thesis
  proof (cases "IsGatewayEncrypted (en_Mode (m_Encryption m))")
    case True
    with assms(8) decryptFromStorage_stream obtain r unread where r: "streamDecryptFromStorage (cfg_Encryption (rd_cfg rd)) d (m_Encryption m) (aadIdentityOf m) = Inr r"
        "dec_Copy (cfg_Crypto (rd_cfg rd)) r = (p, unread, False)" by metis
    obtain st1 where l: "cache_lookup rd rq t b (p_PieceID piece) st = (None, st1)"
      using assms(7) by (cases "cache_lookup rd rq t b (p_PieceID piece) st") simp
    have "\<exists>st2. openCiphertextStream rd rq (version_key t b m) m piece provider t b st = (Some (d, False, True), st2)"
      using l cache_lookup_state [OF l] assms(5) by (simp add: openCiphertextStream_def origin_piece_def)
    with True r h assms(1,3,4) show ?thesis
      by (auto simp: Get_def streamGatewayDecryptedGet_def Let_def)
  next
    case False
    with assms(8) have "p = d" by simp
    with fetchPiece_whole [OF assms(5-7), of "version_key t b m" m] False h assms(1,3,4) show ?thesis
      by (auto simp: Get_def getSinglePiece_def Let_def split: prod.splits)
  qed
qed

section \<open>The round trip\<close>

lemma prepared_mode:
  "prepareSinglePieceEncryption cr enc rq mode i = Inr pd \<Longrightarrow> IsGatewayEncrypted (en_Mode (pd_Encryption pd)) = IsGatewayEncrypted mode"
  by (auto simp: prepareSinglePieceEncryption_def managed_config_def client_config_def zero_EncryptionConfig_def IsGatewayEncrypted_def Let_def
      split: if_splits sum.splits size_error.splits)

lemma absent_miss:
  assumes "hot_cache hc cinv view" "rd_Cache rd \<in> {None, Some hc}" "cinv (rg_cache st)" "view (rg_cache st) i = None"
  shows "fst (cache_lookup rd rq t b i st) = None"
proof (cases "rd_Cache rd")
  case (Some hc')
  obtain r c where g: "hc_Get hc (rq_now rq 6) i (rg_cache st) = (r, c)" by force
  with hot_cache.get_law [OF assms(1,3) g] assms(4) have "r = None" by (cases r) auto
  with g Some assms(2) show ?thesis by (simp add: cache_lookup_def)
qed (simp add: cache_lookup_def)

context s3_gateway
begin

lemma written_resolves:
  assumes "minv s" "op_Put ms (object_key t b k v) m s = Inr s'" "is_ok (op_Get ms (object_key t b k v') s')" "v' = v \<or> v' = []"
  shows "op_Get ms (object_key t b k v') s' = Inr m"
proof -
  obtain m' where m': "op_Get ms (object_key t b k v') s' = Inr m'"
    using assms(3) by (auto simp: is_ok_def split: sum.splits)
  from M.get_put [OF assms(1,2) m'] assms(4) m' show ?thesis
    by (auto simp: object_key_def lk_of_def)
qed

lemma written_piece:
  assumes "inv g" "provs backend = Some provider" "sp_PutPiece provider i d opts (gw_World g backend) = (Inr res, p')"
    and "is_ok (sp_GetPiece provider i None p')"
  shows "sp_GetPiece provider i None p' = Inr d" "pr_PieceID res = i"
proof -
  note P = providers [OF assms(2)]
  have "pinv (gw_World g backend)"
    using assms(1,2) by (auto simp: gw_inv_def world_ok_def)
  from storage_provider.put_ok [OF P this assms(3)] have "pinv p'" "pieces p' i = Some d" "pr_PieceID res = i" by auto
  with assms(4) storage_provider.get_ok [OF P \<open>pinv p'\<close>, of i] show "sp_GetPiece provider i None p' = Inr d" "pr_PieceID res = i"
    by (auto simp: is_ok_def split: sum.splits)
qed

lemma put_then_get:
  assumes "inv g" "crypto_laws (cfg_Crypto cfg)" "\<And>ge. cfg_Encryption cfg = Some ge \<Longrightarrow> wrapper_laws ge" "random_for (length (rq_Body rq)) (rq_rand rq)"
    and adm: "put_admission cfg rq g = Inr (ms', t, b, k, backend, provider, policy)" and kind: "pp_ErasureProfile policy = []" "\<not> dedupEnabled cfg policy"
    and put: "Put cfg rq g = (rs, g')" "succeeded rs"
    and st: "rd_cfg rd = cfg" "rg_gw st = g'" "fst (cache_lookup rd rq' t b (newPieceID t b k (rq_now rq 1)) st) = None"
    and rq': "authenticate cfg rq' = Inr t" "rq_Path rq' = rq_Path rq" "rq_Header rq' = []"
      "versionId rq' = newPieceID t b k (rq_now rq 1) \<or> versionId rq' = []"
    and ok: "is_ok (op_Get ms (object_key t b k (versionId rq')) (gw_Manifests g'))"
      "is_ok (sp_GetPiece provider (newPieceID t b k (rq_now rq 1)) None (gw_World g' backend))"
  shows "rs_Status (fst (Get rd rq' st)) = 200 \<and> rs_Body (fst (Get rd rq' st)) = rq_Body rq"
proof -
  let ?i = "newPieceID t b k (rq_now rq 1)"
  let ?id = "\<lparr>ai_TenantID = t, ai_Bucket = b, ai_ObjectKeyHash = hashObjectKey k, ai_VersionID = ?i\<rparr>"
  have a: "ms' = ms" "provs backend = Some provider" "parseBucketKey (rq_Path rq) = (b, k)" "b \<noteq> []" "k \<noteq> []"
    using put_admission_ok [OF adm] adm by (auto simp: put_admission_def split: sum.splits if_splits)
  have "putSinglePiece cfg ms rq t b k backend provider policy g = (rs, g')"
    using put adm a(1) kind by (simp add: Put_def)
  from putSinglePiece_stores [OF this put(2)] obtain pd d res p' m s where
    w: "prepareSinglePieceEncryption (cfg_Crypto cfg) (cfg_Encryption cfg) rq (pp_EncryptionMode policy) ?id = Inr pd" "pd_Body pd = Inr d"
      "sp_PutPiece provider ?i d (put_options (pd_ContentLength pd) rq) (gw_World g backend) = (Inr res, p')"
      "op_Put ms (object_key t b k ?i) m (gw_Manifests g) = Inr s" "gw_Manifests g' = s" "gw_World g' = (gw_World g)(backend := p')"
    and m: "m_Encryption m = pd_Encryption pd" "\<not> m_DeleteMarker m"
      "m_Pieces m = [new_piece (pr_PieceID res) backend (pr_Locator res) (content_hash (cfg_blake3 cfg) d) (pr_ETag res) (pr_SizeBytes res)]" "aadIdentityOf m = ?id"
    by metis
  let ?p = "new_piece ?i backend (pr_Locator res) (content_hash (cfg_blake3 cfg) d) (pr_ETag res) (pr_SizeBytes res)"
  have g: "sp_GetPiece provider ?i None p' = Inr d" "pr_PieceID res = ?i"
    using written_piece [OF assms(1) a(2) w(3)] ok(2) w(6) by auto
  have "op_Get ms (object_key t b k (versionId rq')) (gw_Manifests g') = Inr m"
    using written_resolves [OF _ w(4)] assms(1) ok(1) rq'(4) w(5) by (simp add: gw_inv_def)
  then have r: "resolve (rd_cfg rd) rq' (rg_gw st) = Inr (m, provider, ?p, t, b)"
    using st rq' a m g(2) cfg_ms cfg_provs by (simp add: resolve_def new_piece_def)
  have p: "p_PieceID ?p = ?i" "p_Backend ?p = backend" "p_ShardKind ?p = []" "Verify (cfg_blake3 cfg) d ?p = Inr ()"
    by (simp_all add: new_piece_def zero_Piece_def Verify_content_hash)
  show ?thesis
  proof (rule Get_whole [OF r rq'(3)])
    show "(if IsGatewayEncrypted (en_Mode (m_Encryption m)) then decryptFromStorage (cfg_Crypto (rd_cfg rd)) (cfg_Encryption (rd_cfg rd)) d (m_Encryption m) (aadIdentityOf m)
        else Inr d) = Inr (rq_Body rq)"
      using prepared_opens [OF assms(2-4) w(1,2)] unfolding st(1) m(1,4) prepared_mode [OF w(1)] by simp
  qed (use m(3) g p st w(6) in \<open>simp_all add: isErasureCodedManifest_def isMultipartManifest_def\<close>)
qed

end

text \<open>
  C3: the GET after a PUT sends the body of the PUT.  The PUT stored a single-piece object, sealed by the gateway or
  not, over any manifest store and providers that keep their contracts, with any primitives that keep the cryptographic laws; the GET of the object, current or by the
  version identifier the PUT chose, without conditions or range, finds the store and the backend answering and no
  bytes cached under the new identifier.  It answers 200 with exactly the bytes of the PUT.
\<close>

theorem Put_Get_round_trip:
  assumes "s3_gateway ci cinv entries ms minv versions current provs pinv pieces cfg"
    and "gw_inv minv cinv entries versions provs pinv pieces (cfg_blake3 cfg) g"
    and "crypto_laws (cfg_Crypto cfg)" "\<And>ge. cfg_Encryption cfg = Some ge \<Longrightarrow> wrapper_laws ge" "random_for (length (rq_Body rq)) (rq_rand rq)"
    and "put_admission cfg rq g = Inr (ms', t, b, k, backend, provider, policy)" "pp_ErasureProfile policy = []" "\<not> dedupEnabled cfg policy"
    and "Put cfg rq g = (rs, g')" "succeeded rs"
    and "rd_cfg rd = cfg" "rg_gw st = g'" "hot_cache hc cinv' view" "rd_Cache rd \<in> {None, Some hc}" "cinv' (rg_cache st)"
    and "view (rg_cache st) (newPieceID t b k (rq_now rq 1)) = None"
    and "authenticate cfg rq' = Inr t" "rq_Path rq' = rq_Path rq" "rq_Header rq' = []"
    and "versionId rq' = newPieceID t b k (rq_now rq 1) \<or> versionId rq' = []"
    and "is_ok (op_Get ms (object_key t b k (versionId rq')) (gw_Manifests g'))"
    and "is_ok (sp_GetPiece provider (newPieceID t b k (rq_now rq 1)) None (gw_World g' backend))"
  shows "rs_Status (fst (Get rd rq' st)) = 200 \<and> rs_Body (fst (Get rd rq' st)) = rq_Body rq"
proof (rule s3_gateway.put_then_get [OF assms(1-3) _ assms(5-12) _ assms(17-22)])
  show "fst (cache_lookup rd rq' t b (newPieceID t b k (rq_now rq 1)) st) = None"
    by (rule absent_miss [OF assms(13-16)])
qed (rule assms(4))

theorem Put_Get_round_trip_witness:
  "\<exists>rs g. Put demo_config (demo_request ''/b/k'' [1, 2, 3]) (empty_gateway NewBCStore) = (rs, g) \<and> rs_Status rs = 200
    \<and> rs_Status (fst (Get demo_reader (demo_request ''/b/k'' []) (demo_read_state\<lparr>rg_gw := g\<rparr>))) = 200
    \<and> rs_Body (fst (Get demo_reader (demo_request ''/b/k'' []) (demo_read_state\<lparr>rg_gw := g\<rparr>))) = [1, 2, 3]"
proof -
  let ?rq = "demo_request ''/b/k'' [1, 2, 3]" and ?i = "newPieceID AnonymousTenant ''b'' ''k'' 0"
  obtain rs g where put: "Put demo_config ?rq (empty_gateway NewBCStore) = (rs, g)" "rs_Status rs = 200"
    by (rule demo_put [of NewBCStore])
  have ok: "succeeded rs" "rq_now ?rq 1 = 0"
    using put(2) by (simp_all add: succeeded_def demo_request_def)
  have single: "putSinglePiece demo_config mem_ops ?rq AnonymousTenant ''b'' ''k'' ''local'' local_provider zero_PlacementPolicy (empty_gateway NewBCStore) = (rs, g)"
    using put(1) demo_admission [of "[1, 2, 3]" NewBCStore] by (simp add: Put_def dedupEnabled_def)
  obtain pd :: prepared and d res p' m s where
    w: "sp_PutPiece local_provider ?i d (put_options (pd_ContentLength pd) ?rq) (gw_World (empty_gateway NewBCStore) ''local'') = (Inr res, p')"
      "op_Put mem_ops (object_key AnonymousTenant ''b'' ''k'' ?i) m (gw_Manifests (empty_gateway NewBCStore)) = Inr s"
      "gw_Manifests g = s" "gw_World g = (gw_World (empty_gateway NewBCStore))(''local'' := p')"
    by (rule putSinglePiece_stores [OF single ok(1), unfolded ok(2)]) blast
  have v: "versionId (demo_request ''/b/k'' []) = []"
    by (simp add: versionId_def demo_request_def QueryGet_def) code_simp
  have "is_ok (op_Get mem_ops (object_key AnonymousTenant ''b'' ''k'' []) (gw_Manifests g))"
    using w(2,3) by (auto simp: mem_ops_def Mem_Put_def Mem_Get_def Mem_resolve_def lk_of_def object_key_def store_simps is_ok_def Let_def)
  moreover have "is_ok (sp_GetPiece local_provider ?i None (gw_World g ''local''))"
    using w(1,4) newPieceID_valid [of AnonymousTenant "''b''" "''k''" 0]
    by (auto simp: local_provider_def Local_PutPiece_def Local_GetPiece_def store_simps is_ok_def Let_def split: if_splits)
  ultimately have "rs_Status (fst (Get demo_reader (demo_request ''/b/k'' []) (demo_read_state\<lparr>rg_gw := g\<rparr>))) = 200
      \<and> rs_Body (fst (Get demo_reader (demo_request ''/b/k'' []) (demo_read_state\<lparr>rg_gw := g\<rparr>))) = rq_Body ?rq"
    using demo_crypto_laws demo_random v
    by (intro Put_Get_round_trip [OF mem_s3.s3_gateway_axioms empty_gateway_inv _ _ _ demo_admission _ _ put(1) ok(1) _ _ mem_cache.hot_cache_axioms demo_available(5)])
      (simp_all add: demo_cache_empty demo_available(6) demo_reader_def dedupEnabled_def authenticate_def demo_request_def mem_config_def demo_base_def numeral_3_eq_3)
  then show ?thesis
    using put by (simp add: demo_request_def)
qed

end
