(* ===== verification/S3_Multipart_Correct.thy ===== *)
theory S3_Multipart_Correct
  imports S3_Multipart S3_Round_Trip "HOL-Library.Multiset"
begin

text \<open>
  What is uploaded in parts is what is read: a session keeps, for every part recorded in
  it, the bytes of the last upload of that part, and the object \<open>Complete\<close> publishes is
  read back as the concatenation of the listed parts in the order of their numbers.

  The locale \<open>multipart_gateway\<close> joins the contracts of the stores, the providers and the
  session store; it is interpreted on the in-memory ones.
\<close>

section \<open>Sessions between requests\<close>

text \<open>What a session fixes when it is created.\<close>

definition session_frame :: "Upload \<Rightarrow> Upload" where
  "session_frame u = u\<lparr>up_PartHashes := [], up_PlaintextPartHashes := [], up_parts := []\<rparr>"

lemma session_frame_simps [simp]:
  "session_frame (SetPartHash n h u) = session_frame u" "session_frame (SetPlaintextPartHash n h u) = session_frame u"
  "session_frame (u\<lparr>up_parts := ps\<rparr>) = session_frame u"
  by (simp_all add: session_frame_def SetPartHash_def SetPlaintextPartHash_def)

lemma session_frame_fields:
  "up_TenantID (session_frame u) = up_TenantID u" "up_Bucket (session_frame u) = up_Bucket u" "up_ObjectKey (session_frame u) = up_ObjectKey u"
  "up_Backend (session_frame u) = up_Backend u" "up_Policy (session_frame u) = up_Policy u" "up_EncMode (session_frame u) = up_EncMode u"
  "up_DEKMaterial (session_frame u) = up_DEKMaterial u" "up_VersionID (session_frame u) = up_VersionID u"
  "session_encryption (session_frame u) = session_encryption u" "partsEncryptionConfig (session_frame u) = partsEncryptionConfig u"
  "uploadAADIdentity (session_frame u) = uploadAADIdentity u"
  by (simp_all add: session_frame_def session_encryption_def partsEncryptionConfig_def uploadAADIdentity_def Let_def)

lemma session_frameD:
  assumes "session_frame u = session_frame u'"
  shows "up_TenantID u = up_TenantID u'" "up_Bucket u = up_Bucket u'" "up_ObjectKey u = up_ObjectKey u'" "up_Backend u = up_Backend u'"
    "up_Policy u = up_Policy u'" "up_EncMode u = up_EncMode u'" "up_DEKMaterial u = up_DEKMaterial u'" "up_VersionID u = up_VersionID u'"
    "session_encryption u = session_encryption u'" "partsEncryptionConfig u = partsEncryptionConfig u'" "uploadAADIdentity u = uploadAADIdentity u'"
  by (subst (1 2) session_frame_fields [symmetric], simp only: assms)+

text \<open>The stored bytes d hold the part body: as they are, or sealed with the session's key.\<close>

definition part_opens :: "('m, 'i, 'p, 'b) Config \<Rightarrow> Upload \<Rightarrow> bytes \<Rightarrow> bytes \<Rightarrow> bool" where
  "part_opens cfg u d body \<longleftrightarrow>
    (if IsGatewayEncrypted (up_EncMode u)
     then decryptWithDEK (cfg_Crypto cfg) d (up_DEKMaterial u) (partsEncryptionConfig u) (uploadAADIdentity u) = Inr body
     else d = body)"

definition part_stored :: "('m, 'i, 'p, 'b) Config \<Rightarrow> ('p \<Rightarrow> string \<Rightarrow> bytes option) \<Rightarrow> ('m, 'i, 'p, 'b) Gateway \<Rightarrow> string \<Rightarrow> Upload \<Rightarrow> int \<Rightarrow> bytes \<Rightarrow> bool" where
  "part_stored cfg pieces g i u n body \<longleftrightarrow>
    (\<exists>p d. gm_get (up_parts u) n = Some p \<and> mpp_PartNumber p = n \<and> n > 0 \<and> mpp_PieceID p = partPieceID i n \<and> mpp_Backend p = up_Backend u
      \<and> mpp_SizeBytes p = int (length body) \<and> pieces (gw_World g (up_Backend u)) (partPieceID i n) = Some d
      \<and> PartHash u n = Some (cfg_blake3 cfg d) \<and> part_opens cfg u d body)"

definition session_holds :: "('m, 'i, 'p, 'b) Config \<Rightarrow> ('p \<Rightarrow> string \<Rightarrow> bytes option) \<Rightarrow> ('m, 'i, 'p, 'b) Gateway \<Rightarrow> string \<Rightarrow> Upload \<Rightarrow> (int \<rightharpoonup> bytes) \<Rightarrow> bool" where
  "session_holds cfg pieces g i u content \<longleftrightarrow>
    (\<forall>n. case content n of None \<Rightarrow> gm_get (up_parts u) n = None | Some body \<Rightarrow> part_stored cfg pieces g i u n body)"

lemma partPieceID_inj: "n > 0 \<Longrightarrow> n' > 0 \<Longrightarrow> partPieceID i n = partPieceID i n' \<Longrightarrow> n = n'"
  using pad_decimal_inj [of 5 "nat n" "nat n'"] by (simp add: partPieceID_def)

lemma part_opens_frame: "session_frame u = session_frame u' \<Longrightarrow> part_opens cfg u d body = part_opens cfg u' d body"
  by (simp only: part_opens_def session_frameD [of u u'])

section \<open>One part\<close>

definition part_number :: "Request \<Rightarrow> int" where
  "part_number rq = projr (ParseInt (QueryGet (rq_RawQuery rq) ''partNumber''))"

text \<open>A nonce for every chunk of the body.\<close>

definition part_random :: "Request \<Rightarrow> bool" where
  "part_random rq \<longleftrightarrow> nonce_sizes (rq_rand rq) \<and> num_chunks (nat DefaultChunkSize) (length (rq_Body rq)) \<le> length (rq_rand rq)"

lemma ReadAll_raw: "ReadAll rq = Inr d \<Longrightarrow> d = rq_Body rq" "raw_body rq = Inr d \<Longrightarrow> d = rq_Body rq"
  by (auto simp: ReadAll_def raw_body_def src_error_def split: option.splits)

lemma seal_part_opens:
  assumes "seal_part cfg rq us i n upload u = (Inr (Inr d, cl, ps), u1)" "crypto_laws (cfg_Crypto cfg)" "part_random rq"
  shows "part_opens cfg upload d (rq_Body rq)"
    and "IsGatewayEncrypted (up_EncMode upload) \<Longrightarrow> ps = int (length (rq_Body rq)) \<and> length (up_DEKMaterial upload) = KeySize"
    and "u1 = u \<or> (\<exists>h. u1 = us_Update us i (SetPlaintextPartHash n h) u)"
proof -
  note defs = seal_part_def Let_def
  show "u1 = u \<or> (\<exists>h. u1 = us_Update us i (SetPlaintextPartHash n h) u)"
    using assms(1) by (auto simp: defs split: if_splits sum.splits)
  have "part_opens cfg upload d (rq_Body rq) \<and> ps = int (length (rq_Body rq)) \<and> length (up_DEKMaterial upload) = KeySize" if m: "IsGatewayEncrypted (up_EncMode upload)"
  proof -
    from m assms(1) obtain pt where pt: "ReadAll rq = Inr pt" "ps = int (length pt)"
        "encryptWithDEK (cfg_Crypto cfg) pt (up_DEKMaterial upload) (partsEncryptionConfig upload) (uploadAADIdentity upload) (rq_rand rq) = Inr d"
      by (auto simp: defs IsGatewayEncrypted_def split: if_splits sum.splits)
    then obtain er where er: "EncryptObject pt None (up_DEKMaterial upload) (gatewayEncryptOptions (partsEncryptionConfig upload) (uploadAADIdentity upload)) (rq_rand rq) = Inr er"
        "drain (cfg_Crypto cfg) er = Inr d"
      by (auto simp: encryptWithDEK_def)
    have "pt = rq_Body rq" by (rule ReadAll_raw(1) [OF pt(1)])
    with drain_opens [OF assms(2) er] EncryptObject_key [OF er(1)] assms(3) pt(2) m show ?thesis
      by (simp add: part_opens_def part_random_def)
  qed
  moreover have "d = rq_Body rq" if "\<not> IsGatewayEncrypted (up_EncMode upload)"
    using that assms(1) ReadAll_raw(2) [of rq d] by (auto simp: defs IsGatewayEncrypted_def split: if_splits)
  ultimately show "part_opens cfg upload d (rq_Body rq)"
    and "IsGatewayEncrypted (up_EncMode upload) \<Longrightarrow> ps = int (length (rq_Body rq)) \<and> length (up_DEKMaterial upload) = KeySize"
    by (auto simp: part_opens_def)
qed

text \<open>What a successful upload of a part went through.\<close>

lemma upload_begin_ok:
  assumes "upload_begin cfg us rq u = (Inr pu, u1)"
  shows "pu_UploadID pu = QueryGet (rq_RawQuery rq) ''uploadId''" "pu_PartNumber pu = part_number rq" "pu_PartNumber pu > 0"
    and "us_Get us (pu_TenantID pu) (pu_UploadID pu) u = Inr (pu_Upload pu)" "up_TenantID (pu_Upload pu) = pu_TenantID pu"
    and "seal_part cfg rq us (pu_UploadID pu) (pu_PartNumber pu) (pu_Upload pu) u = (Inr (pu_Body pu, pu_ContentLength pu, pu_PlaintextSize pu), u1)"
  using assms by (auto simp: upload_begin_def part_number_def Let_def split: sum.splits if_splits option.splits prod.splits mp_error.splits)

lemma upload_write_ok:
  assumes "upload_write cfg us rq pu (g, u) = (Inr res, (g', u'))"
  obtains provider d p' where "cfg_Providers cfg (up_Backend (pu_Upload pu)) = Some provider" "pu_Body pu = Inr d"
    "sp_PutPiece provider (partPieceID (pu_UploadID pu) (pu_PartNumber pu)) d (put_options (pu_ContentLength pu) rq) (gw_World g (up_Backend (pu_Upload pu))) = (Inr res, p')"
    "g' = g\<lparr>gw_World := (gw_World g)(up_Backend (pu_Upload pu) := p')\<rparr>"
    "u' = us_Update us (pu_UploadID pu) (SetPartHash (pu_PartNumber pu) (cfg_blake3 cfg d)) u"
proof -
  from assms obtain provider where pv: "cfg_Providers cfg (up_Backend (pu_Upload pu)) = Some provider"
    by (auto simp: upload_write_def split: option.splits)
  with assms have gp: "gw_put provider (up_Backend (pu_Upload pu)) (partPieceID (pu_UploadID pu) (pu_PartNumber pu)) (pu_Body pu) (put_options (pu_ContentLength pu) rq) g = (Inr res, g')"
    and u': "u' = us_Update us (pu_UploadID pu) (SetPartHash (pu_PartNumber pu) (cfg_blake3 cfg (projr (pu_Body pu)))) u"
    by (auto simp: upload_write_def split: prod.splits sum.splits)
  from gw_put_result [OF gp] u' pv that show ?thesis by (metis sum.sel(2))
qed

lemma upload_record_ok:
  assumes "upload_record cfg us rq pu res (g, u) = (rs, (g', u'))" "rs_Status rs = 200"
  shows "us_PutPart us (pu_TenantID pu) (pu_UploadID pu)
      \<lparr>mpp_PartNumber = pu_PartNumber pu, mpp_PieceID = pr_PieceID res, mpp_Backend = up_Backend (pu_Upload pu), mpp_ETag = pr_ETag res,
       mpp_SizeBytes = (if IsGatewayEncrypted (up_EncMode (pu_Upload pu)) then pu_PlaintextSize pu else pr_SizeBytes res), mpp_UploadedAt = rq_now rq 1\<rparr> u = Inr u'"
    "gw_World g' = gw_World g" "gw_Manifests g' = gw_Manifests g"
  using assms by (auto simp: upload_record_def Let_def emit_if_def emit_def log_event_def split: sum.splits if_splits)

lemma writePutPieceError_status [simp]: "rs_Status (writePutPieceError e) \<noteq> 200"
  by (simp add: writePutPieceError_def split: option.splits body_error.splits)

lemma error_statuses [simp]: "rs_Status (writeAuthError e) \<noteq> 200" "rs_Status (writeBodyReadError be) \<noteq> 200"
  by (simp_all add: writeAuthError_def writeBodyReadError_def split: auth_error.splits body_error.splits)

lemma seal_part_error: "seal_part cfg rq us i n up u = (Inl resp, u1) \<Longrightarrow> rs_Status resp \<noteq> 200"
  by (auto simp: seal_part_def Let_def split: if_splits sum.splits)

lemma upload_begin_error:
  assumes "upload_begin cfg us rq u = (Inl resp, u1)"
  shows "rs_Status resp \<noteq> 200"
proof -
  let ?i = "QueryGet (rq_RawQuery rq) ''uploadId''" and ?n = "ParseInt (QueryGet (rq_RawQuery rq) ''partNumber'')"
  show ?thesis
  proof (cases "authenticate cfg rq"; cases ?n)
    fix t n
    assume 1: "authenticate cfg rq = Inr t" "?n = Inr n"
    show ?thesis
    proof (cases "n < 1 \<or> n > 10000")
      case False
      then show ?thesis
      proof (cases "us_Get us t ?i u")
        case (Inl e)
        with 1 False assms show ?thesis
          by (cases e) (auto simp: upload_begin_def)
      next
        case (Inr upload)
        with 1 False assms show ?thesis
          by (cases "up_TenantID upload \<noteq> t"; cases "cfg_Providers cfg (up_Backend upload)"; cases "seal_part cfg rq us ?i n upload u")
            (auto simp: upload_begin_def dest: seal_part_error split: sum.splits)
      qed
    qed (use 1 assms in \<open>auto simp: upload_begin_def\<close>)
  qed (use assms in \<open>auto simp: upload_begin_def Let_def\<close>)
qed

lemma upload_write_error:
  assumes "upload_write cfg us rq pu st = (Inl resp, st1)"
  shows "rs_Status resp \<noteq> 200"
proof (cases "cfg_Providers cfg (up_Backend (pu_Upload pu))")
  case (Some provider)
  with assms show ?thesis
    by (cases "gw_put provider (up_Backend (pu_Upload pu)) (partPieceID (pu_UploadID pu) (pu_PartNumber pu)) (pu_Body pu) (put_options (pu_ContentLength pu) rq) (fst st)")
      (auto simp: upload_write_def split: sum.splits)
qed (use assms in \<open>auto simp: upload_write_def\<close>)

lemma UploadPart_stages:
  assumes "mh_Multipart mh = Some us" "UploadPart mh rq (g, u) = (rs, st')" "rs_Status rs = 200"
  obtains pu u1 res st2 where "upload_begin (mh_cfg mh) us rq u = (Inr pu, u1)" "upload_write (mh_cfg mh) us rq pu (g, u1) = (Inr res, st2)"
    "upload_record (mh_cfg mh) us rq pu res st2 = (rs, st')"
proof -
  obtain r u1 where b: "upload_begin (mh_cfg mh) us rq u = (r, u1)" by force
  with assms upload_begin_error [of "mh_cfg mh" us rq u] obtain pu where pu: "r = Inr pu"
    by (cases r) (auto simp: UploadPart_def)
  obtain w st2 where w: "upload_write (mh_cfg mh) us rq pu (g, u1) = (w, st2)" by (meson surj_pair)
  with assms b pu upload_write_error [of "mh_cfg mh" us rq pu "(g, u1)"] obtain res where "w = Inr res"
    by (cases w) (auto simp: UploadPart_def)
  with assms b pu w that show ?thesis
    by (auto simp: UploadPart_def)
qed

lemma PartHash_simps [simp]:
  "PartHash (SetPartHash n h u) m = (if m = n then Some h else PartHash u m)" "PartHash (SetPlaintextPartHash n h u) m = PartHash u m"
  "PartHash (u\<lparr>up_parts := ps\<rparr>) m = PartHash u m" "up_parts (SetPartHash n h u) = up_parts u" "up_parts (SetPlaintextPartHash n h u) = up_parts u"
  by (simp_all add: PartHash_def SetPartHash_def SetPlaintextPartHash_def store_simps)

text \<open>The new part is held, and the others still are.\<close>

lemma session_holds_step:
  assumes "session_holds cfg pieces g i upload content" "session_frame upload' = session_frame upload" "n > 0"
    and parts: "\<And>m. gm_get (up_parts upload') m = (if m = n then Some p else gm_get (up_parts upload) m)"
    and hash: "\<And>m. PartHash upload' m = (if m = n then Some (cfg_blake3 cfg d) else PartHash upload m)"
    and pcs: "\<And>j. pieces (gw_World g' (up_Backend upload)) j = (if j = partPieceID i n then Some d else pieces (gw_World g (up_Backend upload)) j)"
    and p: "mpp_PartNumber p = n" "mpp_PieceID p = partPieceID i n" "mpp_Backend p = up_Backend upload" "mpp_SizeBytes p = int (length body)"
    and d: "part_opens cfg upload d body"
  shows "session_holds cfg pieces g' i upload' (content(n \<mapsto> body))"
  unfolding session_holds_def
proof
  fix m
  note f = session_frameD(4) [OF assms(2)] part_opens_frame [OF assms(2)]
  show "case (content(n \<mapsto> body)) m of None \<Rightarrow> gm_get (up_parts upload') m = None | Some body \<Rightarrow> part_stored cfg pieces g' i upload' m body"
  proof (cases "m = n")
    case True
    with p d assms(3) show ?thesis
      by (simp add: part_stored_def parts hash pcs f)
  next
    case False
    have *: "case content m of None \<Rightarrow> gm_get (up_parts upload) m = None | Some body \<Rightarrow> part_stored cfg pieces g i upload m body"
      using assms(1) by (simp add: session_holds_def)
    have "part_stored cfg pieces g' i upload' m b" if "part_stored cfg pieces g i upload m b" for b
      using that False partPieceID_inj [of m n i] assms(3) unfolding part_stored_def f by (auto simp: parts hash pcs)
    with * False show ?thesis
      by (auto simp: parts split: option.splits)
  qed
qed

locale multipart_gateway = s3_gateway ci cinv entries ms minv versions current provs pinv pieces cfg + upload_store us sessions
  for ci :: "'i ContentIndex" and cinv entries and ms :: "'m ManifestStore" and minv versions current
    and provs :: "'p backends" and pinv and pieces and cfg :: "('m, 'i, 'p, 'b) Config" and us :: "'u UploadStore" and sessions +
  fixes mh :: "('m, 'i, 'p, 'b, 'u) Multi"
  assumes mh_cfg: "mh_cfg mh = cfg" and mh_store: "mh_Multipart mh = Some us"
begin

lemma put_part_step:
  assumes "sessions u i = Some upload" "session_holds cfg pieces g i upload content" "world_ok provs pinv (gw_World g)"
    and "crypto_laws (cfg_Crypto cfg)" "part_random rq" "QueryGet (rq_RawQuery rq) ''uploadId'' = i"
    and "UploadPart mh rq (g, u) = (rs, (g', u'))" "rs_Status rs = 200"
  obtains upload' where "sessions u' i = Some upload'" "session_frame upload' = session_frame upload"
    "session_holds cfg pieces g' i upload' (content(part_number rq \<mapsto> rq_Body rq))"
    "world_ok provs pinv (gw_World g')" "gw_Manifests g' = gw_Manifests g"
    "IsGatewayEncrypted (up_EncMode upload) \<Longrightarrow> length (up_DEKMaterial upload) = KeySize"
proof -
  let ?n = "part_number rq"
  obtain pu u1 res st2 where s: "upload_begin cfg us rq u = (Inr pu, u1)" "upload_write cfg us rq pu (g, u1) = (Inr res, st2)"
      "upload_record cfg us rq pu res st2 = (rs, (g', u'))"
    using UploadPart_stages [OF mh_store assms(7,8)] unfolding mh_cfg .
  note b = upload_begin_ok [OF s(1)]
  have pu: "pu_UploadID pu = i" "pu_PartNumber pu = ?n" "pu_Upload pu = upload" "?n > 0"
    using b(1-4) assms(1,6) get_law [of "pu_TenantID pu" i u] by (auto split: if_splits)
  obtain g2 u2 where st2: "st2 = (g2, u2)" by (cases st2)
  obtain provider d p' where w: "provs (up_Backend upload) = Some provider" "pu_Body pu = Inr d"
      "sp_PutPiece provider (partPieceID i ?n) d (put_options (pu_ContentLength pu) rq) (gw_World g (up_Backend upload)) = (Inr res, p')"
      "g2 = g\<lparr>gw_World := (gw_World g)(up_Backend upload := p')\<rparr>" "u2 = us_Update us i (SetPartHash ?n (cfg_blake3 cfg d)) u1"
    using upload_write_ok [OF s(2) [unfolded st2]] unfolding pu cfg_provs .
  note r = upload_record_ok [OF s(3) [unfolded st2] assms(8), unfolded pu]
  have seal: "seal_part cfg rq us i ?n upload u = (Inr (Inr d, pu_ContentLength pu, pu_PlaintextSize pu), u1)"
    using b(6) w(2) unfolding pu by simp
  note o = seal_part_opens [OF seal assms(4,5)]
  obtain upload1 where u1: "sessions u1 i = Some upload1" "session_frame upload1 = session_frame upload" "up_parts upload1 = up_parts upload"
      "\<And>m. PartHash upload1 m = PartHash upload m"
    using o(3) assms(1) update_law [of i _ u] by auto
  have u2: "sessions u2 i = Some (SetPartHash ?n (cfg_blake3 cfg d) upload1)"
    using u1(1) w(5) update_law [of i _ u1] by simp
  have "pinv (gw_World g (up_Backend upload))"
    using assms(3) w(1) by (simp add: world_ok_def)
  from storage_provider.put_ok [OF providers [OF w(1)] this w(3)] have q: "pinv p'" "pieces p' = (pieces (gw_World g (up_Backend upload)))(partPieceID i ?n \<mapsto> d)"
      "pr_PieceID res = partPieceID i ?n" "pr_SizeBytes res = int (length d)" by auto
  from put_part_law [OF r(1)] u2 obtain p where p: "sessions u' i = Some ((SetPartHash ?n (cfg_blake3 cfg d) upload1)\<lparr>up_parts := gm_set ?n p (up_parts upload)\<rparr>)"
      "mpp_PartNumber p = ?n" "mpp_PieceID p = pr_PieceID res" "mpp_Backend p = up_Backend upload"
      "mpp_SizeBytes p = (if IsGatewayEncrypted (up_EncMode upload) then pu_PlaintextSize pu else pr_SizeBytes res)"
    by (auto simp: u1(3))
  have "part_opens cfg upload d (rq_Body rq)" by (rule o(1))
  moreover have "mpp_SizeBytes p = int (length (rq_Body rq))"
    using p(5) o(1,2) q(4) by (auto simp: part_opens_def)
  ultimately have "session_holds cfg pieces g' i ((SetPartHash ?n (cfg_blake3 cfg d) upload1)\<lparr>up_parts := gm_set ?n p (up_parts upload)\<rparr>) (content(?n \<mapsto> rq_Body rq))"
    using p(2-4) q u1 pu(4) r(2) w(4)
    by (intro session_holds_step [OF assms(2)]) (simp_all add: store_simps)
  moreover have "world_ok provs pinv (gw_World g')"
    using assms(3) q(1) r(2) w(4) by (simp add: world_ok_def)
  ultimately show ?thesis
    using that [OF p(1)] u1(2) r(3) w(4) o(2) by simp
qed

end

section \<open>Publishing the object\<close>

lemma retention_keeps_size:
  "applyDefaultObjectLockRetention cfg rq t b m g = Inr m' \<Longrightarrow> m_ObjectSize m' = m_ObjectSize m"
  by (auto simp: applyDefaultObjectLockRetention_def applyDefaultRetention_def split: option.splits if_splits)

lemma complete_error_status [simp]: "rs_Status (complete_error e) \<noteq> 200"
  by (cases e) (simp_all add: complete_error_def)

lemma complete_admission_error:
  assumes "complete_admission cfg rq doc g = Inl resp"
  shows "rs_Status resp \<noteq> 200"
proof -
  have l: "allowObjectLockOverwrite cfg ms rq t b k g = Some resp \<Longrightarrow> rs_Status resp \<noteq> 200" for ms t b k
    by (auto simp: allowObjectLockOverwrite_def split: option.splits sum.splits if_splits store_error.splits)
  show ?thesis
  proof (cases "authenticate cfg rq")
    case (Inr t)
    obtain b k where bk: "parseBucketKey (rq_Path rq) = (b, k)" by force
    with Inr assms l show ?thesis
      by (cases "b = [] \<or> k = []"; cases "cfg_Manifests cfg"; cases "read_limited rq (2 ^ 20)"; cases doc)
        (auto simp: complete_admission_def split: option.splits if_splits)
  qed (use assms in \<open>auto simp: complete_admission_def\<close>)
qed

lemma publish_manifest_ok:
  assumes "publish_manifest cfg ms rq t b k upload parts m0 g = (rs, etag, g')" "rs_Status rs = 200"
  obtains m s where "applyDefaultObjectLockRetention cfg rq t b m0 g = Inr m" "op_Put ms (object_key t b k (m_VersionID m)) m (gw_Manifests g) = Inr s"
    "gw_Manifests g' = s" "gw_World g' = gw_World g"
proof -
  from assms obtain m where m: "applyDefaultObjectLockRetention cfg rq t b m0 g = Inr m"
    by (auto simp: publish_manifest_def split: sum.splits)
  with assms obtain s where s: "op_Put ms (object_key t b k (m_VersionID m)) m (gw_Manifests g) = Inr s"
    by (auto simp: publish_manifest_def split: sum.splits)
  have "gw_Manifests g' = s" "gw_World g' = gw_World g"
    using assms m s by (auto simp: publish_manifest_def Let_def notify_def audit_def log_event_def split: prod.splits)
  with m s that show ?thesis by blast
qed

lemma CompleteMultipartUpload_stages:
  assumes "mh_Multipart mh = Some us" "CompleteMultipartUpload mh rq doc (g, u) = (rs, etag, (g', u'))" "rs_Status rs = 200"
  obtains ms t b k claims parts upload r g1 where "complete_admission (mh_cfg mh) rq doc g = Inr (ms, t, b, k, claims)"
    "us_Complete us (QueryGet (rq_RawQuery rq) ''uploadId'') t b k claims u = (Inr (parts, upload), u')"
    "multipart_dedup (mh_cfg mh) rq t b upload parts (complete_manifest rq t b k upload parts) g = (r, g1)"
    "case r of Inl resp \<Rightarrow> resp = rs \<and> g' = g1 | Inr m \<Rightarrow> publish_manifest (mh_cfg mh) ms rq t b k upload parts m g1 = (rs, etag, g')"
proof -
  from assms complete_admission_error [of "mh_cfg mh" rq doc g] obtain ms t b k claims where
    a: "complete_admission (mh_cfg mh) rq doc g = Inr (ms, t, b, k, claims)"
    by (cases "complete_admission (mh_cfg mh) rq doc g") (auto simp: CompleteMultipartUpload_def)
  obtain c u1 where c: "us_Complete us (QueryGet (rq_RawQuery rq) ''uploadId'') t b k claims u = (c, u1)" by force
  with assms a obtain parts upload where pu: "c = Inr (parts, upload)"
    by (cases c) (auto simp: CompleteMultipartUpload_def)
  obtain r g1 where r: "multipart_dedup (mh_cfg mh) rq t b upload parts (complete_manifest rq t b k upload parts) g = (r, g1)"
    by (meson surj_pair)
  have "u' = u1 \<and> (case r of Inl resp \<Rightarrow> resp = rs \<and> g' = g1 | Inr m \<Rightarrow> publish_manifest (mh_cfg mh) ms rq t b k upload parts m g1 = (rs, etag, g'))"
    using assms a c pu r by (cases r) (auto simp: CompleteMultipartUpload_def split: prod.splits)
  with a c pu r that show ?thesis by blast
qed

lemma multipart_dedup_off: "\<not> dedupEnabled cfg (up_Policy upload) \<Longrightarrow> multipart_dedup cfg rq t b upload parts m g = (Inr m, g)"
  by (simp add: multipart_dedup_def multipartDedupEligible_def split: option.splits)

lemma complete_manifest_simps [simp]:
  "m_Pieces (complete_manifest rq t b k upload parts) = map (part_piece upload) parts"
  "m_Encryption (complete_manifest rq t b k upload parts) = session_encryption upload"
  "m_ObjectSize (complete_manifest rq t b k upload parts) = total_part_size parts"
  "\<not> m_DeleteMarker (complete_manifest rq t b k upload parts)"
  "m_VersionID (complete_manifest rq t b k upload parts) = (if up_VersionID upload \<noteq> [] then up_VersionID upload else newPieceID t b k (rq_now rq 1))"
  "aadIdentityOf (complete_manifest rq t b k upload parts) = \<lparr>ai_TenantID = t, ai_Bucket = b, ai_ObjectKeyHash = hashObjectKey k,
     ai_VersionID = (if up_VersionID upload \<noteq> [] then up_VersionID upload else newPieceID t b k (rq_now rq 1))\<rparr>"
  by (simp_all add: complete_manifest_def applyMultipartObjectMetadata_def zero_ObjectManifest_def aadIdentityOf_def)

section \<open>The listed parts\<close>

lemma claimed_numbers:
  assumes "claimed_parts u claims = Inr qs" "\<And>n p. gm_get (up_parts u) n = Some p \<Longrightarrow> mpp_PartNumber p = n"
  shows "map mpp_PartNumber qs = map pref_PartNumber claims"
  using claimed_parts_all [OF assms(1)] assms(2) by (intro nth_equalityI) simp_all

lemma sort_parts_numbers: "map mpp_PartNumber (sort_parts qs) = sort (map mpp_PartNumber qs)"
proof (rule properties_for_sort [symmetric])
  show "sorted (map mpp_PartNumber (sort_parts qs))" by (rule sorted_sort_parts)
  show "mset (map mpp_PartNumber (sort_parts qs)) = mset (map mpp_PartNumber qs)"
    by (simp add: sort_parts_def mset_map)
qed

lemma wrap_int64_id: "- (2 ^ 63) \<le> n \<Longrightarrow> n < 2 ^ 63 \<Longrightarrow> wrap_int64 n = n"
  by (simp add: wrap_int64_def)

lemma total_part_size_sum:
  assumes "\<And>p. p \<in> set ps \<Longrightarrow> mpp_SizeBytes p = int (L p)" "sum_list (map L ps) < 2 ^ 63"
  shows "total_part_size ps = int (sum_list (map L ps))"
proof -
  have "foldl (\<lambda>n p. wrap_int64 (n + mpp_SizeBytes p)) (int a) ps = int (a + sum_list (map L ps))"
    if "\<And>p. p \<in> set ps \<Longrightarrow> mpp_SizeBytes p = int (L p)" "a + sum_list (map L ps) < 2 ^ 63" for a
    using that
  proof (induction ps arbitrary: a)
    case (Cons p ps)
    have "wrap_int64 (int a + mpp_SizeBytes p) = int (a + L p)"
      using Cons.prems by (subst wrap_int64_id) simp_all
    with Cons.IH [of "a + L p"] Cons.prems show ?case by (simp add: add.assoc)
  qed simp
  from this [of 0] assms show ?thesis by (simp add: total_part_size_def)
qed

section \<open>Reading the parts back\<close>

lemma fetch_parts_all:
  assumes "\<And>p. p \<in> set ps \<Longrightarrow> \<exists>pv. cfg_Providers (rd_cfg rd) (p_Backend p) = Some pv \<and> sp_GetPiece pv (p_PieceID p) None (gw_World (rg_gw st) (p_Backend p)) = Inr (D p)"
    and "\<And>p. p \<in> set ps \<Longrightarrow> Verify (cfg_blake3 (rd_cfg rd)) (D p) p = Inr ()"
  shows "fetch_parts rd ps st = (Inr (map D ps), st)"
  using assms
proof (induction ps)
  case (Cons p ps)
  from Cons.prems(1) [of p] obtain pv where "cfg_Providers (rd_cfg rd) (p_Backend p) = Some pv"
      "sp_GetPiece pv (p_PieceID p) None (gw_World (rg_gw st) (p_Backend p)) = Inr (D p)" by auto
  with Cons show ?case by (simp add: Let_def)
qed simp

lemma decrypt_parts_all:
  assumes "\<And>x. x \<in> set xs \<Longrightarrow> decryptWithDEK cr (D x) dek (m_Encryption m) (aadIdentityOf m) = Inr (B x)"
  shows "decrypt_parts cr dek m (map D xs) = Inr (map B xs)"
  using assms by (induction xs) simp_all

text \<open>A plain GET of a multipart object whose parts the backends return and the session's key opens.\<close>

lemma Get_multipart:
  assumes "resolve (rd_cfg rd) rq (rg_gw st) = Inr (m, provider, piece, t, b)" "rq_Header rq = []"
    and "\<not> isErasureCodedManifest m" "isMultipartManifest m" "sorted (map p_PartNumber (m_Pieces m))"
    and "\<And>p. p \<in> set (m_Pieces m) \<Longrightarrow> \<exists>pv. cfg_Providers (rd_cfg rd) (p_Backend p) = Some pv
      \<and> sp_GetPiece pv (p_PieceID p) None (gw_World (rg_gw st) (p_Backend p)) = Inr (D p)"
    and "\<And>p. p \<in> set (m_Pieces m) \<Longrightarrow> Verify (cfg_blake3 (rd_cfg rd)) (D p) p = Inr ()"
    and "open_parts (rd_cfg rd) m (map D (m_Pieces m)) = Inr bodies"
    and "m_ObjectSize m = int (length (concat bodies))" "m_ObjectSize m \<le> maxMultipartInMemoryBytes"
  shows "rs_Status (fst (Get rd rq st)) = 200 \<and> rs_Body (fst (Get rd rq st)) = concat bodies"
proof -
  from unconditional_get [OF assms(2)] obtain h where h: "applyReadConditionals rq m piece = Inr ([], h)" "parseObjectRanges [] (m_ObjectSize m) = Inr WholeObject" .
  have "sort_key p_PartNumber (m_Pieces m) = m_Pieces m"
    using assms(5) by (simp add: sorted_sort_id sort_key_id_if_sorted)
  moreover have "\<not> list_ex (\<lambda>p. cfg_Providers (rd_cfg rd) (p_Backend p) = None) (m_Pieces m)"
    using assms(6) by (fastforce simp: list_ex_iff)
  ultimately have "reconstructMultipart rd m st = (Inr bodies, st)"
    using fetch_parts_all [OF assms(6,7)] assms(8-10) by (simp add: reconstructMultipart_def)
  with assms(1,3,4) h show ?thesis
    by (simp add: Get_def getMultipart_def serve_buffer_def Let_def)
qed

lemma part_piece_simps [simp]:
  "p_PieceID (part_piece u p) = mpp_PieceID p" "p_Backend (part_piece u p) = mpp_Backend p" "p_PartNumber (part_piece u p) = mpp_PartNumber p"
  "p_ShardKind (part_piece u p) = []" "p_Hash (part_piece u p) = part_hash_string u (mpp_PartNumber p)"
  by (simp_all add: part_piece_def zero_Piece_def)

lemma Verify_part: "PartHash u (mpp_PartNumber p) = Some (blake3 d) \<Longrightarrow> Verify blake3 d (part_piece u p) = Inr ()"
  by (simp add: Verify_def part_hash_string_def has_prefix_def)

text \<open>The stored bytes and the body of a listed part.\<close>

lemma listed_part:
  assumes "session_holds cfg pieces g i u content" "gm_get (up_parts u) n = Some p"
  obtains d where "mpp_PartNumber p = n" "n > 0" "mpp_PieceID p = partPieceID i n" "mpp_Backend p = up_Backend u"
    "mpp_SizeBytes p = int (length (the (content n)))" "pieces (gw_World g (up_Backend u)) (partPieceID i n) = Some d"
    "PartHash u n = Some (cfg_blake3 cfg d)" "part_opens cfg u d (the (content n))"
proof -
  have "case content n of None \<Rightarrow> gm_get (up_parts u) n = None | Some body \<Rightarrow> part_stored cfg pieces g i u n body"
    using assms(1) by (simp add: session_holds_def)
  with assms(2) that show ?thesis
    by (auto simp: part_stored_def split: option.splits)
qed

text \<open>Whether the key recorded on the manifest is the one the parts were sealed with.\<close>

definition session_key_ok :: "('m, 'i, 'p, 'b) Config \<Rightarrow> Upload \<Rightarrow> bool" where
  "session_key_ok cfg u \<longleftrightarrow> up_VersionID u \<noteq> [] \<and> (IsGatewayEncrypted (up_EncMode u) \<longrightarrow>
    (\<exists>ge. cfg_Encryption cfg = Some ge \<and> ge_UnwrapDEK ge (wrapped_of (session_encryption u)) (ge_CMK ge) = Inr (up_DEKMaterial u)))"

lemma open_session_parts:
  assumes "session_key_ok cfg u" "m_Encryption m = session_encryption u" "aadIdentityOf m = uploadAADIdentity u"
    and "\<And>p. p \<in> set ps \<Longrightarrow> part_opens cfg u (D p) (B p)"
  shows "open_parts cfg m (map D ps) = Inr (map B ps)"
proof (cases "IsGatewayEncrypted (up_EncMode u)")
  case True
  with assms(1) obtain ge where ge: "cfg_Encryption cfg = Some ge" "ge_UnwrapDEK ge (wrapped_of (session_encryption u)) (ge_CMK ge) = Inr (up_DEKMaterial u)"
    by (auto simp: session_key_ok_def)
  have v: "en_AADVersion (m_Encryption m) = en_AADVersion (partsEncryptionConfig u)" "en_Mode (m_Encryption m) = up_EncMode u"
    using True assms(1,2) by (auto simp: session_encryption_def partsEncryptionConfig_def session_key_ok_def IsGatewayEncrypted_def Let_def)
  have "decryptWithDEK (cfg_Crypto cfg) (D p) (up_DEKMaterial u) (m_Encryption m) (aadIdentityOf m) = Inr (B p)" if "p \<in> set ps" for p
    using assms(4) [OF that] True encrypt_options_cong [OF v(1)] by (simp add: part_opens_def decryptWithDEK_def assms(3))
  with ge True v(2) show ?thesis
    by (simp add: open_parts_def assms(2) decrypt_parts_all)
next
  case False
  then have "\<not> IsGatewayEncrypted (en_Mode (m_Encryption m))"
    using assms(2) by (auto simp: session_encryption_def Let_def IsGatewayEncrypted_def)
  with False assms(4) show ?thesis
    by (simp add: open_parts_def part_opens_def)
qed

definition part_order :: "PartReference list \<Rightarrow> int list" where
  "part_order claims = sort (map pref_PartNumber claims)"

definition assembled :: "(int \<rightharpoonup> bytes) \<Rightarrow> PartReference list \<Rightarrow> bytes" where
  "assembled content claims = concat (map (\<lambda>n. the (content n)) (part_order claims))"

lemma listed_parts:
  assumes "session_holds cfg pieces g i u content" "claimed_parts u claims = Inr qs"
  shows "map mpp_PartNumber (sort_parts qs) = part_order claims"
    and "\<And>p. p \<in> set (sort_parts qs) \<Longrightarrow> gm_get (up_parts u) (mpp_PartNumber p) = Some p"
proof -
  have n: "mpp_PartNumber p = n" if "gm_get (up_parts u) n = Some p" for n p
    using listed_part [OF assms(1) that] by metis
  show "map mpp_PartNumber (sort_parts qs) = part_order claims"
    using claimed_numbers [OF assms(2) n] by (simp add: sort_parts_numbers part_order_def)
  show "gm_get (up_parts u) (mpp_PartNumber p) = Some p" if "p \<in> set (sort_parts qs)" for p
    using set_claimed_parts [OF assms(2)] that n by fastforce
qed

lemma assembled_parts:
  assumes "session_holds cfg pieces g i u content" "claimed_parts u claims = Inr qs"
  shows "concat (map (\<lambda>p. the (content (mpp_PartNumber p))) (sort_parts qs)) = assembled content claims"
  unfolding assembled_def listed_parts(1) [OF assms, symmetric] by (simp add: comp_def)

context multipart_gateway
begin

lemma complete_publishes:
  assumes "sessions u i = Some upload" "\<not> dedupEnabled cfg (up_Policy upload)" "QueryGet (rq_RawQuery rq) ''uploadId'' = i" "up_VersionID upload \<noteq> []"
    and "CompleteMultipartUpload mh rq (Some claims) (g, u) = (rs, etag, (g', u'))" "rs_Status rs = 200"
  obtains qs m s t b k where "claimed_parts upload claims = Inr qs" "op_Put ms (object_key t b k (up_VersionID upload)) m (gw_Manifests g) = Inr s"
    "gw_Manifests g' = s" "gw_World g' = gw_World g" "m_Pieces m = map (part_piece upload) (sort_parts qs)" "m_Encryption m = session_encryption upload"
    "m_ObjectSize m = total_part_size (sort_parts qs)" "\<not> m_DeleteMarker m" "aadIdentityOf m = uploadAADIdentity upload"
    "t = up_TenantID upload" "parseBucketKey (rq_Path rq) = (b, k)" "b \<noteq> []" "k \<noteq> []"
proof -
  from CompleteMultipartUpload_stages [OF mh_store assms(5,6), unfolded mh_cfg] obtain ms' t b k claims' parts upload1 r g1 where
    a: "complete_admission cfg rq (Some claims) g = Inr (ms', t, b, k, claims')" "us_Complete us (QueryGet (rq_RawQuery rq) ''uploadId'') t b k claims' u = (Inr (parts, upload1), u')"
      "multipart_dedup cfg rq t b upload1 parts (complete_manifest rq t b k upload1 parts) g = (r, g1)"
      "case r of Inl resp \<Rightarrow> resp = rs \<and> g' = g1 | Inr m \<Rightarrow> publish_manifest cfg ms' rq t b k upload1 parts m g1 = (rs, etag, g')"
    by blast
  have adm: "ms' = ms" "claims' = claims" "parseBucketKey (rq_Path rq) = (b, k)" "b \<noteq> []" "k \<noteq> []"
    using a(1) cfg_ms by (auto simp: complete_admission_def split: sum.splits if_splits option.splits prod.splits)
  from complete_ok [OF a(2)] assms(1,3) adm(2) obtain qs where c: "upload1 = upload" "up_TenantID upload = t" "up_Bucket upload = b" "up_ObjectKey upload = k"
      "claimed_parts upload claims = Inr qs" "parts = sort_parts qs"
    by auto
  have "r = Inr (complete_manifest rq t b k upload parts)" "g1 = g"
    using a(3) multipart_dedup_off [OF assms(2)] by (auto simp: c(1))
  with a(4) c(1) adm(1) have "publish_manifest cfg ms rq t b k upload parts (complete_manifest rq t b k upload parts) g = (rs, etag, g')" by simp
  from publish_manifest_ok [OF this assms(6)] obtain m s where p: "applyDefaultObjectLockRetention cfg rq t b (complete_manifest rq t b k upload parts) g = Inr m"
      "op_Put ms (object_key t b k (m_VersionID m)) m (gw_Manifests g) = Inr s" "gw_Manifests g' = s" "gw_World g' = gw_World g" .
  note rk = retention_keeps [OF p(1)] retention_keeps_size [OF p(1)]
  have id: "aadIdentityOf m = uploadAADIdentity upload" "m_VersionID m = up_VersionID upload"
    using rk(1) assms(4) unfolding uploadAADIdentity_def c(2-4) by simp_all
  show ?thesis
  proof (rule that [OF c(5) p(2) [unfolded id(2)] p(3,4) _ _ _ _ id(1) _ adm(3-5)])
    show "t = up_TenantID upload" by (rule c(2) [symmetric])
  qed (use rk in \<open>simp_all add: c(6)\<close>)
qed

lemma listed_part_read:
  assumes "session_holds cfg pieces g i upload content" "world_ok provs pinv (gw_World g)" "claimed_parts upload claims = Inr qs"
    and "provs (up_Backend upload) = Some provider" "p \<in> set (sort_parts qs)"
    and "is_ok (sp_GetPiece provider (partPieceID i (mpp_PartNumber p)) None (gw_World g (up_Backend upload)))"
  defines "D \<equiv> \<lambda>j. the (pieces (gw_World g (up_Backend upload)) j)" and "B \<equiv> \<lambda>p :: MPart. the (content (mpp_PartNumber p))"
  shows "mpp_PartNumber p > 0" "mpp_PieceID p = partPieceID i (mpp_PartNumber p)" "mpp_Backend p = up_Backend upload" "mpp_SizeBytes p = int (length (B p))"
    "part_opens cfg upload (D (mpp_PieceID p)) (B p)" "Verify (cfg_blake3 cfg) (D (mpp_PieceID p)) (part_piece upload p) = Inr ()"
    "sp_GetPiece provider (mpp_PieceID p) None (gw_World g (up_Backend upload)) = Inr (D (mpp_PieceID p))"
proof -
  from listed_part [OF assms(1) listed_parts(2) [OF assms(1,3,5)]] obtain d where
    d: "mpp_PartNumber p > 0" "mpp_PieceID p = partPieceID i (mpp_PartNumber p)" "mpp_Backend p = up_Backend upload"
      "mpp_SizeBytes p = int (length (B p))" "pieces (gw_World g (up_Backend upload)) (mpp_PieceID p) = Some d"
      "PartHash upload (mpp_PartNumber p) = Some (cfg_blake3 cfg d)" "part_opens cfg upload d (B p)"
    unfolding B_def by metis
  from assms(6) obtain d' where d': "sp_GetPiece provider (mpp_PieceID p) None (gw_World g (up_Backend upload)) = Inr d'"
    unfolding d(2) by (cases "sp_GetPiece provider (partPieceID i (mpp_PartNumber p)) None (gw_World g (up_Backend upload))") simp_all
  have "pinv (gw_World g (up_Backend upload))"
    using assms(2,4) by (simp add: world_ok_def)
  from storage_provider.get_ok [OF providers [OF assms(4)] this d'] d d' Verify_part [of upload p "cfg_blake3 cfg" d, OF d(6)]
  show "mpp_PartNumber p > 0" "mpp_PieceID p = partPieceID i (mpp_PartNumber p)" "mpp_Backend p = up_Backend upload" "mpp_SizeBytes p = int (length (B p))"
    "part_opens cfg upload (D (mpp_PieceID p)) (B p)" "Verify (cfg_blake3 cfg) (D (mpp_PieceID p)) (part_piece upload p) = Inr ()"
    "sp_GetPiece provider (mpp_PieceID p) None (gw_World g (up_Backend upload)) = Inr (D (mpp_PieceID p))"
    by (simp_all add: D_def)
qed

lemma complete_then_get:
  assumes "sessions u i = Some upload" "session_holds cfg pieces g i upload content" "world_ok provs pinv (gw_World g)" "minv (gw_Manifests g)"
    and "\<not> dedupEnabled cfg (up_Policy upload)" "session_key_ok cfg upload" "QueryGet (rq_RawQuery rq) ''uploadId'' = i"
    and "CompleteMultipartUpload mh rq (Some claims) (g, u) = (rs, etag, (g', u'))" "rs_Status rs = 200" "length claims \<ge> 2"
    and "int (length (assembled content claims)) \<le> maxMultipartInMemoryBytes"
    and st: "rd_cfg rd = cfg" "rg_gw st = g'" and rq': "authenticate cfg rq' = Inr (up_TenantID upload)" "rq_Path rq' = rq_Path rq" "rq_Header rq' = []"
      "versionId rq' = up_VersionID upload \<or> versionId rq' = []"
    and pv: "provs (up_Backend upload) = Some provider"
    and ok: "is_ok (op_Get ms (object_key (up_TenantID upload) (fst (parseBucketKey (rq_Path rq))) (snd (parseBucketKey (rq_Path rq))) (versionId rq')) (gw_Manifests g'))"
      "\<And>n. n \<in> set (part_order claims) \<Longrightarrow> is_ok (sp_GetPiece provider (partPieceID i n) None (gw_World g' (up_Backend upload)))"
  shows "rs_Status (fst (Get rd rq' st)) = 200 \<and> rs_Body (fst (Get rd rq' st)) = assembled content claims"
proof -
  have ver: "up_VersionID upload \<noteq> []" using assms(6) by (simp add: session_key_ok_def)
  from complete_publishes [OF assms(1,5,7) ver assms(8,9)] obtain qs m s t b k where
    w: "claimed_parts upload claims = Inr qs" "op_Put ms (object_key t b k (up_VersionID upload)) m (gw_Manifests g) = Inr s" "gw_Manifests g' = s"
      "gw_World g' = gw_World g" "m_Pieces m = map (part_piece upload) (sort_parts qs)" "m_Encryption m = session_encryption upload"
      "m_ObjectSize m = total_part_size (sort_parts qs)" "\<not> m_DeleteMarker m" "aadIdentityOf m = uploadAADIdentity upload"
      "t = up_TenantID upload" "parseBucketKey (rq_Path rq) = (b, k)" "b \<noteq> []" "k \<noteq> []"
    by metis
  note nums = listed_parts(1) [OF assms(2) w(1)]
  define D where "D = (\<lambda>j. the (pieces (gw_World g (up_Backend upload)) j))"
  define B where "B = (\<lambda>p :: MPart. the (content (mpp_PartNumber p)))"
  have avail: "is_ok (sp_GetPiece provider (partPieceID i (mpp_PartNumber p)) None (gw_World g (up_Backend upload)))" if "p \<in> set (sort_parts qs)" for p
    using that arg_cong [OF nums, of set] ok(2) w(4) by auto
  note part = listed_part_read [OF assms(2,3) w(1) pv _ avail, folded D_def B_def]
  have body: "concat (map B (sort_parts qs)) = assembled content claims"
    using assembled_parts [OF assms(2) w(1)] by (simp add: B_def)
  have len: "length (sort_parts qs) = length claims"
    using arg_cong [OF nums, of length] by (simp add: part_order_def)
  have size': "m_ObjectSize m = int (length (assembled content claims))"
    unfolding w(7) body [symmetric] length_concat map_map comp_def
    using part(4) assms(11) by (intro total_part_size_sum) (simp_all add: body [symmetric] length_concat comp_def maxMultipartInMemoryBytes_def B_def)
  have "op_Get ms (object_key t b k (versionId rq')) (gw_Manifests g') = Inr m"
    using written_resolves [OF assms(4) w(2)] ok(1) rq'(4) w(3,10,11) by auto
  then have r: "resolve (rd_cfg rd) rq' (rg_gw st) = Inr (m, provider, hd (m_Pieces m), t, b)"
    using st rq' w pv part(3) [of "hd (sort_parts qs)"] len assms(10) cfg_ms cfg_provs
    by (cases "sort_parts qs") (auto simp: resolve_def)
  have "open_parts cfg m (map (D \<circ> mpp_PieceID) (sort_parts qs)) = Inr (map B (sort_parts qs))"
    using part(5) by (intro open_session_parts [OF assms(6) w(6,9)]) (simp add: D_def B_def)
  then show ?thesis
    unfolding body [symmetric]
  proof (intro Get_multipart [OF r rq'(3), where D = "D \<circ> p_PieceID"])
    show "isMultipartManifest m"
      using w(5) len assms(10) part(1) by (fastforce simp: isMultipartManifest_def list_all_iff)
    show "sorted (map p_PartNumber (m_Pieces m))"
      using sorted_sort_parts [of qs] by (simp add: w(5) comp_def)
  qed (use w part st pv cfg_provs assms(11) size' body in \<open>auto simp: isErasureCodedManifest_def list_ex_iff comp_def D_def\<close>)
qed

end

section \<open>The whole upload\<close>

text \<open>A session key and its wrapping nonces, after the bytes of the upload identifier.\<close>

definition session_random :: "bytes list \<Rightarrow> bool" where
  "session_random rand \<longleftrightarrow> (case rand of b # k # rest \<Rightarrow> length k = KeySize \<and> nonce_sizes rest | _ \<Rightarrow> False)"

lemma session_key_frame:
  assumes "session_frame u = session_frame u'"
  shows "session_key_ok cfg u = session_key_ok cfg u'"
  by (simp only: session_key_ok_def session_frameD [OF assms])

lemma new_upload_simps [simp]:
  "up_ID (new_upload rq i t b k backend policy) = i" "up_TenantID (new_upload rq i t b k backend policy) = t"
  "up_Bucket (new_upload rq i t b k backend policy) = b" "up_ObjectKey (new_upload rq i t b k backend policy) = k"
  "up_Backend (new_upload rq i t b k backend policy) = backend" "up_Policy (new_upload rq i t b k backend policy) = policy"
  "up_EncMode (new_upload rq i t b k backend policy) = pp_EncryptionMode policy"
  "up_VersionID (new_upload rq i t b k backend policy) = newPieceID t b k (rq_now rq 1)" "up_parts (new_upload rq i t b k backend policy) = []"
  by (simp_all add: new_upload_def Let_def)

lemma session_key_sound:
  assumes "session_key cfg rand u = Inr u'" "up_VersionID u \<noteq> []" "session_random (b # rand)" "\<And>ge. cfg_Encryption cfg = Some ge \<Longrightarrow> wrapper_laws ge"
  shows "session_key_ok cfg u' \<and> up_ID u' = up_ID u \<and> up_TenantID u' = up_TenantID u \<and> up_Backend u' = up_Backend u \<and> up_Policy u' = up_Policy u
    \<and> up_VersionID u' = up_VersionID u \<and> up_parts u' = up_parts u"
proof (cases "IsGatewayEncrypted (up_EncMode u)")
  case True
  from assms(3) obtain k rest where k: "rand = k # rest" "length k = KeySize" "nonce_sizes rest"
    by (auto simp: session_random_def split: list.splits)
  with True assms(1) obtain ge w rest' where w: "cfg_Encryption cfg = Some ge" "ge_WrapDEK ge k (ge_CMK ge) rest = Inr (w, rest')"
      "u' = u\<lparr>up_DEKMaterial := k, up_WrappedDEK := wd_WrappedKey w, up_WrappedKeyID := wd_KeyID w, up_WrapAlgorithm := wd_WrapAlgorithm w,
        up_ContentAlgorithm := ContentAlgorithm\<rparr>"
    by (auto simp: session_key_def GenerateDEK_def split: option.splits sum.splits)
  have "ge_UnwrapDEK ge (wrapped_of (session_encryption u')) (ge_CMK ge) = Inr k"
    using assms(4) [OF w(1)] k w(2) True unfolding wrapper_laws_def
    by (auto simp: w(3) session_encryption_def wrapped_of_def IsGatewayEncrypted_def Let_def)
  with w assms(2) show ?thesis by (simp add: session_key_ok_def)
qed (use assms(1,2) in \<open>auto simp: session_key_def session_key_ok_def\<close>)

lemma session_key_error: "session_key cfg rand u = Inl resp \<Longrightarrow> rs_Status resp \<noteq> 200"
  by (auto simp: session_key_def split: if_splits option.splits sum.splits)

lemma validate_tags_error: "validate_tags entries = Inl (c, s) \<Longrightarrow> c \<noteq> 200"
  by (induction entries rule: rev_induct) (auto simp: validate_tags_def bind_result_def split: if_splits sum.splits)

lemma request_error_status:
  "parseObjectTaggingHeader h = Inl (c, s) \<Longrightarrow> c \<noteq> 200" "validateRequestObjectMetadata hs = Inl (c, s) \<Longrightarrow> c \<noteq> 200"
  by (auto simp: parseObjectTaggingHeader_def validateTagSet_def validateRequestObjectMetadata_def Let_def
      dest: validate_tags_error split: prod.splits if_splits)

lemma create_admission_error:
  assumes "create_admission cfg rq g = Inl resp"
  shows "rs_Status resp \<noteq> 200"
proof (cases "authenticate cfg rq")
  case (Inr t)
  obtain b k where bk: "parseBucketKey (rq_Path rq) = (b, k)" by force
  note a = assms [unfolded create_admission_def Inr bk, simplified]
  show ?thesis
  proof (cases "parseObjectTaggingHeader (HeaderGet (rq_Header rq) ''x-amz-tagging'')")
    case (Inl e)
    with a request_error_status(1) show ?thesis by (cases e) (auto split: if_splits)
  next
    case tags: (Inr _)
    show ?thesis
    proof (cases "validateRequestObjectMetadata (rq_Header rq)")
      case (Inl e)
      with a tags request_error_status(2) show ?thesis by (cases e) (auto split: if_splits)
    next
      case (Inr _)
      with a tags show ?thesis
        by (cases "b = [] \<or> k = []"; cases "cfg_Placement cfg") (auto split: if_splits option.splits sum.splits)
    qed
  qed
qed (use assms in \<open>auto simp: create_admission_def\<close>)

fun upload_parts :: "('m, 'i, 'p, 'b, 'u) Multi \<Rightarrow> Request list \<Rightarrow> ('m, 'i, 'p, 'b, 'u) MPState \<Rightarrow> ('m, 'i, 'p, 'b, 'u) MPState option" where
  "upload_parts mh [] st = Some st"
| "upload_parts mh (rq # rqs) st =
    (case UploadPart mh rq st of (rs, st') \<Rightarrow> if rs_Status rs = 200 then upload_parts mh rqs st' else None)"

definition uploaded :: "(int \<rightharpoonup> bytes) \<Rightarrow> Request list \<Rightarrow> (int \<rightharpoonup> bytes)" where
  "uploaded content rqs = fold (\<lambda>rq c. c(part_number rq \<mapsto> rq_Body rq)) rqs content"

context multipart_gateway
begin

lemma create_session:
  assumes "CreateMultipartUpload mh rq (g, u) = (rs, i, (g', u'))" "rs_Status rs = 200" "session_random (rq_rand rq)"
    and "\<And>ge. cfg_Encryption cfg = Some ge \<Longrightarrow> wrapper_laws ge"
  obtains t b k backend policy upload where "create_admission cfg rq g = Inr (t, b, k, backend, policy)" "g' = g" "sessions u' i = Some upload"
    "session_key_ok cfg upload" "session_holds cfg pieces g i upload Map.empty" "up_TenantID upload = t" "up_Backend upload = backend" "up_Policy upload = policy"
    "up_VersionID upload = newPieceID t b k (rq_now rq 1)"
proof -
  obtain id rand where r: "rq_rand rq = id # rand"
    using assms(3) by (auto simp: session_random_def split: list.splits)
  from assms(1,2) create_admission_error [of cfg rq g] obtain t b k backend policy where a: "create_admission cfg rq g = Inr (t, b, k, backend, policy)"
    by (cases "create_admission cfg rq g") (auto simp: CreateMultipartUpload_def mh_store mh_cfg)
  let ?u = "new_upload rq (EncodeToString id) t b k backend policy"
  from assms(1,2) a r session_key_error [of cfg rand ?u] obtain upload0 where k: "session_key cfg rand ?u = Inr upload0"
    by (cases "session_key cfg rand ?u") (auto simp: CreateMultipartUpload_def mh_store mh_cfg newUploadID_def)
  with assms(1,2) a r have c: "us_Create us upload0 u = Inr u'" "g' = g" "i = EncodeToString id"
    by (auto simp: CreateMultipartUpload_def mh_store mh_cfg newUploadID_def split: sum.splits)
  note s = session_key_sound [OF k _ assms(3) [unfolded r] assms(4), simplified newPieceID_ne new_upload_simps]
  have u': "sessions u' i = Some (upload0\<lparr>up_parts := []\<rparr>)"
    using create_law [OF c(1)] s c(3) newPieceID_ne by simp
  have "session_key_ok cfg (upload0\<lparr>up_parts := []\<rparr>)"
    using s newPieceID_ne session_key_frame [of "upload0\<lparr>up_parts := []\<rparr>" upload0 cfg] by simp
  with that [OF a c(2) u'] s newPieceID_ne show ?thesis
    by (simp add: session_holds_def store_simps)
qed

lemma upload_parts_hold:
  assumes "crypto_laws (cfg_Crypto cfg)" "\<And>rq. rq \<in> set rqs \<Longrightarrow> part_random rq \<and> QueryGet (rq_RawQuery rq) ''uploadId'' = i"
    and "sessions u i = Some upload" "session_holds cfg pieces g i upload content" "world_ok provs pinv (gw_World g)"
    and "upload_parts mh rqs (g, u) = Some (g', u')"
  shows "\<exists>upload'. sessions u' i = Some upload' \<and> session_frame upload' = session_frame upload
    \<and> session_holds cfg pieces g' i upload' (uploaded content rqs) \<and> world_ok provs pinv (gw_World g') \<and> gw_Manifests g' = gw_Manifests g"
  using assms(2-)
proof (induction rqs arbitrary: g u upload content)
  case (Cons rq rqs)
  obtain rs g1 u1 where p: "UploadPart mh rq (g, u) = (rs, (g1, u1))" by (metis surj_pair)
  with Cons.prems(5) have ok: "rs_Status rs = 200" "upload_parts mh rqs (g1, u1) = Some (g', u')"
    by (auto split: if_splits)
  from Cons.prems(1) [of rq] have rq: "part_random rq" "QueryGet (rq_RawQuery rq) ''uploadId'' = i" by simp_all
  from put_part_step [OF Cons.prems(2-4) assms(1) rq p ok(1)] obtain upload1 where u1: "sessions u1 i = Some upload1" "session_frame upload1 = session_frame upload"
      "session_holds cfg pieces g1 i upload1 (content(part_number rq \<mapsto> rq_Body rq))" "world_ok provs pinv (gw_World g1)" "gw_Manifests g1 = gw_Manifests g"
    by metis
  have "uploaded content (rq # rqs) = uploaded (content(part_number rq \<mapsto> rq_Body rq)) rqs"
    by (simp add: uploaded_def)
  with Cons.IH [OF _ u1(1,3,4) ok(2), unfolded u1(2,5)] Cons.prems(1) show ?case
    by (simp only: list.set_intros(2))
qed (simp add: uploaded_def)

end

interpretation mem_multipart: multipart_gateway ci_ops ci_inv gm_get mem_ops mem_inv mem_versions mem_current "local_backends names" local_inv local_pieces
    "mem_config names base" mp_memory_store gm_get "\<lparr>mh_cfg = mem_config names base, mh_Multipart = Some mp_memory_store\<rparr>" for names base
  by (intro multipart_gateway.intro mem_s3.s3_gateway_axioms mem_uploads.upload_store_axioms multipart_gateway_axioms.intro) simp_all


section \<open>A concrete upload\<close>

abbreviation demo_multi :: "(MemStore, CIStore, LocalFS, BCStore, MPMemoryStore) Multi" where
  "demo_multi \<equiv> \<lparr>mh_cfg = demo_config, mh_Multipart = Some mp_memory_store\<rparr>"

definition demo_create :: Request where
  "demo_create = (demo_request ''/b/k'' [])\<lparr>rq_rand := [1] # demo_key # demo_rand\<rparr>"

definition demo_part :: "string \<Rightarrow> bytes \<Rightarrow> Request" where
  "demo_part query body = (demo_request ''/b/k'' body)\<lparr>rq_RawQuery := query, rq_rand := demo_rand\<rparr>"

definition demo_parts :: "Request list" where
  "demo_parts = [demo_part ''partNumber=2&uploadId=01'' [4, 5], demo_part ''partNumber=1&uploadId=01'' [1, 2, 3]]"

definition demo_complete :: Request where
  "demo_complete = (demo_request ''/b/k'' [])\<lparr>rq_RawQuery := ''uploadId=01''\<rparr>"

definition demo_claims :: "PartReference list" where
  "demo_claims = [\<lparr>pref_PartNumber = 2, pref_ETag = []\<rparr>, \<lparr>pref_PartNumber = 1, pref_ETag = []\<rparr>]"

definition demo_upload :: Upload where
  "demo_upload = new_upload demo_create ''01'' AnonymousTenant ''b'' ''k'' ''local'' zero_PlacementPolicy"

lemma demo_queries:
  "QueryGet ''partNumber=2&uploadId=01'' ''uploadId'' = ''01''" "QueryGet ''partNumber=1&uploadId=01'' ''uploadId'' = ''01''"
  "QueryGet ''partNumber=2&uploadId=01'' ''partNumber'' = ''2''" "QueryGet ''partNumber=1&uploadId=01'' ''partNumber'' = ''1''"
  "QueryGet ''uploadId=01'' ''uploadId'' = ''01''" "EncodeToString [1] = ''01''"
  "partPieceID ''01'' 1 = ''01-p00001''" "partPieceID ''01'' 2 = ''01-p00002''"
  "validatePieceID ''01-p00001'' = Inr ()" "validatePieceID ''01-p00002'' = Inr ()" "part_order demo_claims = [1, 2]"
  by code_simp+

lemma demo_numbers: "ParseInt ''1'' = Inr 1" "ParseInt ''2'' = Inr 2"
  by (simp_all add: ParseInt_def ParseUint_def decimal_value_def is_digit_def)

lemma demo_part_simps [simp]:
  "rq_RawQuery (demo_part q d) = q" "rq_Body (demo_part q d) = d" "rq_rand (demo_part q d) = demo_rand" "rq_BodyErr (demo_part q d) = None"
  "rq_Header (demo_part q d) = []" "rq_now (demo_part q d) = (\<lambda>_. 0)" "rq_ContentLength (demo_part q d) = - 1"
  by (simp_all add: demo_part_def demo_request_def)

lemma demo_create_admission:
  "create_admission demo_config demo_create (empty_gateway b) = Inr (AnonymousTenant, ''b'', ''k'', ''local'', zero_PlacementPolicy)"
proof -
  have "parseObjectTaggingHeader [] = Inr []" "validateRequestObjectMetadata [] = Inr ()"
    by code_simp+
  then show ?thesis
    using demo_path by (simp add: create_admission_def authenticate_def HeaderGet_def gm_get_def local_backends_def
        effectiveEncryptionMode_def demo_create_def demo_request_def)
qed

lemma demo_session:
  "CreateMultipartUpload demo_multi demo_create (empty_gateway b, []) =
    (respond 200 [(''Content-Type'', ''application/xml'')], ''01'', (empty_gateway b, [(''01'', demo_upload)]))"
proof -
  have "rq_rand demo_create = [1] # demo_key # demo_rand" by (simp add: demo_create_def)
  moreover have "session_key demo_config rand (new_upload demo_create ''01'' AnonymousTenant ''b'' ''k'' ''local'' zero_PlacementPolicy) = Inr demo_upload" for rand
    by (simp add: session_key_def demo_upload_def IsGatewayEncrypted_def)
  moreover have "mp_Create demo_upload [] = Inr [(''01'', demo_upload)]"
    by (simp add: mp_Create_def demo_upload_def new_upload_def gm_set_def store_simps Let_def)
  ultimately show ?thesis
    using demo_create_admission [of b] demo_queries(6) by (simp add: CreateMultipartUpload_def newUploadID_def mp_memory_store_def)
qed

text \<open>A part of the demonstration session is accepted, whatever the state of the backend.\<close>

lemma demo_upload_part:
  assumes "gm_get u ''01'' = Some up" "session_frame up = session_frame demo_upload"
    and "QueryGet q ''uploadId'' = ''01''" "ParseInt (QueryGet q ''partNumber'') = Inr n" "1 \<le> n" "n \<le> 10000" "validatePieceID (partPieceID ''01'' n) = Inr ()"
  shows "rs_Status (fst (UploadPart demo_multi (demo_part q d) (g, u))) = 200"
proof -
  have f: "up_TenantID up = AnonymousTenant" "up_Backend up = ''local''" "up_EncMode up = []"
    using session_frameD [OF assms(2)] by (simp_all add: demo_upload_def)
  show ?thesis
    using assms f by (simp add: UploadPart_def upload_begin_def authenticate_def mp_memory_store_def mp_Get_def local_backends_def seal_part_def raw_body_def
        src_error_def upload_write_def gw_put_def local_provider_def Local_PutPiece_def put_options_def mp_Update_def upload_record_def mp_PutPart_def store_simps
        IsGatewayEncrypted_def SetPartHash_def Let_def)
qed

lemma demo_part_ok: "part_random (demo_part q [4, 5])" "part_random (demo_part q [1, 2, 3])"
  by (simp_all add: part_random_def demo_rand_def nonce_sizes_def num_chunks_def DefaultChunkSize_def list_all_iff)

lemma demo_content:
  "uploaded Map.empty demo_parts = [1 \<mapsto> [1, 2, 3], 2 \<mapsto> [4, 5]]" "assembled (uploaded Map.empty demo_parts) demo_claims = [1, 2, 3, 4, 5]"
proof -
  show "uploaded Map.empty demo_parts = [1 \<mapsto> [1, 2, 3], 2 \<mapsto> [4, 5]]"
    by (simp add: uploaded_def demo_parts_def part_number_def demo_queries demo_numbers fun_upd_twist)
  then show "assembled (uploaded Map.empty demo_parts) demo_claims = [1, 2, 3, 4, 5]"
    by (simp add: assembled_def demo_queries)
qed

lemma demo_run:
  obtains g2 u2 up where "upload_parts demo_multi demo_parts (empty_gateway NewBCStore, [(''01'', demo_upload)]) = Some (g2, u2)"
    "gm_get u2 ''01'' = Some up" "session_frame up = session_frame demo_upload"
    "session_holds demo_config local_pieces g2 ''01'' up (uploaded Map.empty demo_parts)" "world_ok (local_backends [''local'']) local_inv (gw_World g2)"
proof -
  let ?p2 = "demo_part ''partNumber=2&uploadId=01'' [4, 5]" and ?p1 = "demo_part ''partNumber=1&uploadId=01'' [1, 2, 3]"
  let ?g = "empty_gateway NewBCStore :: (MemStore, CIStore, LocalFS, BCStore) Gateway" and ?u = "[(''01'', demo_upload)]"
  have w: "world_ok (local_backends [''local'']) local_inv (gw_World ?g)"
    using empty_gateway_inv [of "local_backends [''local'']" "\<lambda>d. d" NewBCStore] by (simp add: gw_inv_def)
  have s: "gm_get ?u ''01'' = Some demo_upload" "session_holds demo_config local_pieces ?g ''01'' demo_upload Map.empty"
    by (simp_all add: gm_get_def session_holds_def demo_upload_def)
  have ok: "rs_Status (fst (UploadPart demo_multi ?p2 (?g, ?u))) = 200"
    using demo_queries demo_numbers by (intro demo_upload_part [OF s(1) refl, where n = 2]) simp_all
  obtain r1 g1 u1 where p2: "UploadPart demo_multi ?p2 (?g, ?u) = (r1, (g1, u1))" by (metis surj_pair)
  have l: "crypto_laws (cfg_Crypto demo_config)"
    using demo_crypto_laws by (simp add: mem_config_def demo_base_def)
  from mem_multipart.put_part_step [OF s w l demo_part_ok(1) _ p2] ok p2 demo_queries obtain up1 where
    s1: "gm_get u1 ''01'' = Some up1" "session_frame up1 = session_frame demo_upload" "world_ok (local_backends [''local'']) local_inv (gw_World g1)"
      "session_holds demo_config local_pieces g1 ''01'' up1 (Map.empty(part_number ?p2 \<mapsto> [4, 5]))"
    by auto
  have ok1: "rs_Status (fst (UploadPart demo_multi ?p1 (g1, u1))) = 200"
    using demo_queries demo_numbers by (intro demo_upload_part [OF s1(1,2), where n = 1]) simp_all
  obtain r2 g2 u2 where p1: "UploadPart demo_multi ?p1 (g1, u1) = (r2, (g2, u2))" by (metis surj_pair)
  from mem_multipart.put_part_step [OF s1(1,4,3) l demo_part_ok(2) _ p1] ok1 p1 demo_queries obtain up2 where
    s2: "gm_get u2 ''01'' = Some up2" "session_frame up2 = session_frame up1"
      "session_holds demo_config local_pieces g2 ''01'' up2 (Map.empty(part_number ?p2 \<mapsto> [4, 5], part_number ?p1 \<mapsto> [1, 2, 3]))"
      "world_ok (local_backends [''local'']) local_inv (gw_World g2)"
    by auto
  show ?thesis
    by (rule that [of g2 u2 up2]) (use p1 p2 ok ok1 s1(2) s2 in \<open>simp_all add: demo_parts_def uploaded_def\<close>)
qed

lemma demo_completes:
  assumes "gm_get u ''01'' = Some up" "session_frame up = session_frame demo_upload"
    and "session_holds demo_config local_pieces g ''01'' up (uploaded Map.empty demo_parts)"
  obtains rs etag g' u' where "CompleteMultipartUpload demo_multi demo_complete (Some demo_claims) (g, u) = (rs, etag, (g', u'))" "rs_Status rs = 200"
proof -
  have f: "up_TenantID up = AnonymousTenant" "up_Bucket up = ''b''" "up_ObjectKey up = ''k''" "up_Policy up = zero_PlacementPolicy"
    using session_frameD [OF assms(2)] by (simp_all add: demo_upload_def)
  have "part_stored demo_config local_pieces g ''01'' up 1 [1, 2, 3]" "part_stored demo_config local_pieces g ''01'' up 2 [4, 5]"
    using assms(3) [unfolded session_holds_def demo_content, rule_format, of 1] assms(3) [unfolded session_holds_def demo_content, rule_format, of 2] by simp_all
  then obtain qs where c: "claimed_parts up demo_claims = Inr qs"
    by (auto simp: part_stored_def demo_claims_def)
  have "complete_admission demo_config demo_complete (Some demo_claims) g = Inr (mem_ops, AnonymousTenant, ''b'', ''k'', demo_claims)"
    using demo_path by (simp add: complete_admission_def authenticate_def demo_complete_def demo_request_def allowObjectLockOverwrite_def
        read_limited_def ReadAll_def demo_claims_def)
  moreover have "us_Complete mp_memory_store ''01'' AnonymousTenant ''b'' ''k'' demo_claims u = (Inr (sort_parts qs, up), gm_del ''01'' u)"
    using assms(1) f c by (simp add: mp_memory_store_def mp_Complete_def)
  moreover have "\<not> dedupEnabled demo_config (up_Policy up)"
    by (simp add: f dedupEnabled_def)
  moreover obtain rs etag g' where p: "publish_manifest demo_config mem_ops demo_complete AnonymousTenant ''b'' ''k'' up (sort_parts qs)
      (complete_manifest demo_complete AnonymousTenant ''b'' ''k'' up (sort_parts qs)) g = (rs, etag, g')" by (metis surj_pair)
  moreover have "rs_Status rs = 200"
    using p by (auto simp: publish_manifest_def applyDefaultObjectLockRetention_def mem_ops_def Mem_Put_def Let_def split: prod.splits)
  ultimately show ?thesis
    using that demo_queries(5) by (simp add: CompleteMultipartUpload_def demo_complete_def multipart_dedup_off)
qed


end
