(* ===== verification/S3_Multipart_Hazards.thy ===== *)
theory S3_Multipart_Hazards
  imports S3_Multipart_Correct
begin

text \<open>
  Two orders of events the multipart handlers do not guard against.  A part whose session
  is completed while the part is being written overwrites a piece of the published object
  and then asks the backend to delete it.  A part whose write fails leaves its plaintext digest in the
  session, and a later completion deduplicates against content the session never stored.
\<close>

section \<open>A part that arrives too late\<close>

lemma gw_delete_piece:
  assumes "world_ok provs pinv (gw_World g)" "cfg_Providers cfg = provs" "provs b = Some pv" "storage_provider pv pinv pieces"
  shows "pieces (gw_World (gw_delete cfg b i g) b) i \<in> {pieces (gw_World g b) i, None}"
proof -
  obtain x p' where d: "sp_DeletePiece pv i (gw_World g b) = (x, p')" by force
  have "pinv (gw_World g b)"
    using assms(1,3) by (simp add: world_ok_def)
  from storage_provider.del_same [OF assms(4) this d] d assms(2,3) show ?thesis
    by (auto simp: gw_delete_def world_delete_def split: sum.splits prod.splits)
qed

context multipart_gateway
begin

lemma late_part:
  assumes "world_ok provs pinv (gw_World g)" "sessions u (pu_UploadID pu) = None"
    and "upload_write cfg us rq pu (g, u) = (Inr res, st)" "upload_record cfg us rq pu res st = (rs, (g', u'))"
  shows "rs_Status rs = 500" "gw_Manifests g' = gw_Manifests g"
    and "pieces (gw_World g' (up_Backend (pu_Upload pu))) (partPieceID (pu_UploadID pu) (pu_PartNumber pu)) \<in> {None, Some (projr (pu_Body pu))}"
proof -
  let ?b = "up_Backend (pu_Upload pu)" and ?i = "partPieceID (pu_UploadID pu) (pu_PartNumber pu)"
  obtain g1 u1 where st: "st = (g1, u1)" by (cases st)
  obtain provider d p' where w: "provs ?b = Some provider" "pu_Body pu = Inr d"
      "sp_PutPiece provider ?i d (put_options (pu_ContentLength pu) rq) (gw_World g ?b) = (Inr res, p')"
      "g1 = g\<lparr>gw_World := (gw_World g)(?b := p')\<rparr>" "u1 = us_Update us (pu_UploadID pu) (SetPartHash (pu_PartNumber pu) (cfg_blake3 cfg d)) u"
    using upload_write_ok [OF assms(3) [unfolded st]] unfolding cfg_provs .
  have P: "storage_provider provider pinv pieces" by (rule providers [OF w(1)])
  have "pinv (gw_World g ?b)"
    using assms(1) w(1) by (simp add: world_ok_def)
  from storage_provider.put_ok [OF P this w(3)] have q: "pinv p'" "pieces p' ?i = Some d" by auto
  have gone: "sessions u1 (pu_UploadID pu) = None"
    using assms(2) update_law [of "pu_UploadID pu" _ u] by (simp add: w(5))
  have "us_PutPart us (pu_TenantID pu) (pu_UploadID pu) p u1 \<noteq> Inr x" for p x
    using put_part_law [of "pu_TenantID pu" "pu_UploadID pu" p u1 x] gone by auto
  then have r: "rs_Status rs = 500" "g' = gw_delete cfg ?b ?i g1"
    using assms(4) st by (auto simp: upload_record_def Let_def split: sum.splits)
  have "world_ok provs pinv (gw_World g1)"
    using assms(1) q(1) by (simp add: world_ok_def w(4))
  from gw_delete_piece [OF this cfg_provs w(1) P, of ?i] q(2) w(2,4)
  show "rs_Status rs = 500" "gw_Manifests g' = gw_Manifests g" "pieces (gw_World g' ?b) ?i \<in> {None, Some (projr (pu_Body pu))}"
    by (auto simp: r)
qed

lemma complete_consumes:
  assumes "CompleteMultipartUpload mh rq doc (g, u) = (rs, etag, (g', u'))" "rs_Status rs = 200"
  shows "sessions u' (QueryGet (rq_RawQuery rq) ''uploadId'') = None"
proof -
  obtain t b k claims parts upload where "us_Complete us (QueryGet (rq_RawQuery rq) ''uploadId'') t b k claims u = (Inr (parts, upload), u')"
    by (rule CompleteMultipartUpload_stages [OF mh_store assms])
  from complete_ok [OF this] show ?thesis by simp
qed

end

text \<open>
  C17: a part upload that overlaps the completion of its session destroys the completed object.  The part request
  found its session; before its piece is written the session is completed, with success, and the part's number is
  among those listed.  The part request then writes the piece, fails to record the part, and rolls back: its client is
  told 500, the manifest the completion published lists the piece, and in place of the bytes the completion was
  given the backend has those of the late request or none.
\<close>

theorem late_part_destroys_object:
  assumes "multipart_gateway ci cinv entries ms minv versions current provs pinv pieces cfg us sessions mh"
    and "world_ok provs pinv (gw_World g1)" "upload_begin cfg us rq u0 = (Inr pu, u1)"
    and "sessions u1 (pu_UploadID pu) = Some upload" "session_holds cfg pieces g1 (pu_UploadID pu) upload content"
    and "\<not> dedupEnabled cfg (up_Policy upload)" "up_VersionID upload \<noteq> []" "up_Backend upload = up_Backend (pu_Upload pu)"
    and "QueryGet (rq_RawQuery crq) ''uploadId'' = pu_UploadID pu" "pu_PartNumber pu \<in> set (part_order claims)"
    and "CompleteMultipartUpload mh crq (Some claims) (g1, u1) = (crs, etag, (g2, u2))" "rs_Status crs = 200"
    and "upload_write cfg us rq pu (g2, u2) = (Inr res, st3)" "upload_record cfg us rq pu res st3 = (rs, (g4, u4))"
  shows "rs_Status rs = 500
    \<and> (\<exists>key m p. op_Put ms key m (gw_Manifests g1) = Inr (gw_Manifests g4) \<and> p \<in> set (m_Pieces m)
        \<and> p_Backend p = up_Backend upload \<and> p_PieceID p = partPieceID (pu_UploadID pu) (pu_PartNumber pu))
    \<and> pieces (gw_World g4 (up_Backend upload)) (partPieceID (pu_UploadID pu) (pu_PartNumber pu)) \<in> {None, Some (projr (pu_Body pu))}"
proof -
  note L = assms(1)
  from multipart_gateway.complete_publishes [OF L assms(4,6,9,7,11,12)] obtain qs m t b k where
    c: "claimed_parts upload claims = Inr qs" "op_Put ms (object_key t b k (up_VersionID upload)) m (gw_Manifests g1) = Inr (gw_Manifests g2)"
      "gw_World g2 = gw_World g1" "m_Pieces m = map (part_piece upload) (sort_parts qs)"
    by metis
  obtain p where p: "p \<in> set (sort_parts qs)" "mpp_PartNumber p = pu_PartNumber pu"
    using assms(10) arg_cong [OF listed_parts(1) [OF assms(5) c(1)], of set] by force
  have pp: "mpp_PieceID p = partPieceID (pu_UploadID pu) (pu_PartNumber pu)" "mpp_Backend p = up_Backend upload"
    using listed_part [OF assms(5) listed_parts(2) [OF assms(5) c(1) p(1)]] p(2) by metis+
  have gone: "sessions u2 (pu_UploadID pu) = None"
    using multipart_gateway.complete_consumes [OF L assms(11,12)] by (simp only: assms(9))
  have "world_ok provs pinv (gw_World g2)"
    using assms(2) by (simp only: c(3))
  note late = multipart_gateway.late_part [OF L this gone assms(13,14)]
  show ?thesis
  proof (intro conjI exI)
    show "op_Put ms (object_key t b k (up_VersionID upload)) m (gw_Manifests g1) = Inr (gw_Manifests g4)"
      using c(2) by (simp only: late(2))
    show "part_piece upload p \<in> set (m_Pieces m)"
      using p(1) by (simp add: c(4))
  qed (use pp late(1,3) assms(8) in simp_all)
qed

abbreviation demo_late :: Request where
  "demo_late \<equiv> demo_part ''partNumber=1&uploadId=01'' [9]"

lemma demo_late_begin:
  assumes "gm_get u ''01'' = Some up" "up_TenantID up = AnonymousTenant" "up_Backend up = ''local''" "up_EncMode up = []"
  shows "upload_begin demo_config mp_memory_store demo_late u =
    (Inr \<lparr>pu_TenantID = AnonymousTenant, pu_UploadID = ''01'', pu_PartNumber = 1, pu_Upload = up, pu_Body = Inr [9],
      pu_ContentLength = - 1, pu_PlaintextSize = - 1\<rparr>, u)"
  using assms demo_queries demo_numbers
  by (simp add: upload_begin_def authenticate_def mp_memory_store_def mp_Get_def local_backends_def seal_part_def raw_body_def src_error_def Let_def)

theorem late_part_destroys_object_witness:
  "\<exists>g1 u1 pu crs etag g2 u2 res st3 rs g4 u4.
    upload_begin demo_config mp_memory_store demo_late u1 = (Inr pu, u1)
    \<and> CompleteMultipartUpload demo_multi demo_complete (Some demo_claims) (g1, u1) = (crs, etag, (g2, u2)) \<and> rs_Status crs = 200
    \<and> upload_write demo_config mp_memory_store demo_late pu (g2, u2) = (Inr res, st3)
    \<and> upload_record demo_config mp_memory_store demo_late pu res st3 = (rs, (g4, u4)) \<and> rs_Status rs = 500
    \<and> local_pieces (gw_World g1 ''local'') ''01-p00001'' = Some [1, 2, 3]
    \<and> local_pieces (gw_World g4 ''local'') ''01-p00001'' \<noteq> Some [1, 2, 3]"
proof -
  obtain g1 u1 up where run: "upload_parts demo_multi demo_parts (empty_gateway NewBCStore, [(''01'', demo_upload)]) = Some (g1, u1)"
      "gm_get u1 ''01'' = Some up" "session_frame up = session_frame demo_upload"
      "session_holds demo_config local_pieces g1 ''01'' up (uploaded Map.empty demo_parts)" "world_ok (local_backends [''local'']) local_inv (gw_World g1)"
    by (rule demo_run)
  have up: "up_TenantID up = AnonymousTenant" "up_Backend up = ''local''" "up_EncMode up = []" "\<not> dedupEnabled demo_config (up_Policy up)" "up_VersionID up \<noteq> []"
    using session_frameD [OF run(3)] by (simp_all add: demo_upload_def dedupEnabled_def newPieceID_ne)
  define pu where "pu = \<lparr>pu_TenantID = AnonymousTenant, pu_UploadID = ''01'', pu_PartNumber = 1, pu_Upload = up, pu_Body = Inr [9 :: byte],
      pu_ContentLength = - 1, pu_PlaintextSize = - 1\<rparr>"
  have pu: "pu_UploadID pu = ''01''" "pu_PartNumber pu = 1" "pu_Upload pu = up" "pu_Body pu = Inr [9]" "pu_ContentLength pu = - 1"
    by (simp_all add: pu_def)
  note b = demo_late_begin [OF run(2) up(1-3), folded pu_def]
  obtain crs etag g2 u2 where c: "CompleteMultipartUpload demo_multi demo_complete (Some demo_claims) (g1, u1) = (crs, etag, (g2, u2))" "rs_Status crs = 200"
    by (rule demo_completes [OF run(2-4)])
  obtain res st3 where w: "upload_write demo_config mp_memory_store demo_late pu (g2, u2) = (Inr res, st3)"
    using demo_queries by (simp add: upload_write_def pu up local_backends_def gw_put_def local_provider_def Local_PutPiece_def put_options_def)
  obtain rs g4 u4 where r: "upload_record demo_config mp_memory_store demo_late pu res st3 = (rs, (g4, u4))" by (metis surj_pair)
  have old: "local_pieces (gw_World g1 ''local'') ''01-p00001'' = Some [1, 2, 3]"
    using run(4) [unfolded session_holds_def demo_content, rule_format, of 1] demo_queries
    by (auto simp: part_stored_def part_opens_def up IsGatewayEncrypted_def)
  have "QueryGet (rq_RawQuery demo_complete) ''uploadId'' = ''01''"
    by (simp add: demo_complete_def demo_queries)
  with late_part_destroys_object [OF mem_multipart.multipart_gateway_axioms run(5) b _ _ up(4,5) _ _ _ c w r] run(2,4) up(2) demo_queries
  have "rs_Status rs = 500" "local_pieces (gw_World g4 ''local'') ''01-p00001'' \<in> {None, Some [9]}"
    by (simp_all add: pu)
  then have "rs_Status rs = 500" "local_pieces (gw_World g4 ''local'') ''01-p00001'' \<noteq> Some [1, 2, 3]"
    by auto
  with b c w r old show ?thesis
    by (intro exI conjI) assumption+
qed

section \<open>A part that was never stored\<close>

lemma seal_part_digest:
  assumes "seal_part cfg rq us i n upload u = (Inr (body, cl, ps), u1)" "IsGatewayEncrypted (up_EncMode upload)" "dedupEnabled cfg (up_Policy upload)"
  shows "u1 = us_Update us i (SetPlaintextPartHash n (cfg_blake3 cfg (rq_Body rq))) u"
proof -
  obtain pt where "ReadAll rq = Inr pt" "u1 = us_Update us i (SetPlaintextPartHash n (cfg_blake3 cfg pt)) u"
    using assms by (auto simp: seal_part_def IsGatewayEncrypted_def Let_def split: sum.splits)
  with ReadAll_raw(1) [of rq pt] show ?thesis by simp
qed

lemma upload_write_failed: "upload_write cfg us rq pu st = (Inl resp, st') \<Longrightarrow> snd st' = snd st \<and> gw_Index (fst st') = gw_Index (fst st)"
  by (auto simp: upload_write_def gw_put_def split: option.splits prod.splits sum.splits)

text \<open>The session keeps its parts and has the digest of the part that failed.\<close>

lemma failed_part_session:
  assumes "upload_store us sessions" "sessions u i = Some upload" "IsGatewayEncrypted (up_EncMode upload)" "dedupEnabled cfg (up_Policy upload)"
    and "upload_begin cfg us rq u = (Inr pu, u1)" "QueryGet (rq_RawQuery rq) ''uploadId'' = i"
    and "upload_write cfg us rq pu (g, u1) = (Inl resp, (g2, u2))"
  shows "sessions u2 i = Some (SetPlaintextPartHash (part_number rq) (cfg_blake3 cfg (rq_Body rq)) upload)"
proof -
  note b = upload_begin_ok [OF assms(5)]
  have "pu_Upload pu = upload"
    using b(1,4) assms(2,6) upload_store.get_law [OF assms(1), of "pu_TenantID pu" i u] by (auto split: if_splits)
  then have "u1 = us_Update us i (SetPlaintextPartHash (part_number rq) (cfg_blake3 cfg (rq_Body rq))) u"
    using seal_part_digest [OF b(6)] assms(3,4,6) b(1,2) by simp
  moreover have "u2 = u1"
    using upload_write_failed [OF assms(7)] by simp
  ultimately show ?thesis
    using upload_store.update_law [OF assms(1), of i _ u] assms(2) by simp
qed

lemma managed_hit:
  assumes "cfg_ContentIndex cfg = Some ci" "IsGatewayEncrypted (up_EncMode upload)" "dedupEnabled cfg (up_Policy upload)"
    and "PlaintextPartHashCount upload = 1" "PlaintextPartHash upload (mpp_PartNumber p) = Some h"
    and "ci_LookupByPlaintextHash ci t (content_hash (cfg_blake3 cfg) h) (gw_Index g) = Inr existing"
    and "multipart_dedup cfg rq t b upload [p] m g = (r, g')"
  shows "(\<exists>resp. r = Inl resp \<and> rs_Status resp \<noteq> 200)
    \<or> (\<exists>enc. r = Inr (canonical_manifest existing enc m) \<and> gw_Manifests g' = gw_Manifests g)"
proof -
  have "dedupManagedMultipartHit cfg ci rq t b upload [p] (cfg_blake3 cfg h) existing m g = (r, g')"
    using assms by (auto simp: multipart_dedup_def multipartDedupEligible_def IsGatewayEncrypted_def dedupManagedMultipart_def content_hash_def Let_def)
  then show ?thesis
    by (auto simp: dedupManagedMultipartHit_def deleteUploadedParts_def gw_delete_def emit_hit_def emit_if_def emit_def log_event_def Let_def
        split: sum.splits)
qed

lemma canonical_manifest_simps [simp]:
  "map p_PieceID (m_Pieces (canonical_manifest e enc m)) = [ce_PieceID e]" "m_ContentHash (canonical_manifest e enc m) = ce_ContentHash e"
  by (simp_all add: canonical_manifest_def single_piece_manifest_def set_primary_def new_piece_def)

lemma retention_keeps_hash:
  "applyDefaultObjectLockRetention cfg rq t b m g = Inr m' \<Longrightarrow> m_ContentHash m' = m_ContentHash m"
  by (auto simp: applyDefaultObjectLockRetention_def applyDefaultRetention_def split: option.splits if_splits)

text \<open>
  C18: after a part whose write failed, completing the session publishes other content.  The session is sealed by the
  gateway and deduplicated, and has one part, accepted earlier.  A second upload of that part fails at the backend.
  If the content index has a row of the tenant under the plaintext hash of an upload whose one part is the body of the
  failed one, a completion that succeeds stores a manifest whose only piece, and whose content hash, are those of that
  row, although the part the session still records is the earlier one.
\<close>

theorem failed_part_substitutes_content:
  assumes "upload_store us sessions" "mh_cfg mh = cfg" "mh_Multipart mh = Some us" "cfg_ContentIndex cfg = Some ci" "cfg_Manifests cfg = Some ms"
    and "sessions u i = Some upload" "IsGatewayEncrypted (up_EncMode upload)" "dedupEnabled cfg (up_Policy upload)" "up_PlaintextPartHashes upload = [(n, h)]"
    and "gm_get (up_parts upload) n = Some p" "mpp_PartNumber p = n"
    and "upload_begin cfg us rq u = (Inr pu, u1)" "QueryGet (rq_RawQuery rq) ''uploadId'' = i" "part_number rq = n"
    and "upload_write cfg us rq pu (g, u1) = (Inl resp, (g2, u2))"
    and "ci_LookupByPlaintextHash ci (up_TenantID upload) (content_hash (cfg_blake3 cfg) (cfg_blake3 cfg (rq_Body rq))) (gw_Index g2) = Inr existing"
    and "CompleteMultipartUpload mh crq (Some [\<lparr>pref_PartNumber = n, pref_ETag = []\<rparr>]) (g2, u2) = (crs, etag, (g3, u3))" "rs_Status crs = 200"
    and "QueryGet (rq_RawQuery crq) ''uploadId'' = i"
  shows "rs_Status resp \<noteq> 200
    \<and> (\<exists>key m. op_Put ms key m (gw_Manifests g2) = Inr (gw_Manifests g3) \<and> map p_PieceID (m_Pieces m) = [ce_PieceID existing]
        \<and> m_ContentHash m = ce_ContentHash existing)"
proof -
  let ?up = "SetPlaintextPartHash n (cfg_blake3 cfg (rq_Body rq)) upload"
  have s: "sessions u2 i = Some ?up"
    using failed_part_session [OF assms(1,6-8,12,13,15)] by (simp only: assms(14))
  obtain ms' t b k claims parts upload1 r g1 where
    a: "complete_admission cfg crq (Some [\<lparr>pref_PartNumber = n, pref_ETag = []\<rparr>]) g2 = Inr (ms', t, b, k, claims)"
      "us_Complete us (QueryGet (rq_RawQuery crq) ''uploadId'') t b k claims u2 = (Inr (parts, upload1), u3)"
      "multipart_dedup cfg crq t b upload1 parts (complete_manifest crq t b k upload1 parts) g2 = (r, g1)"
      "case r of Inl resp \<Rightarrow> resp = crs \<and> g3 = g1 | Inr m \<Rightarrow> publish_manifest cfg ms' crq t b k upload1 parts m g1 = (crs, etag, g3)"
    by (rule CompleteMultipartUpload_stages [OF assms(3,17,18), unfolded assms(2)])
  have adm: "ms' = ms" "claims = [\<lparr>pref_PartNumber = n, pref_ETag = []\<rparr>]"
    using a(1) assms(5) by (auto simp: complete_admission_def split: sum.splits if_splits option.splits prod.splits)
  have c: "upload1 = ?up" "t = up_TenantID upload" "parts = [p]"
    using upload_store.complete_ok [OF assms(1) a(2)] s assms(10,19) adm(2) by (auto simp: SetPlaintextPartHash_def sort_parts_def)
  have "(\<exists>resp. r = Inl resp \<and> rs_Status resp \<noteq> 200) \<or>
      (\<exists>enc. r = Inr (canonical_manifest existing enc (complete_manifest crq t b k upload1 parts)) \<and> gw_Manifests g1 = gw_Manifests g2)"
    using assms(9,11,16) a(3) unfolding c
    by (intro managed_hit [OF assms(4), where h = "cfg_blake3 cfg (rq_Body rq)" and g = g2])
      (use assms(7,8) in \<open>simp_all add: SetPlaintextPartHash_def PlaintextPartHashCount_def PlaintextPartHash_def gm_get_def gm_set_def\<close>)
  with a(4) assms(18) obtain m0 where m0: "publish_manifest cfg ms crq t b k upload1 parts m0 g1 = (crs, etag, g3)" "gw_Manifests g1 = gw_Manifests g2"
      "map p_PieceID (m_Pieces m0) = [ce_PieceID existing]" "m_ContentHash m0 = ce_ContentHash existing"
    by (auto simp: adm(1))
  obtain m s where p: "applyDefaultObjectLockRetention cfg crq t b m0 g1 = Inr m" "op_Put ms (object_key t b k (m_VersionID m)) m (gw_Manifests g1) = Inr s"
      "gw_Manifests g3 = s"
    by (rule publish_manifest_ok [OF m0(1) assms(18)])
  show ?thesis
    using p m0(2-4) retention_keeps [OF p(1)] retention_keeps_hash [OF p(1)] upload_write_error [OF assms(15)] by metis
qed

text \<open>A backend that refuses writes, a sealed session with one part, and a row for the content of the refused upload.\<close>

definition outage_config :: "(MemStore, CIStore, LocalFS, BCStore) Config" where
  "outage_config = demo_config\<lparr>cfg_Encryption := Some demo_ge,
     cfg_Providers := (\<lambda>b. if b = ''local'' then Some (local_provider\<lparr>sp_PutPiece := (\<lambda>i d opts p. (Inl ''unavailable'', p))\<rparr>) else None)\<rparr>"

abbreviation outage_multi :: "(MemStore, CIStore, LocalFS, BCStore, MPMemoryStore) Multi" where
  "outage_multi \<equiv> \<lparr>mh_cfg = outage_config, mh_Multipart = Some mp_memory_store\<rparr>"

definition sealed_part :: MPart where
  "sealed_part = \<lparr>mpp_PartNumber = 1, mpp_PieceID = ''01-p00001'', mpp_Backend = ''local'', mpp_ETag = [], mpp_SizeBytes = 1, mpp_UploadedAt = 0\<rparr>"

definition sealed_upload :: Upload where
  "sealed_upload = demo_upload\<lparr>up_EncMode := ManagedEncrypted, up_DEKMaterial := demo_key,
     up_Policy := zero_PlacementPolicy\<lparr>pp_EncryptionMode := ManagedEncrypted, pp_DedupPolicy := Some \<lparr>dp_Enabled = True, dp_Scope = [], dp_Level = []\<rparr>\<rparr>,
     up_PlaintextPartHashes := [(1, [1])], up_parts := [(1, sealed_part)]\<rparr>"

definition other_row :: ContentIndexEntry where
  "other_row = \<lparr>ce_TenantID = AnonymousTenant, ce_ContentHash = ''c'', ce_PieceID = ''other'', ce_Backend = ''local'', ce_RefCount = 1,
     ce_SizeBytes = 17, ce_ETag = [], ce_PieceIDs = [], ce_PlaintextHash = content_hash (\<lambda>d. d) [2], ce_CreatedAt = 0\<rparr>"

definition outage_gateway :: "(MemStore, CIStore, LocalFS, BCStore) Gateway" where
  "outage_gateway = (empty_gateway NewBCStore)\<lparr>gw_Index := [(ckey AnonymousTenant ''c'', other_row)]\<rparr>"

abbreviation refused_part :: Request where
  "refused_part \<equiv> demo_part ''partNumber=1&uploadId=01'' [2]"

lemma outage_config_simps [simp]:
  "cfg_Manifests outage_config = Some mem_ops" "cfg_ContentIndex outage_config = Some ci_ops" "cfg_Encryption outage_config = Some demo_ge"
  "cfg_Providers outage_config ''local'' = Some (local_provider\<lparr>sp_PutPiece := (\<lambda>i d opts p. (Inl ''unavailable'', p))\<rparr>)"
  "cfg_Auth outage_config = None" "cfg_RequireAuth outage_config = False" "cfg_BucketConfig outage_config = None"
  "cfg_Crypto outage_config = demo_crypto" "cfg_blake3 outage_config = (\<lambda>d. d)"
  by (simp_all add: outage_config_def mem_config_def demo_base_def)

lemma sealed_upload_simps [simp]:
  "up_EncMode sealed_upload = ManagedEncrypted" "up_DEKMaterial sealed_upload = demo_key" "up_PlaintextPartHashes sealed_upload = [(1, [1])]"
  "up_parts sealed_upload = [(1, sealed_part)]" "up_TenantID sealed_upload = AnonymousTenant" "up_Bucket sealed_upload = ''b''"
  "up_ObjectKey sealed_upload = ''k''" "up_Backend sealed_upload = ''local''" "dedupEnabled outage_config (up_Policy sealed_upload)"
  by (simp_all add: sealed_upload_def demo_upload_def dedupEnabled_def)

lemma demo_sealed_part:
  "\<exists>c. encryptWithDEK demo_crypto [2] demo_key enc i demo_rand = Inr c"
proof -
  let ?o = "gatewayEncryptOptions enc i"
  obtain er where er: "EncryptObject [2] None demo_key ?o demo_rand = Inr er"
    by (simp add: EncryptObject_def demo_key_def)
  have "nonces_suffice ?o (length [2 :: byte]) demo_rand"
    by (simp add: nonces_suffice_def demo_rand_def num_chunks_def DefaultChunkSize_def list_all_iff)
  moreover have "chunkSize ?o + int Overhead < 2 ^ 32"
    by (simp add: DefaultChunkSize_def)
  ultimately obtain c where "enc_ReadAll demo_crypto er = Some (Inr c)"
    using seal_open [OF demo_crypto_laws er] by blast
  with er show ?thesis
    by (simp add: encryptWithDEK_def drain_def)
qed

lemma outage_begin:
  obtains pu u1 where "upload_begin outage_config mp_memory_store refused_part [(''01'', sealed_upload)] = (Inr pu, u1)"
    "pu_Upload pu = sealed_upload" "\<exists>c. pu_Body pu = Inr c"
proof -
  obtain c where "encryptWithDEK demo_crypto [2] demo_key (partsEncryptionConfig sealed_upload) (uploadAADIdentity sealed_upload) demo_rand = Inr c"
    using demo_sealed_part by blast
  then show ?thesis
    using that demo_queries demo_numbers
    by (simp add: upload_begin_def authenticate_def mp_memory_store_def mp_Get_def gm_get_def seal_part_def ReadAll_def Let_def)
qed

lemma demo_HKDF_length: "length (cr_HKDF demo_crypto secret salt info n) = n"
  by (simp add: demo_crypto_def min_def)

lemma outage_completes:
  assumes "gm_get u ''01'' = Some (SetPlaintextPartHash 1 [2] sealed_upload)"
  obtains crs etag g3 u3 where "CompleteMultipartUpload outage_multi demo_complete (Some [\<lparr>pref_PartNumber = 1, pref_ETag = []\<rparr>]) (outage_gateway, u) = (crs, etag, (g3, u3))"
    "rs_Status crs = 200"
proof -
  let ?up = "SetPlaintextPartHash 1 [2] sealed_upload" and ?claims = "[\<lparr>pref_PartNumber = 1, pref_ETag = []\<rparr>]"
  let ?m = "complete_manifest demo_complete AnonymousTenant ''b'' ''k'' ?up [sealed_part]"
  have up: "up_EncMode ?up = ManagedEncrypted" "up_TenantID ?up = AnonymousTenant" "up_Bucket ?up = ''b''" "up_ObjectKey ?up = ''k''"
      "dedupEnabled outage_config (up_Policy ?up)" "PlaintextPartHashCount ?up = 1" "PlaintextPartHash ?up 1 = Some [2]" "up_parts ?up = [(1, sealed_part)]"
    by (simp_all add: SetPlaintextPartHash_def PlaintextPartHashCount_def PlaintextPartHash_def gm_set_def gm_get_def)
  have "complete_admission outage_config demo_complete (Some ?claims) outage_gateway = Inr (mem_ops, AnonymousTenant, ''b'', ''k'', ?claims)"
    using demo_path by (simp add: complete_admission_def authenticate_def demo_complete_def demo_request_def allowObjectLockOverwrite_def
        read_limited_def ReadAll_def)
  moreover have "us_Complete mp_memory_store ''01'' AnonymousTenant ''b'' ''k'' ?claims u = (Inr ([sealed_part], ?up), gm_del ''01'' u)"
    using assms up by (simp add: mp_memory_store_def mp_Complete_def gm_get_def [of "[(1, sealed_part)]"] sort_parts_def)
  moreover obtain m g1 where "multipart_dedup outage_config demo_complete AnonymousTenant ''b'' ?up [sealed_part] ?m outage_gateway = (Inr m, g1)"
  proof -
    have "ci_LookupByPlaintextHash ci_ops AnonymousTenant (formatContentHash (EncodeToString [2])) (gw_Index outage_gateway) = Inr other_row"
      by (simp add: ci_ops_def CI_LookupByPlaintextHash_def outage_gateway_def other_row_def content_hash_def formatContentHash_def ckey_def)
    moreover obtain idx where "ci_IncrementRef ci_ops AnonymousTenant (ce_ContentHash other_row) (gw_Index outage_gateway) = Inr idx"
      by (simp add: ci_ops_def CI_IncrementRef_def outage_gateway_def other_row_def gm_get_def Let_def)
    moreover obtain enc where "deriveConvergentEncryptionConfig outage_config [2] AnonymousTenant ManagedEncrypted (rq_rand demo_complete) = Inr enc"
      by (simp add: deriveConvergentEncryptionConfig_def DeriveConvergentDEK_def demo_HKDF_length demo_ge_def local_wrapper_def WrapDEK_def
          loadMasterKey_def demo_key_def demo_complete_def demo_request_def)
    ultimately show ?thesis
      using that up by (simp add: multipart_dedup_def multipartDedupEligible_def IsGatewayEncrypted_def dedupManagedMultipart_def
          dedupManagedMultipartHit_def sealed_part_def Let_def)
  qed
  moreover obtain rs etag g3 where p: "publish_manifest outage_config mem_ops demo_complete AnonymousTenant ''b'' ''k'' ?up [sealed_part] m g1 = (rs, etag, g3)"
    by (metis surj_pair)
  moreover have "rs_Status rs = 200"
    using p by (auto simp: publish_manifest_def applyDefaultObjectLockRetention_def mem_ops_def Mem_Put_def Let_def split: prod.splits)
  ultimately show ?thesis
    using that demo_queries(5) by (simp add: CompleteMultipartUpload_def demo_complete_def)
qed

theorem failed_part_substitutes_content_witness:
  "\<exists>pu u1 resp crs etag g3 u3 key m.
    upload_begin outage_config mp_memory_store refused_part [(''01'', sealed_upload)] = (Inr pu, u1)
    \<and> upload_write outage_config mp_memory_store refused_part pu (outage_gateway, u1) = (Inl resp, (outage_gateway, u1)) \<and> rs_Status resp \<noteq> 200
    \<and> CompleteMultipartUpload outage_multi demo_complete (Some [\<lparr>pref_PartNumber = 1, pref_ETag = []\<rparr>]) (outage_gateway, u1) = (crs, etag, (g3, u3))
    \<and> rs_Status crs = 200 \<and> op_Put mem_ops key m (gw_Manifests outage_gateway) = Inr (gw_Manifests g3) \<and> map p_PieceID (m_Pieces m) = [''other'']"
proof -
  let ?u = "[(''01'', sealed_upload)]"
  obtain pu u1 c where b: "upload_begin outage_config mp_memory_store refused_part ?u = (Inr pu, u1)" "pu_Upload pu = sealed_upload" "pu_Body pu = Inr c"
    by (rule outage_begin) blast
  obtain resp where w: "upload_write outage_config mp_memory_store refused_part pu (outage_gateway, u1) = (Inl resp, (outage_gateway, u1))"
    by (simp add: upload_write_def b gw_put_def)
  have s: "gm_get ?u ''01'' = Some sealed_upload" "IsGatewayEncrypted (up_EncMode sealed_upload)" "part_number refused_part = 1"
      "QueryGet (rq_RawQuery refused_part) ''uploadId'' = ''01''" "QueryGet (rq_RawQuery demo_complete) ''uploadId'' = ''01''"
    using demo_queries demo_numbers by (simp_all add: gm_get_def IsGatewayEncrypted_def part_number_def demo_complete_def)
  have "gm_get u1 ''01'' = Some (SetPlaintextPartHash 1 [2] sealed_upload)"
    using failed_part_session [OF mem_uploads.upload_store_axioms s(1,2) _ b(1) s(4) w] s(3) by simp
  then obtain crs etag g3 u3 where c: "CompleteMultipartUpload outage_multi demo_complete (Some [\<lparr>pref_PartNumber = 1, pref_ETag = []\<rparr>]) (outage_gateway, u1) = (crs, etag, (g3, u3))"
      "rs_Status crs = 200"
    by (rule outage_completes)
  have "ci_LookupByPlaintextHash ci_ops AnonymousTenant (content_hash (\<lambda>d. d) [2]) (gw_Index outage_gateway) = Inr other_row"
    by (simp add: ci_ops_def CI_LookupByPlaintextHash_def outage_gateway_def other_row_def content_hash_def formatContentHash_def ckey_def)
  with failed_part_substitutes_content [OF mem_uploads.upload_store_axioms _ _ _ _ s(1,2) _ _ _ _ b(1) s(4) s(3) w _ c s(5), where p = sealed_part and existing = other_row and h = "[1]"]
  have "rs_Status resp \<noteq> 200 \<and> (\<exists>key m. op_Put mem_ops key m (gw_Manifests outage_gateway) = Inr (gw_Manifests g3) \<and> map p_PieceID (m_Pieces m) = [ce_PieceID other_row]
      \<and> m_ContentHash m = ce_ContentHash other_row)"
    by (simp add: gm_get_def sealed_part_def)
  then obtain key m where "rs_Status resp \<noteq> 200" "op_Put mem_ops key m (gw_Manifests outage_gateway) = Inr (gw_Manifests g3)" "map p_PieceID (m_Pieces m) = [''other'']"
    by (auto simp: other_row_def)
  with b(1) w c show ?thesis
    by (intro exI conjI) assumption+
qed

end
