(* ===== verification/Migration_Jobs.thy ===== *)
theory Migration_Jobs
  imports Go_Time
begin

text \<open>
  The migration of tenants off a backend (\<open>migration\<close>): the phases of an object
  (\<open>state.go\<close>) and the queue of jobs that gateway nodes claim under a lease
  (\<open>jobstore.go\<close>).  Each call of the store is one atomic step, as its mutex makes it;
  the reading of the clock is an argument.

  The abstract machine is a lease per job: waiting, leased to a node until an instant, or
  settled.  The contract \<open>job_store\<close> says that the operations of a store act on the leases as the
  machine does; the in-memory store implements it, and every interleaving of calls by
  the nodes of a fleet has the outcomes of the machine.
\<close>

section \<open>Phases (state.go)\<close>

abbreviation WasabiPrimary :: string where "WasabiPrimary \<equiv> ''wasabi_primary''"
abbreviation DualWrite :: string where "DualWrite \<equiv> ''dual_write''"
abbreviation LocalPrimaryWasabiBackup :: string where "LocalPrimaryWasabiBackup \<equiv> ''local_primary_wasabi_backup''"
abbreviation LocalPrimaryWasabiDrain :: string where "LocalPrimaryWasabiDrain \<equiv> ''local_primary_wasabi_drain''"
abbreviation LocalOnly :: string where "LocalOnly \<equiv> ''local_only''"

definition Phase_Valid :: "string \<Rightarrow> bool" where
  "Phase_Valid p \<longleftrightarrow> p \<in> {WasabiPrimary, DualWrite, LocalPrimaryWasabiBackup, LocalPrimaryWasabiDrain, LocalOnly}"

definition allowedTransitions :: "(string \<times> string list) list" where
  "allowedTransitions =
    [(WasabiPrimary, [DualWrite]), (DualWrite, [LocalPrimaryWasabiBackup, WasabiPrimary]),
     (LocalPrimaryWasabiBackup, [LocalPrimaryWasabiDrain, DualWrite]),
     (LocalPrimaryWasabiDrain, [LocalOnly, LocalPrimaryWasabiBackup]), (LocalOnly, [])]"

definition allowed :: "string \<Rightarrow> string \<Rightarrow> bool" where
  "allowed p q = (case map_of allowedTransitions p of None \<Rightarrow> False | Some qs \<Rightarrow> q \<in> set qs)"

definition CanTransition :: "string \<Rightarrow> string \<Rightarrow> bool" where
  "CanTransition p q = (if \<not> Phase_Valid p \<or> \<not> Phase_Valid q then False else if p = q then False else allowed p q)"

datatype transition_error = InvalidSource | InvalidTarget | NoOpTransition | IllegalTransition

definition ValidateTransition :: "string \<Rightarrow> string \<Rightarrow> (transition_error, unit) result" where
  "ValidateTransition p q =
    (if \<not> Phase_Valid p then Inl InvalidSource
     else if \<not> Phase_Valid q then Inl InvalidTarget
     else if p = q then Inl NoOpTransition
     else if \<not> allowed p q then Inl IllegalTransition
     else Inr ())"

section \<open>Jobs and their store (jobstore.go)\<close>

abbreviation JobPending :: string where "JobPending \<equiv> ''pending''"
abbreviation JobRunning :: string where "JobRunning \<equiv> ''running''"
abbreviation JobDone :: string where "JobDone \<equiv> ''done''"
abbreviation JobFailed :: string where "JobFailed \<equiv> ''failed''"

record MigrationJob =
  mj_JobID :: string
  mj_TenantID :: string
  mj_Bucket :: string
  mj_SourceBackend :: string
  mj_DestCellID :: string
  mj_DestBackend :: string
  mj_BytesPerSecond :: int
  mj_State :: string
  mj_StartedAt :: gotime
  mj_CompletedAt :: gotime
  mj_Error :: string
  mj_BytesCopied :: int
  mj_PiecesCopied :: int

record claimedJob =
  cj_job :: MigrationJob
  cj_claimedBy :: string
  cj_claimedUntil :: gotime

record InMemoryJobStore =
  js_jobs :: "(string, claimedJob) gomap"
  js_queue :: "string list"

datatype job_error = ErrJobNotFound | ErrClaimNotHeld | ErrDuplicateJob | ErrJobArgument

definition NewInMemoryJobStore :: InMemoryJobStore where
  "NewInMemoryJobStore = \<lparr>js_jobs = [], js_queue = []\<rparr>"

definition PutJob :: "MigrationJob \<Rightarrow> InMemoryJobStore \<Rightarrow> (job_error, InMemoryJobStore) result" where
  "PutJob job s =
    (if mj_JobID job = [] then Inl ErrJobArgument
     else if gm_get (js_jobs s) (mj_JobID job) \<noteq> None then Inl ErrDuplicateJob
     else Inr \<lparr>js_jobs = gm_set (mj_JobID job) \<lparr>cj_job = job\<lparr>mj_State := JobPending\<rparr>, cj_claimedBy = [], cj_claimedUntil = zero_time\<rparr> (js_jobs s),
               js_queue = js_queue s @ [mj_JobID job]\<rparr>)"

definition AcquireJob :: "gotime \<Rightarrow> string \<Rightarrow> string \<Rightarrow> duration \<Rightarrow> InMemoryJobStore \<Rightarrow> (job_error, bool \<times> InMemoryJobStore) result" where
  "AcquireJob now jobID nodeID ttl s =
    (if jobID = [] \<or> nodeID = [] then Inl ErrJobArgument
     else if ttl \<le> 0 then Inl ErrJobArgument
     else case gm_get (js_jobs s) jobID of
       None \<Rightarrow> Inl ErrJobNotFound
     | Some e \<Rightarrow>
         if mj_State (cj_job e) \<noteq> JobPending \<and> mj_State (cj_job e) \<noteq> JobRunning then Inr (False, s)
         else if cj_claimedBy e \<noteq> [] \<and> cj_claimedUntil e > now \<and> cj_claimedBy e \<noteq> nodeID then Inr (False, s)
         else
           let job = (cj_job e)\<lparr>mj_State := JobRunning,
                 mj_StartedAt := (if mj_StartedAt (cj_job e) = zero_time then now else mj_StartedAt (cj_job e))\<rparr>
           in Inr (True, s\<lparr>js_jobs := gm_set jobID \<lparr>cj_job = job, cj_claimedBy = nodeID, cj_claimedUntil = now + ttl\<rparr> (js_jobs s)\<rparr>))"

definition HeartbeatJob :: "gotime \<Rightarrow> string \<Rightarrow> string \<Rightarrow> duration \<Rightarrow> InMemoryJobStore \<Rightarrow> (job_error, InMemoryJobStore) result" where
  "HeartbeatJob now jobID nodeID ttl s =
    (if ttl \<le> 0 then Inl ErrJobArgument
     else case gm_get (js_jobs s) jobID of
       None \<Rightarrow> Inl ErrJobNotFound
     | Some e \<Rightarrow>
         if cj_claimedBy e \<noteq> nodeID then Inl ErrClaimNotHeld
         else Inr (s\<lparr>js_jobs := gm_set jobID (e\<lparr>cj_claimedUntil := now + ttl\<rparr>) (js_jobs s)\<rparr>))"

definition ReleaseJob :: "gotime \<Rightarrow> string \<Rightarrow> string \<Rightarrow> string \<Rightarrow> int \<Rightarrow> int \<Rightarrow> string option \<Rightarrow> InMemoryJobStore
    \<Rightarrow> (job_error, InMemoryJobStore) result" where
  "ReleaseJob now jobID nodeID terminal bytesCopied piecesCopied jobErr s =
    (if terminal \<noteq> JobDone \<and> terminal \<noteq> JobFailed then Inl ErrJobArgument
     else case gm_get (js_jobs s) jobID of
       None \<Rightarrow> Inl ErrJobNotFound
     | Some e \<Rightarrow>
         if cj_claimedBy e \<noteq> nodeID then Inl ErrClaimNotHeld
         else
           let job = (cj_job e)\<lparr>mj_State := terminal, mj_BytesCopied := bytesCopied, mj_PiecesCopied := piecesCopied, mj_CompletedAt := now,
                 mj_Error := (case jobErr of None \<Rightarrow> mj_Error (cj_job e) | Some err \<Rightarrow> err)\<rparr>
           in Inr (s\<lparr>js_jobs := gm_set jobID \<lparr>cj_job = job, cj_claimedBy = [], cj_claimedUntil = zero_time\<rparr> (js_jobs s)\<rparr>))"

definition ListActiveJobs :: "InMemoryJobStore \<Rightarrow> MigrationJob list" where
  "ListActiveJobs s =
    List.map_filter (\<lambda>i. case gm_get (js_jobs s) i of
        None \<Rightarrow> None
      | Some e \<Rightarrow> if mj_State (cj_job e) = JobPending \<or> mj_State (cj_job e) = JobRunning then Some (cj_job e) else None) (js_queue s)"

definition GetJob :: "string \<Rightarrow> InMemoryJobStore \<Rightarrow> MigrationJob option" where
  "GetJob jobID s = map_option cj_job (gm_get (js_jobs s) jobID)"

definition Jobs :: "InMemoryJobStore \<Rightarrow> MigrationJob list" where
  "Jobs s = List.map_filter (\<lambda>i. GetJob i s) (js_queue s)"

text \<open>The interface the orchestrator and the console call.\<close>

record 's JobStore =
  jo_PutJob :: "MigrationJob \<Rightarrow> 's \<Rightarrow> (job_error, 's) result"
  jo_AcquireJob :: "gotime \<Rightarrow> string \<Rightarrow> string \<Rightarrow> duration \<Rightarrow> 's \<Rightarrow> (job_error, bool \<times> 's) result"
  jo_HeartbeatJob :: "gotime \<Rightarrow> string \<Rightarrow> string \<Rightarrow> duration \<Rightarrow> 's \<Rightarrow> (job_error, 's) result"
  jo_ReleaseJob :: "gotime \<Rightarrow> string \<Rightarrow> string \<Rightarrow> string \<Rightarrow> int \<Rightarrow> int \<Rightarrow> string option \<Rightarrow> 's \<Rightarrow> (job_error, 's) result"
  jo_ListActiveJobs :: "'s \<Rightarrow> MigrationJob list"
  jo_GetJob :: "string \<Rightarrow> 's \<Rightarrow> MigrationJob option"
  jo_Jobs :: "'s \<Rightarrow> MigrationJob list"

definition InMemoryJobs :: "InMemoryJobStore JobStore" where
  "InMemoryJobs = \<lparr>jo_PutJob = PutJob, jo_AcquireJob = AcquireJob, jo_HeartbeatJob = HeartbeatJob, jo_ReleaseJob = ReleaseJob,
     jo_ListActiveJobs = ListActiveJobs, jo_GetJob = GetJob, jo_Jobs = Jobs\<rparr>"

section \<open>Leases\<close>

datatype lease = Waiting | Leased string gotime | Settled string

definition lease_acquire :: "gotime \<Rightarrow> string \<Rightarrow> duration \<Rightarrow> lease \<Rightarrow> lease option" where
  "lease_acquire now node ttl l =
    (case l of
       Waiting \<Rightarrow> Some (Leased node (now + ttl))
     | Leased owner until \<Rightarrow> if until > now \<and> owner \<noteq> node then None else Some (Leased node (now + ttl))
     | Settled _ \<Rightarrow> None)"

definition lease_heartbeat :: "gotime \<Rightarrow> string \<Rightarrow> duration \<Rightarrow> lease \<Rightarrow> lease option" where
  "lease_heartbeat now node ttl l = (case l of Leased owner _ \<Rightarrow> if owner = node then Some (Leased node (now + ttl)) else None | _ \<Rightarrow> None)"

definition lease_release :: "string \<Rightarrow> string \<Rightarrow> lease \<Rightarrow> lease option" where
  "lease_release node terminal l = (case l of Leased owner _ \<Rightarrow> if owner = node then Some (Settled terminal) else None | _ \<Rightarrow> None)"

fun lease_state :: "lease \<Rightarrow> string" where
  "lease_state Waiting = JobPending"
| "lease_state (Leased _ _) = JobRunning"
| "lease_state (Settled st) = st"

definition lease_of :: "claimedJob \<Rightarrow> lease" where
  "lease_of e =
    (if mj_State (cj_job e) = JobPending then Waiting
     else if mj_State (cj_job e) = JobRunning then Leased (cj_claimedBy e) (cj_claimedUntil e)
     else Settled (mj_State (cj_job e)))"

definition leases :: "InMemoryJobStore \<Rightarrow> string \<rightharpoonup> string \<times> lease" where
  "leases s i = map_option (\<lambda>e. (mj_DestCellID (cj_job e), lease_of e)) (gm_get (js_jobs s) i)"

definition claimed_ok :: "string \<Rightarrow> claimedJob \<Rightarrow> bool" where
  "claimed_ok i e \<longleftrightarrow>
    mj_JobID (cj_job e) = i \<and> i \<noteq> [] \<and> mj_State (cj_job e) \<in> {JobPending, JobRunning, JobDone, JobFailed} \<and>
    (mj_State (cj_job e) = JobRunning \<longleftrightarrow> cj_claimedBy e \<noteq> [])"

definition jobs_inv :: "InMemoryJobStore \<Rightarrow> bool" where
  "jobs_inv s \<longleftrightarrow> distinct (js_queue s) \<and> (\<forall>i. gm_get (js_jobs s) i \<noteq> None \<longleftrightarrow> i \<in> set (js_queue s)) \<and>
    (\<forall>i e. gm_get (js_jobs s) i = Some e \<longrightarrow> claimed_ok i e)"

section \<open>Calls of the nodes, interleaved\<close>

text \<open>
  A call of the store with the clock it reads.  The calls of all nodes, in the order in which
  the store's mutex admits them, are one list.
\<close>

datatype job_call =
    CallPut MigrationJob
  | CallAcquire (call_time: gotime) (call_job: string) (call_node: string) duration
  | CallHeartbeat (call_time: gotime) (call_job: string) (call_node: string) duration
  | CallRelease (call_time: gotime) (call_job: string) (call_node: string) string int int "string option"
  where "call_job (CallPut job) = mj_JobID job"

fun store_call :: "'s JobStore \<Rightarrow> job_call \<Rightarrow> 's \<Rightarrow> (job_error, bool) result \<times> 's" where
  "store_call ops (CallPut job) s = (case jo_PutJob ops job s of Inl e \<Rightarrow> (Inl e, s) | Inr s' \<Rightarrow> (Inr True, s'))"
| "store_call ops (CallAcquire now i node ttl) s =
    (case jo_AcquireJob ops now i node ttl s of Inl e \<Rightarrow> (Inl e, s) | Inr (ok, s') \<Rightarrow> (Inr ok, s'))"
| "store_call ops (CallHeartbeat now i node ttl) s =
    (case jo_HeartbeatJob ops now i node ttl s of Inl e \<Rightarrow> (Inl e, s) | Inr s' \<Rightarrow> (Inr True, s'))"
| "store_call ops (CallRelease now i node terminal b p err) s =
    (case jo_ReleaseJob ops now i node terminal b p err s of Inl e \<Rightarrow> (Inl e, s) | Inr s' \<Rightarrow> (Inr True, s'))"

fun store_calls :: "'s JobStore \<Rightarrow> job_call list \<Rightarrow> 's \<Rightarrow> (job_error, bool) result list \<times> 's" where
  "store_calls ops [] s = ([], s)"
| "store_calls ops (k # ks) s = (case store_call ops k s of (r, s1) \<Rightarrow> case store_calls ops ks s1 of (rs, s2) \<Rightarrow> (r # rs, s2))"

text \<open>The same calls on the leases: what the store promises, with no record of the jobs.\<close>

definition settle :: "('l \<Rightarrow> 'l option) \<Rightarrow> (job_error, bool) result \<Rightarrow> string \<Rightarrow> (string \<rightharpoonup> 'c \<times> 'l) \<Rightarrow> (job_error, bool) result \<times> (string \<rightharpoonup> 'c \<times> 'l)" where
  "settle f refused i m =
    (case m i of None \<Rightarrow> (Inl ErrJobNotFound, m)
     | Some (c, l) \<Rightarrow> (case f l of None \<Rightarrow> (refused, m) | Some l' \<Rightarrow> (Inr True, m(i \<mapsto> (c, l')))))"

fun lease_call :: "job_call \<Rightarrow> (string \<rightharpoonup> string \<times> lease) \<Rightarrow> (job_error, bool) result \<times> (string \<rightharpoonup> string \<times> lease)" where
  "lease_call (CallPut job) m =
    (if mj_JobID job = [] then (Inl ErrJobArgument, m)
     else if m (mj_JobID job) \<noteq> None then (Inl ErrDuplicateJob, m)
     else (Inr True, m(mj_JobID job \<mapsto> (mj_DestCellID job, Waiting))))"
| "lease_call (CallAcquire now i node ttl) m =
    (if i = [] \<or> node = [] \<or> ttl \<le> 0 then (Inl ErrJobArgument, m) else settle (lease_acquire now node ttl) (Inr False) i m)"
| "lease_call (CallHeartbeat now i node ttl) m =
    (if ttl \<le> 0 then (Inl ErrJobArgument, m) else settle (lease_heartbeat now node ttl) (Inl ErrClaimNotHeld) i m)"
| "lease_call (CallRelease now i node terminal b p err) m =
    (if terminal \<notin> {JobDone, JobFailed} then (Inl ErrJobArgument, m)
     else settle (lease_release node terminal) (Inl ErrClaimNotHeld) i m)"

fun lease_calls :: "job_call list \<Rightarrow> (string \<rightharpoonup> string \<times> lease) \<Rightarrow> (job_error, bool) result list \<times> (string \<rightharpoonup> string \<times> lease)" where
  "lease_calls [] m = ([], m)"
| "lease_calls (k # ks) m = (case lease_call k m of (r, m1) \<Rightarrow> case lease_calls ks m1 of (rs, m2) \<Rightarrow> (r # rs, m2))"

text \<open>A gateway's node identifier is not empty: the constructor of the orchestrator refuses it.\<close>

fun by_node :: "job_call \<Rightarrow> bool" where
  "by_node (CallPut job) = True"
| "by_node (CallAcquire now i node ttl) = (node \<noteq> [])"
| "by_node (CallHeartbeat now i node ttl) = (node \<noteq> [])"
| "by_node (CallRelease now i node terminal b p err) = (node \<noteq> [])"

text \<open>A call by another node than the holder, made while the holder's claim is live.\<close>

fun foreign :: "string \<Rightarrow> gotime \<Rightarrow> job_call \<Rightarrow> bool" where
  "foreign holder until (CallPut job) = True"
| "foreign holder until (CallAcquire now i node ttl) = (node \<noteq> holder \<and> now < until)"
| "foreign holder until (CallHeartbeat now i node ttl) = (node \<noteq> holder)"
| "foreign holder until (CallRelease now i node terminal b p err) = (node \<noteq> holder)"

section \<open>The contract of a job store\<close>

locale job_store =
  fixes ops :: "'s JobStore"
    and inv :: "'s \<Rightarrow> bool"
    and view :: "'s \<Rightarrow> string \<rightharpoonup> string \<times> lease"
  assumes put_law: "inv s \<Longrightarrow> mj_JobID job \<noteq> [] \<Longrightarrow> view s (mj_JobID job) = None \<Longrightarrow>
      \<exists>s'. jo_PutJob ops job s = Inr s' \<and> inv s' \<and> view s' = (view s)(mj_JobID job \<mapsto> (mj_DestCellID job, Waiting))"
    and put_dup: "inv s \<Longrightarrow> mj_JobID job \<noteq> [] \<Longrightarrow> view s (mj_JobID job) \<noteq> None \<Longrightarrow> jo_PutJob ops job s = Inl ErrDuplicateJob"
    and acquire_some: "inv s \<Longrightarrow> node \<noteq> [] \<Longrightarrow> ttl > 0 \<Longrightarrow> view s i = Some (c, l) \<Longrightarrow> lease_acquire now node ttl l = Some l' \<Longrightarrow>
      \<exists>s'. jo_AcquireJob ops now i node ttl s = Inr (True, s') \<and> inv s' \<and> view s' = (view s)(i \<mapsto> (c, l'))"
    and acquire_none: "inv s \<Longrightarrow> node \<noteq> [] \<Longrightarrow> ttl > 0 \<Longrightarrow> view s i = Some (c, l) \<Longrightarrow> lease_acquire now node ttl l = None \<Longrightarrow>
      jo_AcquireJob ops now i node ttl s = Inr (False, s)"
    and heartbeat_some: "inv s \<Longrightarrow> node \<noteq> [] \<Longrightarrow> ttl > 0 \<Longrightarrow> view s i = Some (c, l) \<Longrightarrow> lease_heartbeat now node ttl l = Some l' \<Longrightarrow>
      \<exists>s'. jo_HeartbeatJob ops now i node ttl s = Inr s' \<and> inv s' \<and> view s' = (view s)(i \<mapsto> (c, l'))"
    and heartbeat_none: "inv s \<Longrightarrow> node \<noteq> [] \<Longrightarrow> ttl > 0 \<Longrightarrow> view s i = Some (c, l) \<Longrightarrow> lease_heartbeat now node ttl l = None \<Longrightarrow>
      jo_HeartbeatJob ops now i node ttl s = Inl ErrClaimNotHeld"
    and release_some: "inv s \<Longrightarrow> node \<noteq> [] \<Longrightarrow> terminal \<in> {JobDone, JobFailed} \<Longrightarrow> view s i = Some (c, l) \<Longrightarrow>
      lease_release node terminal l = Some l' \<Longrightarrow>
      \<exists>s'. jo_ReleaseJob ops now i node terminal b p err s = Inr s' \<and> inv s' \<and> view s' = (view s)(i \<mapsto> (c, l'))"
    and release_none: "inv s \<Longrightarrow> node \<noteq> [] \<Longrightarrow> terminal \<in> {JobDone, JobFailed} \<Longrightarrow> view s i = Some (c, l) \<Longrightarrow>
      lease_release node terminal l = None \<Longrightarrow> jo_ReleaseJob ops now i node terminal b p err s = Inl ErrClaimNotHeld"
    and put_arg: "mj_JobID job = [] \<Longrightarrow> jo_PutJob ops job s = Inl ErrJobArgument"
    and acquire_arg: "i = [] \<or> node = [] \<or> ttl \<le> 0 \<Longrightarrow> jo_AcquireJob ops now i node ttl s = Inl ErrJobArgument"
    and heartbeat_arg: "ttl \<le> 0 \<Longrightarrow> jo_HeartbeatJob ops now i node ttl s = Inl ErrJobArgument"
    and release_arg: "terminal \<notin> {JobDone, JobFailed} \<Longrightarrow> jo_ReleaseJob ops now i node terminal b p err s = Inl ErrJobArgument"
    and acquire_missing: "inv s \<Longrightarrow> view s i = None \<Longrightarrow> i \<noteq> [] \<Longrightarrow> node \<noteq> [] \<Longrightarrow> ttl > 0 \<Longrightarrow>
      jo_AcquireJob ops now i node ttl s = Inl ErrJobNotFound"
    and heartbeat_missing: "inv s \<Longrightarrow> view s i = None \<Longrightarrow> ttl > 0 \<Longrightarrow> jo_HeartbeatJob ops now i node ttl s = Inl ErrJobNotFound"
    and release_missing: "inv s \<Longrightarrow> view s i = None \<Longrightarrow> terminal \<in> {JobDone, JobFailed} \<Longrightarrow>
      jo_ReleaseJob ops now i node terminal b p err s = Inl ErrJobNotFound"
    and list_law: "inv s \<Longrightarrow> distinct (map mj_JobID (jo_ListActiveJobs ops s)) \<and>
      (\<forall>j\<in>set (jo_ListActiveJobs ops s). \<exists>l. view s (mj_JobID j) = Some (mj_DestCellID j, l) \<and> mj_State j = lease_state l \<and> mj_State j \<in> {JobPending, JobRunning}) \<and>
      (\<forall>i c l. view s i = Some (c, l) \<longrightarrow> lease_state l \<in> {JobPending, JobRunning} \<longrightarrow> i \<in> mj_JobID ` set (jo_ListActiveJobs ops s))"
    and get_law: "inv s \<Longrightarrow> jo_GetJob ops i s = None \<longleftrightarrow> view s i = None"
    and settled_law: "inv s \<Longrightarrow> view s i = Some (c, Settled st) \<Longrightarrow> st \<in> {JobDone, JobFailed}"
    and id_law: "inv s \<Longrightarrow> view s i \<noteq> None \<Longrightarrow> i \<noteq> []"

begin

lemma store_call_refines:
  assumes "inv s" and "by_node k"
  shows "inv (snd (store_call ops k s)) \<and> fst (lease_call k (view s)) = fst (store_call ops k s) \<and>
    snd (lease_call k (view s)) = view (snd (store_call ops k s))"
proof (cases k)
  case (CallPut job)
  show ?thesis
  proof (cases "mj_JobID job = [] \<or> view s (mj_JobID job) \<noteq> None")
    case True
    then show ?thesis using assms(1) put_arg [of job s] put_dup [of s job] by (cases "mj_JobID job = []") (auto simp: CallPut)
  next
    case False
    then have "mj_JobID job \<noteq> []" "view s (mj_JobID job) = None" by blast+
    with put_law [OF assms(1) this] show ?thesis by (auto simp: CallPut)
  qed
next
  case (CallAcquire now i node ttl)
  show ?thesis
  proof (cases "i = [] \<or> node = [] \<or> ttl \<le> 0 \<or> view s i = None")
    case True
    then show ?thesis
      using assms(1) acquire_arg [of i node ttl now s] acquire_missing [of s i node ttl now]
      by (cases "i = [] \<or> node = [] \<or> ttl \<le> 0") (auto simp: CallAcquire settle_def)
  next
    case False
    then obtain c l where v: "view s i = Some (c, l)" by force
    from False have "node \<noteq> []" "ttl > 0" by simp_all
    note acq = acquire_none [OF assms(1) this v, of now] acquire_some [OF assms(1) this v, of now]
    then show ?thesis using False v assms(1) by (cases "lease_acquire now node ttl l") (auto simp: CallAcquire settle_def)
  qed
next
  case (CallHeartbeat now i node ttl)
  then have n: "node \<noteq> []" using assms(2) by simp
  show ?thesis
  proof (cases "ttl \<le> 0 \<or> view s i = None")
    case True
    then show ?thesis
      using assms(1) heartbeat_arg [of ttl now i node s] heartbeat_missing [of s i ttl now node]
      by (cases "ttl \<le> 0") (auto simp: CallHeartbeat settle_def)
  next
    case False
    then obtain c l where v: "view s i = Some (c, l)" by force
    from False have "ttl > 0" by simp
    note hb = heartbeat_none [OF assms(1) n this v, of now] heartbeat_some [OF assms(1) n this v, of now]
    then show ?thesis using False v assms(1) by (cases "lease_heartbeat now node ttl l") (auto simp: CallHeartbeat settle_def)
  qed
next
  case (CallRelease now i node terminal b p err)
  then have n: "node \<noteq> []" using assms(2) by simp
  show ?thesis
  proof (cases "terminal \<notin> {JobDone, JobFailed} \<or> view s i = None")
    case True
    then show ?thesis
      using assms(1) release_arg [of terminal now i node b p err s] release_missing [of s i terminal now node b p err]
      by (cases "terminal \<notin> {JobDone, JobFailed}") (auto simp: CallRelease settle_def)
  next
    case False
    then obtain c l where v: "view s i = Some (c, l)" by force
    from False have tm: "terminal \<in> {JobDone, JobFailed}" by simp
    note rel = release_none [OF assms(1) n tm v, of now b p err] release_some [OF assms(1) n tm v, of _ now b p err]
    then show ?thesis using tm v assms(1) by (cases "lease_release node terminal l") (auto simp: CallRelease settle_def)
  qed
qed

lemma store_calls_refine:
  assumes "inv s" and "list_all by_node ks"
  shows "inv (snd (store_calls ops ks s)) \<and> lease_calls ks (view s) = (fst (store_calls ops ks s), view (snd (store_calls ops ks s)))"
  using assms
proof (induction ks arbitrary: s)
  case (Cons k ks)
  from Cons.prems have "inv s" "by_node k" by simp_all
  from store_call_refines [OF this] Cons.IH [of "snd (store_call ops k s)"] Cons.prems
  show ?case by (auto split: prod.splits)
qed simp

end

section \<open>The in-memory store implements it\<close>

lemmas lease_defs = lease_acquire_def lease_heartbeat_def lease_release_def lease_of_def

lemma leases_set [store_simps]:
  "leases (s\<lparr>js_jobs := gm_set i e (js_jobs s)\<rparr>) = (leases s)(i \<mapsto> (mj_DestCellID (cj_job e), lease_of e))"
  by (rule ext) (simp add: leases_def gm_get_set)

lemma leases_put [store_simps]:
  "leases \<lparr>js_jobs = gm_set i e (js_jobs s), js_queue = q\<rparr> = (leases s)(i \<mapsto> (mj_DestCellID (cj_job e), lease_of e))"
  by (rule ext) (simp add: leases_def gm_get_set)

lemma lease_state_of: "lease_state (lease_of e) = mj_State (cj_job e)"
  by (simp add: lease_of_def)

lemma leases_SomeE:
  assumes "jobs_inv s" and "leases s i = Some (c, l)"
  obtains e where "gm_get (js_jobs s) i = Some e" and "claimed_ok i e" and "c = mj_DestCellID (cj_job e)" and "l = lease_of e"
  using assms unfolding jobs_inv_def leases_def by auto

lemma jobs_inv_New [inv_intros]: "jobs_inv NewInMemoryJobStore"
  by (simp add: jobs_inv_def NewInMemoryJobStore_def gm_get_Nil)

lemma jobs_inv_set [inv_intros]:
  assumes "jobs_inv s" and "gm_get (js_jobs s) i \<noteq> None" and "claimed_ok i e"
  shows "jobs_inv (s\<lparr>js_jobs := gm_set i e (js_jobs s)\<rparr>)"
  using assms unfolding jobs_inv_def by (auto simp: gm_get_set)

lemma jobs_inv_put:
  assumes "jobs_inv s" and "gm_get (js_jobs s) i = None" and "claimed_ok i e"
  shows "jobs_inv \<lparr>js_jobs = gm_set i e (js_jobs s), js_queue = js_queue s @ [i]\<rparr>"
proof -
  have "i \<notin> set (js_queue s)" using assms(1,2) unfolding jobs_inv_def by blast
  then show ?thesis using assms unfolding jobs_inv_def by (auto simp: gm_get_set)
qed

text \<open>The entries of a well-formed store, by their lease.\<close>

lemma claimed_ok_cases:
  assumes "claimed_ok i e"
  obtains (waiting) "mj_State (cj_job e) = JobPending" "cj_claimedBy e = []" "lease_of e = Waiting"
  | (leased) "mj_State (cj_job e) = JobRunning" "cj_claimedBy e \<noteq> []" "lease_of e = Leased (cj_claimedBy e) (cj_claimedUntil e)"
  | (settled) "mj_State (cj_job e) \<in> {JobDone, JobFailed}" "cj_claimedBy e = []" "lease_of e = Settled (mj_State (cj_job e))"
  using assms unfolding claimed_ok_def lease_of_def by fastforce

lemma PutJob_law:
  assumes "jobs_inv s" and "mj_JobID job \<noteq> []" and "leases s (mj_JobID job) = None"
  shows "\<exists>s'. PutJob job s = Inr s' \<and> jobs_inv s' \<and> leases s' = (leases s)(mj_JobID job \<mapsto> (mj_DestCellID job, Waiting))"
  using assms by (auto simp: PutJob_def leases_put leases_def lease_of_def claimed_ok_def intro!: jobs_inv_put)

lemma AcquireJob_law:
  assumes "jobs_inv s" and "node \<noteq> []" and "ttl > 0" and "leases s i = Some (c, l)"
  shows "case lease_acquire now node ttl l of
      None \<Rightarrow> AcquireJob now i node ttl s = Inr (False, s)
    | Some l' \<Rightarrow> \<exists>s'. AcquireJob now i node ttl s = Inr (True, s') \<and> jobs_inv s' \<and> leases s' = (leases s)(i \<mapsto> (c, l'))"
proof -
  obtain e where e: "gm_get (js_jobs s) i = Some e" "claimed_ok i e" "c = mj_DestCellID (cj_job e)" "l = lease_of e"
    using assms(1,4) by (rule leases_SomeE)
  from e(2) show ?thesis
  proof (cases rule: claimed_ok_cases)
    case waiting
    with assms(1-3) e show ?thesis
      by (auto simp: AcquireJob_def Let_def leases_set lease_acquire_def lease_of_def claimed_ok_def intro!: jobs_inv_set)
  next
    case leased
    with assms(1-3) e show ?thesis
      by (auto simp: AcquireJob_def Let_def leases_set lease_acquire_def lease_of_def claimed_ok_def intro!: jobs_inv_set)
  next
    case settled
    with assms(1-3) e show ?thesis
      by (auto simp: AcquireJob_def lease_acquire_def claimed_ok_def)
  qed
qed

lemma HeartbeatJob_law:
  assumes "jobs_inv s" and "node \<noteq> []" and "ttl > 0" and "leases s i = Some (c, l)"
  shows "case lease_heartbeat now node ttl l of
      None \<Rightarrow> HeartbeatJob now i node ttl s = Inl ErrClaimNotHeld
    | Some l' \<Rightarrow> \<exists>s'. HeartbeatJob now i node ttl s = Inr s' \<and> jobs_inv s' \<and> leases s' = (leases s)(i \<mapsto> (c, l'))"
proof -
  obtain e where e: "gm_get (js_jobs s) i = Some e" "claimed_ok i e" "c = mj_DestCellID (cj_job e)" "l = lease_of e"
    using assms(1,4) by (rule leases_SomeE)
  from e(2) show ?thesis
  proof (cases rule: claimed_ok_cases)
    case waiting
    with assms(1-3) e show ?thesis
      by (auto simp: HeartbeatJob_def Let_def leases_set lease_heartbeat_def lease_of_def claimed_ok_def intro!: jobs_inv_set)
  next
    case leased
    with assms(1-3) e show ?thesis
      by (auto simp: HeartbeatJob_def Let_def leases_set lease_heartbeat_def lease_of_def claimed_ok_def intro!: jobs_inv_set)
  next
    case settled
    with assms(1-3) e show ?thesis
      by (auto simp: HeartbeatJob_def lease_heartbeat_def)
  qed
qed

lemma ReleaseJob_law:
  assumes "jobs_inv s" and "node \<noteq> []" and "terminal \<in> {JobDone, JobFailed}" and "leases s i = Some (c, l)"
  shows "case lease_release node terminal l of
      None \<Rightarrow> ReleaseJob now i node terminal b p err s = Inl ErrClaimNotHeld
    | Some l' \<Rightarrow> \<exists>s'. ReleaseJob now i node terminal b p err s = Inr s' \<and> jobs_inv s' \<and> leases s' = (leases s)(i \<mapsto> (c, l'))"
proof -
  obtain e where e: "gm_get (js_jobs s) i = Some e" "claimed_ok i e" "c = mj_DestCellID (cj_job e)" "l = lease_of e"
    using assms(1,4) by (rule leases_SomeE)
  from e(2) show ?thesis
  proof (cases rule: claimed_ok_cases)
    case waiting
    with assms(1-3) e show ?thesis
      by (auto simp: ReleaseJob_def Let_def leases_set lease_release_def lease_of_def claimed_ok_def intro!: jobs_inv_set)
  next
    case leased
    with assms(1-3) e show ?thesis
      by (auto simp: ReleaseJob_def Let_def leases_set lease_release_def lease_of_def claimed_ok_def intro!: jobs_inv_set)
  next
    case settled
    with assms(1-3) e show ?thesis
      by (auto simp: ReleaseJob_def lease_release_def)
  qed
qed

lemma ListActiveJobs_law:
  assumes "jobs_inv s"
  shows "distinct (map mj_JobID (ListActiveJobs s))"
    and "j \<in> set (ListActiveJobs s) \<Longrightarrow>
      \<exists>l. leases s (mj_JobID j) = Some (mj_DestCellID j, l) \<and> mj_State j = lease_state l \<and> mj_State j \<in> {JobPending, JobRunning}"
    and "leases s i = Some (c, l) \<Longrightarrow> lease_state l \<in> {JobPending, JobRunning} \<Longrightarrow> i \<in> mj_JobID ` set (ListActiveJobs s)"
proof -
  define pick where "pick i = (case gm_get (js_jobs s) i of None \<Rightarrow> None
      | Some e \<Rightarrow> if mj_State (cj_job e) = JobPending \<or> mj_State (cj_job e) = JobRunning then Some (cj_job e) else None)" for i
  have L: "ListActiveJobs s = List.map_filter pick (js_queue s)" by (simp add: ListActiveJobs_def pick_def [abs_def])
  have ids: "mj_JobID j' = i'" if "pick i' = Some j'" for i' j'
    using that assms unfolding pick_def jobs_inv_def claimed_ok_def by (auto split: option.splits if_splits)
  have "map mj_JobID (List.map_filter pick q) = filter (\<lambda>i. pick i \<noteq> None) q" for q
    by (induction q) (auto simp: List.map_filter_simps ids split: option.splits)
  then show "distinct (map mj_JobID (ListActiveJobs s))" using assms unfolding L jobs_inv_def by simp
  have mem: "j' \<in> set (ListActiveJobs s) \<longleftrightarrow> (\<exists>i'\<in>set (js_queue s). pick i' = Some j')" for j'
    unfolding L by (force simp: List.map_filter_def)
  show "\<exists>l. leases s (mj_JobID j) = Some (mj_DestCellID j, l) \<and> mj_State j = lease_state l \<and> mj_State j \<in> {JobPending, JobRunning}"
    if "j \<in> set (ListActiveJobs s)"
  proof -
    from that obtain i' where p: "pick i' = Some j" unfolding mem by blast
    then obtain e where e: "gm_get (js_jobs s) i' = Some e" "j = cj_job e" "mj_State j \<in> {JobPending, JobRunning}"
      unfolding pick_def by (auto split: option.splits if_splits)
    have "leases s (mj_JobID j) = Some (mj_DestCellID j, lease_of e)" using e ids [OF p] by (simp add: leases_def)
    then show ?thesis using e by (auto simp: lease_state_of)
  qed
  show "i \<in> mj_JobID ` set (ListActiveJobs s)" if "leases s i = Some (c, l)" "lease_state l \<in> {JobPending, JobRunning}"
  proof -
    from leases_SomeE [OF assms that(1)] obtain e where e: "gm_get (js_jobs s) i = Some e" "l = lease_of e" by metis
    with that(2) have p: "pick i = Some (cj_job e)" unfolding pick_def by (auto simp: lease_state_of)
    have "i \<in> set (js_queue s)" using e(1) assms unfolding jobs_inv_def by blast
    then have "cj_job e \<in> set (ListActiveJobs s)" unfolding mem using p by blast
    then show ?thesis using ids [OF p] by force
  qed
qed

lemma leases_None_iff: "leases s i = None \<longleftrightarrow> gm_get (js_jobs s) i = None"
  by (simp add: leases_def)

interpretation mem_jobs: job_store InMemoryJobs jobs_inv leases
proof (unfold_locales, unfold InMemoryJobs_def JobStore.simps)
  fix s i c l now l' and node :: string and ttl :: duration
  assume *: "jobs_inv s" "node \<noteq> []" "ttl > 0" "leases s i = Some (c, l)"
  show "lease_acquire now node ttl l = Some l' \<Longrightarrow>
    \<exists>s'. AcquireJob now i node ttl s = Inr (True, s') \<and> jobs_inv s' \<and> leases s' = (leases s)(i \<mapsto> (c, l'))"
    using AcquireJob_law [OF *, of now] by simp
  show "lease_acquire now node ttl l = None \<Longrightarrow> AcquireJob now i node ttl s = Inr (False, s)"
    using AcquireJob_law [OF *, of now] by simp
  show "lease_heartbeat now node ttl l = Some l' \<Longrightarrow>
    \<exists>s'. HeartbeatJob now i node ttl s = Inr s' \<and> jobs_inv s' \<and> leases s' = (leases s)(i \<mapsto> (c, l'))"
    using HeartbeatJob_law [OF *, of now] by simp
  show "lease_heartbeat now node ttl l = None \<Longrightarrow> HeartbeatJob now i node ttl s = Inl ErrClaimNotHeld"
    using HeartbeatJob_law [OF *, of now] by simp
next
  fix s i c l now b p err l' and node terminal :: string
  assume *: "jobs_inv s" "node \<noteq> []" "terminal \<in> {JobDone, JobFailed}" "leases s i = Some (c, l)"
  show "lease_release node terminal l = Some l' \<Longrightarrow>
    \<exists>s'. ReleaseJob now i node terminal b p err s = Inr s' \<and> jobs_inv s' \<and> leases s' = (leases s)(i \<mapsto> (c, l'))"
    using ReleaseJob_law [OF *, of now b p err] by simp
  show "lease_release node terminal l = None \<Longrightarrow> ReleaseJob now i node terminal b p err s = Inl ErrClaimNotHeld"
    using ReleaseJob_law [OF *, of now b p err] by simp
next
  fix s i c st
  assume "jobs_inv s" and "leases s i = Some (c, Settled st)"
  then obtain e where "claimed_ok i e" "lease_of e = Settled st" by (metis leases_SomeE)
  then show "st \<in> {JobDone, JobFailed}" by (cases rule: claimed_ok_cases) auto
next
  fix s i assume "jobs_inv s" and "leases s i \<noteq> None"
  then show "i \<noteq> []" unfolding jobs_inv_def leases_None_iff claimed_ok_def by blast
next
  fix s assume "jobs_inv s"
  note L = ListActiveJobs_law [OF this]
  show "distinct (map mj_JobID (ListActiveJobs s)) \<and>
      (\<forall>j\<in>set (ListActiveJobs s). \<exists>l. leases s (mj_JobID j) = Some (mj_DestCellID j, l) \<and> mj_State j = lease_state l \<and> mj_State j \<in> {JobPending, JobRunning}) \<and>
      (\<forall>i c l. leases s i = Some (c, l) \<longrightarrow> lease_state l \<in> {JobPending, JobRunning} \<longrightarrow> i \<in> mj_JobID ` set (ListActiveJobs s))"
    using L by blast
qed (use PutJob_law in \<open>auto simp: PutJob_def AcquireJob_def HeartbeatJob_def ReleaseJob_def GetJob_def leases_None_iff\<close>)

section \<open>Properties\<close>

text \<open>
  C9: the in-memory job store refines the lease machine.  For every sequence of calls that
  the nodes of a fleet make, in whatever order they interleave, the answers of the store are those
  of the machine, and its state afterwards abstracts to the machine's: a job is waiting,
  leased to one node until one instant, or settled.
\<close>

theorem jobs_refine_leases:
  assumes "jobs_inv s" and "list_all by_node ks"
  shows "lease_calls ks (leases s) = (fst (store_calls InMemoryJobs ks s), leases (snd (store_calls InMemoryJobs ks s)))"
  using mem_jobs.store_calls_refine [OF assms] by blast

definition demo_job :: "string \<Rightarrow> MigrationJob" where
  "demo_job i = \<lparr>mj_JobID = i, mj_TenantID = ''t'', mj_Bucket = ''b'', mj_SourceBackend = ''wasabi'', mj_DestCellID = ''c1'',
     mj_DestBackend = ''local'', mj_BytesPerSecond = 0, mj_State = JobPending, mj_StartedAt = 0, mj_CompletedAt = 0, mj_Error = [],
     mj_BytesCopied = 0, mj_PiecesCopied = 0\<rparr>"

definition demo_calls :: "job_call list" where
  "demo_calls =
    [CallPut (demo_job ''j''), CallAcquire 10 ''j'' ''a'' 30, CallAcquire 11 ''j'' ''b'' 30, CallHeartbeat 20 ''j'' ''a'' 30,
     CallAcquire 50 ''j'' ''b'' 30, CallHeartbeat 51 ''j'' ''a'' 30, CallRelease 60 ''j'' ''b'' JobDone 7 1 None, CallAcquire 99 ''j'' ''a'' 30]"

theorem jobs_refine_leases_witness:
  "lease_calls demo_calls (leases NewInMemoryJobStore)
     = (fst (store_calls InMemoryJobs demo_calls NewInMemoryJobStore), leases (snd (store_calls InMemoryJobs demo_calls NewInMemoryJobStore))) \<and>
   fst (store_calls InMemoryJobs demo_calls NewInMemoryJobStore)
     = [Inr True, Inr True, Inr False, Inr True, Inr True, Inl ErrClaimNotHeld, Inr True, Inr False]"
proof
  show "lease_calls demo_calls (leases NewInMemoryJobStore)
     = (fst (store_calls InMemoryJobs demo_calls NewInMemoryJobStore), leases (snd (store_calls InMemoryJobs demo_calls NewInMemoryJobStore)))"
    by (rule jobs_refine_leases [OF jobs_inv_New]) (simp add: demo_calls_def)
  show "fst (store_calls InMemoryJobs demo_calls NewInMemoryJobStore)
     = [Inr True, Inr True, Inr False, Inr True, Inr True, Inl ErrClaimNotHeld, Inr True, Inr False]"
    by code_simp
qed

text \<open>Calls by other nodes during a live claim are refused and leave it as it is.\<close>

lemma lease_call_foreign:
  assumes "m i = Some (c, Leased a u)" and "foreign a u k"
  shows "snd (lease_call k m) i = Some (c, Leased a u) \<and> (call_job k = i \<longrightarrow> fst (lease_call k m) \<noteq> Inr True)"
  using assms by (cases k) (auto simp: settle_def lease_acquire_def lease_heartbeat_def lease_release_def split: option.splits)

lemma lease_calls_foreign:
  assumes "m i = Some (c, Leased a u)" and "list_all (foreign a u) ks"
  shows "snd (lease_calls ks m) i = Some (c, Leased a u) \<and>
    list_all2 (\<lambda>k r. call_job k = i \<longrightarrow> r \<noteq> Inr True) ks (fst (lease_calls ks m))"
  using assms
proof (induction ks arbitrary: m)
  case (Cons k ks)
  from Cons.prems have "m i = Some (c, Leased a u)" "foreign a u k" by simp_all
  from lease_call_foreign [of m i c a u k, OF this] Cons.IH [of "snd (lease_call k m)"] Cons.prems(2)
  show ?case by (auto split: prod.splits)
qed simp

text \<open>
  C10: a claim is exclusive while it is live.  If a node holds job \<open>i\<close> until \<open>u\<close>, then whatever
  the other nodes call -- submissions, heartbeats and releases at any time, acquisitions before
  \<open>u\<close>, in any order and number -- no call on the job succeeds and the holder still holds it until \<open>u\<close>.
\<close>

theorem live_claim_exclusive:
  assumes "jobs_inv s" and "leases s i = Some (c, Leased a u)"
    and "list_all by_node ks" and "list_all (foreign a u) ks"
  shows "leases (snd (store_calls InMemoryJobs ks s)) i = Some (c, Leased a u) \<and>
    list_all2 (\<lambda>k r. call_job k = i \<longrightarrow> r \<noteq> Inr True) ks (fst (store_calls InMemoryJobs ks s))"
  using lease_calls_foreign [of "leases s" i c a u ks] mem_jobs.store_calls_refine [OF assms(1,3)] assms(2,4) by simp

definition demo_held :: InMemoryJobStore where
  "demo_held = snd (store_calls InMemoryJobs (take 2 demo_calls) NewInMemoryJobStore)"

lemma demo_held_inv: "jobs_inv demo_held"
  unfolding demo_held_def
  using mem_jobs.store_calls_refine [OF jobs_inv_New, of "take 2 demo_calls"] by (simp add: demo_calls_def)

theorem live_claim_exclusive_witness:
  "leases demo_held ''j'' = Some (''c1'', Leased ''a'' 40) \<and>
   leases (snd (store_calls InMemoryJobs [CallAcquire 39 ''j'' ''b'' 30, CallRelease 70 ''j'' ''b'' JobFailed 0 0 None] demo_held)) ''j''
     = Some (''c1'', Leased ''a'' 40)"
proof
  show held: "leases demo_held ''j'' = Some (''c1'', Leased ''a'' 40)" by code_simp
  show "leases (snd (store_calls InMemoryJobs [CallAcquire 39 ''j'' ''b'' 30, CallRelease 70 ''j'' ''b'' JobFailed 0 0 None] demo_held)) ''j''
     = Some (''c1'', Leased ''a'' 40)"
    by (rule live_claim_exclusive [OF demo_held_inv held, THEN conjunct1]) simp_all
qed

section \<open>Phase histories\<close>

text \<open>A history of phases, each reached from the one before by a validated transition.\<close>

inductive phase_history :: "string \<Rightarrow> string \<Rightarrow> bool" where
  start: "phase_history p p"
| step: "phase_history p q \<Longrightarrow> ValidateTransition q r = Inr () \<Longrightarrow> phase_history p r"

inductive_cases phase_historyE: "phase_history p q"

definition phase_rank :: "string \<Rightarrow> int" where
  "phase_rank p =
    (if p = WasabiPrimary then 0 else if p = DualWrite then 1 else if p = LocalPrimaryWasabiBackup then 2
     else if p = LocalPrimaryWasabiDrain then 3 else 4)"

lemma ValidateTransition_ok_iff: "ValidateTransition p q = Inr () \<longleftrightarrow> CanTransition p q"
  by (simp add: ValidateTransition_def CanTransition_def)

lemma CanTransition_valid: "CanTransition p q \<Longrightarrow> Phase_Valid p \<and> Phase_Valid q"
  by (simp add: CanTransition_def split: if_splits)

lemma CanTransition_cases:
  assumes "Phase_Valid p" and "Phase_Valid q"
  shows "CanTransition p q \<longleftrightarrow> p \<noteq> LocalOnly \<and> \<bar>phase_rank p - phase_rank q\<bar> = 1"
  using assms by (auto simp: Phase_Valid_def CanTransition_def allowed_def allowedTransitions_def phase_rank_def)

text \<open>
  C28: the phase of an object keeps its type and moves one step at a time.  Whatever transitions
  are validated one after the other from a phase of the enumeration, the phase stays in it; a transition
  is validated exactly when it goes one step forward or back and the source is not \<open>local_only\<close>; and a history
  that has reached \<open>local_only\<close> stays there.
\<close>

theorem phases_stay_valid:
  assumes "Phase_Valid p" and "phase_history p q"
  shows "Phase_Valid q \<and> (p = LocalOnly \<longrightarrow> q = LocalOnly) \<and>
    (\<forall>r. ValidateTransition q r = Inr () \<longleftrightarrow> Phase_Valid r \<and> q \<noteq> LocalOnly \<and> \<bar>phase_rank q - phase_rank r\<bar> = 1)"
proof -
  from assms(2,1) have "Phase_Valid q \<and> (p = LocalOnly \<longrightarrow> q = LocalOnly)"
  proof induction
    case (step p q r)
    then have "CanTransition q r" by (simp add: ValidateTransition_ok_iff)
    with step CanTransition_valid [OF this] CanTransition_cases [of q r] show ?case by auto
  qed simp
  then show ?thesis using CanTransition_cases [of q] CanTransition_valid [of q] unfolding ValidateTransition_ok_iff by blast
qed

theorem phases_stay_valid_witness:
  "phase_history DualWrite LocalPrimaryWasabiDrain \<and> Phase_Valid LocalPrimaryWasabiDrain \<and>
   (ValidateTransition LocalPrimaryWasabiDrain LocalOnly = Inr ())"
proof -
  have h: "phase_history DualWrite LocalPrimaryWasabiDrain"
    by (rule phase_history.step [OF phase_history.step [OF phase_history.start, of _ LocalPrimaryWasabiBackup]]) code_simp+
  have "Phase_Valid DualWrite" by (simp add: Phase_Valid_def)
  from phases_stay_valid [OF this h] h show ?thesis by (simp add: phase_rank_def Phase_Valid_def)
qed

end
