(* ===== verification/Migration_Fleet.thy ===== *)
theory Migration_Fleet
  imports Migration_Jobs
begin

text \<open>
  The fleet orchestrator (\<open>migration/fleet_orchestrator.go\<close>): each gateway lists the
  active jobs of the shared store, claims pending ones within the limit of their destination
  cell, and starts a goroutine per claimed job, which keeps the claim alive, calls the
  runner and records its outcome.

  The store is any \<open>JobStore\<close>; the runner's answer is an argument.  The goroutines are the steps
  \<open>start_run\<close>, \<open>heartbeat_tick\<close> and \<open>finish_run\<close>, which interleave with those of other nodes.
\<close>

section \<open>A node\<close>

definition defaultClaimTTL :: duration where "defaultClaimTTL = 30 * second"

record FleetOrchestrator =
  fo_nodeID :: string
  fo_limits :: "(string, int) gomap"
  fo_claimTTL :: duration
  fo_inflight :: "string list"

definition NewFleetOrchestratorWithStore :: "string \<Rightarrow> (string \<times> int) list \<Rightarrow> duration \<Rightarrow> (string, FleetOrchestrator) result" where
  "NewFleetOrchestratorWithStore nodeID limits ttl =
    (if nodeID = [] then Inl ''fleet_orchestrator: FleetOrchestratorConfig.NodeID is required''
     else Inr \<lparr>fo_nodeID = nodeID, fo_limits = fold (\<lambda>(c, n). gm_set c (if n \<le> 0 then 1 else n)) limits [],
               fo_claimTTL = (if ttl \<le> 0 then defaultClaimTTL else ttl), fo_inflight = []\<rparr>)"

definition Enqueue :: "'s JobStore \<Rightarrow> MigrationJob \<Rightarrow> 's \<Rightarrow> (job_error, 's) result" where
  "Enqueue ops job s =
    (if mj_JobID job = [] \<or> mj_TenantID job = [] \<or> mj_DestCellID job = [] then Inl ErrJobArgument else jo_PutJob ops job s)"

definition cellLimit :: "FleetOrchestrator \<Rightarrow> string \<Rightarrow> int" where
  "cellLimit fo cell = (let n = (case gm_get (fo_limits fo) cell of None \<Rightarrow> 0 | Some n \<Rightarrow> n) in if n = 0 then 1 else n)"

text \<open>The first loop of \<open>RunOnce\<close>: the running jobs of the snapshot, counted per cell.\<close>

definition running_in :: "MigrationJob list \<Rightarrow> string \<Rightarrow> int" where
  "running_in active cell = int (length (filter (\<lambda>j. mj_State j = JobRunning \<and> mj_DestCellID j = cell) active))"

text \<open>The second loop, over the snapshot: the jobs dispatched, in order, and the store.\<close>

fun dispatch :: "'s JobStore \<Rightarrow> gotime \<Rightarrow> FleetOrchestrator \<Rightarrow> MigrationJob list \<Rightarrow> (string \<Rightarrow> int) \<Rightarrow> 's \<Rightarrow> string list \<times> 's" where
  "dispatch ops now fo [] running s = ([], s)"
| "dispatch ops now fo (j # js) running s =
    (if mj_State j \<noteq> JobPending then dispatch ops now fo js running s
     else if running (mj_DestCellID j) \<ge> cellLimit fo (mj_DestCellID j) then dispatch ops now fo js running s
     else case jo_AcquireJob ops now (mj_JobID j) (fo_nodeID fo) (fo_claimTTL fo) s of
       Inl _ \<Rightarrow> dispatch ops now fo js running s
     | Inr (ok, s1) \<Rightarrow>
         if \<not> ok then dispatch ops now fo js running s1
         else case dispatch ops now fo js (running(mj_DestCellID j := running (mj_DestCellID j) + 1)) s1 of
           (ids, s2) \<Rightarrow> (mj_JobID j # ids, s2))"

definition RunOnce :: "'s JobStore \<Rightarrow> gotime \<Rightarrow> FleetOrchestrator \<Rightarrow> 's \<Rightarrow> string list \<times> FleetOrchestrator \<times> 's" where
  "RunOnce ops now fo s =
    (let active = jo_ListActiveJobs ops s in
     case dispatch ops now fo active (running_in active) s of
       (ids, s1) \<Rightarrow> (ids, fo\<lparr>fo_inflight := fo_inflight fo @ ids\<rparr>, s1))"

text \<open>The goroutine of a job: the job given to the runner, and, when the runner has returned, its outcome recorded.\<close>

definition start_run :: "'s JobStore \<Rightarrow> string \<Rightarrow> FleetOrchestrator \<Rightarrow> 's \<Rightarrow> MigrationJob option \<times> FleetOrchestrator" where
  "start_run ops jobID fo s =
    (case jo_GetJob ops jobID s of
       None \<Rightarrow> (None, fo\<lparr>fo_inflight := filter (\<lambda>i. i \<noteq> jobID) (fo_inflight fo)\<rparr>)
     | Some job \<Rightarrow> (Some job, fo))"

type_synonym run_outcome = "int \<times> int \<times> string option"

definition finish_run :: "'s JobStore \<Rightarrow> gotime \<Rightarrow> string \<Rightarrow> run_outcome \<Rightarrow> FleetOrchestrator \<Rightarrow> 's \<Rightarrow> FleetOrchestrator \<times> 's" where
  "finish_run ops now jobID outcome fo s =
    (case outcome of (bytes', pieces, runErr) \<Rightarrow>
      (fo\<lparr>fo_inflight := filter (\<lambda>i. i \<noteq> jobID) (fo_inflight fo)\<rparr>,
       case jo_ReleaseJob ops now jobID (fo_nodeID fo) (if runErr = None then JobDone else JobFailed) bytes' pieces runErr s of
         Inl _ \<Rightarrow> s
       | Inr s' \<Rightarrow> s'))"

definition run :: "'s JobStore \<Rightarrow> (MigrationJob \<Rightarrow> run_outcome) \<Rightarrow> gotime \<Rightarrow> string \<Rightarrow> FleetOrchestrator \<times> 's \<Rightarrow> FleetOrchestrator \<times> 's" where
  "run ops runner now jobID st =
    (case st of (fo, s) \<Rightarrow>
      (case start_run ops jobID fo s of
         (None, fo1) \<Rightarrow> (fo1, s)
       | (Some job, fo1) \<Rightarrow> finish_run ops now jobID (runner job) fo1 s))"

text \<open>The period of the heartbeat, and one tick of its loop: whether the loop goes on, and the store.\<close>

definition heartbeat_interval :: "FleetOrchestrator \<Rightarrow> duration" where
  "heartbeat_interval fo = (let i = fo_claimTTL fo div 2 in if i \<le> 0 then second else i)"

definition heartbeat_tick :: "'s JobStore \<Rightarrow> gotime \<Rightarrow> string \<Rightarrow> FleetOrchestrator \<Rightarrow> 's \<Rightarrow> bool \<times> 's" where
  "heartbeat_tick ops now jobID fo s =
    (case jo_HeartbeatJob ops now jobID (fo_nodeID fo) (fo_claimTTL fo) s of
       Inr s' \<Rightarrow> (True, s')
     | Inl e \<Rightarrow> (e \<noteq> ErrClaimNotHeld \<and> e \<noteq> ErrJobNotFound, s))"

text \<open>A round of a node: it dispatches what it may, and its goroutines run to their end.\<close>

definition fleet_round :: "'s JobStore \<Rightarrow> (MigrationJob \<Rightarrow> run_outcome) \<Rightarrow> gotime \<times> FleetOrchestrator \<Rightarrow> 's \<Rightarrow> 's" where
  "fleet_round ops runner nd s =
    (case nd of (now, fo) \<Rightarrow> case RunOnce ops now fo s of (ids, fo1, s1) \<Rightarrow> snd (fold (run ops runner now) ids (fo1, s1)))"

definition node_ok :: "FleetOrchestrator \<Rightarrow> bool" where
  "node_ok fo \<longleftrightarrow> fo_nodeID fo \<noteq> [] \<and> fo_claimTTL fo > 0 \<and> (\<forall>c n. gm_get (fo_limits fo) c = Some n \<longrightarrow> n > 0)"

section \<open>What a node is\<close>

lemma cellLimit_pos: "node_ok fo \<Longrightarrow> cellLimit fo c > 0"
  unfolding node_ok_def cellLimit_def Let_def by (fastforce split: option.splits)

lemma limits_pos:
  assumes "\<forall>c n. gm_get m c = Some n \<longrightarrow> (n::int) > 0"
  shows "\<forall>c n. gm_get (fold (\<lambda>(c, n). gm_set c (if n \<le> 0 then 1 else n)) ls m) c = Some n \<longrightarrow> n > 0"
  using assms
proof (induction ls arbitrary: m)
  case (Cons x ls)
  obtain c n where x: "x = (c, n)" by (cases x)
  have "\<forall>c' n'. gm_get (gm_set c (if n \<le> 0 then 1 else n) m) c' = Some n' \<longrightarrow> n' > 0"
    using Cons.prems by (auto simp: gm_get_set)
  from Cons.IH [OF this] show ?case by (simp add: x)
qed simp

lemma New_node_ok: "NewFleetOrchestratorWithStore node ls ttl = Inr fo \<Longrightarrow> node_ok fo"
  using limits_pos [of "[]" ls]
  by (auto simp: NewFleetOrchestratorWithStore_def node_ok_def gm_get_Nil defaultClaimTTL_def second_def split: if_splits)

section \<open>Dispatching over any store\<close>

text \<open>The snapshot a node works on agrees with the leases of its jobs.\<close>

definition fresh :: "(string \<rightharpoonup> string \<times> lease) \<Rightarrow> MigrationJob list \<Rightarrow> bool" where
  "fresh m js \<longleftrightarrow> distinct (map mj_JobID js) \<and>
    (\<forall>j\<in>set js. \<exists>l. m (mj_JobID j) = Some (mj_DestCellID j, l) \<and> mj_State j = lease_state l \<and> l \<noteq> Settled JobPending)"

lemma fresh_Cons:
  "fresh m (j # js) \<Longrightarrow> fresh m js \<and> mj_JobID j \<notin> mj_JobID ` set js"
  by (auto simp: fresh_def)

lemma fresh_upd: "fresh m js \<Longrightarrow> i \<notin> mj_JobID ` set js \<Longrightarrow> fresh (m(i \<mapsto> x)) js"
  unfolding fresh_def by force

lemma fresh_pending:
  assumes "fresh m (j # js)" and "mj_State j = JobPending"
  shows "m (mj_JobID j) = Some (mj_DestCellID j, Waiting)"
proof -
  from assms obtain l where "m (mj_JobID j) = Some (mj_DestCellID j, l)" "lease_state l = JobPending" "l \<noteq> Settled JobPending"
    unfolding fresh_def by auto
  then show ?thesis by (cases l) auto
qed

text \<open>The leases after a node took the given jobs.\<close>

definition taken :: "string list \<Rightarrow> lease \<Rightarrow> (string \<rightharpoonup> string \<times> lease) \<Rightarrow> string \<rightharpoonup> string \<times> lease" where
  "taken ids l m i = (if i \<in> set ids then map_option (\<lambda>(c, _). (c, l)) (m i) else m i)"

lemma taken_Nil [simp]: "taken [] l m = m"
  by (rule ext) (simp add: taken_def)

lemma taken_Cons:
  assumes "m i = Some (c, l0)"
  shows "taken ids l (m(i \<mapsto> (c, l))) = taken (i # ids) l m"
  using assms by (intro ext) (auto simp: taken_def)

context job_store
begin

lemma list_fresh: "inv s \<Longrightarrow> fresh (view s) (jo_ListActiveJobs ops s)"
  using list_law [of s] settled_law [of s] unfolding fresh_def by fastforce

lemma acquire_waiting:
  assumes "inv s" and "node_ok fo" and "view s i = Some (c, Waiting)"
  obtains s1 where "jo_AcquireJob ops now i (fo_nodeID fo) (fo_claimTTL fo) s = Inr (True, s1)" and "inv s1"
    and "view s1 = (view s)(i \<mapsto> (c, Leased (fo_nodeID fo) (now + fo_claimTTL fo)))"
  using acquire_some [OF assms(1) _ _ assms(3), of "fo_nodeID fo" "fo_claimTTL fo" now] assms(2)
  by (auto simp: lease_acquire_def node_ok_def)

lemma dispatch_view:
  assumes "inv s" and "node_ok fo" and "fresh (view s) js" and "dispatch ops now fo js running s = (ids, s')"
  shows "inv s' \<and> distinct ids \<and> view s' = taken ids (Leased (fo_nodeID fo) (now + fo_claimTTL fo)) (view s) \<and>
    (\<forall>i\<in>set ids. i \<in> mj_JobID ` set js \<and> (\<exists>c. view s i = Some (c, Waiting)))"
  using assms
proof (induction js arbitrary: running s ids)
  case (Cons j js)
  note fr = fresh_Cons [OF Cons.prems(3)]
  show ?case
  proof (cases "mj_State j \<noteq> JobPending \<or> running (mj_DestCellID j) \<ge> cellLimit fo (mj_DestCellID j)")
    case True
    then have "dispatch ops now fo js running s = (ids, s')" using Cons.prems(4) by (auto split: if_splits)
    from Cons.IH [OF Cons.prems(1,2) _ this] fr show ?thesis by auto
  next
    case False
    let ?l = "Leased (fo_nodeID fo) (now + fo_claimTTL fo)"
    from False have w: "view s (mj_JobID j) = Some (mj_DestCellID j, Waiting)" using fresh_pending [OF Cons.prems(3)] by simp
    obtain s1 where s1: "jo_AcquireJob ops now (mj_JobID j) (fo_nodeID fo) (fo_claimTTL fo) s = Inr (True, s1)"
        "inv s1" "view s1 = (view s)(mj_JobID j \<mapsto> (mj_DestCellID j, ?l))"
      using Cons.prems(1,2) w by (rule acquire_waiting)
    obtain ids' where d: "dispatch ops now fo js (running(mj_DestCellID j := running (mj_DestCellID j) + 1)) s1 = (ids', s')"
        and ids: "ids = mj_JobID j # ids'"
      using Cons.prems(4) False s1(1) by (auto split: prod.splits)
    have "fresh (view s1) js" using fr s1(3) by (auto intro: fresh_upd)
    note IH = Cons.IH [OF s1(2) Cons.prems(2) this d]
    then have "view s' = taken ids ?l (view s)" unfolding ids using taken_Cons [of "view s", OF w] s1(3) by metis
    with IH show ?thesis using fr w by (auto simp: ids s1(3) split: if_splits)
  qed
qed simp

text \<open>The claims made stay within the limit of each cell.\<close>

lemma dispatch_cap:
  assumes "inv s" and "node_ok fo" and "fresh (view s) js" and "dispatch ops now fo js running s = (ids, s')"
  shows "running c + int (length (filter (\<lambda>i. map_option fst (view s i) = Some c) ids)) \<le> max (running c) (cellLimit fo c)"
  using assms
proof (induction js arbitrary: running s ids)
  case (Cons j js)
  note fr = fresh_Cons [OF Cons.prems(3)]
  show ?case
  proof (cases "mj_State j \<noteq> JobPending \<or> running (mj_DestCellID j) \<ge> cellLimit fo (mj_DestCellID j)")
    case True
    then have "dispatch ops now fo js running s = (ids, s')" using Cons.prems(4) by (auto split: if_splits)
    from Cons.IH [OF Cons.prems(1,2) _ this] fr show ?thesis by auto
  next
    case False
    let ?run = "running(mj_DestCellID j := running (mj_DestCellID j) + 1)"
    from False have w: "view s (mj_JobID j) = Some (mj_DestCellID j, Waiting)" using fresh_pending [OF Cons.prems(3)] by simp
    obtain s1 where s1: "jo_AcquireJob ops now (mj_JobID j) (fo_nodeID fo) (fo_claimTTL fo) s = Inr (True, s1)"
        "inv s1" "view s1 = (view s)(mj_JobID j \<mapsto> (mj_DestCellID j, Leased (fo_nodeID fo) (now + fo_claimTTL fo)))"
      using Cons.prems(1,2) w by (rule acquire_waiting)
    obtain ids' where d: "dispatch ops now fo js ?run s1 = (ids', s')" and ids: "ids = mj_JobID j # ids'"
      using Cons.prems(4) False s1(1) by (auto split: prod.splits)
    have cells: "map_option fst (view s1 i) = map_option fst (view s i)" for i using w s1(3) by simp
    have "fresh (view s1) js" using fr s1(3) by (auto intro: fresh_upd)
    from Cons.IH [OF s1(2) Cons.prems(2) this d] False w show ?thesis
      by (auto simp: ids cells split: if_splits)
  qed
qed simp

text \<open>A pending job is passed over only when its cell is full.\<close>

lemma dispatch_nothing:
  assumes "inv s" and "node_ok fo" and "fresh (view s) js" and "dispatch ops now fo js running s = ([], s')"
    and "j \<in> set js" and "mj_State j = JobPending"
  shows "running (mj_DestCellID j) \<ge> cellLimit fo (mj_DestCellID j)"
  using assms
proof (induction js)
  case (Cons j' js)
  note fr = fresh_Cons [OF Cons.prems(3)]
  have skip: "mj_State j' \<noteq> JobPending \<or> running (mj_DestCellID j') \<ge> cellLimit fo (mj_DestCellID j')"
  proof (rule ccontr)
    assume no: "\<not> ?thesis"
    then have w: "view s (mj_JobID j') = Some (mj_DestCellID j', Waiting)" using fresh_pending [OF Cons.prems(3)] by simp
    obtain s1 where "jo_AcquireJob ops now (mj_JobID j') (fo_nodeID fo) (fo_claimTTL fo) s = Inr (True, s1)"
      using Cons.prems(1,2) w by (rule acquire_waiting)
    with no Cons.prems(4) show False by (auto split: prod.splits)
  qed
  then have "dispatch ops now fo js running s = ([], s')" using Cons.prems(4) by (auto split: if_splits)
  with Cons.IH [OF Cons.prems(1,2) _ this _ Cons.prems(6)] Cons.prems(5,6) fr skip show ?case by auto
qed simp

end

section \<open>The running jobs of a cell\<close>

definition leased_in :: "string \<Rightarrow> (string \<rightharpoonup> string \<times> lease) \<Rightarrow> string set" where
  "leased_in c m = {i. \<exists>a u. m i = Some (c, Leased a u)}"

definition waiting :: "(string \<rightharpoonup> string \<times> lease) \<Rightarrow> string set" where
  "waiting m = {i. \<exists>c. m i = Some (c, Waiting)}"

lemma lease_running: "lease_state l = JobRunning \<Longrightarrow> l \<noteq> Settled JobRunning \<Longrightarrow> \<exists>a u. l = Leased a u"
  by (cases l) auto

context job_store
begin

lemma active_listed:
  assumes "inv s" and "view s i = Some (c, l)" and "lease_state l \<in> {JobPending, JobRunning}"
  shows "i \<in> mj_JobID ` set (jo_ListActiveJobs ops s)"
  using list_law [OF assms(1)] assms(2,3) by blast

lemma finite_waiting: "inv s \<Longrightarrow> finite (waiting (view s))"
  by (rule finite_subset [of _ "mj_JobID ` set (jo_ListActiveJobs ops s)"]) (auto simp: waiting_def elim: active_listed)

lemma finite_leased_in: "inv s \<Longrightarrow> finite (leased_in c (view s))"
  by (rule finite_subset [of _ "mj_JobID ` set (jo_ListActiveJobs ops s)"]) (auto simp: leased_in_def elim: active_listed)

lemma running_in_leased:
  assumes "inv s"
  shows "running_in (jo_ListActiveJobs ops s) c = int (card (leased_in c (view s)))"
proof -
  let ?js = "jo_ListActiveJobs ops s" and ?p = "\<lambda>j. mj_State j = JobRunning \<and> mj_DestCellID j = c"
  note L = list_law [OF assms]
  have "leased_in c (view s) = mj_JobID ` set (filter ?p ?js)"
  proof (intro equalityI subsetI)
    fix i assume "i \<in> leased_in c (view s)"
    then obtain a u where v: "view s i = Some (c, Leased a u)" by (auto simp: leased_in_def)
    then have "i \<in> mj_JobID ` set ?js" by (rule active_listed [OF assms]) simp
    then obtain j where j: "j \<in> set ?js" "mj_JobID j = i" by blast
    then obtain l where "view s i = Some (mj_DestCellID j, l)" "mj_State j = lease_state l" using L by blast
    with v j show "i \<in> mj_JobID ` set (filter ?p ?js)" by auto
  next
    fix i assume "i \<in> mj_JobID ` set (filter ?p ?js)"
    then obtain j where j: "j \<in> set ?js" "?p j" "i = mj_JobID j" by auto
    then obtain l where "view s i = Some (mj_DestCellID j, l)" "mj_State j = lease_state l" using L by blast
    with j have l: "view s i = Some (c, l)" "lease_state l = JobRunning" by simp_all
    then have "l \<noteq> Settled JobRunning" using settled_law [OF assms, of i c JobRunning] by auto
    with l show "i \<in> leased_in c (view s)" using lease_running [of l] by (auto simp: leased_in_def)
  qed
  moreover have "distinct (map mj_JobID (filter ?p ?js))" using L by (blast intro: distinct_map_filter)
  ultimately have "card (leased_in c (view s)) = length (filter ?p ?js)"
    using distinct_card [of "map mj_JobID (filter ?p ?js)"] by simp
  then show ?thesis by (simp add: running_in_def)
qed

lemma RunOnce_view:
  assumes "inv s" and "node_ok fo" and "RunOnce ops now fo s = (ids, fo', s')"
  shows "inv s' \<and> distinct ids \<and> view s' = taken ids (Leased (fo_nodeID fo) (now + fo_claimTTL fo)) (view s) \<and>
    set ids \<subseteq> waiting (view s) \<and> fo_nodeID fo' = fo_nodeID fo"
proof -
  obtain d: "dispatch ops now fo (jo_ListActiveJobs ops s) (running_in (jo_ListActiveJobs ops s)) s = (ids, s')" and "fo_nodeID fo' = fo_nodeID fo"
    using assms(3) by (auto simp: RunOnce_def Let_def split: prod.splits)
  then show ?thesis using dispatch_view [OF assms(1,2) list_fresh [OF assms(1)] d] by (auto simp: waiting_def)
qed

lemma RunOnce_cap:
  assumes "inv s" and "node_ok fo" and "RunOnce ops now fo s = (ids, fo', s')"
  shows "int (card (leased_in c (view s'))) \<le> max (int (card (leased_in c (view s)))) (cellLimit fo c)"
proof -
  let ?cell = "\<lambda>i. map_option fst (view s i) = Some c"
  obtain d: "dispatch ops now fo (jo_ListActiveJobs ops s) (running_in (jo_ListActiveJobs ops s)) s = (ids, s')"
    using assms(3) by (auto simp: RunOnce_def Let_def split: prod.splits)
  note V = RunOnce_view [OF assms]
  have "leased_in c (view s') \<subseteq> leased_in c (view s) \<union> set (filter ?cell ids)"
    using V by (auto simp: leased_in_def taken_def split: if_splits)
  moreover have "finite (leased_in c (view s) \<union> set (filter ?cell ids))" using finite_leased_in [OF assms(1)] by simp
  ultimately have "card (leased_in c (view s')) \<le> card (leased_in c (view s)) + card (set (filter ?cell ids))"
    using card_mono card_Un_le order_trans by meson
  also have "card (set (filter ?cell ids)) \<le> length (filter ?cell ids)" by (rule card_length)
  finally show ?thesis
    using dispatch_cap [OF assms(1,2) list_fresh [OF assms(1)] d, of c] running_in_leased [OF assms(1), of c] by simp
qed

lemma RunOnce_progress:
  assumes "inv s" and "node_ok fo" and "RunOnce ops now fo s = (ids, fo', s')"
    and "view s i = Some (c, Waiting)" and "leased_in c (view s) = {}"
  shows "ids \<noteq> []"
proof
  assume "ids = []"
  let ?js = "jo_ListActiveJobs ops s"
  obtain d: "dispatch ops now fo ?js (running_in ?js) s = ([], s')"
    using assms(3) \<open>ids = []\<close> by (auto simp: RunOnce_def Let_def split: prod.splits)
  have "i \<in> mj_JobID ` set ?js" by (rule active_listed [OF assms(1,4)]) simp
  then obtain j where j: "j \<in> set ?js" "mj_JobID j = i" by blast
  then obtain l where "view s i = Some (mj_DestCellID j, l)" "mj_State j = lease_state l" using list_law [OF assms(1)] by blast
  with assms(4) have st: "mj_DestCellID j = c" "mj_State j = JobPending" by simp_all
  have "running_in ?js c = 0" using running_in_leased [OF assms(1), of c] assms(5) by simp
  with dispatch_nothing [OF assms(1,2) list_fresh [OF assms(1)] d j(1) st(2)] st(1) cellLimit_pos [OF assms(2), of c]
  show False by simp
qed

text \<open>A goroutine that still holds its claim settles its job.\<close>

lemma run_settles:
  assumes "inv s" and "fo_nodeID fo \<noteq> []" and "view s i = Some (c, Leased (fo_nodeID fo) u)"
  obtains fo' s' t where "run ops runner now i (fo, s) = (fo', s')" and "fo_nodeID fo' = fo_nodeID fo" and "inv s'"
    and "view s' = (view s)(i \<mapsto> (c, Settled t))" and "t \<in> {JobDone, JobFailed}"
proof -
  obtain job where g: "jo_GetJob ops i s = Some job" using get_law [OF assms(1), of i] assms(3) by (cases "jo_GetJob ops i s") auto
  obtain b p err where r: "runner job = (b, p, err)" by (metis prod_cases3)
  let ?t = "if err = None then JobDone else JobFailed"
  have tm: "?t \<in> {JobDone, JobFailed}" by simp
  have "lease_release (fo_nodeID fo) ?t (Leased (fo_nodeID fo) u) = Some (Settled ?t)" by (simp add: lease_release_def)
  from release_some [OF assms(1,2) tm assms(3) this, of now b p err]
  obtain s' where "jo_ReleaseJob ops now i (fo_nodeID fo) ?t b p err s = Inr s'" "inv s'" "view s' = (view s)(i \<mapsto> (c, Settled ?t))" by blast
  then show thesis using that [of _ s' ?t] tm g r by (simp add: run_def start_run_def finish_run_def)
qed

lemma runs_settle:
  assumes "inv s" and "fo_nodeID fo \<noteq> []" and "distinct ids"
    and "\<forall>i\<in>set ids. \<exists>c. view s i = Some (c, Leased (fo_nodeID fo) u)"
  shows "inv (snd (fold (run ops runner now) ids (fo, s))) \<and>
    (\<forall>i. if i \<in> set ids then \<exists>c t. view s i = Some (c, Leased (fo_nodeID fo) u) \<and> view (snd (fold (run ops runner now) ids (fo, s))) i = Some (c, Settled t)
         else view (snd (fold (run ops runner now) ids (fo, s))) i = view s i)"
  using assms
proof (induction ids arbitrary: fo s)
  case (Cons i ids)
  from Cons.prems(4) obtain c where v: "view s i = Some (c, Leased (fo_nodeID fo) u)" by auto
  obtain fo' s' t where r: "run ops runner now i (fo, s) = (fo', s')" "fo_nodeID fo' = fo_nodeID fo" "inv s'"
      "view s' = (view s)(i \<mapsto> (c, Settled t))"
    using Cons.prems(1,2) v by (rule run_settles)
  have "\<forall>k\<in>set ids. \<exists>c. view s' k = Some (c, Leased (fo_nodeID fo') u)" using Cons.prems(3,4) r by auto
  from Cons.IH [OF r(3) _ _ this] Cons.prems r v show ?case by (auto split: if_splits)
qed simp

definition idle :: "'s \<Rightarrow> bool" where
  "idle s \<longleftrightarrow> (\<forall>c. leased_in c (view s) = {})"

lemma fleet_round_view:
  assumes "inv s" and "node_ok (snd nd)"
  shows "inv (fleet_round ops runner nd s) \<and>
    (\<forall>i. view (fleet_round ops runner nd s) i = view s i \<or>
       (\<exists>c t. view s i = Some (c, Waiting) \<and> view (fleet_round ops runner nd s) i = Some (c, Settled t))) \<and>
    (idle s \<longrightarrow> waiting (view s) \<noteq> {} \<longrightarrow> waiting (view (fleet_round ops runner nd s)) \<subset> waiting (view s))"
proof -
  obtain now fo where nd: "nd = (now, fo)" by (cases nd)
  obtain ids fo1 s1 where r: "RunOnce ops now fo s = (ids, fo1, s1)" by (metis prod_cases3)
  have ok: "node_ok fo" using assms(2) nd by simp
  note V = RunOnce_view [OF assms(1) ok r]
  let ?s2 = "snd (fold (run ops runner now) ids (fo1, s1))"
  have "\<forall>i\<in>set ids. \<exists>c. view s1 i = Some (c, Leased (fo_nodeID fo1) (now + fo_claimTTL fo))"
    using V by (auto simp: taken_def waiting_def)
  moreover have "fo_nodeID fo1 \<noteq> []" using V ok by (simp add: node_ok_def)
  ultimately have S: "inv ?s2" "\<And>i. if i \<in> set ids then \<exists>c t. view s1 i = Some (c, Leased (fo_nodeID fo1) (now + fo_claimTTL fo)) \<and> view ?s2 i = Some (c, Settled t)
         else view ?s2 i = view s1 i"
    using runs_settle [of s1 fo1 ids "now + fo_claimTTL fo" runner now] V by blast+
  have W: "if i \<in> set ids then \<exists>c t. view s i = Some (c, Waiting) \<and> view ?s2 i = Some (c, Settled t) else view ?s2 i = view s i" for i
    using S(2) [of i] V by (auto simp: taken_def waiting_def split: if_splits)
  have "waiting (view ?s2) \<subset> waiting (view s)" if "idle s" "waiting (view s) \<noteq> {}"
  proof -
    from that obtain i c where "view s i = Some (c, Waiting)" "leased_in c (view s) = {}" by (auto simp: waiting_def idle_def)
    then have "ids \<noteq> []" by (rule RunOnce_progress [OF assms(1) ok r])
    then obtain k where "k \<in> set ids" by (cases ids) auto
    with W [of k] have "k \<in> waiting (view s)" "k \<notin> waiting (view ?s2)" by (auto simp: waiting_def)
    moreover have "waiting (view ?s2) \<subseteq> waiting (view s)" using W by (force simp: waiting_def split: if_splits)
    ultimately show ?thesis by blast
  qed
  moreover have "fleet_round ops runner nd s = ?s2" by (simp add: fleet_round_def nd r)
  moreover have "view ?s2 i = view s i \<or> (\<exists>c t. view s i = Some (c, Waiting) \<and> view ?s2 i = Some (c, Settled t))" for i
    using W [of i] by (auto split: if_splits)
  ultimately show ?thesis using S(1) by simp
qed

lemma fleet_rounds_settle:
  assumes "inv s" and "idle s" and "list_all (\<lambda>nd. node_ok (snd nd)) nds" and "card (waiting (view s)) \<le> length nds"
  shows "inv (fold (fleet_round ops runner) nds s) \<and>
    (\<forall>i c l. view s i = Some (c, l) \<longrightarrow> (\<exists>t\<in>{JobDone, JobFailed}. view (fold (fleet_round ops runner) nds s) i = Some (c, Settled t)))"
  using assms
proof (induction nds arbitrary: s)
  case Nil
  have "waiting (view s) = {}" using finite_waiting [OF Nil.prems(1)] Nil.prems(4) by simp
  then have "\<exists>t\<in>{JobDone, JobFailed}. l = Settled t" if "view s i = Some (c, l)" for i c l
    using that Nil.prems(2) settled_law [OF Nil.prems(1)] by (cases l) (auto simp: waiting_def idle_def leased_in_def)
  then show ?case using Nil.prems(1) by fastforce
next
  case (Cons nd nds)
  let ?s1 = "fleet_round ops runner nd s"
  from Cons.prems have ok: "node_ok (snd nd)" by simp
  note R = fleet_round_view [OF Cons.prems(1) ok, of runner]
  note fin = finite_waiting [OF Cons.prems(1)]
  have "waiting (view ?s1) \<subseteq> waiting (view s)" using R by (force simp: waiting_def)
  then have "card (waiting (view ?s1)) \<le> length nds"
  proof (cases "waiting (view s) = {}")
    case False
    then have "card (waiting (view ?s1)) < card (waiting (view s))" using R Cons.prems(2) fin by (meson psubset_card_mono)
    then show ?thesis using Cons.prems(4) by simp
  qed simp
  moreover have "view ?s1 i \<noteq> Some (c, Leased a u)" for i c a u
    using R [THEN conjunct2, THEN conjunct1, rule_format, of i] Cons.prems(2) by (auto simp: idle_def leased_in_def)
  then have "idle ?s1" by (simp add: idle_def leased_in_def)
  ultimately have IH: "inv (fold (fleet_round ops runner) nds ?s1)"
      "\<And>i c l. view ?s1 i = Some (c, l) \<Longrightarrow> \<exists>t\<in>{JobDone, JobFailed}. view (fold (fleet_round ops runner) nds ?s1) i = Some (c, Settled t)"
    using Cons.IH [of ?s1] Cons.prems(3) R by auto
  have "\<exists>l'. view ?s1 i = Some (c, l')" if "view s i = Some (c, l)" for i c l
    using R that by (metis option.inject prod.inject)
  with IH show ?case by fastforce
qed

text \<open>A job whose holder has gone: no step of the other nodes gives it to another node.\<close>

lemma RunOnce_keeps_leased:
  assumes "inv s" and "node_ok fo" and "view s i = Some (c, Leased a u)"
  shows "inv (snd (snd (RunOnce ops now fo s))) \<and> view (snd (snd (RunOnce ops now fo s))) i = Some (c, Leased a u)"
proof -
  obtain ids fo1 s1 where r: "RunOnce ops now fo s = (ids, fo1, s1)" by (metis prod_cases3)
  from RunOnce_view [OF assms(1,2) r] assms(3) show ?thesis by (auto simp: r taken_def waiting_def)
qed

lemma RunOnce_full_cell:
  assumes "inv s" and "node_ok fo" and "view s i = Some (c, Leased a u)" and "cellLimit fo c = 1" and "view s k = Some (c, Waiting)"
  shows "view (snd (snd (RunOnce ops now fo s))) k = Some (c, Waiting)"
proof -
  let ?js = "jo_ListActiveJobs ops s"
  obtain ids s1 where d: "dispatch ops now fo ?js (running_in ?js) s = (ids, s1)" by (metis prod.exhaust)
  then obtain fo1 where r: "RunOnce ops now fo s = (ids, fo1, s1)" by (simp add: RunOnce_def Let_def)
  note finite_leased_in [OF assms(1), of c]
  moreover have "i \<in> leased_in c (view s)" using assms(3) by (simp add: leased_in_def)
  ultimately have "card (leased_in c (view s)) > 0" using card_gt_0_iff by blast
  then have "running_in ?js c \<ge> 1" using running_in_leased [OF assms(1), of c] by simp
  with dispatch_cap [OF assms(1,2) list_fresh [OF assms(1)] d, of c] assms(4)
  have "filter (\<lambda>i. map_option fst (view s i) = Some c) ids = []" by simp
  then have "k \<notin> set ids" using assms(5) by (auto simp: filter_empty_conv)
  then show ?thesis using RunOnce_view [OF assms(1,2) r] assms(5) by (simp add: r taken_def)
qed

end

section \<open>The fleet without one of its nodes\<close>

text \<open>
  The steps the other nodes of a fleet take once a node has crashed: ticks of the dispatch loop at any time,
  heartbeats, runs that end, and new jobs.  The limit of the cell is the default.
\<close>

inductive fleet_step :: "string \<Rightarrow> string \<Rightarrow> InMemoryJobStore \<Rightarrow> InMemoryJobStore \<Rightarrow> bool" for crashed cell where
  tick: "node_ok fo \<Longrightarrow> fo_nodeID fo \<noteq> crashed \<Longrightarrow> cellLimit fo cell = 1 \<Longrightarrow> RunOnce InMemoryJobs now fo s = (ids, fo', s') \<Longrightarrow> fleet_step crashed cell s s'"
| beat: "node_ok fo \<Longrightarrow> fo_nodeID fo \<noteq> crashed \<Longrightarrow> heartbeat_tick InMemoryJobs now i fo s = (go, s') \<Longrightarrow> fleet_step crashed cell s s'"
| done_run: "node_ok fo \<Longrightarrow> fo_nodeID fo \<noteq> crashed \<Longrightarrow> finish_run InMemoryJobs now i outcome fo s = (fo', s') \<Longrightarrow> fleet_step crashed cell s s'"
| submit: "Enqueue InMemoryJobs job s = Inr s' \<Longrightarrow> fleet_step crashed cell s s'"

inductive_cases fleet_stepE: "fleet_step crashed cell s s'"

inductive fleet_steps :: "string \<Rightarrow> string \<Rightarrow> InMemoryJobStore \<Rightarrow> InMemoryJobStore \<Rightarrow> bool" for crashed cell where
  none: "fleet_steps crashed cell s s"
| more: "fleet_steps crashed cell s s1 \<Longrightarrow> fleet_step crashed cell s1 s2 \<Longrightarrow> fleet_steps crashed cell s s2"

text \<open>The steps other than the tick are calls of the store by a node that does not hold the claim.\<close>

lemma fleet_step_call:
  assumes "fleet_step crashed cell s s'"
  shows "(\<exists>fo now ids fo'. node_ok fo \<and> cellLimit fo cell = 1 \<and> RunOnce InMemoryJobs now fo s = (ids, fo', s')) \<or>
    s' = s \<or> (\<exists>k. by_node k \<and> (\<forall>u. foreign crashed u k) \<and> (\<forall>now i node ttl. k \<noteq> CallAcquire now i node ttl) \<and> s' = snd (store_call InMemoryJobs k s))"
  using assms
proof cases
  case (beat fo now i go)
  let ?k = "CallHeartbeat now i (fo_nodeID fo) (fo_claimTTL fo)"
  have "s' = snd (store_call InMemoryJobs ?k s)"
    using beat(3) by (auto simp: heartbeat_tick_def split: sum.splits)
  then show ?thesis using beat by (intro disjI2 exI [of _ ?k]) (simp add: node_ok_def)
next
  case (done_run fo now i outcome fo')
  obtain b p err where o: "outcome = (b, p, err)" by (metis prod_cases3)
  let ?k = "CallRelease now i (fo_nodeID fo) (if err = None then JobDone else JobFailed) b p err"
  have "s' = snd (store_call InMemoryJobs ?k s)"
    using done_run(3) by (auto simp: finish_run_def o split: sum.splits)
  then show ?thesis using done_run by (intro disjI2 exI [of _ ?k]) (simp add: node_ok_def)
next
  case (submit job)
  have "s' = snd (store_call InMemoryJobs (CallPut job) s)"
    using submit by (auto simp: Enqueue_def split: if_splits)
  then show ?thesis by (intro disjI2 exI [of _ "CallPut job"]) simp
qed blast

lemma lease_call_waiting:
  assumes "m i = Some (c, Waiting)" and "\<forall>now i node ttl. k \<noteq> CallAcquire now i node ttl"
  shows "snd (lease_call k m) i = Some (c, Waiting)"
  using assms by (cases k) (auto simp: settle_def lease_heartbeat_def lease_release_def split: option.splits)

lemma fleet_steps_blocked:
  assumes "fleet_steps a c s s'" and "jobs_inv s" and "leases s i = Some (c, Leased a u)" and "leases s k = Some (c, Waiting)"
  shows "jobs_inv s' \<and> leases s' i = Some (c, Leased a u) \<and> leases s' k = Some (c, Waiting)"
  using assms
proof induction
  case (more s s1 s2)
  then have I: "jobs_inv s1" "leases s1 i = Some (c, Leased a u)" "leases s1 k = Some (c, Waiting)" by blast+
  from fleet_step_call [OF more.hyps(2)] show ?case
  proof (elim disjE exE conjE)
    fix fo now ids fo'
    assume "node_ok fo" "cellLimit fo c = 1" "RunOnce InMemoryJobs now fo s1 = (ids, fo', s2)"
    with mem_jobs.RunOnce_keeps_leased [OF I(1) _ I(2), of fo now] mem_jobs.RunOnce_full_cell [OF I(1) _ I(2) _ I(3), of fo now]
    show ?thesis by simp
  next
    assume "s2 = s1" with I show ?thesis by simp
  next
    fix call assume call: "by_node call" "\<forall>u. foreign a u call" "\<forall>now i node ttl. call \<noteq> CallAcquire now i node ttl"
      and s2: "s2 = snd (store_call InMemoryJobs call s1)"
    from mem_jobs.store_call_refines [OF I(1) call(1)] s2
    have "jobs_inv s2" "leases s2 = snd (lease_call call (leases s1))" by simp_all
    then show ?thesis
      using lease_call_foreign [of "leases s1" i c a u call] lease_call_waiting [of "leases s1" k c call] I call by simp
  qed
qed simp

section \<open>Properties\<close>

text \<open>
  C11: the fleet makes progress.  When no claim is outstanding, then after as many rounds as there are
  pending jobs -- each round of any node with any clock, its runs succeeding or failing as the runner
  answers -- every job that was submitted has ended as done or failed.
\<close>

theorem fleet_drains:
  assumes "jobs_inv s" and "\<forall>c. leased_in c (leases s) = {}" and "list_all (\<lambda>nd. node_ok (snd nd)) nds"
    and "card (waiting (leases s)) \<le> length nds" and "leases s i = Some (c, l)"
  shows "\<exists>t\<in>{JobDone, JobFailed}. leases (fold (fleet_round InMemoryJobs runner) nds s) i = Some (c, Settled t)"
  using mem_jobs.fleet_rounds_settle [OF assms(1) _ assms(3,4), of runner] assms(2,5) unfolding mem_jobs.idle_def by blast

definition demo_node :: "string \<Rightarrow> FleetOrchestrator" where
  "demo_node i = \<lparr>fo_nodeID = i, fo_limits = [], fo_claimTTL = 30, fo_inflight = []\<rparr>"

definition demo_queue :: InMemoryJobStore where
  "demo_queue = snd (store_calls InMemoryJobs [CallPut (demo_job ''j''), CallPut (demo_job ''k'')] NewInMemoryJobStore)"

lemma demo_node_ok: "i \<noteq> [] \<Longrightarrow> node_ok (demo_node i) \<and> cellLimit (demo_node i) c = 1"
  by (simp add: node_ok_def demo_node_def cellLimit_def gm_get_Nil)

lemma demo_queue_facts:
  "jobs_inv demo_queue" "leases demo_queue = [''j'' \<mapsto> (''c1'', Waiting), ''k'' \<mapsto> (''c1'', Waiting)]"
proof -
  let ?ks = "[CallPut (demo_job ''j''), CallPut (demo_job ''k'')]"
  have R: "jobs_inv demo_queue" "lease_calls ?ks (leases NewInMemoryJobStore) = (fst (store_calls InMemoryJobs ?ks NewInMemoryJobStore), leases demo_queue)"
    using mem_jobs.store_calls_refine [OF jobs_inv_New, of ?ks] by (simp_all add: demo_queue_def)
  have "leases NewInMemoryJobStore = Map.empty" by (rule ext) (simp add: leases_def NewInMemoryJobStore_def gm_get_Nil)
  with R show "jobs_inv demo_queue" "leases demo_queue = [''j'' \<mapsto> (''c1'', Waiting), ''k'' \<mapsto> (''c1'', Waiting)]"
    by (simp_all add: demo_job_def)
qed

theorem fleet_drains_witness:
  "\<exists>t\<in>{JobDone, JobFailed}. leases (fold (fleet_round InMemoryJobs (\<lambda>job. (7, 1, if mj_JobID job = ''k'' then Some ''lost'' else None)))
      [(5, demo_node ''a''), (6, demo_node ''b'')] demo_queue) ''k'' = Some (''c1'', Settled t)"
proof (rule fleet_drains)
  have "waiting (leases demo_queue) = {''j'', ''k''}" by (auto simp: waiting_def demo_queue_facts)
  then show "card (waiting (leases demo_queue)) \<le> length [(5 :: gotime, demo_node ''a''), (6, demo_node ''b'')]" by simp
qed (auto simp: demo_queue_facts leased_in_def demo_node_ok split: if_splits)

text \<open>
  C21: a crashed node blocks its destination cell for good.  Let a node that has claimed job \<open>i\<close> stop, and let
  the limit of the job's cell be the default of one.  Whatever the other nodes do and however long, the job
  stays with the crashed node and a job waiting for the cell is not started -- although the store
  would give the job to any of them from the end of the claim on: the dispatch loop asks for
  pending jobs only, and counts the orphaned one as running.
\<close>

theorem crashed_claim_blocks_cell:
  assumes "jobs_inv s" and "leases s i = Some (c, Leased a u)" and "leases s k = Some (c, Waiting)" and "fleet_steps a c s s'"
  shows "leases s' i = Some (c, Leased a u) \<and> leases s' k = Some (c, Waiting) \<and>
    (\<forall>now\<ge>u. \<forall>b ttl. b \<noteq> [] \<longrightarrow> ttl > 0 \<longrightarrow> (\<exists>s''. AcquireJob now i b ttl s' = Inr (True, s'')))"
proof -
  note B = fleet_steps_blocked [OF assms(4,1,2,3)]
  have "\<exists>s''. AcquireJob now i b ttl s' = Inr (True, s'')" if "now \<ge> u" "b \<noteq> []" "ttl > 0" for now b ttl
    using AcquireJob_law [of s' b ttl i c "Leased a u" now] B that by (auto simp: lease_acquire_def)
  with B show ?thesis by blast
qed

definition demo_crash :: InMemoryJobStore where
  "demo_crash = snd (snd (RunOnce InMemoryJobs 5 (demo_node ''a'') demo_queue))"

theorem crashed_claim_blocks_cell_witness:
  "leases demo_crash ''j'' = Some (''c1'', Leased ''a'' 35) \<and>
   leases (snd (snd (RunOnce InMemoryJobs 1000 (demo_node ''b'') demo_crash))) ''k'' = Some (''c1'', Waiting)"
proof
  show held: "leases demo_crash ''j'' = Some (''c1'', Leased ''a'' 35)" by code_simp
  have wait: "leases demo_crash ''k'' = Some (''c1'', Waiting)" by code_simp
  obtain ids fo' s1 where r: "RunOnce InMemoryJobs 5 (demo_node ''a'') demo_queue = (ids, fo', s1)" by (metis prod_cases3)
  have inv: "jobs_inv demo_crash" using mem_jobs.RunOnce_view [OF demo_queue_facts(1) _ r] by (simp add: demo_crash_def r demo_node_ok)
  obtain ids' fo2 s2 where r2: "RunOnce InMemoryJobs 1000 (demo_node ''b'') demo_crash = (ids', fo2, s2)" by (metis prod_cases3)
  have "fleet_step ''a'' ''c1'' demo_crash s2"
    by (rule fleet_step.tick [OF _ _ _ r2]) (simp_all add: demo_node_ok, simp add: demo_node_def)
  then have "fleet_steps ''a'' ''c1'' demo_crash s2" by (rule fleet_steps.more [OF fleet_steps.none])
  from crashed_claim_blocks_cell [OF inv held wait this]
  show "leases (snd (snd (RunOnce InMemoryJobs 1000 (demo_node ''b'') demo_crash))) ''k'' = Some (''c1'', Waiting)" by (simp add: r2)
qed

text \<open>
  C24: one pass of the dispatch loop respects the limits.  After \<open>RunOnce\<close> of a node that is alone at the
  store, each cell has at most as many running jobs as its limit allows, or as it had before.
\<close>

theorem RunOnce_within_limits:
  assumes "jobs_inv s" and "node_ok fo" and "RunOnce InMemoryJobs now fo s = (ids, fo', s')"
  shows "int (card (leased_in c (leases s'))) \<le> max (int (card (leased_in c (leases s)))) (cellLimit fo c)"
  by (rule mem_jobs.RunOnce_cap [OF assms])

theorem RunOnce_within_limits_witness:
  "int (card (leased_in ''c1'' (leases demo_crash))) \<le> 1"
proof -
  obtain ids fo' s1 where r: "RunOnce InMemoryJobs 5 (demo_node ''a'') demo_queue = (ids, fo', s1)" by (metis prod_cases3)
  have "leased_in ''c1'' (leases demo_queue) = {}" by (auto simp: leased_in_def demo_queue_facts split: if_splits)
  with RunOnce_within_limits [OF demo_queue_facts(1) _ r, of "''c1''"] show ?thesis by (simp add: demo_crash_def r demo_node_ok)
qed

text \<open>
  The limit is not one across nodes: two nodes that list the jobs before either claims one both find
  the cell free, and two jobs run in a cell whose limit is one.
\<close>

lemma stale_snapshot_exceeds_limit:
  "let active = ListActiveJobs demo_queue;
       s1 = snd (dispatch InMemoryJobs 5 (demo_node ''a'') active (running_in active) demo_queue);
       s2 = snd (dispatch InMemoryJobs 6 (demo_node ''b'') active (running_in active) s1)
   in leases s2 ''j'' = Some (''c1'', Leased ''a'' 35) \<and> leases s2 ''k'' = Some (''c1'', Leased ''b'' 36)"
  by code_simp

end
