(* ===== verification/Rebalancer.thy ===== *)
theory Rebalancer
  imports Migration_Jobs Content_Index
begin

text \<open>
  The workers that move pieces between backends: the background rebalancer
  (\<open>migration/background_rebalancer/rebalancer.go\<close>), which copies the pieces of a tenant's bucket to
  its new primary and advances the migration phase of each manifest, and the cross-cell
  replicator (\<open>migration/cross_cell/replicator.go\<close>), which mirrors manifests and pieces into another cell.

  Both walk a listing page by page while they write to the store that produces it.  The loop is
  indexed by the number of pages it may still ask for, and the state it has reached is returned
  whether or not the pages ran out, so that what is shown of it holds at every moment.
  The answers of the context, which may be cancelled at any time, are numbered by the
  polls of it; the floating-point delay of the throttle is a parameter.
\<close>

section \<open>Phases of manifests\<close>

definition phaseOf :: "ObjectManifest \<Rightarrow> string" where
  "phaseOf m =
    (let g = mg_Generation (m_MigrationState m) in
     if g \<le> 1 then WasabiPrimary
     else if mg_CloudCopy (m_MigrationState m) = [] then LocalOnly
     else if g = 2 then DualWrite
     else if g = 3 then LocalPrimaryWasabiBackup
     else LocalPrimaryWasabiDrain)"

definition eligible :: "ObjectManifest \<Rightarrow> bool" where
  "eligible m \<longleftrightarrow> phaseOf m = DualWrite \<or> phaseOf m = LocalPrimaryWasabiBackup \<or> phaseOf m = LocalPrimaryWasabiDrain"

definition nextPhase :: "string \<Rightarrow> string option" where
  "nextPhase p =
    (if p = WasabiPrimary then Some DualWrite
     else if p = DualWrite then Some LocalPrimaryWasabiBackup
     else if p = LocalPrimaryWasabiBackup then Some LocalPrimaryWasabiDrain
     else if p = LocalPrimaryWasabiDrain then Some LocalOnly
     else None)"

definition set_phase :: "int \<Rightarrow> string \<Rightarrow> ObjectManifest \<Rightarrow> ObjectManifest" where
  "set_phase g c m = m\<lparr>m_MigrationState := (m_MigrationState m)\<lparr>mg_Generation := g, mg_CloudCopy := c\<rparr>\<rparr>"

definition applyPhase :: "string \<Rightarrow> ObjectManifest \<Rightarrow> ObjectManifest" where
  "applyPhase p m =
    (if p = DualWrite then set_phase 2 ''wasabi'' m
     else if p = LocalPrimaryWasabiBackup then set_phase 3 ''wasabi'' m
     else if p = LocalPrimaryWasabiDrain then set_phase 4 ''wasabi'' m
     else if p = LocalOnly then set_phase 5 [] m
     else m)"

definition manifest_key :: "ObjectManifest \<Rightarrow> ManifestKey" where
  "manifest_key m = \<lparr>k_TenantID = m_TenantID m, k_Bucket = m_Bucket m, k_ObjectKeyHash = m_ObjectKeyHash m, k_VersionID = m_VersionID m\<rparr>"

section \<open>The rebalancer\<close>

record TenantTarget =
  tt_TenantID :: string
  tt_Bucket :: string
  tt_SourceBackend :: string
  tt_PrimaryBackend :: string

record ('m, 'p) RebalancerConfig =
  rb_Manifests :: "'m ManifestStore"
  rb_Providers :: "'p backends"
  rb_Targets :: "TenantTarget list"
  rb_BytesPerSecond :: int
  rb_PageSize :: int
  rb_delay :: "int \<Rightarrow> int \<Rightarrow> duration"
  rb_ctx :: "nat \<Rightarrow> string option"

definition New_Rebalancer :: "('m, 'p) RebalancerConfig \<Rightarrow> ('m, 'p) RebalancerConfig" where
  "New_Rebalancer cfg = (if rb_PageSize cfg \<le> 0 then cfg\<lparr>rb_PageSize := 500\<rparr> else cfg)"

record RebalanceStats =
  rbs_ManifestsScanned :: int
  rbs_PiecesCopied :: int
  rbs_BytesCopied :: int
  rbs_PhasesAdvanced :: int
  rbs_Errors :: int

definition zero_RebalanceStats :: RebalanceStats where
  "zero_RebalanceStats = \<lparr>rbs_ManifestsScanned = 0, rbs_PiecesCopied = 0, rbs_BytesCopied = 0, rbs_PhasesAdvanced = 0, rbs_Errors = 0\<rparr>"

definition add_stats :: "RebalanceStats \<Rightarrow> RebalanceStats \<Rightarrow> RebalanceStats" where
  "add_stats a b = \<lparr>rbs_ManifestsScanned = rbs_ManifestsScanned a + rbs_ManifestsScanned b, rbs_PiecesCopied = rbs_PiecesCopied a + rbs_PiecesCopied b,
     rbs_BytesCopied = rbs_BytesCopied a + rbs_BytesCopied b, rbs_PhasesAdvanced = rbs_PhasesAdvanced a + rbs_PhasesAdvanced b,
     rbs_Errors = rbs_Errors a + rbs_Errors b\<rparr>"

text \<open>The manifest store, the backends by name, and the number of polls of the context.\<close>

record ('m, 'p) MoveState =
  mv_Manifests :: 'm
  mv_World :: "'p world"
  mv_polls :: nat

definition poll :: "(nat \<Rightarrow> string option) \<Rightarrow> ('m, 'p) MoveState \<Rightarrow> string option \<times> ('m, 'p) MoveState" where
  "poll ctx st = (ctx (mv_polls st), st\<lparr>mv_polls := Suc (mv_polls st)\<rparr>)"

definition throttle :: "('m, 'p) RebalancerConfig \<Rightarrow> int \<Rightarrow> ('m, 'p) MoveState \<Rightarrow> string option \<times> ('m, 'p) MoveState" where
  "throttle cfg bytes' st =
    (if rb_BytesPerSecond cfg \<le> 0 then (None, st)
     else if rb_delay cfg bytes' (rb_BytesPerSecond cfg) \<le> 0 then (None, st)
     else poll (rb_ctx cfg) st)"

definition move_options :: "bytes \<Rightarrow> PutOptions" where
  "move_options body = \<lparr>po_ContentLength = int (length body), po_ContentType = [], po_StorageClass = [], po_IfNoneMatch = False\<rparr>"

text \<open>
  The loop over the pieces of a manifest: the error that ended it, the number of pieces and bytes copied, the pieces
  with the copied ones on the primary, and the state.
\<close>

fun copy_pieces :: "('m, 'p) RebalancerConfig \<Rightarrow> TenantTarget \<Rightarrow> 'p StorageProvider \<Rightarrow> 'p StorageProvider \<Rightarrow> Piece list \<Rightarrow> ('m, 'p) MoveState
    \<Rightarrow> string option \<times> int \<times> int \<times> Piece list \<times> ('m, 'p) MoveState" where
  "copy_pieces cfg tgt source primary [] st = (None, 0, 0, [], st)"
| "copy_pieces cfg tgt source primary (piece # rest) st =
    (if p_Backend piece \<noteq> tt_SourceBackend tgt then
       (case copy_pieces cfg tgt source primary rest st of (e, n, b, ps, st') \<Rightarrow> (e, n, b, piece # ps, st'))
     else (case sp_GetPiece source (p_PieceID piece) None (mv_World st (tt_SourceBackend tgt)) of
         Inl err \<Rightarrow> (Some ''get piece'', 0, 0, piece # rest, st)
       | Inr body \<Rightarrow>
           (case throttle cfg (int (length body)) st of
              (Some err, st1) \<Rightarrow> (Some err, 0, 0, piece # rest, st1)
            | (None, st1) \<Rightarrow>
                (case sp_PutPiece primary (p_PieceID piece) body (move_options body) (mv_World st1 (tt_PrimaryBackend tgt)) of
                   (res, p) \<Rightarrow>
                     let st2 = st1\<lparr>mv_World := (mv_World st1)(tt_PrimaryBackend tgt := p)\<rparr> in
                     (case res of
                        Inl err \<Rightarrow> (Some ''put piece'', 0, 0, piece # rest, st2)
                      | Inr put \<Rightarrow>
                          let moved = piece\<lparr>p_Backend := tt_PrimaryBackend tgt,
                                p_Locator := (if pr_Locator put \<noteq> [] then pr_Locator put else p_Locator piece)\<rparr>
                          in (case copy_pieces cfg tgt source primary rest st2 of
                                (e, n, b, ps, st') \<Rightarrow> (e, n + 1, b + int (length body), moved # ps, st')))))))"

definition rebalanceManifest :: "('m, 'p) RebalancerConfig \<Rightarrow> TenantTarget \<Rightarrow> 'p StorageProvider \<Rightarrow> 'p StorageProvider \<Rightarrow> ObjectManifest
    \<Rightarrow> ('m, 'p) MoveState \<Rightarrow> string option \<times> int \<times> int \<times> ObjectManifest \<times> ('m, 'p) MoveState" where
  "rebalanceManifest cfg tgt source primary m st =
    (case copy_pieces cfg tgt source primary (m_Pieces m) st of
       (e, n, b, ps, st1) \<Rightarrow>
         let m' = m\<lparr>m_Pieces := ps\<rparr> in
         (case e of
            Some err \<Rightarrow> (Some err, n, b, m', st1)
          | None \<Rightarrow>
              if n = 0 then (None, n, b, m', st1)
              else (case op_Put (rb_Manifests cfg) (manifest_key m') m' (mv_Manifests st1) of
                      Inl err \<Rightarrow> (Some ''persist manifest'', n, b, m', st1)
                    | Inr s \<Rightarrow> (None, n, b, m', st1\<lparr>mv_Manifests := s\<rparr>))))"

definition advancePhase :: "('m, 'p) RebalancerConfig \<Rightarrow> TenantTarget \<Rightarrow> ObjectManifest \<Rightarrow> ('m, 'p) MoveState
    \<Rightarrow> (string, bool) result \<times> ('m, 'p) MoveState" where
  "advancePhase cfg tgt m st =
    (if list_ex (\<lambda>p. p_Backend p \<noteq> tt_PrimaryBackend tgt) (m_Pieces m) then (Inr False, st)
     else (case nextPhase (phaseOf m) of
         None \<Rightarrow> (Inr False, st)
       | Some next' \<Rightarrow>
           (case ValidateTransition (phaseOf m) next' of
              Inl err \<Rightarrow> (Inl ''transition'', st)
            | Inr _ \<Rightarrow>
                let m' = applyPhase next' m in
                (case op_Put (rb_Manifests cfg) (manifest_key m') m' (mv_Manifests st) of
                   Inl err \<Rightarrow> (Inl ''persist manifest'', st)
                 | Inr s \<Rightarrow> (Inr True, st\<lparr>mv_Manifests := s\<rparr>)))))"

text \<open>The body of the loop over a page, and the loop.\<close>

definition handle_manifest :: "('m, 'p) RebalancerConfig \<Rightarrow> TenantTarget \<Rightarrow> 'p StorageProvider \<Rightarrow> 'p StorageProvider \<Rightarrow> ObjectManifest
    \<Rightarrow> RebalanceStats \<times> ('m, 'p) MoveState \<Rightarrow> RebalanceStats \<times> ('m, 'p) MoveState" where
  "handle_manifest cfg tgt source primary m = (\<lambda>(stats, st).
    (let stats1 = stats\<lparr>rbs_ManifestsScanned := rbs_ManifestsScanned stats + 1\<rparr> in
     if \<not> eligible m then (stats1, st)
     else (case rebalanceManifest cfg tgt source primary m st of
       (e, n, b, m', st1) \<Rightarrow>
         let stats2 = stats1\<lparr>rbs_PiecesCopied := rbs_PiecesCopied stats1 + n, rbs_BytesCopied := rbs_BytesCopied stats1 + b\<rparr> in
         (case e of
            Some err \<Rightarrow> (stats2\<lparr>rbs_Errors := rbs_Errors stats2 + 1\<rparr>, st1)
          | None \<Rightarrow>
              (case advancePhase cfg tgt m' st1 of
                 (Inl err, st2) \<Rightarrow> (stats2\<lparr>rbs_Errors := rbs_Errors stats2 + 1\<rparr>, st2)
               | (Inr advanced, st2) \<Rightarrow>
                   (if advanced then stats2\<lparr>rbs_PhasesAdvanced := rbs_PhasesAdvanced stats2 + 1\<rparr> else stats2, st2))))))"

datatype pass_end = PassDone | PassError string | PagesLeft

fun target_pages :: "nat \<Rightarrow> ('m, 'p) RebalancerConfig \<Rightarrow> TenantTarget \<Rightarrow> 'p StorageProvider \<Rightarrow> 'p StorageProvider \<Rightarrow> string
    \<Rightarrow> RebalanceStats \<times> ('m, 'p) MoveState \<Rightarrow> pass_end \<times> RebalanceStats \<times> ('m, 'p) MoveState" where
  "target_pages 0 cfg tgt source primary cursor acc = (PagesLeft, acc)"
| "target_pages (Suc pages) cfg tgt source primary cursor acc =
    (case op_List (rb_Manifests cfg) (tt_TenantID tgt) (tt_Bucket tgt) cursor (rb_PageSize cfg) (mv_Manifests (snd acc)) of
       Inl err \<Rightarrow> (PassError ''list manifests'', acc)
     | Inr page \<Rightarrow>
         let acc1 = fold (handle_manifest cfg tgt source primary) (lr_Manifests page) acc in
         if lr_NextCursor page = [] then (PassDone, acc1)
         else target_pages pages cfg tgt source primary (lr_NextCursor page) acc1)"

definition runTarget :: "nat \<Rightarrow> ('m, 'p) RebalancerConfig \<Rightarrow> TenantTarget \<Rightarrow> ('m, 'p) MoveState \<Rightarrow> pass_end \<times> RebalanceStats \<times> ('m, 'p) MoveState" where
  "runTarget pages cfg tgt st =
    (case rb_Providers cfg (tt_SourceBackend tgt) of
       None \<Rightarrow> (PassError ''source backend not registered'', zero_RebalanceStats, st)
     | Some source \<Rightarrow>
         (case rb_Providers cfg (tt_PrimaryBackend tgt) of
            None \<Rightarrow> (PassError ''primary backend not registered'', zero_RebalanceStats, st)
          | Some primary \<Rightarrow> target_pages pages cfg tgt source primary [] (zero_RebalanceStats, st)))"

fun run_targets :: "nat \<Rightarrow> ('m, 'p) RebalancerConfig \<Rightarrow> TenantTarget list \<Rightarrow> RebalanceStats \<times> ('m, 'p) MoveState
    \<Rightarrow> pass_end \<times> RebalanceStats \<times> ('m, 'p) MoveState" where
  "run_targets pages cfg [] acc = (PassDone, acc)"
| "run_targets pages cfg (tgt # tgts) (stats, st) =
    (case poll (rb_ctx cfg) st of
       (Some err, st1) \<Rightarrow> (PassError err, stats, st1)
     | (None, st1) \<Rightarrow>
         (case runTarget pages cfg tgt st1 of
            (e, s, st2) \<Rightarrow>
              (case e of
                 PassDone \<Rightarrow> run_targets pages cfg tgts (add_stats stats s, st2)
               | _ \<Rightarrow> (e, add_stats stats s, st2))))"

definition Rebalancer_Run :: "nat \<Rightarrow> ('m, 'p) RebalancerConfig \<Rightarrow> ('m, 'p) MoveState \<Rightarrow> pass_end \<times> RebalanceStats \<times> ('m, 'p) MoveState" where
  "Rebalancer_Run pages cfg st = run_targets pages cfg (rb_Targets cfg) (zero_RebalanceStats, st)"

section \<open>What the workers rely on\<close>

text \<open>A manifest store whose listings contain what it stores.\<close>

locale listed_store = manifest_store +
  assumes list_law: "invar s \<Longrightarrow> op_List ops t b c lim s = Inr r \<Longrightarrow> m \<in> set (lr_Manifests r) \<Longrightarrow> \<exists>k. versions s k = Some m"

lemma Mem_List_stored:
  assumes "Mem_List t b c lim s = Inr r" and "m \<in> set (lr_Manifests r)"
  shows "\<exists>k. mem_versions s k = Some m"
proof -
  obtain after where after: "(if c = [] then Inr 0 else ParseUint c) = Inr after"
    using assms(1) unfolding Mem_List_def Let_def by (cases "if c = [] then Inr 0 else ParseUint c") simp_all
  define rows where "rows = list_rows s t b after"
  define n where "n = nat (if lim \<le> 0 then 1000 else lim)"
  have "lr_Manifests r = map (snd \<circ> snd) (take n rows) \<or> lr_Manifests r = map (snd \<circ> snd) rows"
    using assms(1) unfolding Mem_List_def Let_def after rows_def n_def by (cases "length rows > n") (auto simp: rows_def n_def split: if_splits)
  then have "set (lr_Manifests r) \<subseteq> (snd \<circ> snd) ` set rows" using set_take_subset [of n rows] by (elim disjE) (simp_all add: image_mono)
  then obtain r where "r \<in> set rows" "m = snd (snd r)" using assms(2) by auto
  then have "(fst r, fst (snd r), m) \<in> set (list_rows s t b after)" by (simp add: rows_def)
  then show ?thesis unfolding list_rows_set by (auto simp: mem_versions_def)
qed

interpretation mem_listed: listed_store mem_ops mem_inv mem_versions mem_current
  by unfold_locales (auto simp: mem_ops_def dest: Mem_List_stored)

text \<open>
  Backends that keep the storage contract, and whose writes are atomic: a write that fails has either happened or
  not, and has not destroyed what was there.
\<close>

locale moving = M: listed_store ops minv versions current
  for ops :: "'m ManifestStore" and minv versions current +
  fixes provs :: "'p backends" and pinv :: "'p \<Rightarrow> bool" and pieces :: "'p \<Rightarrow> string \<Rightarrow> bytes option"
  assumes provider: "provs b = Some pv \<Longrightarrow> storage_provider pv pinv pieces"
    and atomic_put: "provs b = Some pv \<Longrightarrow> pinv p \<Longrightarrow> sp_PutPiece pv i d opts p = (Inl e, p') \<Longrightarrow> pieces p' i \<in> {pieces p i, Some d}"

text \<open>The bytes behind a piece; a piece identifier names the same bytes on every backend that has it.\<close>

definition piece_bytes :: "('p \<Rightarrow> string \<Rightarrow> bytes option) \<Rightarrow> 'p world \<Rightarrow> Piece \<Rightarrow> bytes option" where
  "piece_bytes pieces w p = pieces (w (p_Backend p)) (p_PieceID p)"

definition ids_name_bytes :: "('p \<Rightarrow> string \<Rightarrow> bytes option) \<Rightarrow> 'p world \<Rightarrow> bool" where
  "ids_name_bytes pieces w \<longleftrightarrow> (\<forall>b b' i d d'. pieces (w b) i = Some d \<longrightarrow> pieces (w b') i = Some d' \<longrightarrow> d = d')"

definition grows :: "('p \<Rightarrow> string \<Rightarrow> bytes option) \<Rightarrow> 'p world \<Rightarrow> 'p world \<Rightarrow> bool" where
  "grows pieces w w' \<longleftrightarrow> (\<forall>b i d. pieces (w b) i = Some d \<longrightarrow> pieces (w' b) i = Some d)"

definition keeps_bytes :: "('p \<Rightarrow> string \<Rightarrow> bytes option) \<Rightarrow> 'p world \<Rightarrow> Piece list \<Rightarrow> 'p world \<Rightarrow> Piece list \<Rightarrow> bool" where
  "keeps_bytes pieces w ps w' ps' \<longleftrightarrow>
    list_all2 (\<lambda>p p'. p_PieceID p' = p_PieceID p \<and> (\<forall>d. piece_bytes pieces w p = Some d \<longrightarrow> piece_bytes pieces w' p' = Some d)) ps ps'"

lemma grows_refl [simp]: "grows pieces w w"
  by (simp add: grows_def)

lemma grows_trans [trans]: "grows pieces w w1 \<Longrightarrow> grows pieces w1 w2 \<Longrightarrow> grows pieces w w2"
  by (simp add: grows_def)

lemma grows_keeps: "grows pieces w w' \<Longrightarrow> keeps_bytes pieces w ps w' ps"
  by (simp add: grows_def keeps_bytes_def piece_bytes_def list.rel_refl)

lemma keeps_trans [trans]:
  "keeps_bytes pieces w ps w1 ps1 \<Longrightarrow> keeps_bytes pieces w1 ps1 w2 ps2 \<Longrightarrow> keeps_bytes pieces w ps w2 ps2"
  unfolding keeps_bytes_def by (erule (1) list_all2_trans [rotated]) auto

lemma keeps_grows: "keeps_bytes pieces w ps w1 ps1 \<Longrightarrow> grows pieces w1 w2 \<Longrightarrow> keeps_bytes pieces w ps w2 ps1"
  by (blast intro: keeps_trans grows_keeps)

text \<open>Stored manifests lie under their own key.\<close>

definition keyed :: "(ManifestKey \<Rightarrow> ObjectManifest option) \<Rightarrow> bool" where
  "keyed vs \<longleftrightarrow> (\<forall>k m. vs k = Some m \<longrightarrow> manifest_key m = k)"

text \<open>A manifest that a migration may have produced from one: the same bytes behind its pieces, a phase reached by validated transitions.\<close>

definition migrated :: "('p \<Rightarrow> string \<Rightarrow> bytes option) \<Rightarrow> 'p world \<Rightarrow> ObjectManifest \<Rightarrow> 'p world \<Rightarrow> ObjectManifest \<Rightarrow> bool" where
  "migrated pieces w m w' m' \<longleftrightarrow> keeps_bytes pieces w (m_Pieces m) w' (m_Pieces m') \<and> phase_history (phaseOf m) (phaseOf m')"

lemma migrated_refl: "grows pieces w w' \<Longrightarrow> migrated pieces w m w' m"
  by (simp add: migrated_def grows_keeps phase_history.start)

lemma migrated_grows: "migrated pieces w m w1 m' \<Longrightarrow> grows pieces w1 w2 \<Longrightarrow> migrated pieces w m w2 m'"
  by (auto simp: migrated_def intro: keeps_grows)

lemma phaseOf_pieces [simp]: "phaseOf (m\<lparr>m_Pieces := ps\<rparr>) = phaseOf m"
proof -
  have "m_MigrationState (m\<lparr>m_Pieces := ps\<rparr>) = m_MigrationState m" by simp
  then show ?thesis unfolding phaseOf_def by (simp only:)
qed

lemma migrated_pieces:
  "migrated pieces w m w1 m1 \<Longrightarrow> keeps_bytes pieces w1 (m_Pieces m1) w2 ps \<Longrightarrow> migrated pieces w m w2 (m1\<lparr>m_Pieces := ps\<rparr>)"
  by (auto simp: migrated_def intro: keeps_trans)

lemma applyPhase_simps:
  "m_Pieces (applyPhase p m) = m_Pieces m" "manifest_key (applyPhase p m) = manifest_key m"
  by (simp_all add: applyPhase_def set_phase_def manifest_key_def)

lemma phaseOf_applyPhase: "nextPhase p = Some q \<Longrightarrow> phaseOf (applyPhase q m) = q"
  by (auto simp: nextPhase_def applyPhase_def set_phase_def phaseOf_def split: if_splits)

lemma migrated_advance:
  assumes "migrated pieces w m w1 m1" and "nextPhase (phaseOf m1) = Some q" and "ValidateTransition (phaseOf m1) q = Inr ()"
  shows "migrated pieces w m w1 (applyPhase q m1)"
  using assms phaseOf_applyPhase [OF assms(2)] by (auto simp: migrated_def applyPhase_simps intro: phase_history.step)

context moving
begin

text \<open>Writing a copy of a piece, whether the write fails or not.\<close>

lemma copy_put:
  assumes "world_ok provs pinv w" and "ids_name_bytes pieces w" and "pieces (w b) i = Some d" and "provs b' = Some pv"
    and "sp_PutPiece pv i d opts (w b') = (res, p)"
  shows "world_ok provs pinv (w(b' := p))" and "ids_name_bytes pieces (w(b' := p))" and "grows pieces w (w(b' := p))"
    and "is_ok res \<Longrightarrow> pieces p i = Some d"
proof -
  note P = provider [OF assms(4)]
  have inv: "pinv (w b')" using assms(1,4) by (simp add: world_ok_def)
  note other = storage_provider.put_other [OF P inv assms(5)]
  have same: "pieces p i \<in> {pieces (w b') i, Some d}"
    using atomic_put [OF assms(4) inv] storage_provider.put_ok [OF P inv] assms(5) by (cases res) auto
  show "world_ok provs pinv (w(b' := p))"
    using assms(1) storage_provider.put_invar [OF P inv assms(5)] by (simp add: world_ok_def)
  have upd: "pieces ((w(b' := p)) c) j = pieces (w c) j \<or> c = b' \<and> j = i \<and> pieces p i = Some d" for c j
    using other [of j] same by (cases "c = b'"; cases "j = i") auto
  have old: "\<exists>c'. pieces (w c') j = Some x" if "pieces ((w(b' := p)) c) j = Some x" for c j x
    using upd [of c j] that assms(3) by auto
  show "ids_name_bytes pieces (w(b' := p))"
    unfolding ids_name_bytes_def
  proof (intro allI impI)
    fix c c' j x x' assume "pieces ((w(b' := p)) c) j = Some x" "pieces ((w(b' := p)) c') j = Some x'"
    then obtain e e' where "pieces (w e) j = Some x" "pieces (w e') j = Some x'" using old by blast
    with assms(2) show "x = x'" unfolding ids_name_bytes_def by blast
  qed
  show "grows pieces w (w(b' := p))"
    unfolding grows_def
  proof (intro allI impI)
    fix c j x assume x: "pieces (w c) j = Some x"
    then have "j = i \<Longrightarrow> x = d" using assms(2,3) unfolding ids_name_bytes_def by blast
    with upd [of c j] x show "pieces ((w(b' := p)) c) j = Some x" by auto
  qed
  show "pieces p i = Some d" if "is_ok res"
    using that storage_provider.put_ok [OF P inv] assms(5) by (cases res) auto
qed

lemma copy_pieces_keeps:
  assumes "provs (tt_SourceBackend tgt) = Some source" and "provs (tt_PrimaryBackend tgt) = Some primary"
    and "world_ok provs pinv (mv_World st)" and "ids_name_bytes pieces (mv_World st)"
    and "copy_pieces cfg tgt source primary ps st = (e, n, b, ps', st')"
  shows "world_ok provs pinv (mv_World st') \<and> ids_name_bytes pieces (mv_World st') \<and> grows pieces (mv_World st) (mv_World st') \<and>
    mv_Manifests st' = mv_Manifests st \<and> keeps_bytes pieces (mv_World st) ps (mv_World st') ps'"
  using assms(3-5)
proof (induction ps arbitrary: st e n b ps')
  case (Cons piece rest)
  let ?w = "mv_World st" and ?src = "tt_SourceBackend tgt" and ?prim = "tt_PrimaryBackend tgt"
  have throttled: "mv_World st1 = ?w \<and> mv_Manifests st1 = mv_Manifests st" if "throttle cfg k st = (x, st1)" for k x st1
    using that by (auto simp: throttle_def poll_def split: if_splits)
  show ?case
  proof (cases "p_Backend piece = ?src")
    case False
    then obtain ps1 where "copy_pieces cfg tgt source primary rest st = (e, n, b, ps1, st')" "ps' = piece # ps1"
      using Cons.prems(3) by (auto split: prod.splits)
    with Cons.IH [OF Cons.prems(1,2)] show ?thesis by (auto simp: keeps_bytes_def grows_def piece_bytes_def)
  next
    case True
    show ?thesis
    proof (cases "sp_GetPiece source (p_PieceID piece) None (?w ?src)")
      case (Inl err)
      with Cons.prems True show ?thesis by (auto intro: grows_keeps)
    next
      case (Inr body)
      have src: "pieces (?w ?src) (p_PieceID piece) = Some body"
        using storage_provider.get_ok [OF provider [OF assms(1)] _ Inr] Cons.prems(1) assms(1) by (simp add: world_ok_def)
      obtain x st1 where t: "throttle cfg (int (length body)) st = (x, st1)" by (metis prod.exhaust)
      note T = throttled [OF t]
      show ?thesis
      proof (cases x)
        case (Some err)
        with Cons.prems True Inr t T show ?thesis by (auto intro: grows_keeps)
      next
        case None
        obtain res p where put: "sp_PutPiece primary (p_PieceID piece) body (move_options body) (?w ?prim) = (res, p)" by (metis prod.exhaust)
        define w2 where "w2 = ?w(?prim := p)"
        note C = copy_put [OF Cons.prems(1,2) src assms(2) put, folded w2_def]
        define st2 where "st2 = st1\<lparr>mv_World := w2\<rparr>"
        have st2: "mv_World st2 = w2" "mv_Manifests st2 = mv_Manifests st" using T by (simp_all add: st2_def)
        have unf: "copy_pieces cfg tgt source primary (piece # rest) st =
            (case res of Inl err \<Rightarrow> (Some ''put piece'', 0, 0, piece # rest, st2)
             | Inr pr \<Rightarrow> (case copy_pieces cfg tgt source primary rest st2 of (e, n, b, ps, st') \<Rightarrow> (e, n + 1, b + int (length body),
                 piece\<lparr>p_Backend := ?prim, p_Locator := (if pr_Locator pr \<noteq> [] then pr_Locator pr else p_Locator piece)\<rparr> # ps, st')))"
          using True Inr t None put T unfolding copy_pieces.simps st2_def w2_def Let_def by (simp only: if_False not_True_eq_False simp_thms prod.case option.case sum.case)
        show ?thesis
        proof (cases res)
          case (Inl err)
          with Cons.prems(3) st2 C(1-3) show ?thesis unfolding unf by (auto intro: grows_keeps)
        next
          case (Inr pr)
          let ?moved = "piece\<lparr>p_Backend := ?prim, p_Locator := (if pr_Locator pr \<noteq> [] then pr_Locator pr else p_Locator piece)\<rparr>"
          obtain e1 n1 b1 ps1 where rest: "copy_pieces cfg tgt source primary rest st2 = (e1, n1, b1, ps1, st')" "ps' = ?moved # ps1"
            using Cons.prems(3) Inr unfolding unf by (auto split: prod.splits)
          note IH = Cons.IH [OF _ _ rest(1), unfolded st2, OF C(1,2)]
          have "pieces p (p_PieceID piece) = Some body" using C(4) Inr by simp
          then have "piece_bytes pieces w2 ?moved = Some body" by (simp add: piece_bytes_def w2_def)
          then have "piece_bytes pieces (mv_World st') ?moved = Some body" using IH by (simp add: piece_bytes_def grows_def)
          moreover have "keeps_bytes pieces ?w rest (mv_World st') ps1" using keeps_trans [OF grows_keeps [OF C(3)]] IH by blast
          ultimately show ?thesis
            using IH grows_trans [OF C(3)] src True by (simp add: keeps_bytes_def rest(2) piece_bytes_def)
        qed
      qed
    qed
  qed
qed (auto simp: keeps_bytes_def)

text \<open>
  The state of a pass, against the state in which it began: every version is there, with its bytes, and no other.
\<close>

definition pass_ok :: "'m \<Rightarrow> 'p world \<Rightarrow> ('m, 'p) MoveState \<Rightarrow> bool" where
  "pass_ok s0 w0 st \<longleftrightarrow> minv (mv_Manifests st) \<and> world_ok provs pinv (mv_World st) \<and> ids_name_bytes pieces (mv_World st) \<and>
    grows pieces w0 (mv_World st) \<and> keyed (versions (mv_Manifests st)) \<and>
    dom (versions (mv_Manifests st)) = dom (versions s0) \<and>
    (\<forall>k m0 m. versions s0 k = Some m0 \<longrightarrow> versions (mv_Manifests st) k = Some m \<longrightarrow> migrated pieces w0 m0 (mv_World st) m)"

definition page_ok :: "'m \<Rightarrow> 'p world \<Rightarrow> 'p world \<Rightarrow> ObjectManifest \<Rightarrow> bool" where
  "page_ok s0 w0 w m \<longleftrightarrow> (\<exists>m0. versions s0 (manifest_key m) = Some m0 \<and> migrated pieces w0 m0 w m)"

lemma pass_put:
  assumes "pass_ok s0 w0 st" and "page_ok s0 w0 (mv_World st) m" and "op_Put ops (manifest_key m) m (mv_Manifests st) = Inr s"
  shows "pass_ok s0 w0 (st\<lparr>mv_Manifests := s\<rparr>)"
proof -
  have "minv (mv_Manifests st)" using assms(1) by (simp add: pass_ok_def)
  note P = M.put_law [OF this assms(3)]
  obtain m0 where m0: "versions s0 (manifest_key m) = Some m0" "migrated pieces w0 m0 (mv_World st) m" using assms(2) by (auto simp: page_ok_def)
  then have "dom (versions s) = dom (versions s0)" using P assms(1) by (auto simp: pass_ok_def)
  then show ?thesis using assms(1) P m0 unfolding pass_ok_def keyed_def by (auto split: if_splits)
qed

lemma pass_world:
  assumes "pass_ok s0 w0 st" and "world_ok provs pinv (mv_World st')" and "ids_name_bytes pieces (mv_World st')"
    and "grows pieces (mv_World st) (mv_World st')" and "mv_Manifests st' = mv_Manifests st"
  shows "pass_ok s0 w0 st'"
  using assms grows_trans [of pieces w0 "mv_World st" "mv_World st'"] migrated_grows [of pieces w0 _ "mv_World st" _ "mv_World st'"]
  unfolding pass_ok_def by (metis (no_types, lifting))

lemma page_grows: "page_ok s0 w0 w m \<Longrightarrow> grows pieces w w' \<Longrightarrow> page_ok s0 w0 w' m"
  unfolding page_ok_def using migrated_grows by blast

lemma rebalanceManifest_ok:
  assumes "provs (tt_SourceBackend tgt) = Some source" and "provs (tt_PrimaryBackend tgt) = Some primary" and "rb_Manifests cfg = ops"
    and "pass_ok s0 w0 st" and "page_ok s0 w0 (mv_World st) m"
    and "rebalanceManifest cfg tgt source primary m st = (e, n, b, m', st')"
  shows "pass_ok s0 w0 st' \<and> page_ok s0 w0 (mv_World st') m' \<and> grows pieces (mv_World st) (mv_World st')"
proof -
  obtain e1 ps st1 where c: "copy_pieces cfg tgt source primary (m_Pieces m) st = (e1, n, b, ps, st1)"
      and m': "m' = m\<lparr>m_Pieces := ps\<rparr>" and st': "st' = st1 \<or> (\<exists>s. op_Put ops (manifest_key m') m' (mv_Manifests st1) = Inr s \<and> st' = st1\<lparr>mv_Manifests := s\<rparr>)"
    using assms(3,6) by (auto simp: rebalanceManifest_def Let_def split: prod.splits option.splits if_splits sum.splits)
  have "world_ok provs pinv (mv_World st)" "ids_name_bytes pieces (mv_World st)" using assms(4) by (simp_all add: pass_ok_def)
  note C = copy_pieces_keeps [OF assms(1,2) this c]
  have pass: "pass_ok s0 w0 st1" using pass_world [OF assms(4)] C by blast
  have page: "page_ok s0 w0 (mv_World st1) m'"
    using assms(5) C migrated_pieces [of pieces w0 _ "mv_World st" m "mv_World st1" ps] unfolding page_ok_def m' by (auto simp: manifest_key_def)
  from st' show ?thesis
  proof (elim disjE exE conjE)
    fix s assume "op_Put ops (manifest_key m') m' (mv_Manifests st1) = Inr s" "st' = st1\<lparr>mv_Manifests := s\<rparr>"
    with pass_put [OF pass page] page C show ?thesis by simp
  qed (use pass page C in simp)
qed

lemma advancePhase_ok:
  assumes "rb_Manifests cfg = ops" and "pass_ok s0 w0 st" and "page_ok s0 w0 (mv_World st) m" and "advancePhase cfg tgt m st = (r, st')"
  shows "pass_ok s0 w0 st' \<and> mv_World st' = mv_World st"
proof -
  have "st' = st \<or> (\<exists>q s. nextPhase (phaseOf m) = Some q \<and> ValidateTransition (phaseOf m) q = Inr () \<and>
      op_Put ops (manifest_key (applyPhase q m)) (applyPhase q m) (mv_Manifests st) = Inr s \<and> st' = st\<lparr>mv_Manifests := s\<rparr>)"
  proof (cases "list_ex (\<lambda>p. p_Backend p \<noteq> tt_PrimaryBackend tgt) (m_Pieces m)")
    case False
    show ?thesis
    proof (cases "nextPhase (phaseOf m)")
      case (Some q)
      note F = assms(4) [unfolded advancePhase_def, simplified if_not_P [OF False] Some option.case Let_def assms(1)]
      then show ?thesis
        by (cases "ValidateTransition (phaseOf m) q"; cases "op_Put ops (manifest_key (applyPhase q m)) (applyPhase q m) (mv_Manifests st)") (auto simp: Some)
    qed (use assms(4) False in \<open>simp add: advancePhase_def\<close>)
  qed (use assms(4) in \<open>simp add: advancePhase_def\<close>)
  then consider "st' = st"
    | q s where "nextPhase (phaseOf m) = Some q" "ValidateTransition (phaseOf m) q = Inr ()"
        "op_Put ops (manifest_key (applyPhase q m)) (applyPhase q m) (mv_Manifests st) = Inr s" "st' = st\<lparr>mv_Manifests := s\<rparr>"
    by blast
  then show ?thesis
  proof cases
    case (2 q s)
    then have "page_ok s0 w0 (mv_World st) (applyPhase q m)"
      using assms(3) migrated_advance [of pieces w0 _ "mv_World st" m q] unfolding page_ok_def by (auto simp: applyPhase_simps)
    from pass_put [OF assms(2) this 2(3)] 2(4) show ?thesis by simp
  qed (use assms(2) in simp)
qed

lemma handle_manifest_ok:
  assumes "provs (tt_SourceBackend tgt) = Some source" and "provs (tt_PrimaryBackend tgt) = Some primary" and "rb_Manifests cfg = ops"
    and "pass_ok s0 w0 (snd acc)" and "page_ok s0 w0 (mv_World (snd acc)) m"
  shows "pass_ok s0 w0 (snd (handle_manifest cfg tgt source primary m acc)) \<and>
    grows pieces (mv_World (snd acc)) (mv_World (snd (handle_manifest cfg tgt source primary m acc)))"
proof -
  obtain stats st where acc: "acc = (stats, st)" by (cases acc)
  obtain e n b m' st1 where r: "rebalanceManifest cfg tgt source primary m st = (e, n, b, m', st1)" by (metis prod_cases5)
  obtain x st2 where a: "advancePhase cfg tgt m' st1 = (x, st2)" by (metis prod.exhaust)
  note R = rebalanceManifest_ok [OF assms(1-3) _ _ r, of s0 w0] and A = advancePhase_ok [OF assms(3) _ _ a, of s0 w0]
  have "snd (handle_manifest cfg tgt source primary m acc) \<in> {st, st1, st2}"
    by (auto simp: handle_manifest_def acc r a Let_def split: option.splits sum.splits)
  then show ?thesis using R A assms(4,5) by (auto simp: acc)
qed

lemma page_fold_ok:
  assumes "provs (tt_SourceBackend tgt) = Some source" and "provs (tt_PrimaryBackend tgt) = Some primary" and "rb_Manifests cfg = ops"
    and "pass_ok s0 w0 (snd acc)" and "\<forall>m\<in>set ms. page_ok s0 w0 (mv_World (snd acc)) m"
  shows "pass_ok s0 w0 (snd (fold (handle_manifest cfg tgt source primary) ms acc))"
  using assms(4,5)
proof (induction ms arbitrary: acc)
  case (Cons m ms)
  then have "page_ok s0 w0 (mv_World (snd acc)) m" by simp
  note H = handle_manifest_ok [OF assms(1-3) Cons.prems(1) this]
  have "\<forall>m\<in>set ms. page_ok s0 w0 (mv_World (snd (handle_manifest cfg tgt source primary m' acc))) m" if "m' = m" for m'
    using Cons.prems(2) H that page_grows by auto
  with Cons.IH H show ?case by simp
qed simp

lemma target_pages_ok:
  assumes "provs (tt_SourceBackend tgt) = Some source" and "provs (tt_PrimaryBackend tgt) = Some primary" and "rb_Manifests cfg = ops"
    and "pass_ok s0 w0 (snd acc)"
  shows "pass_ok s0 w0 (snd (snd (target_pages pages cfg tgt source primary cursor acc)))"
  using assms(4)
proof (induction pages arbitrary: cursor acc)
  case (Suc pages)
  let ?s = "mv_Manifests (snd acc)"
  show ?case
  proof (cases "op_List ops (tt_TenantID tgt) (tt_Bucket tgt) cursor (rb_PageSize cfg) ?s")
    case (Inr page)
    have "page_ok s0 w0 (mv_World (snd acc)) m" if mem: "m \<in> set (lr_Manifests page)" for m
    proof -
      obtain k where k: "versions ?s k = Some m" using M.list_law [OF _ Inr mem] Suc.prems by (auto simp: pass_ok_def)
      then have "manifest_key m = k" "k \<in> dom (versions s0)" using Suc.prems by (auto simp: pass_ok_def keyed_def)
      with k Suc.prems show ?thesis unfolding page_ok_def pass_ok_def by blast
    qed
    then have "pass_ok s0 w0 (snd (fold (handle_manifest cfg tgt source primary) (lr_Manifests page) acc))"
      by (intro page_fold_ok [OF assms(1-3) Suc.prems]) blast
    with Suc.IH Inr assms(3) show ?thesis by (simp add: Let_def)
  qed (use Suc.prems assms(3) in simp)
qed simp

lemma pass_poll: "pass_ok s0 w0 st \<Longrightarrow> pass_ok s0 w0 (st\<lparr>mv_polls := n\<rparr>)"
  by (simp add: pass_ok_def)

lemma run_targets_ok:
  assumes "rb_Manifests cfg = ops" and "rb_Providers cfg = provs" and "pass_ok s0 w0 st"
  shows "pass_ok s0 w0 (snd (snd (run_targets pages cfg tgts (stats, st))))"
  using assms(3)
proof (induction tgts arbitrary: stats st)
  case (Cons tgt tgts)
  obtain x st1 where p: "poll (rb_ctx cfg) st = (x, st1)" by (metis prod.exhaust)
  then have st1: "pass_ok s0 w0 st1" using pass_poll [OF Cons.prems] by (auto simp: poll_def)
  obtain e s st2 where r: "runTarget pages cfg tgt st1 = (e, s, st2)" by (metis prod_cases3)
  have "pass_ok s0 w0 st2"
    using r st1 assms(2) target_pages_ok [OF _ _ assms(1), of tgt _ _ s0 w0 "(zero_RebalanceStats, st1)" pages "[]"]
    by (auto simp: runTarget_def split: option.splits) (metis snd_conv)
  with st1 Cons.IH show ?case by (cases x; cases e) (simp_all add: p r)
qed simp

end

text \<open>The in-memory store over backends that are local directories.\<close>

definition local_world :: "string list \<Rightarrow> LocalFS backends" where
  "local_world names b = (if b \<in> set names then Some local_provider else None)"

interpretation local_moves: moving mem_ops mem_inv mem_versions mem_current "local_world names" local_inv local_pieces for names
proof (intro moving.intro moving_axioms.intro mem_listed.listed_store_axioms)
  show "storage_provider pv local_inv local_pieces" if "local_world names b = Some pv" for b pv
    using that by (simp add: local_world_def local_fs.storage_provider_axioms split: if_splits)
  show "local_pieces p' i \<in> {local_pieces p i, Some d}"
    if "local_world names b = Some pv" "sp_PutPiece pv i d opts p = (Inl e, p')" for b pv p i d opts e p'
    using that by (auto simp: local_world_def local_provider_def Local_PutPiece_def split: if_splits sum.splits)
qed

section \<open>Properties of the rebalancer\<close>

text \<open>
  C5: a rebalancing pass loses nothing.  Over a store and backends that keep their contracts, with piece identifiers
  that name the same bytes wherever they are stored, a pass -- stopped anywhere, its copies failing,
  its context cancelled -- leaves every version of every object in the store, no other, and
  each piece of a version reads the bytes it read before from the backend that the manifest now names; the phase of a version has
  moved along validated transitions only.
\<close>

theorem rebalance_keeps_bytes:
  assumes "moving (rb_Manifests cfg) minv versions current (rb_Providers cfg) pinv pieces"
    and "minv (mv_Manifests st)" and "world_ok (rb_Providers cfg) pinv (mv_World st)"
    and "ids_name_bytes pieces (mv_World st)" and "keyed (versions (mv_Manifests st))"
    and "Rebalancer_Run pages cfg st = (e, stats, st')"
  shows "dom (versions (mv_Manifests st')) = dom (versions (mv_Manifests st)) \<and>
    (\<forall>k m m'. versions (mv_Manifests st) k = Some m \<longrightarrow> versions (mv_Manifests st') k = Some m' \<longrightarrow>
       keeps_bytes pieces (mv_World st) (m_Pieces m) (mv_World st') (m_Pieces m') \<and> phase_history (phaseOf m) (phaseOf m'))"
proof -
  note M = assms(1)
  have "moving.pass_ok minv versions (rb_Providers cfg) pinv pieces (mv_Manifests st) (mv_World st) st"
    using assms(2-5) by (auto simp: moving.pass_ok_def [OF M] migrated_refl)
  from moving.run_targets_ok [OF M refl refl this, of pages "rb_Targets cfg" zero_RebalanceStats] assms(6)
  show ?thesis by (auto simp: Rebalancer_Run_def moving.pass_ok_def [OF M] migrated_def)
qed

text \<open>An object in its dual-write phase whose piece is still on the source.\<close>

definition demo_piece :: "string \<Rightarrow> string \<Rightarrow> Piece" where
  "demo_piece b i = \<lparr>p_PieceID = i, p_Hash = [], p_Backend = b, p_Locator = [], p_State = [], p_ProviderETag = [], p_PartNumber = 0,
     p_SizeBytes = 2, p_StripeIndex = 0, p_ShardIndex = 0, p_ShardKind = []\<rparr>"

definition demo_moving :: ObjectManifest where
  "demo_moving = set_phase 2 ''wasabi'' (zero_ObjectManifest\<lparr>m_TenantID := ''t'', m_Bucket := ''b'', m_ObjectKeyHash := ''h'', m_VersionID := ''v'',
     m_Pieces := [demo_piece ''wasabi'' ''p1'']\<rparr>)"

definition demo_rebalancer :: "(MemStore, LocalFS) RebalancerConfig" where
  "demo_rebalancer = \<lparr>rb_Manifests = mem_ops, rb_Providers = local_world [''wasabi'', ''cell''],
     rb_Targets = [\<lparr>tt_TenantID = ''t'', tt_Bucket = ''b'', tt_SourceBackend = ''wasabi'', tt_PrimaryBackend = ''cell''\<rparr>],
     rb_BytesPerSecond = 0, rb_PageSize = 10, rb_delay = (\<lambda>_ _. 0), rb_ctx = (\<lambda>_. None)\<rparr>"

definition demo_wasabi :: LocalFS where
  "demo_wasabi = snd (Local_PutPiece ''p1'' [7, 8] (move_options [7, 8]) empty_fs)"

definition demo_move_state :: "(MemStore, LocalFS) MoveState" where
  "demo_move_state = \<lparr>mv_Manifests = mem_put_all [(manifest_key demo_moving, demo_moving)] NewMemStore,
     mv_World = (\<lambda>b. if b = ''wasabi'' then demo_wasabi else empty_fs), mv_polls = 0\<rparr>"

lemma demo_move_state_ok:
  "mem_inv (mv_Manifests demo_move_state)" "world_ok (rb_Providers demo_rebalancer) local_inv (mv_World demo_move_state)"
  "ids_name_bytes local_pieces (mv_World demo_move_state)" "keyed (mem_versions (mv_Manifests demo_move_state))"
proof -
  show "mem_inv (mv_Manifests demo_move_state)" by (simp add: demo_move_state_def mem_inv_put_all mem_inv_New)
  have "local_inv demo_wasabi"
    unfolding demo_wasabi_def by (simp add: Local_PutPiece_def validatePieceID_def local_inv_def empty_fs_def store_simps sidecar_def move_options_def)
  moreover have "local_inv empty_fs" by (simp add: local_inv_def empty_fs_def store_simps)
  ultimately show "world_ok (rb_Providers demo_rebalancer) local_inv (mv_World demo_move_state)"
    by (simp add: world_ok_def demo_move_state_def)
  show "ids_name_bytes local_pieces (mv_World demo_move_state)"
    by (auto simp: ids_name_bytes_def demo_move_state_def local_pieces_def empty_fs_def store_simps)
  show "keyed (mem_versions (mv_Manifests demo_move_state))"
    by (auto simp: keyed_def mem_versions_def demo_move_state_def mem_put_all_def Mem_Put_def NewMemStore_def store_simps split: if_splits)
qed

theorem rebalance_keeps_bytes_witness:
  "\<exists>m'. mem_versions (mv_Manifests (snd (snd (Rebalancer_Run 1 demo_rebalancer demo_move_state)))) (manifest_key demo_moving) = Some m' \<and>
     keeps_bytes local_pieces (mv_World demo_move_state) (m_Pieces demo_moving)
       (mv_World (snd (snd (Rebalancer_Run 1 demo_rebalancer demo_move_state)))) (m_Pieces m')"
proof -
  obtain e stats st' where r: "Rebalancer_Run 1 demo_rebalancer demo_move_state = (e, stats, st')" by (metis prod_cases3)
  have "moving (rb_Manifests demo_rebalancer) mem_inv mem_versions mem_current (rb_Providers demo_rebalancer) local_inv local_pieces"
    by (simp add: demo_rebalancer_def local_moves.moving_axioms)
  note K = rebalance_keeps_bytes [OF this demo_move_state_ok r]
  have old: "mem_versions (mv_Manifests demo_move_state) (manifest_key demo_moving) = Some demo_moving"
    by (simp add: mem_versions_def demo_move_state_def mem_put_all_def Mem_Put_def NewMemStore_def store_simps)
  with K obtain m' where "mem_versions (mv_Manifests st') (manifest_key demo_moving) = Some m'" by blast
  with K old show ?thesis unfolding r snd_conv by blast
qed

text \<open>The pass moves the piece and advances the phase.\<close>

lemma demo_rebalance:
  "case Rebalancer_Run 1 demo_rebalancer demo_move_state of
     (e, stats, st') \<Rightarrow> e = PassDone \<and> rbs_PiecesCopied stats = 1 \<and> rbs_BytesCopied stats = 2 \<and> rbs_PhasesAdvanced stats = 1 \<and>
       map_option (\<lambda>m. (map p_Backend (m_Pieces m), phaseOf m)) (mem_versions (mv_Manifests st') (manifest_key demo_moving))
         = Some ([''cell''], LocalPrimaryWasabiBackup)"
  by code_simp

section \<open>The cross-cell replicator\<close>

text \<open>
  A cell is a manifest store and a provider.  The comparison of the two stores for identity is a flag of the
  replicator; with a shared store nothing is written to it.
\<close>

record ('m, 'n, 'p, 'q) Replicator =
  xr_SourceID :: string
  xr_DestID :: string
  xr_SourceManifests :: "'m ManifestStore"
  xr_DestManifests :: "'n ManifestStore"
  xr_SourceProvider :: "'p StorageProvider"
  xr_DestProvider :: "'q StorageProvider"
  xr_shared :: bool
  xr_Scope :: "(string \<times> string) list"
  xr_PageSize :: int
  xr_ctx :: "nat \<Rightarrow> bool"

record ('m, 'n, 'p, 'q) ReplState =
  xs_SourceManifests :: 'm
  xs_DestManifests :: 'n
  xs_Source :: 'p
  xs_Dest :: 'q
  xs_copied :: int
  xs_polls :: nat

definition cloneManifestForReplica :: "string \<Rightarrow> ObjectManifest \<Rightarrow> ObjectManifest" where
  "cloneManifestForReplica destCellID m = m\<lparr>m_Pieces := map (\<lambda>p. p\<lparr>p_Backend := destCellID\<rparr>) (m_Pieces m)\<rparr>"

definition copyPiece :: "('m, 'n, 'p, 'q) Replicator \<Rightarrow> Piece \<Rightarrow> ('m, 'n, 'p, 'q) ReplState \<Rightarrow> bool \<times> ('m, 'n, 'p, 'q) ReplState" where
  "copyPiece r p st =
    (case sp_GetPiece (xr_SourceProvider r) (p_PieceID p) None (xs_Source st) of
       Inl _ \<Rightarrow> (False, st)
     | Inr body \<Rightarrow>
         (case sp_PutPiece (xr_DestProvider r) (p_PieceID p) body
                 \<lparr>po_ContentLength = 0, po_ContentType = [], po_StorageClass = [], po_IfNoneMatch = False\<rparr> (xs_Dest st) of
            (res, q) \<Rightarrow> (is_ok res, st\<lparr>xs_Dest := q\<rparr>)))"

fun copy_all :: "('m, 'n, 'p, 'q) Replicator \<Rightarrow> Piece list \<Rightarrow> ('m, 'n, 'p, 'q) ReplState \<Rightarrow> bool \<times> ('m, 'n, 'p, 'q) ReplState" where
  "copy_all r [] st = (True, st)"
| "copy_all r (p # ps) st =
    (if p_Backend p = xr_DestID r then copy_all r ps st
     else (case copyPiece r p st of
         (False, st1) \<Rightarrow> (False, st1)
       | (True, st1) \<Rightarrow> copy_all r ps (st1\<lparr>xs_copied := xs_copied st1 + 1\<rparr>)))"

definition replicateOne :: "('m, 'n, 'p, 'q) Replicator \<Rightarrow> ObjectManifest \<Rightarrow> ('m, 'n, 'p, 'q) ReplState \<Rightarrow> bool \<times> ('m, 'n, 'p, 'q) ReplState" where
  "replicateOne r m st =
    (let replica = cloneManifestForReplica (xr_DestID r) m in
     case copy_all r (m_Pieces m) st of
       (False, st1) \<Rightarrow> (False, st1)
     | (True, st1) \<Rightarrow>
         if xr_shared r then (True, st1)
         else (case op_Put (xr_DestManifests r) (manifest_key replica) replica (xs_DestManifests st1) of
                 Inl _ \<Rightarrow> (False, st1)
               | Inr s \<Rightarrow> (True, st1\<lparr>xs_DestManifests := s\<rparr>)))"

definition replicates :: "('m, 'n, 'p, 'q) Replicator \<Rightarrow> ObjectManifest \<Rightarrow> bool" where
  "replicates r m =
    (case pp_ReplicationPolicy (m_PlacementPolicy m) of
       None \<Rightarrow> False
     | Some pol \<Rightarrow> rp_Mode pol = ''async'' \<and> (rp_SourceCell pol = [] \<or> rp_SourceCell pol = xr_SourceID r) \<and>
         (rp_DestCell pol = [] \<or> rp_DestCell pol = xr_DestID r))"

text \<open>The loop over a page; it ends the scan when the context is cancelled.\<close>

fun scan_page :: "('m, 'n, 'p, 'q) Replicator \<Rightarrow> ObjectManifest list \<Rightarrow> ('m, 'n, 'p, 'q) ReplState \<Rightarrow> bool \<times> ('m, 'n, 'p, 'q) ReplState" where
  "scan_page r [] st = (True, st)"
| "scan_page r (m # ms) st =
    (let st1 = st\<lparr>xs_polls := Suc (xs_polls st)\<rparr> in
     if xr_ctx r (xs_polls st) then (False, st1)
     else if \<not> replicates r m then scan_page r ms st1
     else scan_page r ms (snd (replicateOne r m st1)))"

fun scanScope :: "nat \<Rightarrow> ('m, 'n, 'p, 'q) Replicator \<Rightarrow> string \<times> string \<Rightarrow> string \<Rightarrow> ('m, 'n, 'p, 'q) ReplState \<Rightarrow> ('m, 'n, 'p, 'q) ReplState" where
  "scanScope 0 r sk cursor st = st"
| "scanScope (Suc pages) r sk cursor st =
    (let st1 = st\<lparr>xs_polls := Suc (xs_polls st)\<rparr> in
     if xr_ctx r (xs_polls st) then st1
     else (case op_List (xr_SourceManifests r) (fst sk) (snd sk) cursor (xr_PageSize r) (xs_SourceManifests st1) of
         Inl _ \<Rightarrow> st1
       | Inr page \<Rightarrow>
           (case scan_page r (lr_Manifests page) st1 of
              (False, st2) \<Rightarrow> st2
            | (True, st2) \<Rightarrow> if lr_NextCursor page = [] then st2 else scanScope pages r sk (lr_NextCursor page) st2)))"

fun tick :: "nat \<Rightarrow> ('m, 'n, 'p, 'q) Replicator \<Rightarrow> (string \<times> string) list \<Rightarrow> ('m, 'n, 'p, 'q) ReplState \<Rightarrow> ('m, 'n, 'p, 'q) ReplState" where
  "tick pages r [] st = st"
| "tick pages r (sk # sks) st =
    (let st1 = st\<lparr>xs_polls := Suc (xs_polls st)\<rparr> in
     if xr_ctx r (xs_polls st) then st1 else tick pages r sks (scanScope pages r sk [] st1))"

section \<open>What a replica holds\<close>

locale replication = D: manifest_store dops dinv dversions dcurrent + P: storage_provider sprov sinv spieces + Q: storage_provider dprov qinv qpieces
  for dops :: "'n ManifestStore" and dinv dversions dcurrent
    and sprov :: "'p StorageProvider" and sinv spieces
    and dprov :: "'q StorageProvider" and qinv qpieces
begin

lemma copy_all_mirrors:
  assumes "xr_SourceProvider r = sprov" and "xr_DestProvider r = dprov" and "sinv (xs_Source st)" and "qinv (xs_Dest st)"
    and "copy_all r ps st = (True, st')"
  shows "qinv (xs_Dest st') \<and> xs_Source st' = xs_Source st \<and> xs_DestManifests st' = xs_DestManifests st \<and>
    xs_SourceManifests st' = xs_SourceManifests st \<and>
    (\<forall>i. qpieces (xs_Dest st') i = qpieces (xs_Dest st) i \<or> (\<exists>d. spieces (xs_Source st) i = Some d \<and> qpieces (xs_Dest st') i = Some d)) \<and>
    (\<forall>p\<in>set ps. p_Backend p \<noteq> xr_DestID r \<longrightarrow> (\<exists>d. spieces (xs_Source st) (p_PieceID p) = Some d \<and> qpieces (xs_Dest st') (p_PieceID p) = Some d))"
  using assms(3-5)
proof (induction ps arbitrary: st)
  case (Cons p ps)
  show ?case
  proof (cases "p_Backend p = xr_DestID r")
    case True
    with Cons show ?thesis by simp
  next
    case False
    let ?i = "p_PieceID p"
    obtain st1 where c: "copyPiece r p st = (True, st1)" and rest: "copy_all r ps (st1\<lparr>xs_copied := xs_copied st1 + 1\<rparr>) = (True, st')"
      using Cons.prems(3) False by (auto split: prod.splits bool.splits)
    then obtain body res q opts where g: "sp_GetPiece sprov ?i None (xs_Source st) = Inr body"
        and p: "sp_PutPiece dprov ?i body opts (xs_Dest st) = (Inr res, q)" and st1: "st1 = st\<lparr>xs_Dest := q\<rparr>"
      by (auto simp: copyPiece_def assms(1,2) is_ok_def split: sum.splits prod.splits)
    note src = P.get_ok [OF Cons.prems(1) g] and dst = Q.put_ok [OF Cons.prems(2) p]
    from Cons.IH [OF _ _ rest] Cons.prems(1) dst
    have IH: "qinv (xs_Dest st')" "xs_Source st' = xs_Source st" "xs_DestManifests st' = xs_DestManifests st"
        "xs_SourceManifests st' = xs_SourceManifests st"
        "\<And>i. qpieces (xs_Dest st') i = qpieces q i \<or> (\<exists>d. spieces (xs_Source st) i = Some d \<and> qpieces (xs_Dest st') i = Some d)"
        "\<forall>p\<in>set ps. p_Backend p \<noteq> xr_DestID r \<longrightarrow> (\<exists>d. spieces (xs_Source st) (p_PieceID p) = Some d \<and> qpieces (xs_Dest st') (p_PieceID p) = Some d)"
      by (simp_all add: st1)
    have "\<exists>d. spieces (xs_Source st) ?i = Some d \<and> qpieces (xs_Dest st') ?i = Some d" using IH(5) [of ?i] src dst by auto
    moreover have "qpieces (xs_Dest st') i = qpieces (xs_Dest st) i \<or> (\<exists>d. spieces (xs_Source st) i = Some d \<and> qpieces (xs_Dest st') i = Some d)" for i
      using IH(5) [of i] src dst by (cases "i = ?i") auto
    ultimately show ?thesis using IH by simp
  qed
qed simp

lemma replicateOne_mirrors:
  assumes "xr_SourceProvider r = sprov" and "xr_DestProvider r = dprov" and "xr_DestManifests r = dops" and "\<not> xr_shared r"
    and "sinv (xs_Source st)" and "qinv (xs_Dest st)" and "dinv (xs_DestManifests st)" and "replicateOne r m st = (True, st')"
  shows "dversions (xs_DestManifests st') (manifest_key m) = Some (cloneManifestForReplica (xr_DestID r) m) \<and>
    dcurrent (xs_DestManifests st') (lk_of (manifest_key m)) = Some (manifest_key m) \<and> xs_SourceManifests st' = xs_SourceManifests st \<and>
    (\<forall>p\<in>set (m_Pieces m). p_Backend p \<noteq> xr_DestID r \<longrightarrow> (\<exists>d. spieces (xs_Source st) (p_PieceID p) = Some d \<and> qpieces (xs_Dest st') (p_PieceID p) = Some d))"
proof -
  let ?rep = "cloneManifestForReplica (xr_DestID r) m"
  have key: "manifest_key ?rep = manifest_key m" by (simp add: manifest_key_def cloneManifestForReplica_def)
  obtain st1 s where c: "copy_all r (m_Pieces m) st = (True, st1)" and p: "op_Put dops (manifest_key m) ?rep (xs_DestManifests st1) = Inr s"
      and st': "st' = st1\<lparr>xs_DestManifests := s\<rparr>"
    using assms(3,4,8) key by (auto simp: replicateOne_def Let_def split: prod.splits bool.splits sum.splits)
  note C = copy_all_mirrors [OF assms(1,2,5,6) c]
  have "dinv (xs_DestManifests st1)" using C assms(7) by simp
  from D.put_law [OF this p] C show ?thesis by (simp add: st')
qed

end

interpretation local_replica: replication mem_ops mem_inv mem_versions mem_current local_provider local_inv local_pieces local_provider local_inv local_pieces ..

end
