(* ===== verification/Spec2Isabelle.thy ===== *)
theory Spec2Isabelle
  imports Erasure_Coding Manifest_Store Object_Lock Storage_Provider Content_Index Bucket_Config Client_SDK S3_Multipart_Hazards Migration_Fleet Rebalancer
begin

text \<open>
  A verification development for ZK Object Fabric, an S3-compatible object gateway
  written in Go (paths below are relative to \<open>src/\<close>).

  \<^bold>\<open>The program.\<close>  A request reaches a handler of \<open>api/s3compat\<close>.  A write seals the body
  with the encryption SDK (\<open>encryption/client_sdk\<close>) when the gateway holds the keys, splits
  it with the erasure coder (\<open>metadata/erasure_coding\<close>) when the placement policy asks for
  it, or looks its content up in the content index (\<open>metadata/content_index\<close>) when the tenant
  deduplicates; it puts the pieces on a storage provider (\<open>providers\<close>) and records them in a
  manifest (\<open>metadata/manifest.go\<close>) in the manifest store (\<open>metadata/manifest_store\<close>).  A read
  resolves the manifest, takes the pieces from the cache (\<open>cache/hot_object_cache\<close>) or the
  provider, checks them and opens them.  Workers run beside the handlers: the orphan
  collector, the fleet of migration nodes, the rebalancer and the replicator (\<open>migration\<close>).

  \<^bold>\<open>Conventions.\<close>  A Go struct is a record, its fields prefixed per struct; a Go interface is a
  record of operations over a type of states, so that its clients are defined once for every
  implementation.  A locale states the contract of such an interface, over an abstract view of
  the state, and is interpreted on the implementation of the repository.  A Go map is an
  association list read through \<open>gm_get\<close>, \<open>gm_set\<close> and \<open>gm_del\<close>; a call that can fail returns
  a sum with the error on the left; bytes are 8-bit words; 64-bit arithmetic is at its width
  where it can wrap (size prediction, the length header of the erasure coder).  The clock and
  the random source are inputs: a request carries the readings and the buffers it will get.

  \<^bold>\<open>Theories.\<close>

  \<^item> \<open>Fabric_Prelude\<close>: Go values, finite maps, the collections \<open>store_simps\<close> and \<open>inv_intros\<close>.
    \<open>Go_Binary\<close>, \<open>Go_Strings\<close>, \<open>Go_Time\<close>, \<open>Go_Crypto\<close> (SHA-256, hex), \<open>Go_MD5\<close> and \<open>HTTP_Time\<close>:
    what the sources use of the Go standard library.  \<open>Pagination\<close>: the locale \<open>keyset_pager\<close>;
    draining the pages of a listing yields its rows.
  \<^item> \<open>Manifest\<close>, \<open>Manifest_Store\<close> (\<open>manifest_store/store.go\<close>, \<open>memory/store.go\<close>): the contract
    \<open>manifest_store\<close>; what is written is read back, the current version is the newest, listings
    and scans visit everything once.
  \<^item> \<open>Storage_Provider\<close> (\<open>provider.go\<close>, \<open>local_fs_dev/local.go\<close>, \<open>dual_write/dual_write.go\<close>): the
    contract \<open>storage_provider\<close>, kept by the local provider; reads through the dual-write shim.
  \<^item> \<open>Content_Index\<close> (\<open>store.go\<close>, \<open>memory_store.go\<close>, \<open>orphan_gc.go\<close>): reference counts and the
    sweep, which keeps every piece a manifest of the tenant names.
  \<^item> \<open>Erasure_Coding\<close> (\<open>profile.go\<close>, \<open>encoder.go\<close>, \<open>registry.go\<close>): striping, framing and exactly when
    decoding recovers the object.
  \<^item> \<open>Client_SDK\<close> (\<open>sdk.go\<close>, \<open>keygen.go\<close>, \<open>wrap.go\<close>): sealing in chunks; opening inverts it and accepts
    only what was sealed frame by frame; the predicted size is exact; key wrapping.
  \<^item> \<open>Object_Lock\<close>, \<open>Bucket_Rules\<close> (CORS, lifecycle, default encryption, notification rules) and
    \<open>Bucket_Config\<close> (the in-memory configuration store): validation, matching, dates, and that the
    last valid write to a bucket is the one read.
  \<^item> \<open>S3_Request\<close>, \<open>S3_Encryption\<close> (\<open>encryption_pipeline.go\<close>), \<open>S3_Gateway\<close> (PUT, DELETE, retention and
    legal hold of \<open>handler.go\<close>, \<open>dedup.go\<close>, \<open>erasure_coding.go\<close>, \<open>object_lock_handler.go\<close>): the write
    handlers with every guard and error branch.
  \<^item> \<open>S3_Safety\<close> and \<open>S3_History\<close>: the locale \<open>s3_gateway\<close>, the invariant over manifests, index rows
    and pieces, and its preservation along \<open>s3_history\<close>, the step relation of PUT, DELETE,
    retention and legal-hold requests handled one after the other.
  \<^item> \<open>Hot_Cache\<close>, \<open>S3_Read\<close>, \<open>S3_Read_Correct\<close>, \<open>S3_Round_Trip\<close> (\<open>memory_cache.go\<close>, GET and HEAD,
    \<open>range_multipart.go\<close>, \<open>lazy_read_repair/repair.go\<close>): the byte budget of the cache, that only
    verified bytes are sent, that HEAD agrees with GET, and that a PUT is read back.
  \<^item> \<open>Multipart_Store\<close>, \<open>S3_Multipart\<close>, \<open>S3_Multipart_Correct\<close>, \<open>S3_Multipart_Hazards\<close>
    (\<open>multipart/store.go\<close>, \<open>multipart_handler.go\<close>, \<open>multipart_metadata.go\<close>): upload sessions; an
    object uploaded in parts is read back as their concatenation; two orders of events that
    damage an object.
  \<^item> \<open>Migration_Jobs\<close>, \<open>Migration_Fleet\<close> (\<open>state.go\<close>, \<open>jobstore.go\<close>, \<open>fleet_orchestrator.go\<close>): the job
    store refines a machine with one lease per job; claims are exclusive, limits are kept, an
    idle fleet drains its queue, and a crashed claim blocks its cell.
  \<^item> \<open>Rebalancer\<close> (\<open>background_rebalancer/rebalancer.go\<close>, \<open>cross_cell/replicator.go\<close>): a pass that
    stops or fails anywhere keeps every version and its bytes.

  \<^bold>\<open>Parameters and what is assumed of them.\<close>  Code outside the repository is an argument:
  the Reed-Solomon codec (\<open>rs_codec_laws\<close>), XChaCha20-Poly1305 and HKDF (\<open>crypto_laws\<close>, in which
  opening accepts nothing but a sealed text: authenticity as a law, without probabilities),
  and BLAKE3, an arbitrary function of which nothing is assumed.  The key wrapper is assumed
  to satisfy \<open>wrapper_laws\<close>; the local-file wrapper is shown to.  Four services of the
  repository are also functions of the record \<open>Config\<close>, arbitrary ones: authentication,
  placement, the residency check and the lookup of legal holds.  The two floating-point
  computations inside modelled code, the size of the hot region and the throttle's delay,
  are parameters.

  \<^bold>\<open>Scope of the main theorems.\<close>  A history handles each request to its end before the next
  starts, and each request draws identifiers not in use; multipart requests, workers and
  concurrent handlers are not steps of it.  The interleaving of a part upload with a
  completion is treated on its own, and there the bytes of an object can be lost.  The round
  trips assume that the store and the provider answer the read; the one for parts is for at
  least two parts, without deduplication, up to the 256 MiB a read assembles in memory.  The
  theorem on verified bytes is for objects the gateway did not encrypt, within the memory
  ceiling and the warming budget.  Draining of the job queue starts with no claim
  outstanding.

  \<^bold>\<open>Loops and fuel.\<close>  Recursion is structural or has a termination proof, with these
  exceptions.  The encrypting reader's drain is a \<open>partial_function\<close> and is shown to return
  always.  Draining of listings and scans takes fuel, and any fuel above the number of stored
  rows is shown to suffice.  The splitting into blocks of the digests and the month of a date
  take fuel that their callers set to the length of the data and to the eleven steps from January to December.
  The rebalancer and the replicator are indexed by the number of pages they may still ask
  for, and what is shown of them holds for every such number.

  \<^bold>\<open>Not modelled.\<close>  The SQL stores, the disk cache, the remote providers and key services
  (clients of other systems: that they keep the contracts is not shown); the AWS signature
  scheme, the placement engine, the residency check and the legal-hold store (functions of
  \<open>Config\<close>, see above); rate limits and abuse protection; CopyObject, ListObjectVersions and the
  bucket listings, the handlers of the bucket documents, XML and JSON; the lifecycle
  evaluator, the repair queue and the re-encryption of older objects; billing, notification
  delivery and audit stores beyond the log of events; the console, the configuration, node
  health, observability, operator tools and test harnesses.  Of the modelled parts,
  backends that fail in the middle of a body, failing system calls of the local provider, and
  the scrubbing of keys in memory have no counterpart.
\<close>

end
